(* ===== verification/JsPrelude.thy ===== *)
theory JsPrelude
  imports Main "HOL-Library.Sublist"
begin

text \<open>
  What the modelled TypeScript uses of the JavaScript language and of lodash, shared by every
  component.

  A JavaScript string is a sequence of UTF-16 code units, so \<open>jsstr\<close> is a list of natural
  numbers and \<open>length\<close> is the source's \<open>.length\<close>; \<open>js\<close> turns an ASCII
  literal into one.  \<open>s.charAt(i)\<close> is \<open>charAt s i\<close>, with \<open>None\<close> for the
  empty string an out-of-range index gives.  Arrays are lists; \<open>splice\<close> returns the removed
  elements and the array left behind, with the clamping of its arguments the language prescribes.
  A plain object used as a dictionary is an association list in the order of its keys
  (\<open>objGet\<close>, \<open>objSet\<close>, \<open>objDelete\<close>); keys inherited from
  \<open>Object.prototype\<close> are not modelled.
\<close>

named_theorems js_defs \<open>definitions of the JavaScript operations, unfolded to evaluate them\<close>
named_theorems arr_simps \<open>rewrite rules about arrays and dictionaries\<close>

subsection \<open>Strings\<close>

type_synonym codeUnit = nat
type_synonym jsstr = "codeUnit list"

definition js :: "string \<Rightarrow> jsstr" where
  "js s = map of_char s"

lemma js_Nil [simp]: "js [] = []"
  by (simp add: js_def)

lemma js_eq_Nil [simp]: "js s = [] \<longleftrightarrow> s = []" "[] = js s \<longleftrightarrow> s = []"
  by (auto simp: js_def)

lemma js_inject [simp]: "js s = js t \<longleftrightarrow> s = t"
  by (auto simp: js_def inj_map_eq_map inj_def)

lemma length_js [simp]: "length (js s) = length s"
  by (simp add: js_def)

lemma js_append: "js (s @ t) = js s @ js t"
  by (simp add: js_def)

definition charAt :: "jsstr \<Rightarrow> nat \<Rightarrow> codeUnit option" where
  "charAt s i = (if i < length s then Some (s ! i) else None)"

lemma charAt_Nil [simp]: "charAt [] i = None"
  by (simp add: charAt_def)

lemma charAt_Cons_0 [simp]: "charAt (c # s) 0 = Some c"
  by (simp add: charAt_def)

lemma charAt_Cons_Suc [simp]: "charAt (c # s) (Suc i) = charAt s i"
  by (simp add: charAt_def)

lemma charAt_append_length [simp]: "charAt (s @ t) (length s) = charAt t 0"
  by (simp add: charAt_def nth_append)

lemma charAt_Some_iff: "charAt s i = Some c \<longleftrightarrow> i < length s \<and> s ! i = c"
  by (auto simp: charAt_def)

lemma charAt_0_Some: "charAt s 0 = Some c \<longleftrightarrow> (\<exists>t. s = c # t)"
  by (cases s) auto

lemma charAt_0_None [simp]: "charAt s 0 = None \<longleftrightarrow> s = []"
  by (cases s) auto

text \<open>The white space of \<open>\s\<close> and of \<open>trim\<close> (ECMAScript WhiteSpace and LineTerminator).\<close>

definition isSpace :: "codeUnit \<Rightarrow> bool" where
  "isSpace c \<longleftrightarrow> c \<in> {9, 10, 11, 12, 13, 32, 160, 5760, 8232, 8233, 8239, 8287, 12288, 65279}
     \<or> 8192 \<le> c \<and> c \<le> 8202"

definition trimStart :: "jsstr \<Rightarrow> jsstr" where
  "trimStart s = dropWhile isSpace s"

definition trim :: "jsstr \<Rightarrow> jsstr" where
  "trim s = rev (dropWhile isSpace (rev (dropWhile isSpace s)))"

lemma set_trim: "set (trim s) \<subseteq> set s"
  by (auto simp: trim_def dest!: set_dropWhileD)

text \<open>\<open>s.split(c)\<close> for a separator of one code unit: never empty.\<close>

fun splitOn :: "codeUnit \<Rightarrow> jsstr \<Rightarrow> jsstr list" where
  "splitOn c [] = [[]]"
| "splitOn c (x # xs) =
     (if x = c then [] # splitOn c xs
      else (case splitOn c xs of [] \<Rightarrow> [[x]] | p # ps \<Rightarrow> (x # p) # ps))"

lemma splitOn_nonempty [simp]: "splitOn c s \<noteq> []"
  by (induction s) (auto split: list.splits)

lemma splitOn_no_sep: "c \<notin> set s \<Longrightarrow> splitOn c s = [s]"
  by (induction s) auto

lemma splitOn_parts: "p \<in> set (splitOn c s) \<Longrightarrow> c \<notin> set p"
  by (induction s arbitrary: p) (auto split: list.splits if_splits)

fun joinWith :: "jsstr \<Rightarrow> jsstr list \<Rightarrow> jsstr" where
  "joinWith sep [] = []"
| "joinWith sep [s] = s"
| "joinWith sep (s # ss) = s @ sep @ joinWith sep ss"

lemma joinWith_Cons: "joinWith sep (s # ss) = (if ss = [] then s else s @ sep @ joinWith sep ss)"
  by (cases ss) auto

text \<open>Splitting and joining with the same separator give the string back.\<close>

lemma joinWith_splitOn: "joinWith [c] (splitOn c s) = s"
proof (induction s)
  case Nil
  then show ?case by simp
next
  case (Cons x xs)
  then show ?case
    by (cases "splitOn c xs") (auto simp: joinWith_Cons)
qed

lemma splitOn_append_sep: "c \<notin> set s \<Longrightarrow> splitOn c (s @ c # t) = s # splitOn c t"
  by (induction s) auto

lemma splitOn_joinWith:
  "ss \<noteq> [] \<Longrightarrow> \<forall>s \<in> set ss. c \<notin> set s \<Longrightarrow> splitOn c (joinWith [c] ss) = ss"
proof (induction ss)
  case Nil
  then show ?case by simp
next
  case (Cons s ss)
  then show ?case
    by (cases "ss = []") (auto simp: joinWith_Cons splitOn_no_sep splitOn_append_sep)
qed

definition startsWith :: "jsstr \<Rightarrow> jsstr \<Rightarrow> bool" where
  "startsWith p s \<longleftrightarrow> take (length p) s = p"

text \<open>\<open>s.indexOf(p)\<close>, with \<open>None\<close> for -1.\<close>

fun strIndexOf :: "jsstr \<Rightarrow> jsstr \<Rightarrow> nat option" where
  "strIndexOf p s =
     (if startsWith p s then Some 0
      else (case s of [] \<Rightarrow> None | _ # t \<Rightarrow> map_option Suc (strIndexOf p t)))"

declare strIndexOf.simps [simp del]

lemma strIndexOf_Some: "strIndexOf p s = Some i \<Longrightarrow> \<exists>a b. s = a @ p @ b \<and> length a = i"
proof (induction p s arbitrary: i rule: strIndexOf.induct)
  case (1 p s)
  show ?case
  proof (cases "startsWith p s")
    case True
    with "1.prems" have i: "i = 0" by (simp add: strIndexOf.simps [of p s])
    from True have "s = [] @ p @ drop (length p) s"
      by (metis startsWith_def append_take_drop_id append_Nil)
    with i show ?thesis by (metis list.size(3))
  next
    case False
    with "1.prems" obtain c t j where s: "s = c # t" and j: "strIndexOf p t = Some j" "i = Suc j"
      by (auto simp: strIndexOf.simps [of p s] split: list.splits)
    from "1.IH" [OF False s j(1)] obtain a b where "t = a @ p @ b" "length a = j" by blast
    with s j(2) have "s = (c # a) @ p @ b \<and> length (c # a) = i" by simp
    then show ?thesis by blast
  qed
qed

text \<open>\<open>s.replace(p, r)\<close> with a string pattern replaces the first occurrence only.\<close>

definition replaceFirst :: "jsstr \<Rightarrow> jsstr \<Rightarrow> jsstr \<Rightarrow> jsstr" where
  "replaceFirst p r s =
     (case strIndexOf p s of None \<Rightarrow> s | Some i \<Rightarrow> take i s @ r @ drop (i + length p) s)"

subsection \<open>Arrays\<close>

text \<open>
  \<open>xs.splice(start, deleteCount, ...items)\<close>: the removed elements and the array afterwards.  A
  negative start counts from the end; both arguments are clamped to the array.
\<close>

definition spliceStart :: "'a list \<Rightarrow> int \<Rightarrow> nat" where
  "spliceStart xs start =
     (if start < 0 then nat (max (int (length xs) + start) 0) else min (nat start) (length xs))"

definition splice :: "'a list \<Rightarrow> int \<Rightarrow> nat \<Rightarrow> 'a list \<Rightarrow> 'a list \<times> 'a list" where
  "splice xs start del items =
     (let s = spliceStart xs start
      in (take del (drop s xs), take s xs @ items @ drop (s + del) xs))"

lemma spliceStart_nat [simp]: "n \<le> length xs \<Longrightarrow> spliceStart xs (int n) = n"
  by (simp add: spliceStart_def)

lemma spliceStart_le: "spliceStart xs i \<le> length xs"
  by (auto simp: spliceStart_def)

lemma splice_length:
  "length (snd (splice xs start del items)) + length (fst (splice xs start del items))
     = length xs + length items"
  using spliceStart_le [of xs start] by (auto simp: splice_def Let_def)

text \<open>
  \<open>array.splice(toIndex, 0, array.splice(fromIndex, 1)[0])\<close> of \<open>core/utils/arrayMove.ts\<close>.  When
  nothing is removed the inserted element is \<open>undefined\<close>, which the model writes as the given
  \<open>undef\<close>.
\<close>

definition arrayMove :: "'a \<Rightarrow> 'a list \<Rightarrow> int \<Rightarrow> int \<Rightarrow> 'a list" where
  "arrayMove undef array fromIndex toIndex =
     (case splice array fromIndex 1 [] of
        (removed, rest) \<Rightarrow>
          snd (splice rest toIndex 0 [case removed of [] \<Rightarrow> undef | x # _ \<Rightarrow> x]))"

text \<open>\<open>xs[i] = v\<close> for a natural index: past the end the array grows, with holes in between.\<close>

definition arraySet :: "'a \<Rightarrow> 'a list \<Rightarrow> nat \<Rightarrow> 'a \<Rightarrow> 'a list" where
  "arraySet hole xs i v =
     (if i < length xs then xs[i := v] else xs @ replicate (i - length xs) hole @ [v])"

lemma length_arraySet: "length (arraySet h xs i v) = max (length xs) (Suc i)"
  by (auto simp: arraySet_def)

lemma nth_arraySet [simp]: "arraySet h xs i v ! i = v"
  by (auto simp: arraySet_def nth_append)

subsection \<open>Objects used as dictionaries\<close>

type_synonym ('k, 'v) obj = "('k \<times> 'v) list"

definition objGet :: "('k, 'v) obj \<Rightarrow> 'k \<Rightarrow> 'v option" where
  "objGet m k = map_of m k"

fun objSet :: "'k \<Rightarrow> 'v \<Rightarrow> ('k, 'v) obj \<Rightarrow> ('k, 'v) obj" where
  "objSet k v [] = [(k, v)]"
| "objSet k v ((k', v') # m) = (if k = k' then (k, v) # m else (k', v') # objSet k v m)"

definition objDelete :: "'k \<Rightarrow> ('k, 'v) obj \<Rightarrow> ('k, 'v) obj" where
  "objDelete k m = filter (\<lambda>(k', _). k' \<noteq> k) m"

text \<open>The keys of an object are distinct: every operation keeps it.\<close>

definition objKeysOk :: "('k, 'v) obj \<Rightarrow> bool" where
  "objKeysOk m \<longleftrightarrow> distinct (map fst m)"

lemma objGet_Nil [simp]: "objGet [] k = None"
  by (simp add: objGet_def)

lemma objGet_objSet: "objGet (objSet k v m) k' = (if k' = k then Some v else objGet m k')"
  by (induction m) (auto simp: objGet_def)

lemma objGet_objDelete: "objGet (objDelete k m) k' = (if k' = k then None else objGet m k')"
  by (induction m) (auto simp: objGet_def objDelete_def)

lemma fst_set_objSet: "fst ` set (objSet k v m) = insert k (fst ` set m)"
  by (induction k v m rule: objSet.induct) (simp_all add: insert_commute)

lemma objKeysOk_objSet: "objKeysOk m \<Longrightarrow> objKeysOk (objSet k v m)"
proof (induction m)
  case Nil
  then show ?case by (simp add: objKeysOk_def)
next
  case (Cons p m)
  obtain k' v' where p: "p = (k', v')" by (cases p)
  from Cons show ?case
    using fst_set_objSet [of k v m] by (auto simp: objKeysOk_def p)
qed

lemma objKeysOk_objDelete: "objKeysOk m \<Longrightarrow> objKeysOk (objDelete k m)"
  by (induction m) (auto simp: objKeysOk_def objDelete_def)

lemma objGet_map_snd: "objGet (map (\<lambda>(k, v). (k, f k v)) m) k = map_option (f k) (objGet m k)"
  by (induction m) (auto simp: objGet_def)

lemmas [arr_simps] = objGet_objSet objGet_objDelete fst_set_objSet objKeysOk_objSet
  objKeysOk_objDelete objGet_map_snd

lemmas [js_defs] = Let_def js_def charAt_def startsWith_def trim_def trimStart_def isSpace_def spliceStart_def
  splice_def arrayMove_def arraySet_def objGet_def objDelete_def replaceFirst_def strIndexOf.simps

lemma set_map_filter: "set (List.map_filter f xs) = {y. \<exists>x \<in> set xs. f x = Some y}"
  by (force simp: List.map_filter_def)

text \<open>
  The dictionary interface, as the components use it: a lookup after a write or a deletion, and the
  invariant of the representation.
\<close>

locale dictionary =
  fixes get :: "'m \<Rightarrow> 'k \<Rightarrow> 'v option"
    and set' :: "'k \<Rightarrow> 'v \<Rightarrow> 'm \<Rightarrow> 'm"
    and delete :: "'k \<Rightarrow> 'm \<Rightarrow> 'm"
    and ok :: "'m \<Rightarrow> bool"
  assumes get_set: "get (set' k v m) k' = (if k' = k then Some v else get m k')"
    and get_delete: "get (delete k m) k' = (if k' = k then None else get m k')"
    and ok_set: "ok m \<Longrightarrow> ok (set' k v m)"
    and ok_delete: "ok m \<Longrightarrow> ok (delete k m)"
begin

lemma get_set_same: "get (set' k v m) k = Some v"
  by (simp add: get_set)

lemma get_set_other: "k' \<noteq> k \<Longrightarrow> get (set' k v m) k' = get m k'"
  by (simp add: get_set)

text \<open>Writing a list of entries one after the other: the last entry of a key wins.\<close>

lemma get_fold_set:
  "get (fold (\<lambda>(k, v). set' k v) kvs m) k =
     (case map_of (rev kvs) k of Some v \<Rightarrow> Some v | None \<Rightarrow> get m k)"
  by (induction kvs arbitrary: m) (auto simp: get_set map_add_def split: option.splits)

lemma ok_fold_set: "ok m \<Longrightarrow> ok (fold (\<lambda>(k, v). set' k v) kvs m)"
  by (induction kvs arbitrary: m) (auto simp: ok_set)

end

interpretation obj: dictionary objGet objSet objDelete objKeysOk
  by unfold_locales (auto simp: arr_simps)

end
