(* ===== verification/JsNumber.thy ===== *)
theory JsNumber
  imports JsPrelude
begin

text \<open>
  JavaScript numbers as the modelled code uses them: read from text by \<open>parseFloat\<close> and the
  \<open>+s\<close> conversion, tested with \<open>isFinite\<close>, and written back by \<open>String(n)\<close>.

  A finite number is kept by its decimal value: \<open>Dec m k\<close> is \<open>m / 10 ^ k\<close> with \<open>k\<close> as
  small as possible, which is what \<open>String(n)\<close> prints.  A decimal of at most 15 significant digits
  in the range of the type survives the conversion to a double and back, so on such decimals the
  model's reading and printing are exactly the language's; the rounding of longer decimals to the
  nearest double, and the sign of zero, are not modelled.  Overflow to infinity is: the bound
  is the one at which the nearest double is infinite.
\<close>

datatype jsnum = NaN | Infinity bool | Dec int nat

fun normDec :: "int \<Rightarrow> nat \<Rightarrow> jsnum" where
  "normDec m 0 = Dec m 0"
| "normDec m (Suc k) = (if m mod 10 = 0 then normDec (m div 10) k else Dec m (Suc k))"

lemma normDec_numeral [simp]:
  "normDec m (numeral n) =
     (if m mod 10 = 0 then normDec (m div 10) (pred_numeral n) else Dec m (numeral n))"
  by (simp add: numeral_eq_Suc)

text \<open>The least magnitude that rounds to infinity: \<open>2 ^ 1024 - 2 ^ 970\<close>.\<close>

definition overflowBound :: int where
  "overflowBound = 2 ^ 1024 - 2 ^ 970"

text \<open>The number \<open>m * 10 ^ (e - k)\<close>.\<close>

definition mkNumber :: "int \<Rightarrow> nat \<Rightarrow> int \<Rightarrow> jsnum" where
  "mkNumber m k e =
     (let shift = e - int k;
          (m', k') = (if 0 \<le> shift then (m * 10 ^ nat shift, 0) else (m, nat (- shift)))
      in if overflowBound * 10 ^ k' \<le> \<bar>m'\<bar> then Infinity (m' < 0) else normDec m' k')"

definition isFinite :: "jsnum \<Rightarrow> bool" where
  "isFinite x = (case x of Dec _ _ \<Rightarrow> True | _ \<Rightarrow> False)"

subsection \<open>Digits\<close>

definition isDigit :: "codeUnit \<Rightarrow> bool" where
  "isDigit c \<longleftrightarrow> 48 \<le> c \<and> c \<le> 57"

fun natToStr :: "nat \<Rightarrow> jsstr" where
  "natToStr n = (if n < 10 then [48 + n] else natToStr (n div 10) @ [48 + n mod 10])"

declare natToStr.simps [simp del]

definition digitsVal :: "jsstr \<Rightarrow> nat" where
  "digitsVal ds = foldl (\<lambda>v c. 10 * v + (c - 48)) 0 ds"

lemma natToStr_small: "n < 10 \<Longrightarrow> natToStr n = [48 + n]"
  by (simp add: natToStr.simps)

lemma natToStr_digits: "\<forall>c \<in> set (natToStr n). isDigit c"
proof (induction n rule: natToStr.induct)
  case (1 n)
  show ?case
  proof (cases "n < 10")
    case True
    then show ?thesis by (simp add: natToStr.simps [of n] isDigit_def)
  next
    case False
    with 1 have "\<forall>c \<in> set (natToStr (n div 10)). isDigit c" by simp
    with False show ?thesis by (auto simp: natToStr.simps [of n] isDigit_def)
  qed
qed

lemma natToStr_nonempty [simp]: "natToStr n \<noteq> []"
  by (subst natToStr.simps) simp

lemma digitsVal_snoc: "digitsVal (ds @ [c]) = 10 * digitsVal ds + (c - 48)"
  by (simp add: digitsVal_def)

lemma digitsVal_natToStr [simp]: "digitsVal (natToStr n) = n"
proof (induction n rule: natToStr.induct)
  case (1 n)
  show ?case
  proof (cases "n < 10")
    case True
    then show ?thesis by (simp add: natToStr.simps [of n] digitsVal_def)
  next
    case False
    with 1 have "digitsVal (natToStr (n div 10)) = n div 10" by simp
    with False show ?thesis by (simp add: natToStr.simps [of n] digitsVal_snoc)
  qed
qed

text \<open>Only zero is written with a leading zero.\<close>

lemma hd_natToStr: "0 < n \<Longrightarrow> hd (natToStr n) \<noteq> 48"
proof (induction n rule: natToStr.induct)
  case (1 n)
  show ?case
  proof (cases "n < 10")
    case True
    with 1(2) show ?thesis by (simp add: natToStr.simps [of n])
  next
    case False
    with 1 have "hd (natToStr (n div 10)) \<noteq> 48" by simp
    with False show ?thesis by (simp add: natToStr.simps [of n] hd_append)
  qed
qed

subsection \<open>Printing: ECMAScript's Number::toString\<close>

text \<open>
  With \<open>ds\<close> the significant digits and \<open>n\<close> the position of the decimal point relative to their
  start, the four layouts of the standard: an integer, a fraction, a fraction below one, and the
  exponent form.
\<close>

definition layoutDigits :: "jsstr \<Rightarrow> int \<Rightarrow> jsstr" where
  "layoutDigits ds n =
     (let k = int (length ds) in
      if k \<le> n \<and> n \<le> 21 then ds @ replicate (nat (n - k)) 48
      else if 0 < n \<and> n \<le> 21 then take (nat n) ds @ [46] @ drop (nat n) ds
      else if - 6 < n \<and> n \<le> 0 then [48, 46] @ replicate (nat (- n)) 48 @ ds
      else (let e = n - 1;
                ex = (if e < 0 then 45 else 43) # natToStr (nat \<bar>e\<bar>)
            in (case ds of [d] \<Rightarrow> [d, 101] @ ex | _ \<Rightarrow> take 1 ds @ [46] @ drop 1 ds @ [101] @ ex)))"

definition stripZeros :: "jsstr \<Rightarrow> jsstr" where
  "stripZeros ds = rev (dropWhile (\<lambda>c. c = 48) (rev ds))"

definition numToStr :: "jsnum \<Rightarrow> jsstr" where
  "numToStr x =
     (case x of
        NaN \<Rightarrow> js ''NaN''
      | Infinity neg \<Rightarrow> (if neg then js ''-Infinity'' else js ''Infinity'')
      | Dec m k \<Rightarrow>
          if m = 0 then [48]
          else let ds = natToStr (nat \<bar>m\<bar>)
               in (if m < 0 then [45] else [])
                  @ layoutDigits (stripZeros ds) (int (length ds) - int k))"

subsection \<open>Reading\<close>

text \<open>An exponent part, when one is there: its value and the rest of the text.\<close>

definition exponentPart :: "jsstr \<Rightarrow> int \<times> jsstr" where
  "exponentPart s =
     (case s of
        [] \<Rightarrow> (0, s)
      | c # t \<Rightarrow>
          if c = 101 \<or> c = 69
          then (let (neg, u) = (case t of [] \<Rightarrow> (False, t)
                                 | d # t' \<Rightarrow> if d = 45 then (True, t') else if d = 43 then (False, t')
                                            else (False, t));
                    ds = takeWhile isDigit u
                in if ds = [] then (0, s)
                   else ((if neg then - int (digitsVal ds) else int (digitsVal ds)), dropWhile isDigit u))
          else (0, s))"

text \<open>
  The longest prefix that is an unsigned decimal literal: digits, an optional fraction and an
  optional exponent, with at least one digit before or after the point.
\<close>

definition decimalPrefix :: "jsstr \<Rightarrow> (nat \<times> nat \<times> int \<times> jsstr) option" where
  "decimalPrefix s =
     (let ip = takeWhile isDigit s;
          r = dropWhile isDigit s;
          (fp, r') = (case r of
                        [] \<Rightarrow> ([], r)
                      | c # t \<Rightarrow> if c = 46 \<and> (ip \<noteq> [] \<or> takeWhile isDigit t \<noteq> [])
                                then (takeWhile isDigit t, dropWhile isDigit t) else ([], r))
      in if ip = [] \<and> fp = [] then None
         else (case exponentPart r' of (e, r'') \<Rightarrow> Some (digitsVal (ip @ fp), length fp, e, r'')))"

definition signPrefix :: "jsstr \<Rightarrow> bool \<times> jsstr" where
  "signPrefix s =
     (case s of [] \<Rightarrow> (False, s)
      | c # t \<Rightarrow> if c = 45 then (True, t) else if c = 43 then (False, t) else (False, s))"

definition signedNumber :: "bool \<Rightarrow> nat \<Rightarrow> nat \<Rightarrow> int \<Rightarrow> jsnum" where
  "signedNumber neg v k e = mkNumber (if neg then - int v else int v) k e"

definition parseFloat :: "jsstr \<Rightarrow> jsnum" where
  "parseFloat s =
     (let (neg, t) = signPrefix (trimStart s)
      in if startsWith (js ''Infinity'') t then Infinity neg
         else (case decimalPrefix t of
                 None \<Rightarrow> NaN
               | Some (v, k, e, _) \<Rightarrow> signedNumber neg v k e))"

definition radixDigit :: "nat \<Rightarrow> codeUnit \<Rightarrow> nat option" where
  "radixDigit b c =
     (let d = (if isDigit c then c - 48 else if 97 \<le> c \<and> c \<le> 102 then c - 87
               else if 65 \<le> c \<and> c \<le> 70 then c - 55 else 16)
      in if d < b then Some d else None)"

fun radixVal :: "nat \<Rightarrow> jsstr \<Rightarrow> nat \<Rightarrow> nat option" where
  "radixVal b [] acc = Some acc"
| "radixVal b (c # cs) acc =
     (case radixDigit b c of None \<Rightarrow> None | Some d \<Rightarrow> radixVal b cs (b * acc + d))"

definition radixPrefix :: "jsstr \<Rightarrow> nat option" where
  "radixPrefix s =
     (case s of
        c # d # _ \<Rightarrow> if c = 48 then (if d \<in> {120, 88} then Some 16 else if d \<in> {111, 79} then Some 8
                                    else if d \<in> {98, 66} then Some 2 else None) else None
      | _ \<Rightarrow> None)"

text \<open>The conversion \<open>+s\<close>: the whole text, white space around it aside, must be a literal.\<close>

definition toNumber :: "jsstr \<Rightarrow> jsnum" where
  "toNumber s =
     (let t = trim s in
      if t = [] then Dec 0 0
      else (case radixPrefix t of
              Some b \<Rightarrow>
                (if length t = 2 then NaN
                 else (case radixVal b (drop 2 t) 0 of None \<Rightarrow> NaN | Some v \<Rightarrow> mkNumber (int v) 0 0))
            | None \<Rightarrow>
                (let (neg, u) = signPrefix t
                 in if u = js ''Infinity'' then Infinity neg
                    else (case decimalPrefix u of
                            Some (v, k, e, []) \<Rightarrow> signedNumber neg v k e
                          | _ \<Rightarrow> NaN))))"

subsection \<open>Integers survive printing and reading\<close>

definition smallInt :: "int \<Rightarrow> bool" where
  "smallInt m \<longleftrightarrow> \<bar>m\<bar> < 10 ^ 21"

lemma overflowBound_large: "10 ^ 21 \<le> overflowBound"
  by (simp add: overflowBound_def)

lemma normDec_0 [simp]: "normDec m 0 = Dec m 0"
  by simp

lemma takeWhile_all_append:
  "\<forall>c \<in> set ds. P c \<Longrightarrow> takeWhile P (ds @ r) = ds @ takeWhile P r"
  by (induction ds) auto

lemma dropWhile_all_append:
  "\<forall>c \<in> set ds. P c \<Longrightarrow> dropWhile P (ds @ r) = dropWhile P r"
  by (induction ds) auto

lemma length_natToStr_le: "n < 10 ^ k \<Longrightarrow> 0 < k \<Longrightarrow> length (natToStr n) \<le> k"
proof (induction n arbitrary: k rule: natToStr.induct)
  case (1 n)
  show ?case
  proof (cases "n < 10")
    case True
    with 1(3) show ?thesis by (simp add: natToStr.simps [of n])
  next
    case False
    then obtain k' where k': "k = Suc k'" "0 < k'"
      using 1(2,3) by (cases k; cases "k - 1") auto
    with 1(2) have "n div 10 < 10 ^ k'" by (simp add: less_mult_imp_div_less mult.commute)
    with 1(1) [OF False, of k'] k' have "length (natToStr (n div 10)) \<le> k'" by simp
    with False k' show ?thesis by (simp add: natToStr.simps [of n])
  qed
qed

lemma stripZeros_append: "stripZeros ds @ replicate (length ds - length (stripZeros ds)) 48 = ds"
proof -
  let ?t = "takeWhile (\<lambda>c. c = 48) (rev ds)" and ?d = "dropWhile (\<lambda>c. c = 48) (rev ds)"
  have t: "?t = replicate (length ?t) 48"
    by (metis (mono_tags, lifting) replicate_length_same set_takeWhileD)
  have "ds = rev ?d @ rev ?t"
    by (metis rev_append rev_rev_ident takeWhile_dropWhile_id)
  moreover have "rev ?t = replicate (length ?t) 48"
    by (metis t rev_replicate)
  moreover have "length ?t = length ds - length (stripZeros ds)"
    by (metis (no_types) stripZeros_def length_append length_rev takeWhile_dropWhile_id
        add_diff_cancel_right')
  ultimately show ?thesis by (metis stripZeros_def)
qed

lemma length_stripZeros: "length (stripZeros ds) \<le> length ds"
  by (metis length_rev stripZeros_def length_dropWhile_le)

lemma layoutDigits_int:
  assumes "length ds \<le> 21"
  shows "layoutDigits (stripZeros ds) (int (length ds)) = ds"
proof -
  have "nat (int (length ds) - int (length (stripZeros ds))) = length ds - length (stripZeros ds)"
    by simp
  with assms length_stripZeros [of ds] stripZeros_append [of ds] show ?thesis
    by (simp add: layoutDigits_def Let_def)
qed

lemma numToStr_int:
  assumes "smallInt m"
  shows "numToStr (Dec m 0) = (if m < 0 then [45] else []) @ natToStr (nat \<bar>m\<bar>)"
proof (cases "m = 0")
  case True
  then show ?thesis by (simp add: numToStr_def natToStr_small)
next
  case False
  from assms have "nat \<bar>m\<bar> < 10 ^ 21" by (simp add: smallInt_def nat_less_iff)
  then have "length (natToStr (nat \<bar>m\<bar>)) \<le> 21" by (rule length_natToStr_le) simp
  with False show ?thesis by (simp add: numToStr_def Let_def layoutDigits_int)
qed

text \<open>Text that cannot continue a decimal literal.\<close>

definition numberEnds :: "jsstr \<Rightarrow> bool" where
  "numberEnds r \<longleftrightarrow> (case r of [] \<Rightarrow> True | c # _ \<Rightarrow> \<not> isDigit c \<and> c \<noteq> 46 \<and> c \<noteq> 101 \<and> c \<noteq> 69)"

lemma decimalPrefix_natToStr:
  assumes "numberEnds r"
  shows "decimalPrefix (natToStr n @ r) = Some (n, 0, 0, r)"
proof -
  have "takeWhile isDigit r = []" "dropWhile isDigit r = r"
    using assms by (cases r; simp add: numberEnds_def)+
  then have *: "takeWhile isDigit (natToStr n @ r) = natToStr n"
    "dropWhile isDigit (natToStr n @ r) = r"
    using natToStr_digits [of n] by (simp_all add: takeWhile_all_append dropWhile_all_append)
  show ?thesis
    unfolding decimalPrefix_def Let_def *
    using assms by (cases r) (auto simp: exponentPart_def numberEnds_def)
qed

lemma natToStr_Cons: "\<exists>c t. natToStr n = c # t \<and> isDigit c"
  using natToStr_digits [of n] by (cases "natToStr n") auto

lemma signPrefix_digit: "isDigit c \<Longrightarrow> signPrefix (c # s) = (False, c # s)"
  by (auto simp: signPrefix_def isDigit_def)

lemma trimStart_nospace: "\<not> isSpace c \<Longrightarrow> trimStart (c # s) = c # s"
  by (simp add: trimStart_def)

lemma isDigit_nospace: "isDigit c \<Longrightarrow> \<not> isSpace c"
  by (auto simp: isDigit_def isSpace_def)

lemma startsWith_Infinity_digit: "isDigit c \<Longrightarrow> \<not> startsWith (js ''Infinity'') (c # s)"
  by (auto simp: startsWith_def js_def isDigit_def)

theorem parseFloat_numToStr_int:
  assumes "smallInt m"
  shows "parseFloat (numToStr (Dec m 0)) = Dec m 0"
proof -
  let ?n = "nat \<bar>m\<bar>"
  have d: "decimalPrefix (natToStr ?n) = Some (?n, 0, 0, [])"
    using decimalPrefix_natToStr [of "[]" ?n] by (simp add: numberEnds_def)
  obtain c t where ct: "natToStr ?n = c # t" "isDigit c"
    using natToStr_Cons by blast
  have "\<bar>m\<bar> < overflowBound"
    using assms overflowBound_large by (simp add: smallInt_def)
  then have mk: "mkNumber m 0 0 = Dec m 0"
    by (simp add: mkNumber_def)
  show ?thesis
  proof (cases "m < 0")
    case True
    then have "numToStr (Dec m 0) = 45 # natToStr ?n" "- int ?n = m"
      using assms by (simp_all add: numToStr_int)
    with True d ct mk show ?thesis
      by (simp add: parseFloat_def trimStart_nospace isSpace_def signPrefix_def
          startsWith_Infinity_digit signedNumber_def)
  next
    case False
    then have "numToStr (Dec m 0) = natToStr ?n" "int ?n = m"
      using assms by (simp_all add: numToStr_int)
    then show ?thesis
      unfolding parseFloat_def using d ct mk
      by (simp add: trimStart_nospace isDigit_nospace signPrefix_digit
          startsWith_Infinity_digit signedNumber_def del: int_nat_eq)
  qed
qed

text \<open>What evaluates reading and printing on a given text.\<close>

lemmas [js_defs] = numToStr_def parseFloat_def toNumber_def trimStart_def signPrefix_def
  decimalPrefix_def exponentPart_def isDigit_def digitsVal_def signedNumber_def mkNumber_def
  overflowBound_def natToStr.simps layoutDigits_def stripZeros_def isFinite_def radixPrefix_def
  radixDigit_def

end
