(* ===== verification/Version.thy ===== *)
theory Version
  imports JsNumber
begin

text \<open>
  Semantic versions (\<open>public/app/core/utils/version.ts\<close>): what the constructor of
  \<open>SemVersion\<close> reads with its pattern, the comparison loop of \<open>isGtOrEq\<close> and
  \<open>isVersionGtOrEq\<close>, which gates Graphite's functions and parameters.  The comparison is shown to be
  the lexicographic order of (major, minor, patch), and so a total preorder.  A number too long to be
  exact in a double is outside the model.
\<close>

record semVersion =
  major :: nat
  minor :: nat
  patch :: nat
  meta :: "jsstr option"

text \<open>\<open>(?:\.(\d+))?\<close>: the digits after a point, when there are any.\<close>

definition dotDigits :: "jsstr \<Rightarrow> jsstr option \<times> jsstr" where
  "dotDigits s =
     (case s of
        [] \<Rightarrow> (None, s)
      | c # t \<Rightarrow> if c = 46 \<and> takeWhile isDigit t \<noteq> []
                then (Some (takeWhile isDigit t), dropWhile isDigit t) else (None, s))"

definition isMetaChar :: "codeUnit \<Rightarrow> bool" where
  "isMetaChar c \<longleftrightarrow> isDigit c \<or> 65 \<le> c \<and> c \<le> 90 \<or> 97 \<le> c \<and> c \<le> 122 \<or> c = 46"

text \<open>\<open>(?:-([0-9A-Za-z\.]+))?\<close>\<close>

definition dashMeta :: "jsstr \<Rightarrow> jsstr option" where
  "dashMeta s =
     (case s of
        [] \<Rightarrow> None
      | c # t \<Rightarrow> if c = 45 \<and> takeWhile isMetaChar t \<noteq> [] then Some (takeWhile isMetaChar t) else None)"

type_synonym versionMatch = "jsstr \<times> jsstr option \<times> jsstr option \<times> jsstr option"

definition versionPattern :: "jsstr \<Rightarrow> versionMatch option" where
  "versionPattern s =
     (let m1 = takeWhile isDigit s in
      if m1 = [] then None
      else (let (m2, r2) = dotDigits (dropWhile isDigit s);
                (m3, r3) = dotDigits r2
            in Some (m1, m2, m3, dashMeta r3)))"

definition numberOr0 :: "jsstr option \<Rightarrow> nat" where
  "numberOr0 m = (case m of None \<Rightarrow> 0 | Some ds \<Rightarrow> digitsVal ds)"

definition newSemVersion :: "jsstr \<Rightarrow> semVersion" where
  "newSemVersion version =
     (case versionPattern version of
        None \<Rightarrow> \<lparr>major = 0, minor = 0, patch = 0, meta = Some []\<rparr>
      | Some (m1, m2, m3, m4) \<Rightarrow>
          \<lparr>major = digitsVal m1, minor = numberOr0 m2, patch = numberOr0 m3, meta = m4\<rparr>)"

definition comparable :: "semVersion \<Rightarrow> nat list" where
  "comparable v = [major v, minor v, patch v]"

text \<open>The loop of \<open>isGtOrEq\<close> over the two arrays.\<close>

fun compareLoop :: "nat list \<Rightarrow> nat list \<Rightarrow> bool" where
  "compareLoop (a # as) (b # bs) =
     (if b < a then True else if a < b then False else compareLoop as bs)"
| "compareLoop _ _ = True"

definition isGtOrEq :: "semVersion \<Rightarrow> jsstr \<Rightarrow> bool" where
  "isGtOrEq v version = compareLoop (comparable v) (comparable (newSemVersion version))"

definition isVersionGtOrEq :: "jsstr \<Rightarrow> jsstr \<Rightarrow> bool" where
  "isVersionGtOrEq a b = isGtOrEq (newSemVersion a) b"

lemmas [js_defs] = dotDigits_def isMetaChar_def dashMeta_def versionPattern_def numberOr0_def
  newSemVersion_def comparable_def isGtOrEq_def isVersionGtOrEq_def

subsection \<open>The order on versions\<close>

text \<open>The specification: the lexicographic order of the three numbers, whatever the suffix.\<close>

definition versionLe :: "semVersion \<Rightarrow> semVersion \<Rightarrow> bool" where
  "versionLe v w \<longleftrightarrow>
     major v < major w \<or>
     major v = major w \<and> (minor v < minor w \<or> minor v = minor w \<and> patch v \<le> patch w)"

lemma isGtOrEq_iff: "isGtOrEq v s \<longleftrightarrow> versionLe (newSemVersion s) v"
  by (auto simp: isGtOrEq_def comparable_def versionLe_def)

lemma isVersionGtOrEq_iff: "isVersionGtOrEq a b \<longleftrightarrow> versionLe (newSemVersion b) (newSemVersion a)"
  by (simp add: isVersionGtOrEq_def isGtOrEq_iff)

lemma versionLe_refl [simp]: "versionLe v v"
  by (simp add: versionLe_def)

lemma versionLe_trans: "versionLe u v \<Longrightarrow> versionLe v w \<Longrightarrow> versionLe u w"
  by (auto simp: versionLe_def)

lemma versionLe_total: "versionLe v w \<or> versionLe w v"
  by (auto simp: versionLe_def)

text \<open>
  What a gate by version needs: the comparison is a total preorder, so raising the version keeps
  every feature that was enabled.
\<close>

locale version_gate =
  fixes geq :: "'v \<Rightarrow> 'v \<Rightarrow> bool"
  assumes geq_refl: "geq a a"
    and geq_trans: "geq a b \<Longrightarrow> geq b c \<Longrightarrow> geq a c"
    and geq_total: "geq a b \<or> geq b a"
begin

lemma enabled_mono:
  assumes "geq new old" and "filter (\<lambda>x. geq old (since x)) xs = ys" and "x \<in> set ys"
  shows "x \<in> set (filter (\<lambda>x. geq new (since x)) xs)"
  using assms geq_trans by auto

end

interpretation versions: version_gate isVersionGtOrEq
  by unfold_locales
    (use versionLe_trans versionLe_total in \<open>auto simp: isVersionGtOrEq_iff\<close>)

end
