(* ===== verification/GfuncTypes.thy ===== *)
theory GfuncTypes
  imports Version
begin

text \<open>
  The data of \<open>gfunc.ts\<close>: parameter and function definitions, and the values parameters take.
  A parameter value is a string or a number in the types of the source, but the parser also stores
  booleans, a write past the end of an array leaves holes, and definitions read from a server hold
  \<open>null\<close>; an optional property that is absent is \<open>None\<close>, and an optional flag is absent as
  \<open>False\<close>.
\<close>

datatype pval = PStr jsstr | PNum jsnum | PBool bool | PUndef | PNull

text \<open>\<open>String(v)\<close> and \<open>'' + v\<close>.\<close>

definition pvalStr :: "pval \<Rightarrow> jsstr" where
  "pvalStr v =
     (case v of PStr s \<Rightarrow> s | PNum n \<Rightarrow> numToStr n
      | PBool b \<Rightarrow> (if b then js ''true'' else js ''false'')
      | PUndef \<Rightarrow> js ''undefined'' | PNull \<Rightarrow> js ''null'')"

text \<open>An element as \<open>Array.join\<close> and lodash's \<open>toString\<close> write it: nothing for \<open>undefined\<close> and
  \<open>null\<close>.\<close>

definition pvalJoinStr :: "pval \<Rightarrow> jsstr" where
  "pvalJoinStr v = (case v of PUndef \<Rightarrow> [] | PNull \<Rightarrow> [] | _ \<Rightarrow> pvalStr v)"

definition joinParams :: "pval list \<Rightarrow> jsstr" where
  "joinParams vs = joinWith (js '', '') (map pvalJoinStr vs)"

record paramDef =
  p_name :: jsstr
  p_type :: jsstr
  p_options :: "pval list option"
  p_multiple :: bool
  p_optional :: bool
  p_version :: "jsstr option"

record funcDef =
  f_name :: jsstr
  f_params :: "paramDef list"
  f_defaultParams :: "pval list"
  f_category :: "jsstr option"
  f_shortName :: "jsstr option"
  f_fake :: bool
  f_version :: "jsstr option"
  f_description :: "jsstr option"
  f_unknown :: bool

type_synonym funcDefs = "(jsstr, funcDef) obj"

text \<open>
  The argument of \<open>addFuncDef\<close>, a \<open>Partial<FuncDef>\<close> with a name and a category; \<open>entry\<close> and
  \<open>param\<close> are object literals with the optional properties left out.
\<close>

record partialFuncDef =
  pf_name :: jsstr
  pf_category :: jsstr
  pf_params :: "paramDef list option"
  pf_defaultParams :: "pval list option"
  pf_shortName :: "jsstr option"
  pf_fake :: bool
  pf_version :: "jsstr option"

definition param :: "jsstr \<Rightarrow> jsstr \<Rightarrow> paramDef" where
  "param name type =
     \<lparr>p_name = name, p_type = type, p_options = None, p_multiple = False, p_optional = False,
      p_version = None\<rparr>"

definition entry :: "jsstr \<Rightarrow> jsstr \<Rightarrow> partialFuncDef" where
  "entry name category =
     \<lparr>pf_name = name, pf_category = category, pf_params = None, pf_defaultParams = None,
      pf_shortName = None, pf_fake = False, pf_version = None\<rparr>"

definition optionalSeriesRefArgs :: "paramDef list" where
  "optionalSeriesRefArgs =
     [param (js ''other'') (js ''value_or_series'') \<lparr>p_optional := True, p_multiple := True\<rparr>]"

lemmas [js_defs] = pvalStr_def pvalJoinStr_def joinParams_def param_def entry_def
  optionalSeriesRefArgs_def

end
