(* ===== verification/GfuncTable.thy ===== *)
theory GfuncTable
  imports GfuncTypes
begin

text \<open>
  The functions Graphite queries may use, as the module \<open>gfunc.ts\<close> registers them when it is
  loaded: one entry per \<open>addFuncDef\<close> call, in the order of the calls, in 7 groups.  The calls are
  run one after the other by \<open>runAddFuncDefs\<close> of theory \<open>Gfunc\<close>.
\<close>

definition funcTable1 :: "partialFuncDef list" where
  "funcTable1 =
   [entry (js ''scaleToSeconds'') (js ''Transform'')
      \<lparr>pf_params := Some [param (js ''seconds'') (js ''int'')],
        pf_defaultParams := Some [PNum (Dec 1 0)]\<rparr>,
    entry (js ''perSecond'') (js ''Transform'')
      \<lparr>pf_params := Some [param (js ''max value'') (js ''int'') \<lparr>p_optional := True\<rparr>],
        pf_defaultParams := Some []\<rparr>,
    entry (js ''holtWintersForecast'') (js ''Calculate''),
    entry (js ''holtWintersConfidenceBands'') (js ''Calculate'')
      \<lparr>pf_params := Some [param (js ''delta'') (js ''int'')],
        pf_defaultParams := Some [PNum (Dec 3 0)]\<rparr>,
    entry (js ''holtWintersAberration'') (js ''Calculate'')
      \<lparr>pf_params := Some [param (js ''delta'') (js ''int'')],
        pf_defaultParams := Some [PNum (Dec 3 0)]\<rparr>,
    entry (js ''nPercentile'') (js ''Calculate'')
      \<lparr>pf_params := Some [param (js ''Nth percentile'') (js ''int'')],
        pf_defaultParams := Some [PNum (Dec 95 0)]\<rparr>,
    entry (js ''diffSeries'') (js ''Combine'')
      \<lparr>pf_params := Some optionalSeriesRefArgs,
        pf_defaultParams := Some [PStr (js ''#A'')]\<rparr>,
    entry (js ''stddevSeries'') (js ''Combine'')
      \<lparr>pf_params := Some optionalSeriesRefArgs,
        pf_defaultParams := Some [PStr (js '''')]\<rparr>,
    entry (js ''divideSeries'') (js ''Combine'')
      \<lparr>pf_params := Some optionalSeriesRefArgs,
        pf_defaultParams := Some [PStr (js ''#A'')]\<rparr>,
    entry (js ''multiplySeries'') (js ''Combine'')
      \<lparr>pf_params := Some optionalSeriesRefArgs,
        pf_defaultParams := Some [PStr (js ''#A'')]\<rparr>,
    entry (js ''asPercent'') (js ''Combine'')
      \<lparr>pf_params := Some optionalSeriesRefArgs,
        pf_defaultParams := Some [PStr (js ''#A'')]\<rparr>,
    entry (js ''group'') (js ''Combine'')
      \<lparr>pf_params := Some optionalSeriesRefArgs,
        pf_defaultParams := Some [PStr (js ''#A''), PStr (js ''#B'')]\<rparr>,
    entry (js ''sumSeries'') (js ''Combine'')
      \<lparr>pf_shortName := Some (js ''sum''),
        pf_params := Some optionalSeriesRefArgs,
        pf_defaultParams := Some [PStr (js '''')]\<rparr>,
    entry (js ''averageSeries'') (js ''Combine'')
      \<lparr>pf_shortName := Some (js ''avg''),
        pf_params := Some optionalSeriesRefArgs,
        pf_defaultParams := Some [PStr (js '''')]\<rparr>,
    entry (js ''rangeOfSeries'') (js ''Combine''),
    entry (js ''percentileOfSeries'') (js ''Combine'')
      \<lparr>pf_params := Some [param (js ''n'') (js ''int''),
          param (js ''interpolate'') (js ''boolean'') \<lparr>p_options := Some (map PStr (map js [''true'', ''false'']))\<rparr>],
        pf_defaultParams := Some [PNum (Dec 95 0), PStr (js ''false'')]\<rparr>,
    entry (js ''sumSeriesWithWildcards'') (js ''Combine'')
      \<lparr>pf_params := Some [param (js ''node'') (js ''int'') \<lparr>p_multiple := True\<rparr>],
        pf_defaultParams := Some [PNum (Dec 3 0)]\<rparr>,
    entry (js ''maxSeries'') (js ''Combine'')
      \<lparr>pf_shortName := Some (js ''max'')\<rparr>,
    entry (js ''minSeries'') (js ''Combine'')
      \<lparr>pf_shortName := Some (js ''min'')\<rparr>,
    entry (js ''averageSeriesWithWildcards'') (js ''Combine'')
      \<lparr>pf_params := Some [param (js ''node'') (js ''int'') \<lparr>p_multiple := True\<rparr>],
        pf_defaultParams := Some [PNum (Dec 3 0)]\<rparr>,
    entry (js ''alias'') (js ''Alias'')
      \<lparr>pf_params := Some [param (js ''alias'') (js ''string'')],
        pf_defaultParams := Some [PStr (js ''alias'')]\<rparr>]"

definition funcTable2 :: "partialFuncDef list" where
  "funcTable2 =
   [entry (js ''aliasSub'') (js ''Alias'')
      \<lparr>pf_params := Some [param (js ''search'') (js ''string''),
          param (js ''replace'') (js ''string'')],
        pf_defaultParams := Some [PStr (js ''''), PStr (js (CHR 0x5C # ''1''))]\<rparr>,
    entry (js ''consolidateBy'') (js ''Special'')
      \<lparr>pf_params := Some [param (js ''function'') (js ''string'') \<lparr>p_options := Some (map PStr (map js [''sum'', ''average'', ''min'', ''max'']))\<rparr>],
        pf_defaultParams := Some [PStr (js ''max'')]\<rparr>,
    entry (js ''cumulative'') (js ''Special'')
      \<lparr>pf_params := Some [],
        pf_defaultParams := Some []\<rparr>,
    entry (js ''groupByNode'') (js ''Combine'')
      \<lparr>pf_params := Some [param (js ''node'') (js ''int'') \<lparr>p_options := Some (map (\<lambda>i. PNum (Dec i 0)) [0, 1, 2, 3, 4, 5, 6, 7, 8, 9, 10, 12])\<rparr>,
          param (js ''function'') (js ''string'') \<lparr>p_options := Some (map PStr (map js [''sum'', ''avg'', ''maxSeries'']))\<rparr>],
        pf_defaultParams := Some [PNum (Dec 3 0), PStr (js ''sum'')]\<rparr>,
    entry (js ''aliasByNode'') (js ''Alias'')
      \<lparr>pf_params := Some [param (js ''node'') (js ''int'') \<lparr>p_options := Some (map (\<lambda>i. PNum (Dec i 0)) [0, 1, 2, 3, 4, 5, 6, 7, 8, 9, 10, 12]), p_multiple := True\<rparr>],
        pf_defaultParams := Some [PNum (Dec 3 0)]\<rparr>,
    entry (js ''substr'') (js ''Special'')
      \<lparr>pf_params := Some [param (js ''start'') (js ''int'') \<lparr>p_options := Some (map (\<lambda>i. PNum (Dec i 0)) [-6, -5, -4, -3, -2, -1, 0, 1, 2, 3, 4, 5, 6, 7, 8, 9, 10, 12])\<rparr>,
          param (js ''stop'') (js ''int'') \<lparr>p_options := Some (map (\<lambda>i. PNum (Dec i 0)) [-6, -5, -4, -3, -2, -1, 0, 1, 2, 3, 4, 5, 6, 7, 8, 9, 10, 12])\<rparr>],
        pf_defaultParams := Some [PNum (Dec 0 0), PNum (Dec 0 0)]\<rparr>,
    entry (js ''sortByName'') (js ''Sorting'')
      \<lparr>pf_params := Some [param (js ''natural'') (js ''boolean'') \<lparr>p_options := Some (map PStr (map js [''true'', ''false''])), p_optional := True\<rparr>],
        pf_defaultParams := Some [PStr (js ''false'')]\<rparr>,
    entry (js ''sortByMaxima'') (js ''Sorting''),
    entry (js ''sortByMinima'') (js ''Sorting''),
    entry (js ''sortByTotal'') (js ''Sorting''),
    entry (js ''aliasByMetric'') (js ''Alias''),
    entry (js ''randomWalk'') (js ''Special'')
      \<lparr>pf_fake := True,
        pf_params := Some [param (js ''name'') (js ''string'')],
        pf_defaultParams := Some [PStr (js ''randomWalk'')]\<rparr>,
    entry (js ''countSeries'') (js ''Combine''),
    entry (js ''constantLine'') (js ''Special'')
      \<lparr>pf_params := Some [param (js ''value'') (js ''int'')],
        pf_defaultParams := Some [PNum (Dec 10 0)]\<rparr>,
    entry (js ''cactiStyle'') (js ''Special''),
    entry (js ''keepLastValue'') (js ''Transform'')
      \<lparr>pf_params := Some [param (js ''n'') (js ''int'')],
        pf_defaultParams := Some [PNum (Dec 100 0)]\<rparr>]"

definition funcTable3 :: "partialFuncDef list" where
  "funcTable3 =
   [entry (js ''changed'') (js ''Special'')
      \<lparr>pf_params := Some [],
        pf_defaultParams := Some []\<rparr>,
    entry (js ''scale'') (js ''Transform'')
      \<lparr>pf_params := Some [param (js ''factor'') (js ''int'')],
        pf_defaultParams := Some [PNum (Dec 1 0)]\<rparr>,
    entry (js ''offset'') (js ''Transform'')
      \<lparr>pf_params := Some [param (js ''amount'') (js ''int'')],
        pf_defaultParams := Some [PNum (Dec 10 0)]\<rparr>,
    entry (js ''transformNull'') (js ''Transform'')
      \<lparr>pf_params := Some [param (js ''amount'') (js ''int'')],
        pf_defaultParams := Some [PNum (Dec 0 0)]\<rparr>,
    entry (js ''integral'') (js ''Transform''),
    entry (js ''derivative'') (js ''Transform''),
    entry (js ''nonNegativeDerivative'') (js ''Transform'')
      \<lparr>pf_params := Some [param (js ''max value or 0'') (js ''int'') \<lparr>p_optional := True\<rparr>],
        pf_defaultParams := Some [PStr (js '''')]\<rparr>,
    entry (js ''timeShift'') (js ''Transform'')
      \<lparr>pf_params := Some [param (js ''amount'') (js ''select'') \<lparr>p_options := Some (map PStr (map js [''1h'', ''6h'', ''12h'', ''1d'', ''2d'', ''7d'', ''14d'', ''30d'']))\<rparr>],
        pf_defaultParams := Some [PStr (js ''1d'')]\<rparr>,
    entry (js ''timeStack'') (js ''Transform'')
      \<lparr>pf_params := Some [param (js ''timeShiftUnit'') (js ''select'') \<lparr>p_options := Some (map PStr (map js [''1h'', ''6h'', ''12h'', ''1d'', ''2d'', ''7d'', ''14d'', ''30d'']))\<rparr>,
          param (js ''timeShiftStart'') (js ''int''),
          param (js ''timeShiftEnd'') (js ''int'')],
        pf_defaultParams := Some [PStr (js ''1d''), PNum (Dec 0 0), PNum (Dec 7 0)]\<rparr>,
    entry (js ''summarize'') (js ''Transform'')
      \<lparr>pf_params := Some [param (js ''interval'') (js ''string''),
          param (js ''func'') (js ''select'') \<lparr>p_options := Some (map PStr (map js [''sum'', ''avg'', ''min'', ''max'', ''last'']))\<rparr>,
          param (js ''alignToFrom'') (js ''boolean'') \<lparr>p_optional := True, p_options := Some (map PStr (map js [''false'', ''true'']))\<rparr>],
        pf_defaultParams := Some [PStr (js ''1h''), PStr (js ''sum''), PStr (js ''false'')]\<rparr>,
    entry (js ''smartSummarize'') (js ''Transform'')
      \<lparr>pf_params := Some [param (js ''interval'') (js ''string''),
          param (js ''func'') (js ''select'') \<lparr>p_options := Some (map PStr (map js [''sum'', ''avg'', ''min'', ''max'', ''last'']))\<rparr>],
        pf_defaultParams := Some [PStr (js ''1h''), PStr (js ''sum'')]\<rparr>,
    entry (js ''absolute'') (js ''Transform''),
    entry (js ''hitcount'') (js ''Transform'')
      \<lparr>pf_params := Some [param (js ''interval'') (js ''string'')],
        pf_defaultParams := Some [PStr (js ''10s'')]\<rparr>,
    entry (js ''log'') (js ''Transform'')
      \<lparr>pf_params := Some [param (js ''base'') (js ''int'')],
        pf_defaultParams := Some [PStr (js ''10'')]\<rparr>,
    entry (js ''averageAbove'') (js ''Filter Series'')
      \<lparr>pf_params := Some [param (js ''n'') (js ''int'')],
        pf_defaultParams := Some [PNum (Dec 25 0)]\<rparr>,
    entry (js ''averageBelow'') (js ''Filter Series'')
      \<lparr>pf_params := Some [param (js ''n'') (js ''int'')],
        pf_defaultParams := Some [PNum (Dec 25 0)]\<rparr>,
    entry (js ''currentAbove'') (js ''Filter Series'')
      \<lparr>pf_params := Some [param (js ''n'') (js ''int'')],
        pf_defaultParams := Some [PNum (Dec 25 0)]\<rparr>]"

definition funcTable4 :: "partialFuncDef list" where
  "funcTable4 =
   [entry (js ''currentBelow'') (js ''Filter Series'')
      \<lparr>pf_params := Some [param (js ''n'') (js ''int'')],
        pf_defaultParams := Some [PNum (Dec 25 0)]\<rparr>,
    entry (js ''maximumAbove'') (js ''Filter Series'')
      \<lparr>pf_params := Some [param (js ''value'') (js ''int'')],
        pf_defaultParams := Some [PNum (Dec 0 0)]\<rparr>,
    entry (js ''maximumBelow'') (js ''Filter Series'')
      \<lparr>pf_params := Some [param (js ''value'') (js ''int'')],
        pf_defaultParams := Some [PNum (Dec 0 0)]\<rparr>,
    entry (js ''minimumAbove'') (js ''Filter Series'')
      \<lparr>pf_params := Some [param (js ''value'') (js ''int'')],
        pf_defaultParams := Some [PNum (Dec 0 0)]\<rparr>,
    entry (js ''minimumBelow'') (js ''Filter Series'')
      \<lparr>pf_params := Some [param (js ''value'') (js ''int'')],
        pf_defaultParams := Some [PNum (Dec 0 0)]\<rparr>,
    entry (js ''limit'') (js ''Filter Series'')
      \<lparr>pf_params := Some [param (js ''n'') (js ''int'')],
        pf_defaultParams := Some [PNum (Dec 5 0)]\<rparr>,
    entry (js ''mostDeviant'') (js ''Filter Series'')
      \<lparr>pf_params := Some [param (js ''n'') (js ''int'')],
        pf_defaultParams := Some [PNum (Dec 10 0)]\<rparr>,
    entry (js ''exclude'') (js ''Filter Series'')
      \<lparr>pf_params := Some [param (js ''exclude'') (js ''string'')],
        pf_defaultParams := Some [PStr (js ''exclude'')]\<rparr>,
    entry (js ''highestCurrent'') (js ''Filter Series'')
      \<lparr>pf_params := Some [param (js ''count'') (js ''int'')],
        pf_defaultParams := Some [PNum (Dec 5 0)]\<rparr>,
    entry (js ''highestMax'') (js ''Filter Series'')
      \<lparr>pf_params := Some [param (js ''count'') (js ''int'')],
        pf_defaultParams := Some [PNum (Dec 5 0)]\<rparr>,
    entry (js ''lowestCurrent'') (js ''Filter Series'')
      \<lparr>pf_params := Some [param (js ''count'') (js ''int'')],
        pf_defaultParams := Some [PNum (Dec 5 0)]\<rparr>,
    entry (js ''movingAverage'') (js ''Calculate'')
      \<lparr>pf_params := Some [param (js ''windowSize'') (js ''int_or_interval'') \<lparr>p_options := Some (map PStr (map js [''5'', ''7'', ''10'', ''5min'', ''10min'', ''30min'', ''1hour'']))\<rparr>],
        pf_defaultParams := Some [PNum (Dec 10 0)]\<rparr>,
    entry (js ''movingMedian'') (js ''Calculate'')
      \<lparr>pf_params := Some [param (js ''windowSize'') (js ''int_or_interval'') \<lparr>p_options := Some (map PStr (map js [''5'', ''7'', ''10'', ''5min'', ''10min'', ''30min'', ''1hour'']))\<rparr>],
        pf_defaultParams := Some [PStr (js ''5'')]\<rparr>,
    entry (js ''stdev'') (js ''Calculate'')
      \<lparr>pf_params := Some [param (js ''n'') (js ''int''),
          param (js ''tolerance'') (js ''int'')],
        pf_defaultParams := Some [PNum (Dec 5 0), PNum (Dec 1 1)]\<rparr>,
    entry (js ''highestAverage'') (js ''Filter Series'')
      \<lparr>pf_params := Some [param (js ''count'') (js ''int'')],
        pf_defaultParams := Some [PNum (Dec 5 0)]\<rparr>,
    entry (js ''lowestAverage'') (js ''Filter Series'')
      \<lparr>pf_params := Some [param (js ''count'') (js ''int'')],
        pf_defaultParams := Some [PNum (Dec 5 0)]\<rparr>,
    entry (js ''removeAbovePercentile'') (js ''Filter Data'')
      \<lparr>pf_params := Some [param (js ''n'') (js ''int'')],
        pf_defaultParams := Some [PNum (Dec 5 0)]\<rparr>,
    entry (js ''removeAboveValue'') (js ''Filter Data'')
      \<lparr>pf_params := Some [param (js ''n'') (js ''int'')],
        pf_defaultParams := Some [PNum (Dec 5 0)]\<rparr>,
    entry (js ''removeBelowPercentile'') (js ''Filter Data'')
      \<lparr>pf_params := Some [param (js ''n'') (js ''int'')],
        pf_defaultParams := Some [PNum (Dec 5 0)]\<rparr>]"

definition funcTable5 :: "partialFuncDef list" where
  "funcTable5 =
   [entry (js ''removeBelowValue'') (js ''Filter Data'')
      \<lparr>pf_params := Some [param (js ''n'') (js ''int'')],
        pf_defaultParams := Some [PNum (Dec 5 0)]\<rparr>,
    entry (js ''useSeriesAbove'') (js ''Filter Series'')
      \<lparr>pf_params := Some [param (js ''value'') (js ''int''),
          param (js ''search'') (js ''string''),
          param (js ''replace'') (js ''string'')],
        pf_defaultParams := Some [PNum (Dec 0 0), PStr (js ''search''), PStr (js ''replace'')]\<rparr>,
    entry (js ''aggregateLine'') (js ''Calculate'')
      \<lparr>pf_params := Some [param (js ''func'') (js ''select'') \<lparr>p_options := Some (map PStr (map js [''sum'', ''avg'', ''min'', ''max'', ''last'']))\<rparr>],
        pf_defaultParams := Some [PStr (js ''avg'')],
        pf_version := Some (js ''1.0'')\<rparr>,
    entry (js ''averageOutsidePercentile'') (js ''Filter Series'')
      \<lparr>pf_params := Some [param (js ''n'') (js ''int'')],
        pf_defaultParams := Some [PNum (Dec 95 0)],
        pf_version := Some (js ''1.0'')\<rparr>,
    entry (js ''delay'') (js ''Transform'')
      \<lparr>pf_params := Some [param (js ''steps'') (js ''int'')],
        pf_defaultParams := Some [PNum (Dec 1 0)],
        pf_version := Some (js ''1.0'')\<rparr>,
    entry (js ''exponentialMovingAverage'') (js ''Calculate'')
      \<lparr>pf_params := Some [param (js ''windowSize'') (js ''int_or_interval'') \<lparr>p_options := Some (map PStr (map js [''5'', ''7'', ''10'', ''5min'', ''10min'', ''30min'', ''1hour'']))\<rparr>],
        pf_defaultParams := Some [PNum (Dec 10 0)],
        pf_version := Some (js ''1.0'')\<rparr>,
    entry (js ''fallbackSeries'') (js ''Special'')
      \<lparr>pf_params := Some [param (js ''fallback'') (js ''string'')],
        pf_defaultParams := Some [PStr (js ''constantLine(0)'')],
        pf_version := Some (js ''1.0'')\<rparr>,
    entry (js ''grep'') (js ''Filter Series'')
      \<lparr>pf_params := Some [param (js ''grep'') (js ''string'')],
        pf_defaultParams := Some [PStr (js ''grep'')],
        pf_version := Some (js ''1.0'')\<rparr>,
    entry (js ''groupByNodes'') (js ''Combine'')
      \<lparr>pf_params := Some [param (js ''function'') (js ''string'') \<lparr>p_options := Some (map PStr (map js [''sum'', ''avg'', ''maxSeries'']))\<rparr>,
          param (js ''node'') (js ''int'') \<lparr>p_options := Some (map (\<lambda>i. PNum (Dec i 0)) [0, 1, 2, 3, 4, 5, 6, 7, 8, 9, 10, 12]), p_multiple := True\<rparr>],
        pf_defaultParams := Some [PStr (js ''sum''), PNum (Dec 3 0)],
        pf_version := Some (js ''1.0'')\<rparr>,
    entry (js ''integralByInterval'') (js ''Transform'')
      \<lparr>pf_params := Some [param (js ''intervalUnit'') (js ''select'') \<lparr>p_options := Some (map PStr (map js [''1h'', ''6h'', ''12h'', ''1d'', ''2d'', ''7d'', ''14d'', ''30d'']))\<rparr>],
        pf_defaultParams := Some [PStr (js ''1d'')],
        pf_version := Some (js ''1.0'')\<rparr>,
    entry (js ''interpolate'') (js ''Transform'')
      \<lparr>pf_params := Some [param (js ''limit'') (js ''int'') \<lparr>p_optional := True\<rparr>],
        pf_defaultParams := Some [],
        pf_version := Some (js ''1.0'')\<rparr>,
    entry (js ''invert'') (js ''Transform'')
      \<lparr>pf_version := Some (js ''1.0'')\<rparr>,
    entry (js ''isNonNull'') (js ''Combine'')
      \<lparr>pf_version := Some (js ''1.0'')\<rparr>]"

definition funcTable6 :: "partialFuncDef list" where
  "funcTable6 =
   [entry (js ''linearRegression'') (js ''Calculate'')
      \<lparr>pf_params := Some [param (js ''startSourceAt'') (js ''select'') \<lparr>p_options := Some (map PStr (map js [''-1h'', ''-6h'', ''-12h'', ''-1d'', ''-2d'', ''-7d'', ''-14d'', ''-30d''])), p_optional := True\<rparr>,
          param (js ''endSourceAt'') (js ''select'') \<lparr>p_options := Some (map PStr (map js [''-1h'', ''-6h'', ''-12h'', ''-1d'', ''-2d'', ''-7d'', ''-14d'', ''-30d''])), p_optional := True\<rparr>],
        pf_defaultParams := Some [],
        pf_version := Some (js ''1.0'')\<rparr>,
    entry (js ''mapSeries'') (js ''Combine'')
      \<lparr>pf_shortName := Some (js ''map''),
        pf_params := Some [param (js ''node'') (js ''int'')],
        pf_defaultParams := Some [PNum (Dec 3 0)],
        pf_version := Some (js ''1.0'')\<rparr>,
    entry (js ''movingMin'') (js ''Calculate'')
      \<lparr>pf_params := Some [param (js ''windowSize'') (js ''int_or_interval'') \<lparr>p_options := Some (map PStr (map js [''5'', ''7'', ''10'', ''5min'', ''10min'', ''30min'', ''1hour'']))\<rparr>],
        pf_defaultParams := Some [PNum (Dec 10 0)],
        pf_version := Some (js ''1.0'')\<rparr>,
    entry (js ''movingMax'') (js ''Calculate'')
      \<lparr>pf_params := Some [param (js ''windowSize'') (js ''int_or_interval'') \<lparr>p_options := Some (map PStr (map js [''5'', ''7'', ''10'', ''5min'', ''10min'', ''30min'', ''1hour'']))\<rparr>],
        pf_defaultParams := Some [PNum (Dec 10 0)],
        pf_version := Some (js ''1.0'')\<rparr>,
    entry (js ''movingSum'') (js ''Calculate'')
      \<lparr>pf_params := Some [param (js ''windowSize'') (js ''int_or_interval'') \<lparr>p_options := Some (map PStr (map js [''5'', ''7'', ''10'', ''5min'', ''10min'', ''30min'', ''1hour'']))\<rparr>],
        pf_defaultParams := Some [PNum (Dec 10 0)],
        pf_version := Some (js ''1.0'')\<rparr>,
    entry (js ''multiplySeriesWithWildcards'') (js ''Combine'')
      \<lparr>pf_params := Some [param (js ''position'') (js ''int'') \<lparr>p_options := Some (map (\<lambda>i. PNum (Dec i 0)) [0, 1, 2, 3, 4, 5, 6, 7, 8, 9, 10, 12]), p_multiple := True\<rparr>],
        pf_defaultParams := Some [PNum (Dec 2 0)],
        pf_version := Some (js ''1.0'')\<rparr>,
    entry (js ''offsetToZero'') (js ''Transform'')
      \<lparr>pf_version := Some (js ''1.0'')\<rparr>,
    entry (js ''pow'') (js ''Transform'')
      \<lparr>pf_params := Some [param (js ''factor'') (js ''int'')],
        pf_defaultParams := Some [PNum (Dec 10 0)],
        pf_version := Some (js ''1.0'')\<rparr>,
    entry (js ''powSeries'') (js ''Transform'')
      \<lparr>pf_params := Some optionalSeriesRefArgs,
        pf_defaultParams := Some [PStr (js '''')],
        pf_version := Some (js ''1.0'')\<rparr>,
    entry (js ''reduceSeries'') (js ''Combine'')
      \<lparr>pf_shortName := Some (js ''reduce''),
        pf_params := Some [param (js ''function'') (js ''string'') \<lparr>p_options := Some (map PStr (map js [''asPercent'', ''diffSeries'', ''divideSeries'']))\<rparr>,
          param (js ''reduceNode'') (js ''int'') \<lparr>p_options := Some (map (\<lambda>i. PNum (Dec i 0)) [0, 1, 2, 3, 4, 5, 6, 7, 8, 9, 10, 11, 12, 13])\<rparr>,
          param (js ''reduceMatchers'') (js ''string'') \<lparr>p_multiple := True\<rparr>],
        pf_defaultParams := Some [PStr (js ''asPercent''), PNum (Dec 2 0), PStr (js ''used_bytes'')],
        pf_version := Some (js ''1.0'')\<rparr>,
    entry (js ''removeBetweenPercentile'') (js ''Filter Series'')
      \<lparr>pf_params := Some [param (js ''n'') (js ''int'')],
        pf_defaultParams := Some [PNum (Dec 95 0)],
        pf_version := Some (js ''1.0'')\<rparr>,
    entry (js ''removeEmptySeries'') (js ''Filter Series'')
      \<lparr>pf_version := Some (js ''1.0'')\<rparr>]"

definition funcTable7 :: "partialFuncDef list" where
  "funcTable7 =
   [entry (js ''squareRoot'') (js ''Transform'')
      \<lparr>pf_version := Some (js ''1.0'')\<rparr>,
    entry (js ''timeSlice'') (js ''Transform'')
      \<lparr>pf_params := Some [param (js ''startSliceAt'') (js ''select'') \<lparr>p_options := Some (map PStr (map js [''-1h'', ''-6h'', ''-12h'', ''-1d'', ''-2d'', ''-7d'', ''-14d'', ''-30d'']))\<rparr>,
          param (js ''endSliceAt'') (js ''select'') \<lparr>p_options := Some (map PStr (map js [''-1h'', ''-6h'', ''-12h'', ''-1d'', ''-2d'', ''-7d'', ''-14d'', ''-30d''])), p_optional := True\<rparr>],
        pf_defaultParams := Some [PStr (js ''-1h'')],
        pf_version := Some (js ''1.0'')\<rparr>,
    entry (js ''weightedAverage'') (js ''Combine'')
      \<lparr>pf_params := Some [param (js ''other'') (js ''value_or_series'') \<lparr>p_optional := True\<rparr>,
          param (js ''node'') (js ''int'') \<lparr>p_options := Some (map (\<lambda>i. PNum (Dec i 0)) [0, 1, 2, 3, 4, 5, 6, 7, 8, 9, 10, 12])\<rparr>],
        pf_defaultParams := Some [PStr (js ''#A''), PNum (Dec 4 0)],
        pf_version := Some (js ''1.0'')\<rparr>,
    entry (js ''seriesByTag'') (js ''Special'')
      \<lparr>pf_params := Some [param (js ''tagExpression'') (js ''string'') \<lparr>p_multiple := True\<rparr>],
        pf_version := Some (js ''1.1'')\<rparr>,
    entry (js ''groupByTags'') (js ''Combine'')
      \<lparr>pf_params := Some [param (js ''function'') (js ''string'') \<lparr>p_options := Some (map PStr (map js [''sum'', ''avg'', ''maxSeries'']))\<rparr>,
          param (js ''tag'') (js ''string'') \<lparr>p_multiple := True\<rparr>],
        pf_defaultParams := Some [PStr (js ''sum''), PStr (js ''tag'')],
        pf_version := Some (js ''1.1'')\<rparr>,
    entry (js ''aliasByTags'') (js ''Alias'')
      \<lparr>pf_params := Some [param (js ''tag'') (js ''string'') \<lparr>p_multiple := True\<rparr>],
        pf_defaultParams := Some [PStr (js ''tag'')],
        pf_version := Some (js ''1.1'')\<rparr>]"

definition funcTable :: "partialFuncDef list" where
  "funcTable = funcTable1 @ funcTable2 @ funcTable3 @ funcTable4 @ funcTable5 @ funcTable6 @ funcTable7"

lemmas funcTable_defs = funcTable_def funcTable1_def funcTable2_def funcTable3_def funcTable4_def funcTable5_def funcTable6_def funcTable7_def

end
