(* ===== verification/Gfunc.thy ===== *)
theory Gfunc
  imports GfuncTable
begin

text \<open>
  \<open>gfunc.ts\<close>: the registry of Graphite functions and the function instances of a query.
  \<open>addFuncDef\<close> and \<open>index\<close> build the registry from the table of theory \<open>GfuncTable\<close>;
  \<open>getFuncDef\<close>, \<open>getFuncDefs\<close> and \<open>parseFuncDefs\<close> look functions up, select them by Graphite
  version, and read the definitions a server reports; \<open>funcInstance\<close> is the class
  \<open>FuncInstance\<close> with its constructor, \<open>render\<close>, \<open>updateParam\<close> and \<open>updateText\<close>.

  An instance is an object the editor passes around by reference, so it carries its identity in
  \<open>fi_id\<close>.  The interpolation of template variables in \<open>render\<close> is the caller's function
  \<open>replaceVariables\<close>, as in the source.
\<close>

subsection \<open>The registry\<close>

definition completeDef :: "partialFuncDef \<Rightarrow> funcDef" where
  "completeDef d =
     \<lparr>f_name = pf_name d,
      f_params = (case pf_params d of None \<Rightarrow> [] | Some ps \<Rightarrow> ps),
      f_defaultParams = (case pf_defaultParams d of None \<Rightarrow> [] | Some vs \<Rightarrow> vs),
      f_category = Some (pf_category d), f_shortName = pf_shortName d, f_fake = pf_fake d,
      f_version = pf_version d, f_description = None, f_unknown = False\<rparr>"

definition addFuncDef :: "partialFuncDef \<Rightarrow> funcDefs \<Rightarrow> funcDefs" where
  "addFuncDef d idx =
     (let fd = completeDef d;
          idx' = objSet (pf_name d) fd idx
      in case pf_shortName d of
           None \<Rightarrow> idx'
         | Some s \<Rightarrow> if s = [] then idx' else objSet s fd idx')"

definition runAddFuncDefs :: "partialFuncDef list \<Rightarrow> funcDefs" where
  "runAddFuncDefs ds = fold addFuncDef ds []"

definition index :: funcDefs where
  "index = runAddFuncDefs funcTable"

definition isVersionRelatedFunction :: "jsstr option \<Rightarrow> jsstr \<Rightarrow> bool" where
  "isVersionRelatedFunction version graphiteVersion =
     (case version of None \<Rightarrow> True
      | Some v \<Rightarrow> v = [] \<or> isVersionGtOrEq graphiteVersion v)"

definition unknownFuncDef :: "jsstr \<Rightarrow> funcDef" where
  "unknownFuncDef name =
     \<lparr>f_name = name, f_params = [param [] [] \<lparr>p_multiple := True\<rparr>], f_defaultParams = [PStr []],
      f_category = None, f_shortName = None, f_fake = False, f_version = None,
      f_description = None, f_unknown = True\<rparr>"

definition getFuncDef :: "jsstr \<Rightarrow> funcDefs option \<Rightarrow> funcDef" where
  "getFuncDef name idx =
     (case objGet (case idx of None \<Rightarrow> index | Some i \<Rightarrow> i) name of
        None \<Rightarrow> unknownFuncDef name
      | Some fd \<Rightarrow> fd)"

definition selectFuncDef :: "jsstr \<Rightarrow> funcDef \<Rightarrow> funcDefs \<Rightarrow> funcDefs" where
  "selectFuncDef graphiteVersion fd funcs =
     (if isVersionRelatedFunction (f_version fd) graphiteVersion
      then objSet (f_name fd)
             (fd\<lparr>f_params := filter (\<lambda>p. isVersionRelatedFunction (p_version p) graphiteVersion)
                              (f_params fd)\<rparr>) funcs
      else funcs)"

definition getFuncDefs :: "jsstr \<Rightarrow> funcDefs option \<Rightarrow> funcDefs" where
  "getFuncDefs graphiteVersion idx =
     fold (selectFuncDef graphiteVersion) (map snd (case idx of None \<Rightarrow> index | Some i \<Rightarrow> i)) []"

subsection \<open>Function instances\<close>

record funcInstance =
  fi_id :: nat
  fi_def :: funcDef
  fi_params :: "pval list"
  fi_text :: jsstr
  fi_added :: bool
  fi_hidden :: bool

text \<open>The text of an instance: \<open>updateText\<close>.\<close>

definition instanceText :: "funcDef \<Rightarrow> pval list \<Rightarrow> jsstr" where
  "instanceText fd ps =
     (if ps = [] then f_name fd @ js ''()''
      else f_name fd @ js ''('' @ joinParams ps @ js '')'')"

definition updateText :: "funcInstance \<Rightarrow> funcInstance" where
  "updateText f = f\<lparr>fi_text := instanceText (fi_def f) (fi_params f)\<rparr>"

definition newFuncInstance :: "nat \<Rightarrow> funcDef \<Rightarrow> bool \<Rightarrow> funcInstance" where
  "newFuncInstance ident fd withDefaultParams =
     updateText
       \<lparr>fi_id = ident, fi_def = fd,
        fi_params = (if withDefaultParams then f_defaultParams fd else []),
        fi_text = [], fi_added = False, fi_hidden = False\<rparr>"

text \<open>\<open>createFuncInstance\<close> takes a definition, or the name of one to look up in \<open>idx\<close>.\<close>

datatype funcRef = ByName jsstr | ByDef funcDef

definition createFuncInstance :: "nat \<Rightarrow> funcRef \<Rightarrow> bool \<Rightarrow> funcDefs option \<Rightarrow> funcInstance" where
  "createFuncInstance ident r withDefaultParams idx =
     newFuncInstance ident (case r of ByName n \<Rightarrow> getFuncDef n idx | ByDef fd \<Rightarrow> fd) withDefaultParams"

definition lastMultiple :: "funcDef \<Rightarrow> bool" where
  "lastMultiple fd = (f_params fd \<noteq> [] \<and> p_multiple (last (f_params fd)))"

definition paramType :: "funcDef \<Rightarrow> nat \<Rightarrow> jsstr option" where
  "paramType fd i =
     (if i < length (f_params fd) then Some (p_type (f_params fd ! i))
      else if lastMultiple fd then Some (p_type (last (f_params fd)))
      else None)"

definition neverQuoted :: "jsstr list" where
  "neverQuoted = map js [''value_or_series'', ''boolean'', ''int'', ''float'', ''node'', ''int_or_infinity'']"

definition maybeQuoted :: "jsstr list" where
  "maybeQuoted = map js [''int_or_interval'', ''node_or_tag'']"

text \<open>\<open>isFinite(+v)\<close>\<close>

definition plusFinite :: "pval \<Rightarrow> bool" where
  "plusFinite v =
     (case v of PStr s \<Rightarrow> isFinite (toNumber s) | PNum n \<Rightarrow> isFinite n | PBool _ \<Rightarrow> True
      | PUndef \<Rightarrow> False | PNull \<Rightarrow> True)"

definition interpolate :: "(jsstr \<Rightarrow> jsstr) \<Rightarrow> pval \<Rightarrow> pval" where
  "interpolate replaceVariables v = (case v of PStr s \<Rightarrow> PStr (replaceVariables s) | _ \<Rightarrow> v)"

definition quoteParam :: "(jsstr \<Rightarrow> jsstr) \<Rightarrow> jsstr option \<Rightarrow> pval \<Rightarrow> pval" where
  "quoteParam replaceVariables ty v =
     (if (case ty of None \<Rightarrow> False | Some t \<Rightarrow> t \<in> set neverQuoted) then v
      else if (case ty of None \<Rightarrow> False | Some t \<Rightarrow> t \<in> set maybeQuoted)
              \<and> plusFinite (interpolate replaceVariables v)
           then PStr (pvalJoinStr v)
      else PStr ([39] @ pvalStr v @ [39]))"

definition popBlank :: "pval list \<Rightarrow> pval list" where
  "popBlank ps = rev (dropWhile (\<lambda>v. v = PStr []) (rev ps))"

definition renderParams :: "(jsstr \<Rightarrow> jsstr) \<Rightarrow> funcInstance \<Rightarrow> pval list" where
  "renderParams replaceVariables f =
     map (\<lambda>(i, v). quoteParam replaceVariables (paramType (fi_def f) i) v) (enumerate 0 (fi_params f))"

definition render :: "(jsstr \<Rightarrow> jsstr) \<Rightarrow> funcInstance \<Rightarrow> jsstr \<Rightarrow> jsstr" where
  "render replaceVariables f metricExp =
     (let str = f_name (fi_def f) @ js ''('';
          parameters = popBlank (renderParams replaceVariables f);
          parameters' = (if metricExp = [] then parameters else PStr metricExp # parameters)
      in str @ joinParams parameters' @ js '')'')"

definition hasMultipleParamsInString :: "funcInstance \<Rightarrow> jsstr \<Rightarrow> nat \<Rightarrow> bool" where
  "hasMultipleParamsInString f strValue i =
     (if 44 \<notin> set strValue then False
      else if i + 1 < length (f_params (fi_def f)) \<and> p_optional (f_params (fi_def f) ! (i + 1)) then True
      else if length (f_params (fi_def f)) \<le> i + 1 \<and> lastMultiple (fi_def f) then True
      else False)"

text \<open>
  \<open>updateParam\<close> on a string that is not split, and on one that is: the source calls itself on each
  part, and a part holds no comma, so that no part is split again.
\<close>

definition updateParamSingle :: "jsstr \<Rightarrow> nat \<Rightarrow> funcInstance \<Rightarrow> funcInstance" where
  "updateParamSingle strValue i f =
     updateText
       (f\<lparr>fi_params :=
            (if strValue = [] \<and> (length (f_params (fi_def f)) \<le> i
                                \<or> p_optional (f_params (fi_def f) ! i))
             then snd (splice (fi_params f) (int i) 1 [])
             else arraySet PUndef (fi_params f) i (PStr strValue))\<rparr>)"

definition updateParam :: "jsstr \<Rightarrow> nat \<Rightarrow> funcInstance \<Rightarrow> funcInstance" where
  "updateParam strValue i f =
     (if hasMultipleParamsInString f strValue i
      then fold (\<lambda>(idx, partVal). updateParamSingle (trim partVal) (i + idx))
             (enumerate 0 (splitOn 44 strValue)) f
      else updateParamSingle strValue i f)"

lemmas [js_defs] = completeDef_def addFuncDef_def runAddFuncDefs_def isVersionRelatedFunction_def
  unknownFuncDef_def getFuncDef_def selectFuncDef_def getFuncDefs_def instanceText_def updateText_def
  newFuncInstance_def createFuncInstance_def lastMultiple_def paramType_def neverQuoted_def
  maybeQuoted_def plusFinite_def interpolate_def quoteParam_def popBlank_def renderParams_def
  render_def hasMultipleParamsInString_def updateParamSingle_def updateParam_def

subsection \<open>Definitions reported by a server: \<open>parseFuncDefs\<close>\<close>

text \<open>
  The JSON of Graphite's \<open>/functions\<close> endpoint.  \<open>rp_default\<close> is \<open>None\<close> where the property is
  absent; the flags are the truth values of the properties.
\<close>

record rawParam =
  rp_name :: jsstr
  rp_type :: jsstr
  rp_required :: bool
  rp_multiple :: bool
  rp_default :: "pval option"
  rp_options :: "pval list option"
  rp_suggestions :: "pval list option"

record rawFuncDef =
  rf_name :: jsstr
  rf_description :: "jsstr option"
  rf_group :: jsstr
  rf_params :: "rawParam list"

text \<open>The pattern \<open>/^seriesLists?$/\<close> on the type of the first parameter, if there is one.\<close>

definition firstIsSeriesList :: "rawFuncDef \<Rightarrow> bool" where
  "firstIsSeriesList d =
     (case rf_params d of [] \<Rightarrow> False
      | p # _ \<Rightarrow> rp_type p \<in> {js ''seriesList'', js ''seriesLists''})"

definition rawParams :: "rawFuncDef \<Rightarrow> rawParam list" where
  "rawParams d =
     (if firstIsSeriesList d
      then (case rf_params d of
              p # ps \<Rightarrow> if rp_multiple p then p\<lparr>rp_required := False\<rparr> # ps else ps
            | [] \<Rightarrow> [])
      else rf_params d)"

definition rawDefault :: "rawParam \<Rightarrow> pval" where
  "rawDefault p =
     (case rp_default p of
        Some v \<Rightarrow> if v = PNum (Infinity False) then PStr (js ''inf'') else PStr (pvalJoinStr v)
      | None \<Rightarrow>
          (case rp_suggestions p of
             Some (s # _) \<Rightarrow> PStr (pvalJoinStr s)
           | _ \<Rightarrow> PStr []))"

definition nodeOptions :: "pval list" where
  "nodeOptions = map PStr (map js [''0'', ''1'', ''2'', ''3'', ''4'', ''5'', ''6'', ''7'', ''8'', ''9'',
     ''10'', ''11'', ''12''])"

text \<open>The type and the options the raw type of a parameter stands for.\<close>

definition rawTypeOptions :: "jsstr \<Rightarrow> jsstr \<times> pval list option" where
  "rawTypeOptions t =
     (if t = js ''boolean'' then (js ''boolean'', Some [PStr (js ''true''), PStr (js ''false'')])
      else if t = js ''integer'' then (js ''int'', None)
      else if t = js ''float'' then (js ''float'', None)
      else if t = js ''node'' then (js ''node'', Some nodeOptions)
      else if t = js ''nodeOrTag'' then (js ''node_or_tag'', Some (PStr (js ''name'') # nodeOptions))
      else if t = js ''intOrInterval'' then (js ''int_or_interval'', None)
      else if t = js ''seriesList'' then (js ''value_or_series'', None)
      else if t = js ''intOrInf'' then (js ''int_or_infinity'', None)
      else (js ''string'', None))"

definition parseRawParam :: "rawParam \<Rightarrow> paramDef" where
  "parseRawParam p =
     (let (ty, opts) = rawTypeOptions (rp_type p);
          toStrings = map (\<lambda>v. PStr (pvalJoinStr v))
      in \<lparr>p_name = rp_name p, p_type = ty,
          p_options = (case rp_options p of Some os \<Rightarrow> Some (toStrings os)
                       | None \<Rightarrow> (case rp_suggestions p of Some ss \<Rightarrow> Some (toStrings ss) | None \<Rightarrow> opts)),
          p_multiple = rp_multiple p, p_optional = \<not> rp_required p, p_version = None\<rparr>)"

text \<open>The rewriting of a description's markup is the argument \<open>tidy\<close>.\<close>

definition parseFuncDef :: "(jsstr \<Rightarrow> jsstr) \<Rightarrow> rawFuncDef \<Rightarrow> funcDef" where
  "parseFuncDef tidy d =
     \<lparr>f_name = rf_name d, f_params = map parseRawParam (rawParams d),
      f_defaultParams = map rawDefault (rawParams d), f_category = Some (rf_group d),
      f_shortName = None, f_fake = \<not> firstIsSeriesList d, f_version = None,
      f_description = (case rf_description d of None \<Rightarrow> None
                       | Some s \<Rightarrow> if s = [] then Some s else Some (tidy s)),
      f_unknown = False\<rparr>"

definition parseFuncDefs :: "(jsstr \<Rightarrow> jsstr) \<Rightarrow> (jsstr, rawFuncDef) obj \<Rightarrow> funcDefs" where
  "parseFuncDefs tidy rawDefs =
     fold (\<lambda>(funcName, d) funcDefs.
             if rf_group d = js ''Graph'' then funcDefs
             else objSet funcName (parseFuncDef tidy d) funcDefs) rawDefs []"

lemmas [js_defs] = firstIsSeriesList_def rawParams_def rawDefault_def nodeOptions_def
  rawTypeOptions_def parseRawParam_def parseFuncDef_def parseFuncDefs_def

end
