(* ===== verification/GfuncProps.thy ===== *)
theory GfuncProps
  imports Gfunc
begin

text \<open>
  What the function registry and the function instances guarantee: every registered name and every
  alias resolves to its own definition, selection by version is exactly a filter of the table and
  grows with the version, the text of an instance always shows its parameters, a comma-separated
  value is spread over the parameters it reaches, and definitions read from a server keep parameters
  and defaults in step.
\<close>

subsection \<open>The registry\<close>

definition entryNames :: "partialFuncDef \<Rightarrow> jsstr list" where
  "entryNames d = pf_name d # (case pf_shortName d of None \<Rightarrow> [] | Some s \<Rightarrow> [s])"

definition tableNames :: "partialFuncDef list \<Rightarrow> jsstr list" where
  "tableNames ds = concat (map entryNames ds)"

lemma funcTable_names_distinct: "distinct (tableNames funcTable)"
  by (simp add: tableNames_def entryNames_def funcTable_defs entry_def)

lemma funcTable_shape:
  "list_all (\<lambda>d. pf_shortName d \<noteq> Some [] \<and>
     (case pf_params d of None \<Rightarrow> True | Some ps \<Rightarrow> list_all (\<lambda>p. p_version p = None) ps)) funcTable"
  by (simp add: funcTable_defs entry_def param_def optionalSeriesRefArgs_def)

lemma objGet_addFuncDef:
  assumes "pf_shortName d \<noteq> Some []"
  shows "objGet (addFuncDef d idx) n =
     (if n \<in> set (entryNames d) then Some (completeDef d) else objGet idx n)"
  using assms by (auto simp: addFuncDef_def entryNames_def Let_def arr_simps split: option.splits)

lemma objGet_fold_addFuncDef:
  assumes "distinct (tableNames ds)" and "list_all (\<lambda>d. pf_shortName d \<noteq> Some []) ds"
  shows "objGet (fold addFuncDef ds idx) n =
     (case find (\<lambda>d. n \<in> set (entryNames d)) ds of
        Some d \<Rightarrow> Some (completeDef d) | None \<Rightarrow> objGet idx n)"
  using assms
proof (induction ds arbitrary: idx)
  case Nil
  then show ?case by simp
next
  case (Cons d ds)
  have "n \<in> set (entryNames d) \<Longrightarrow> find (\<lambda>d. n \<in> set (entryNames d)) ds = None"
    using Cons.prems(1) by (auto simp: find_None_iff tableNames_def)
  with Cons show ?case
    by (auto simp: objGet_addFuncDef tableNames_def split: option.splits)
qed

lemma objGet_index:
  "objGet index n =
     map_option completeDef (find (\<lambda>d. n \<in> set (entryNames d)) funcTable)"
proof -
  have "list_all (\<lambda>d. pf_shortName d \<noteq> Some []) funcTable"
    using funcTable_shape by (simp add: list_all_iff)
  then show ?thesis
    using objGet_fold_addFuncDef [OF funcTable_names_distinct, of "[]" n]
    by (simp add: index_def runAddFuncDefs_def split: option.splits)
qed

lemma getFuncDef_registry:
  "getFuncDef n None =
     (case find (\<lambda>d. pf_name d = n \<or> pf_shortName d = Some n) funcTable of
        Some d \<Rightarrow> completeDef d
      | None \<Rightarrow> unknownFuncDef n)"
proof -
  have "(\<lambda>d. n \<in> set (entryNames d)) = (\<lambda>d. pf_name d = n \<or> pf_shortName d = Some n)"
    by (auto simp: entryNames_def fun_eq_iff split: option.splits)
  then show ?thesis
    by (simp add: getFuncDef_def objGet_index split: option.splits)
qed

text \<open>
  A name resolves in the registry to the definition of the one \<open>addFuncDef\<close> call that
  registers it under its name or its short name, with missing parameter lists filled in as empty;
  no call overwrites another's entry, and a name no call registers gives the catch-all definition
  with one open-ended parameter, marked unknown.
\<close>

theorem registry_lookup:
  "getFuncDef n None =
     (case find (\<lambda>d. pf_name d = n \<or> pf_shortName d = Some n) funcTable of
        Some d \<Rightarrow> completeDef d
      | None \<Rightarrow> unknownFuncDef n)"
  by (rule getFuncDef_registry)

subsection \<open>Selection by version\<close>

lemma objGet_selectFuncDefs:
  "objGet (fold (selectFuncDef v) fds funcs) n =
     (case find (\<lambda>fd. f_name fd = n \<and> isVersionRelatedFunction (f_version fd) v) (rev fds) of
        Some fd \<Rightarrow> Some (fd\<lparr>f_params := filter (\<lambda>p. isVersionRelatedFunction (p_version p) v)
                                              (f_params fd)\<rparr>)
      | None \<Rightarrow> objGet funcs n)"
proof (induction fds rule: rev_induct)
  case Nil
  then show ?case by simp
next
  case (snoc fd fds)
  then show ?case
    by (auto simp: selectFuncDef_def arr_simps split: option.splits)
qed

lemma objKeysOk_addFuncDef: "objKeysOk idx \<Longrightarrow> objKeysOk (addFuncDef d idx)"
  by (auto simp: addFuncDef_def Let_def arr_simps split: option.splits)

lemma objKeysOk_index: "objKeysOk index"
proof -
  have "objKeysOk (fold addFuncDef ds idx)" if "objKeysOk idx" for ds idx
    using that by (induction ds arbitrary: idx) (auto simp: objKeysOk_addFuncDef)
  then show ?thesis
    by (simp add: index_def runAddFuncDefs_def objKeysOk_def)
qed

lemma objValues: "objKeysOk m \<Longrightarrow> v \<in> set (map snd m) \<longleftrightarrow> (\<exists>k. objGet m k = Some v)"
  by (force simp: objKeysOk_def objGet_def)

lemma find_unique:
  assumes "x \<in> set xs" "P x" "\<And>y. y \<in> set xs \<Longrightarrow> P y \<Longrightarrow> y = x"
  shows "find P xs = Some x"
proof (cases "find P xs")
  case None
  with assms(1,2) show ?thesis by (simp add: find_None_iff)
next
  case (Some y)
  then have "y \<in> set xs" "P y" by (auto simp: find_Some_iff)
  with assms(3) Some show ?thesis by simp
qed

lemma entry_unique:
  assumes "distinct (tableNames ds)" "d \<in> set ds" "d' \<in> set ds"
    and "n \<in> set (entryNames d)" "n \<in> set (entryNames d')"
  shows "d = d'"
  using assms(1-3)
proof (induction ds)
  case Nil
  then show ?case by simp
next
  case (Cons e ds)
  have split: "set (entryNames e) \<inter> set (tableNames ds) = {}" "distinct (tableNames ds)"
    using Cons.prems(1) by (simp_all add: tableNames_def)
  have later: "n \<notin> set (entryNames e)" if "x \<in> set ds" "n \<in> set (entryNames x)" for x
    using that split(1) by (auto simp: tableNames_def)
  consider "d = e" "d' = e" | "d = e" "d' \<in> set ds" | "d \<in> set ds" "d' = e"
    | "d \<in> set ds" "d' \<in> set ds"
    using Cons.prems(2,3) by auto
  then show ?case
    using later [of d] later [of d'] assms(4,5) Cons.IH split(2) by cases simp_all
qed

lemmas table_entry_unique = entry_unique [OF funcTable_names_distinct]

lemma index_value: "fd \<in> set (map snd index) \<longleftrightarrow> (\<exists>d \<in> set funcTable. fd = completeDef d)"
proof -
  have "objGet index n = Some fd \<Longrightarrow> \<exists>d \<in> set funcTable. fd = completeDef d" for n
    by (metis (no_types, lifting) find_Some_iff map_option_eq_Some nth_mem objGet_index)
  moreover have "objGet index (pf_name d) = Some (completeDef d)" if "d \<in> set funcTable" for d
  proof -
    have "find (\<lambda>d'. pf_name d \<in> set (entryNames d')) funcTable = Some d"
      using that by (rule find_unique) (auto simp: entryNames_def intro: table_entry_unique [OF _ that])
    then show ?thesis by (simp add: objGet_index)
  qed
  ultimately show ?thesis
    using objValues [OF objKeysOk_index, of fd] by blast
qed

lemma f_completeDef [simp]:
  "f_name (completeDef d) = pf_name d" "f_version (completeDef d) = pf_version d"
  by (simp_all add: completeDef_def)

lemma completeDef_params_unversioned:
  assumes "d \<in> set funcTable"
  shows "(completeDef d)\<lparr>f_params := filter (\<lambda>p. isVersionRelatedFunction (p_version p) v)
           (f_params (completeDef d))\<rparr> = completeDef d"
proof -
  have "\<forall>p \<in> set (f_params (completeDef d)). p_version p = None"
    using funcTable_shape assms
    by (cases "pf_params d") (auto simp: list_all_iff completeDef_def)
  then have "filter (\<lambda>p. isVersionRelatedFunction (p_version p) v) (f_params (completeDef d))
      = f_params (completeDef d)"
    by (auto simp: filter_id_conv isVersionRelatedFunction_def)
  then show ?thesis by (cases "completeDef d") simp
qed

lemma objGet_getFuncDefs:
  "objGet (getFuncDefs v None) n =
     (case find (\<lambda>d. pf_name d = n) funcTable of
        None \<Rightarrow> None
      | Some d \<Rightarrow> if isVersionRelatedFunction (pf_version d) v then Some (completeDef d) else None)"
proof -
  let ?P = "\<lambda>fd. f_name fd = n \<and> isVersionRelatedFunction (f_version fd) v"
  have get: "objGet (getFuncDefs v None) n =
     (case find ?P (rev (map snd index)) of
        Some fd \<Rightarrow> Some (fd\<lparr>f_params := filter (\<lambda>p. isVersionRelatedFunction (p_version p) v)
                                              (f_params fd)\<rparr>)
      | None \<Rightarrow> None)"
    by (simp add: getFuncDefs_def objGet_selectFuncDefs cong: option.case_cong)
  have same: "d = d'" if "d \<in> set funcTable" "d' \<in> set funcTable" "pf_name d = pf_name d'" for d d'
    using that table_entry_unique [of d d' "pf_name d"] by (simp add: entryNames_def)
  show ?thesis
  proof (cases "\<exists>d \<in> set funcTable. pf_name d = n")
    case True
    then obtain d where d: "d \<in> set funcTable" "pf_name d = n" by blast
    then have f: "find (\<lambda>d. pf_name d = n) funcTable = Some d"
      by (intro find_unique) (auto intro: same)
    show ?thesis
    proof (cases "isVersionRelatedFunction (pf_version d) v")
      case True
      have "find ?P (rev (map snd index)) = Some (completeDef d)"
      proof (rule find_unique)
        show "completeDef d \<in> set (rev (map snd index))"
          using d(1) by (auto simp: index_value simp del: set_map)
        show "?P (completeDef d)" using d(2) True by simp
        show "y = completeDef d" if "y \<in> set (rev (map snd index))" "?P y" for y
        proof -
          from that(1) obtain d' where d': "d' \<in> set funcTable" "y = completeDef d'"
            by (auto simp: index_value simp del: set_map)
          with that(2) d have "d' = d" by (intro same) simp_all
          with d'(2) show ?thesis by simp
        qed
      qed
      with f True d show ?thesis
        by (simp add: get completeDef_params_unversioned)
    next
      case False
      have "find ?P (rev (map snd index)) = None"
        using d(1) d(2) False same [OF _ d(1)]
        by (fastforce simp: find_None_iff index_value simp del: set_map)
      with f False show ?thesis by (simp add: get)
    qed
  next
    case False
    then have "find (\<lambda>d. pf_name d = n) funcTable = None"
      and "find ?P (rev (map snd index)) = None"
      by (auto simp: find_None_iff index_value simp del: set_map)
    then show ?thesis by (simp add: get)
  qed
qed

text \<open>
  \<open>getFuncDefs\<close> on the built-in registry keeps exactly the functions whose version is
  absent or not above the Graphite version, each unchanged and under its full name.
\<close>

theorem getFuncDefs_selects:
  "objGet (getFuncDefs v None) n =
     (case find (\<lambda>d. pf_name d = n) funcTable of
        None \<Rightarrow> None
      | Some d \<Rightarrow> if isVersionRelatedFunction (pf_version d) v then Some (completeDef d) else None)"
  by (rule objGet_getFuncDefs)

lemma isVersionRelatedFunction_mono:
  "isVersionGtOrEq new old \<Longrightarrow> isVersionRelatedFunction ver old \<Longrightarrow> isVersionRelatedFunction ver new"
  by (auto simp: isVersionRelatedFunction_def intro: versions.geq_trans split: option.splits)

text \<open>
  Upgrading Graphite loses no function: what is available at a version is available,
  with the same definition, at every version not below it.
\<close>

theorem getFuncDefs_mono:
  assumes "isVersionGtOrEq new old" and "objGet (getFuncDefs old None) n = Some fd"
  shows "objGet (getFuncDefs new None) n = Some fd"
  using assms by (auto simp: objGet_getFuncDefs isVersionRelatedFunction_mono
      split: option.splits if_splits)

theorem getFuncDefs_mono_witness:
  "objGet (getFuncDefs (js ''1.1'') None) (js ''groupByTags'') \<noteq> None
   \<and> objGet (getFuncDefs (js ''1.1.3'') None) (js ''groupByTags'')
     = objGet (getFuncDefs (js ''1.1'') None) (js ''groupByTags'')"
proof -
  have found: "find (\<lambda>d. pf_name d = js ''groupByTags'') funcTable = Some
      (entry (js ''groupByTags'') (js ''Combine'')
        \<lparr>pf_params := Some [param (js ''function'') (js ''string'')
            \<lparr>p_options := Some (map PStr (map js [''sum'', ''avg'', ''maxSeries'']))\<rparr>,
          param (js ''tag'') (js ''string'') \<lparr>p_multiple := True\<rparr>],
        pf_defaultParams := Some [PStr (js ''sum''), PStr (js ''tag'')],
        pf_version := Some (js ''1.1'')\<rparr>)"
    by (simp add: funcTable_defs entry_def)
  have "isVersionRelatedFunction (Some (js ''1.1'')) (js ''1.1'')"
    by (simp add: isVersionRelatedFunction_def versions.geq_refl)
  then obtain fd where fd: "objGet (getFuncDefs (js ''1.1'') None) (js ''groupByTags'') = Some fd"
    by (simp add: objGet_getFuncDefs found)
  have "isVersionGtOrEq (js ''1.1.3'') (js ''1.1'')"
    by (simp add: js_defs)
  from getFuncDefs_mono [OF this fd] fd show ?thesis by simp
qed

lemma shortName_not_name:
  assumes "d \<in> set funcTable" and "pf_shortName d = Some s"
  shows "find (\<lambda>d. pf_name d = s) funcTable = None"
proof (rule ccontr)
  assume "find (\<lambda>d. pf_name d = s) funcTable \<noteq> None"
  then obtain d' where d': "d' \<in> set funcTable" "pf_name d' = s"
    by (auto simp: find_None_iff)
  with assms have "d' = d"
    by (intro table_entry_unique [of d' d s]) (simp_all add: entryNames_def)
  with d' assms have "\<not> distinct (entryNames d)"
    by (simp add: entryNames_def)
  moreover have "distinct (entryNames d)"
  proof -
    have "distinct (tableNames ds) \<Longrightarrow> d \<in> set ds \<Longrightarrow> distinct (entryNames d)" for ds
      by (induction ds) (auto simp: tableNames_def)
    with funcTable_names_distinct assms(1) show ?thesis by blast
  qed
  ultimately show False by contradiction
qed

text \<open>
  A short name (\<open>sum\<close>, \<open>avg\<close>, \<open>max\<close>, ...) resolves in the registry, but not in a
  selection by version, which is what the data source looks functions up in: there it is an unknown
  function.
\<close>

theorem shortName_lost_by_selection:
  assumes "d \<in> set funcTable" and "pf_shortName d = Some s"
  shows "getFuncDef s None = completeDef d \<and>
    getFuncDef s (Some (getFuncDefs v None)) = unknownFuncDef s"
proof
  have "find (\<lambda>d. pf_name d = s \<or> pf_shortName d = Some s) funcTable = Some d"
  proof (rule find_unique)
    show "d \<in> set funcTable" "pf_name d = s \<or> pf_shortName d = Some s" using assms by simp_all
    show "y = d" if "y \<in> set funcTable" "pf_name y = s \<or> pf_shortName y = Some s" for y
      using that assms by (intro table_entry_unique [of y d s]) (auto simp: entryNames_def)
  qed
  then show "getFuncDef s None = completeDef d" by (simp add: getFuncDef_registry)
  show "getFuncDef s (Some (getFuncDefs v None)) = unknownFuncDef s"
    by (simp add: getFuncDef_def objGet_getFuncDefs shortName_not_name [OF assms])
qed

theorem shortName_lost_by_selection_witness:
  "f_name (getFuncDef (js ''max'') None) = js ''maxSeries''
   \<and> f_unknown (getFuncDef (js ''max'') (Some (getFuncDefs (js ''1.1'') None)))"
proof -
  let ?d = "entry (js ''maxSeries'') (js ''Combine'') \<lparr>pf_shortName := Some (js ''max'')\<rparr>"
  have "?d \<in> set funcTable" "pf_shortName ?d = Some (js ''max'')"
    by (simp_all add: funcTable_def funcTable1_def)
  from shortName_lost_by_selection [OF this, of "js ''1.1''"] show ?thesis
    by (simp add: completeDef_def entry_def unknownFuncDef_def)
qed

subsection \<open>Function instances\<close>

text \<open>The text of an instance is that of its parameters.\<close>

definition textOk :: "funcInstance \<Rightarrow> bool" where
  "textOk f \<longleftrightarrow> fi_text f = instanceText (fi_def f) (fi_params f)"

lemma textOk_updateText [simp]: "textOk (updateText f)"
  by (simp add: textOk_def updateText_def)

lemma updateText_select [simp]:
  "fi_def (updateText f) = fi_def f" "fi_params (updateText f) = fi_params f"
  "fi_id (updateText f) = fi_id f" "fi_added (updateText f) = fi_added f"
  "fi_hidden (updateText f) = fi_hidden f"
  by (simp_all add: updateText_def)

lemma updateParamSingle_select [simp]:
  "fi_def (updateParamSingle s i f) = fi_def f" "fi_id (updateParamSingle s i f) = fi_id f"
  "fi_added (updateParamSingle s i f) = fi_added f"
  "fi_hidden (updateParamSingle s i f) = fi_hidden f"
  by (simp_all add: updateParamSingle_def)

lemma textOk_updateParamSingle [simp]: "textOk (updateParamSingle s i f)"
  by (simp add: updateParamSingle_def)

text \<open>What folding single updates over the parts keeps.\<close>

lemma fold_updateParamSingle_select [simp]:
  "fi_def (fold (\<lambda>(idx, p). updateParamSingle (trim p) (i + idx)) ps f) = fi_def f"
  "fi_id (fold (\<lambda>(idx, p). updateParamSingle (trim p) (i + idx)) ps f) = fi_id f"
  "fi_hidden (fold (\<lambda>(idx, p). updateParamSingle (trim p) (i + idx)) ps f) = fi_hidden f"
  by (induction ps arbitrary: f) auto

lemma textOk_fold_updateParamSingle:
  "ps \<noteq> [] \<Longrightarrow> textOk (fold (\<lambda>(idx, p). updateParamSingle (trim p) (i + idx)) ps f)"
  by (induction ps arbitrary: f rule: rev_induct) auto

lemma enumerate_eq_Nil [simp]: "enumerate n xs = [] \<longleftrightarrow> xs = []"
  by (cases xs) auto

lemma textOk_updateParam: "textOk (updateParam s i f)"
  by (simp add: updateParam_def textOk_fold_updateParamSingle)

lemma updateParam_select [simp]:
  "fi_def (updateParam s i f) = fi_def f" "fi_id (updateParam s i f) = fi_id f"
  "fi_hidden (updateParam s i f) = fi_hidden f"
  by (simp_all add: updateParam_def)

text \<open>The source calls itself on every part; a part is never split again.\<close>

lemma part_not_split:
  assumes "p \<in> set (splitOn 44 s)"
  shows "\<not> hasMultipleParamsInString f (trim p) j"
proof -
  from splitOn_parts [OF assms] set_trim [of p] have "44 \<notin> set (trim p)" by blast
  then show ?thesis by (simp add: hasMultipleParamsInString_def)
qed

lemma updateParam_recursive:
  "updateParam s i f =
     (if hasMultipleParamsInString f s i
      then fold (\<lambda>(idx, p). updateParam (trim p) (i + idx)) (enumerate 0 (splitOn 44 s)) f
      else updateParamSingle s i f)"
proof -
  have "fold (\<lambda>(idx, p). updateParam (trim p) (i + idx)) ps f
      = fold (\<lambda>(idx, p). updateParamSingle (trim p) (i + idx)) ps f"
    if "snd ` set ps \<subseteq> set (splitOn 44 s)" for ps
    using that by (induction ps arbitrary: f) (auto simp: updateParam_def part_not_split)
  moreover have "snd ` set (enumerate 0 (splitOn 44 s)) \<subseteq> set (splitOn 44 s)"
    by (metis list.set_map map_snd_enumerate order_refl)
  ultimately show ?thesis by (simp add: updateParam_def)
qed

text \<open>
  Whatever the value and the position, after \<open>updateParam\<close> the text shown for the
  function is the text of its parameters, and the update is the one of the source: a value with a
  comma that the following parameter may take is split, every part is trimmed and stored at the
  next position, recursively, and anything else is stored as one value.
\<close>

theorem updateParam_text_and_unfold:
  "fi_text (updateParam s i f) = instanceText (fi_def f) (fi_params (updateParam s i f)) \<and>
   updateParam s i f =
     (if hasMultipleParamsInString f s i
      then fold (\<lambda>(idx, p). updateParam (trim p) (i + idx)) (enumerate 0 (splitOn 44 s)) f
      else updateParamSingle s i f)"
proof (rule conjI)
  show "fi_text (updateParam s i f) = instanceText (fi_def f) (fi_params (updateParam s i f))"
    using textOk_updateParam [of s i f] by (simp add: textOk_def)
qed (rule updateParam_recursive)

lemma arraySet_within: "i \<le> length xs \<Longrightarrow> arraySet h xs i v = take i xs @ v # drop (Suc i) xs"
  by (auto simp: arraySet_def upd_conv_take_nth_drop)

lemma updateParamSingle_params:
  "s \<noteq> [] \<Longrightarrow> i \<le> length (fi_params f) \<Longrightarrow>
   fi_params (updateParamSingle s i f) = take i (fi_params f) @ PStr s # drop (Suc i) (fi_params f)"
  by (simp add: updateParamSingle_def arraySet_within)

lemma fold_updateParamSingle_params:
  assumes "\<forall>p \<in> set parts. trim p \<noteq> []" and "i + k \<le> length (fi_params f)"
  shows "fi_params (fold (\<lambda>(idx, p). updateParamSingle (trim p) (i + idx)) (enumerate k parts) f) =
     take (i + k) (fi_params f) @ map (\<lambda>p. PStr (trim p)) parts
       @ drop (i + k + length parts) (fi_params f)"
  using assms
proof (induction parts arbitrary: k f)
  case Nil
  then show ?case by simp
next
  case (Cons p parts)
  let ?f = "updateParamSingle (trim p) (i + k) f"
  have f: "fi_params ?f = take (i + k) (fi_params f) @ PStr (trim p) # drop (Suc (i + k)) (fi_params f)"
    using Cons.prems by (simp add: updateParamSingle_params)
  have "i + Suc k \<le> length (fi_params ?f)"
    using Cons.prems(2) by (simp add: f)
  with Cons.IH [of "Suc k" ?f] Cons.prems f show ?case
    by (simp add: min_absorb1 min_absorb2 add.commute)
qed

text \<open>
  A value that lists several parameters, none of them empty, replaces exactly as many
  parameters as it has parts, from its position on, trimmed and in order; the parameters before and
  after are kept.
\<close>

theorem updateParam_spreads:
  assumes "hasMultipleParamsInString f s i" and "i \<le> length (fi_params f)"
    and "\<forall>p \<in> set (splitOn 44 s). trim p \<noteq> []"
  shows "fi_params (updateParam s i f) =
     take i (fi_params f) @ map (\<lambda>p. PStr (trim p)) (splitOn 44 s)
       @ drop (i + length (splitOn 44 s)) (fi_params f)"
  using assms fold_updateParamSingle_params [of "splitOn 44 s" i 0 f] by (simp add: updateParam_def)

theorem updateParam_spreads_witness:
  "fi_params (updateParam (js ''1, 2'') 0
      (newFuncInstance 0 (getFuncDef (js ''noSuchFunction'') (Some [])) True))
   = [PStr (js ''1''), PStr (js ''2'')]"
proof -
  let ?f = "newFuncInstance 0 (getFuncDef (js ''noSuchFunction'') (Some [])) True"
  have s: "splitOn 44 (js ''1, 2'') = [[49], [32, 50]]" by (simp add: js_def)
  have "hasMultipleParamsInString ?f (js ''1, 2'') 0"
    by (simp add: js_defs)
  moreover have "0 \<le> length (fi_params ?f)" by simp
  moreover have "\<forall>p \<in> set (splitOn 44 (js ''1, 2'')). trim p \<noteq> []"
    by (simp add: s trim_def isSpace_def)
  ultimately have "fi_params (updateParam (js ''1, 2'') 0 ?f) =
     take 0 (fi_params ?f) @ map (\<lambda>p. PStr (trim p)) (splitOn 44 (js ''1, 2''))
       @ drop (0 + length (splitOn 44 (js ''1, 2''))) (fi_params ?f)"
    by (rule updateParam_spreads)
  then show ?thesis
    by (simp add: s js_defs)
qed

subsection \<open>Definitions from a server\<close>

lemma objGet_parseFuncDefs_fold:
  "objKeysOk raw \<Longrightarrow>
   objGet (fold (\<lambda>(funcName, d) fds. if rf_group d = js ''Graph'' then fds
                   else objSet funcName (parseFuncDef tidy d) fds) raw fds) n =
     (case objGet raw n of
        Some d \<Rightarrow> if rf_group d = js ''Graph'' then objGet fds n else Some (parseFuncDef tidy d)
      | None \<Rightarrow> objGet fds n)"
proof (induction raw arbitrary: fds)
  case Nil
  then show ?case by simp
next
  case (Cons x raw)
  obtain m d where x: "x = (m, d)" by (cases x)
  from Cons.prems have "objKeysOk raw" "m \<notin> fst ` set raw"
    by (auto simp: objKeysOk_def x)
  moreover from this(2) have "objGet raw m = None"
    by (simp add: objGet_def map_of_eq_None_iff)
  ultimately show ?case
    using Cons.IH by (auto simp: x objGet_def objGet_objSet [unfolded objGet_def] split: option.splits)
qed

text \<open>
  A function reported by the server is available under its key exactly when it is not
  one of the graph functions, and its definition pairs every parameter with one default value; a
  leading series list that does not repeat is not a parameter, one that repeats stays as an optional
  parameter.
\<close>

theorem parseFuncDefs_lookup:
  assumes "objKeysOk raw" and "objGet raw n = Some d" and "rf_group d \<noteq> js ''Graph''"
  shows "\<exists>fd. objGet (parseFuncDefs tidy raw) n = Some fd \<and> f_name fd = rf_name d
     \<and> length (f_defaultParams fd) = length (f_params fd)
     \<and> length (f_params fd) =
         (if firstIsSeriesList d \<and> \<not> rp_multiple (hd (rf_params d))
          then length (rf_params d) - 1 else length (rf_params d))
     \<and> (firstIsSeriesList d \<longrightarrow> rp_multiple (hd (rf_params d)) \<longrightarrow> p_optional (hd (f_params fd)))"
proof -
  have "objGet (parseFuncDefs tidy raw) n = Some (parseFuncDef tidy d)"
    using assms by (simp add: parseFuncDefs_def objGet_parseFuncDefs_fold)
  then show ?thesis
    by (auto simp: parseFuncDef_def rawParams_def firstIsSeriesList_def parseRawParam_def Let_def
        split: list.splits prod.splits)
qed

theorem parseFuncDefs_lookup_witness:
  "\<exists>fd. objGet (parseFuncDefs id
      [(js ''scale'', \<lparr>rf_name = js ''scale'', rf_description = None, rf_group = js ''Transform'',
         rf_params = [\<lparr>rp_name = js ''seriesList'', rp_type = js ''seriesList'', rp_required = True,
                       rp_multiple = False, rp_default = None, rp_options = None,
                       rp_suggestions = None\<rparr>,
                      \<lparr>rp_name = js ''factor'', rp_type = js ''float'', rp_required = True,
                       rp_multiple = False, rp_default = Some (PNum (Dec 5 1)), rp_options = None,
                       rp_suggestions = None\<rparr>]\<rparr>)])
      (js ''scale'') = Some fd \<and> length (f_params fd) = 1 \<and> length (f_defaultParams fd) = 1"
  (is "\<exists>fd. objGet (parseFuncDefs id [(?n, ?d)]) ?n = Some fd \<and> _")
proof -
  have "objKeysOk [(?n, ?d)]" "objGet [(?n, ?d)] ?n = Some ?d" "rf_group ?d \<noteq> js ''Graph''"
    by (simp_all add: objKeysOk_def objGet_def)
  from parseFuncDefs_lookup [OF this, of id] show ?thesis
    by (auto simp: firstIsSeriesList_def)
qed

end
