(* ===== verification/Lexer.thy ===== *)
theory Lexer
  imports JsNumber UnicodeLetters
begin

text \<open>
  The lexer of Graphite expressions (\<open>lexer.ts\<close>): the class \<open>Lexer\<close> with the unread \<open>input\<close> and
  the position \<open>char\<close>, its scanners for strings, punctuators, numbers, identifiers and template
  brackets, \<open>next\<close> and \<open>tokenize\<close>.  A scanner reads the input by index without consuming it and
  returns a token or \<open>None\<close> (the source's \<open>null\<close>); \<open>next\<close> skips the white space before a token and
  consumes the token.  The properties of a token that only some kinds have are options.
\<close>

subsection \<open>Tokens and state\<close>

datatype tokType =
  TString | TNumber | TIdentifier | TBool | TTemplateStart | TTemplateEnd | TPunct codeUnit

record token =
  t_type :: tokType
  t_value :: "jsstr option"
  t_pos :: "nat option"
  t_isUnclosed :: "bool option"
  t_quote :: "codeUnit option"
  t_base :: "nat option"
  t_isMalformed :: "bool option"

definition mkToken :: "tokType \<Rightarrow> jsstr \<Rightarrow> nat \<Rightarrow> token" where
  "mkToken ty v p =
     \<lparr>t_type = ty, t_value = Some v, t_pos = Some p, t_isUnclosed = None, t_quote = None,
      t_base = None, t_isMalformed = None\<rparr>"

record lexer =
  lx_input :: jsstr
  lx_char :: nat
  lx_from :: nat

definition newLexer :: "jsstr \<Rightarrow> lexer" where
  "newLexer expression = \<lparr>lx_input = expression, lx_char = 1, lx_from = 1\<rparr>"

definition peek :: "lexer \<Rightarrow> nat \<Rightarrow> codeUnit option" where
  "peek lx i = charAt (lx_input lx) i"

definition skip :: "nat \<Rightarrow> lexer \<Rightarrow> lexer" where
  "skip i lx =
     (let n = (if i = 0 then 1 else i)
      in lx\<lparr>lx_char := lx_char lx + n, lx_input := drop n (lx_input lx)\<rparr>)"

subsection \<open>Character classes\<close>

definition isIdentifierCode :: "nat \<Rightarrow> bool" where
  "isIdentifierCode i \<longleftrightarrow>
     48 \<le> i \<and> i \<le> 57 \<or> i = 36 \<or> i = 126 \<or> i = 124 \<or> 65 \<le> i \<and> i \<le> 90 \<or> i = 95 \<or> i = 45 \<or> i = 42
     \<or> i = 58 \<or> i = 91 \<or> i = 93 \<or> i = 63 \<or> i = 37 \<or> i = 35 \<or> i = 61 \<or> 97 \<le> i \<and> i \<le> 122"

definition identifierStartTable :: "bool list" where
  "identifierStartTable = map isIdentifierCode [0..<128]"

definition identifierPartTable :: "bool list" where
  "identifierPartTable = identifierStartTable"

text \<open>The search of \<open>isUnicodeLetter\<close> in a table of ranges.\<close>

fun letterSearch :: "nat list \<Rightarrow> nat \<Rightarrow> bool" where
  "letterSearch (lo # hi # t) code =
     (if code < lo then False else if code \<le> hi then True else letterSearch t code)"
| "letterSearch _ code = False"

definition isUnicodeLetter :: "nat \<Rightarrow> bool" where
  "isUnicodeLetter code = letterSearch unicodeLetterTable code"

definition isOctalDigit :: "codeUnit \<Rightarrow> bool" where
  "isOctalDigit c \<longleftrightarrow> 48 \<le> c \<and> c \<le> 55"

definition isHexDigit :: "codeUnit \<Rightarrow> bool" where
  "isHexDigit c \<longleftrightarrow> isDigit c \<or> 97 \<le> c \<and> c \<le> 102 \<or> 65 \<le> c \<and> c \<le> 70"

definition isIdentifierStart :: "codeUnit \<Rightarrow> bool" where
  "isIdentifierStart c \<longleftrightarrow> c = 36 \<or> c = 95 \<or> c = 92 \<or> 97 \<le> c \<and> c \<le> 122 \<or> 65 \<le> c \<and> c \<le> 90"

text \<open>The characters \<open>. ( ) , { }\<close>\<close>

definition isPunctuator :: "codeUnit \<Rightarrow> bool" where
  "isPunctuator c \<longleftrightarrow> c \<in> {46, 40, 41, 44, 123, 125}"

subsection \<open>Template brackets\<close>

definition scanTemplateSequence :: "lexer \<Rightarrow> token option" where
  "scanTemplateSequence lx =
     (if peek lx 0 = Some 91 \<and> peek lx 1 = Some 91
      then Some (mkToken TTemplateStart (js ''[['') (lx_char lx))
      else if peek lx 0 = Some 93 \<and> peek lx 1 = Some 93
      then Some (mkToken TTemplateEnd (js ''[['') (lx_char lx))
      else None)"

subsection \<open>Identifiers\<close>

definition hexVal :: "codeUnit \<Rightarrow> nat" where
  "hexVal c = (if isDigit c then c - 48 else if c \<le> 70 then c - 55 else c - 87)"

text \<open>
  \<open>readUnicodeEscapeSequence\<close> at the backslash at \<open>i\<close>: the six characters of an escape that stands
  for a letter, and the index after it.
\<close>

definition readUnicodeEscapeSequence :: "jsstr \<Rightarrow> nat \<Rightarrow> (jsstr \<times> nat) option" where
  "readUnicodeEscapeSequence inp i =
     (if charAt inp (i + 1) \<noteq> Some 117 then None
      else (case (charAt inp (i + 2), charAt inp (i + 3), charAt inp (i + 4), charAt inp (i + 5)) of
              (Some c1, Some c2, Some c3, Some c4) \<Rightarrow>
                if isHexDigit c1 \<and> isHexDigit c2 \<and> isHexDigit c3 \<and> isHexDigit c4
                   \<and> isUnicodeLetter (((hexVal c1 * 16 + hexVal c2) * 16 + hexVal c3) * 16 + hexVal c4)
                then Some ([92, 117, c1, c2, c3, c4], i + 6)
                else None
            | _ \<Rightarrow> None))"

definition getIdentifierStart :: "jsstr \<Rightarrow> nat \<Rightarrow> (jsstr \<times> nat) option" where
  "getIdentifierStart inp i =
     (case charAt inp i of
        None \<Rightarrow> None
      | Some c \<Rightarrow>
          if c = 42 then Some ([c], i + 1)
          else if c = 92 then readUnicodeEscapeSequence inp i
          else if c < 128 then (if identifierStartTable ! c then Some ([c], i + 1) else None)
          else if isUnicodeLetter c then Some ([c], i + 1)
          else None)"

definition getIdentifierPart :: "jsstr \<Rightarrow> nat \<Rightarrow> (jsstr \<times> nat) option" where
  "getIdentifierPart inp i =
     (case charAt inp i of
        None \<Rightarrow> None
      | Some c \<Rightarrow>
          if c = 92 then readUnicodeEscapeSequence inp i
          else if c < 128 then (if identifierPartTable ! c then Some ([c], i + 1) else None)
          else if isUnicodeLetter c then Some ([c], i + 1)
          else None)"

lemma getIdentifierPart_progress:
  "getIdentifierPart inp i = Some (s, j) \<Longrightarrow> i < j \<and> i < length inp"
  by (auto simp: getIdentifierPart_def readUnicodeEscapeSequence_def charAt_def
      split: option.splits if_splits)

function identifierLoop :: "jsstr \<Rightarrow> nat \<Rightarrow> jsstr \<Rightarrow> jsstr" where
  "identifierLoop inp i ident =
     (case getIdentifierPart inp i of
        None \<Rightarrow> ident
      | Some (s, j) \<Rightarrow> identifierLoop inp j (ident @ s))"
  by pat_completeness auto
termination
proof (relation "measure (\<lambda>(inp, i, _). length inp - i)")
  fix inp :: jsstr and i :: nat and ident s :: jsstr and j :: nat and p
  assume "getIdentifierPart inp i = Some p" "(s, j) = p"
  then have "i < j \<and> i < length inp"
    using getIdentifierPart_progress by metis
  then show "((inp, j, ident @ s), inp, i, ident) \<in> measure (\<lambda>(inp, i, _). length inp - i)"
    by auto
qed simp

declare identifierLoop.simps [simp del]

definition scanIdentifier :: "lexer \<Rightarrow> token option" where
  "scanIdentifier lx =
     (case getIdentifierStart (lx_input lx) 0 of
        None \<Rightarrow> None
      | Some (s, i) \<Rightarrow>
          let ident = identifierLoop (lx_input lx) i s
          in Some (mkToken (if ident = js ''true'' \<or> ident = js ''false'' then TBool else TIdentifier)
                     ident (lx_char lx)))"

subsection \<open>Numbers\<close>

text \<open>The loops that append characters of one class to \<open>value\<close>.\<close>

function scanWhile :: "(codeUnit \<Rightarrow> bool) \<Rightarrow> jsstr \<Rightarrow> nat \<Rightarrow> jsstr \<Rightarrow> nat \<times> jsstr" where
  "scanWhile p inp i value =
     (if i < length inp \<and> p (inp ! i) then scanWhile p inp (i + 1) (value @ [inp ! i])
      else (i, value))"
  by pat_completeness auto
termination
  by (relation "measure (\<lambda>(p, inp, i, value). length inp - i)") auto

declare scanWhile.simps [simp del]

text \<open>A hexadecimal literal, from the \<open>x\<close> at index \<open>i\<close>.\<close>

definition scanHex :: "jsstr \<Rightarrow> nat \<Rightarrow> nat \<Rightarrow> jsstr \<Rightarrow> codeUnit \<Rightarrow> token option" where
  "scanHex inp pos i value c =
     (case scanWhile isHexDigit inp (i + 1) (value @ [c]) of
        (j, v) \<Rightarrow>
          if length v \<le> 2 then Some (mkToken TNumber v pos \<lparr>t_isMalformed := Some True\<rparr>)
          else if j < length inp \<and> isIdentifierStart (inp ! j) then None
          else Some (mkToken TNumber v pos \<lparr>t_base := Some 16, t_isMalformed := Some False\<rparr>))"

text \<open>The loop over the digits of an octal literal; \<open>None\<close> is its early return of \<open>null\<close>.\<close>

function octalLoop :: "jsstr \<Rightarrow> nat \<Rightarrow> jsstr \<Rightarrow> bool \<Rightarrow> (nat \<times> jsstr \<times> bool) option" where
  "octalLoop inp i value bad =
     (if i < length inp
      then (let c = inp ! i; bad' = (bad \<or> isDigit c)
            in if \<not> isOctalDigit c then (if \<not> isPunctuator c then None else Some (i, value, bad'))
               else octalLoop inp (i + 1) (value @ [c]) bad')
      else Some (i, value, bad))"
  by pat_completeness auto
termination
  by (relation "measure (\<lambda>(inp, i, value, bad). length inp - i)") auto

declare octalLoop.simps [simp del]

definition scanOctal :: "jsstr \<Rightarrow> nat \<Rightarrow> jsstr \<Rightarrow> codeUnit \<Rightarrow> token option" where
  "scanOctal inp i value c =
     (case octalLoop inp (i + 1) (value @ [c]) False of
        None \<Rightarrow> None
      | Some (j, v, bad) \<Rightarrow>
          if j < length inp \<and> isIdentifierStart (inp ! j) then None
          else Some \<lparr>t_type = TNumber, t_value = Some v, t_pos = None, t_isUnclosed = None,
                     t_quote = None, t_base = Some 8, t_isMalformed = Some bad\<rparr>)"

text \<open>The exponent part at index \<open>i\<close>, if there is one; \<open>None\<close> is the early return of \<open>null\<close>.\<close>

definition scanExponent :: "jsstr \<Rightarrow> nat \<Rightarrow> jsstr \<Rightarrow> (nat \<times> jsstr) option" where
  "scanExponent inp i value =
     (case charAt inp i of
        Some c \<Rightarrow>
          if c = 101 \<or> c = 69
          then (let (j, v) =
                      (case charAt inp (i + 1) of
                         Some d \<Rightarrow> if d = 43 \<or> d = 45 then (i + 2, value @ [c, d]) else (i + 1, value @ [c])
                       | None \<Rightarrow> (i + 1, value @ [c]))
                in (case charAt inp j of
                      Some d \<Rightarrow> if isDigit d then Some (scanWhile isDigit inp (j + 1) (v @ [d])) else None
                    | None \<Rightarrow> None))
          else Some (i, value)
      | None \<Rightarrow> Some (i, value))"

text \<open>From the decimal digits at index \<open>i\<close> to the end of the literal.\<close>

definition scanFraction :: "jsstr \<Rightarrow> nat \<Rightarrow> jsstr \<Rightarrow> nat \<times> jsstr" where
  "scanFraction inp i value =
     (if charAt inp i = Some 46 then scanWhile isDigit inp (i + 1) (value @ [46]) else (i, value))"

definition finishNumber :: "jsstr \<Rightarrow> nat \<Rightarrow> nat \<Rightarrow> jsstr \<Rightarrow> token option" where
  "finishNumber inp pos i value =
     (case scanFraction inp i value of
        (j, v) \<Rightarrow>
          (case scanExponent inp j v of
             None \<Rightarrow> None
           | Some (k, w) \<Rightarrow>
               if k < length inp \<and> \<not> isPunctuator (inp ! k) then None
               else Some (mkToken TNumber w pos
                      \<lparr>t_base := Some 10, t_isMalformed := Some (\<not> isFinite (toNumber w))\<rparr>)))"

text \<open>A literal that starts with the digit at index \<open>i\<close>.\<close>

definition scanFromDigit :: "jsstr \<Rightarrow> nat \<Rightarrow> nat \<Rightarrow> jsstr \<Rightarrow> token option" where
  "scanFromDigit inp pos i value =
     (let v = value @ [inp ! i];
          c = charAt inp (i + 1);
          decimal = (\<lambda>(j, w). finishNumber inp pos j w)
      in if v = [48] \<and> (c = Some 120 \<or> c = Some 88) then scanHex inp pos (i + 1) v (the c)
         else if v = [48] \<and> (case c of None \<Rightarrow> False | Some d \<Rightarrow> isOctalDigit d)
         then scanOctal inp (i + 1) v (the c)
         else if v = [48] \<and> (case c of None \<Rightarrow> False | Some d \<Rightarrow> isDigit d)
         then decimal (scanWhile isDigit inp (i + 2) (v @ [the c]))
         else decimal (scanWhile isDigit inp (i + 1) v))"

definition scanNumericLiteral :: "lexer \<Rightarrow> token option" where
  "scanNumericLiteral lx =
     (let inp = lx_input lx;
          (i, value) = (if charAt inp 0 = Some 45 then (1, [45]) else (0, []))
      in case charAt inp i of
           None \<Rightarrow> None
         | Some c \<Rightarrow>
             if c \<noteq> 46 \<and> \<not> isDigit c then None
             else if c \<noteq> 46 then scanFromDigit inp (lx_char lx) i value
             else finishNumber inp (lx_char lx) i value)"

subsection \<open>Punctuators and strings\<close>

definition scanPunctuator :: "lexer \<Rightarrow> token option" where
  "scanPunctuator lx =
     (case peek lx 0 of
        None \<Rightarrow> None
      | Some c \<Rightarrow> if isPunctuator c then Some (mkToken (TPunct c) [c] (lx_char lx)) else None)"

definition mkString :: "jsstr \<Rightarrow> bool \<Rightarrow> codeUnit \<Rightarrow> nat \<Rightarrow> token" where
  "mkString value unclosed q p =
     mkToken TString value p \<lparr>t_isUnclosed := Some unclosed, t_quote := Some q\<rparr>"

function stringLoop :: "codeUnit \<Rightarrow> lexer \<Rightarrow> jsstr \<Rightarrow> token \<times> lexer" where
  "stringLoop q lx value =
     (case peek lx 0 of
        None \<Rightarrow> (mkString value True q (lx_char lx), lx)
      | Some c \<Rightarrow>
          if c = q then (let lx' = skip 0 lx in (mkString value False q (lx_char lx'), lx'))
          else stringLoop q (skip 1 lx) (value @ [c]))"
  by pat_completeness auto
termination
  by (relation "measure (\<lambda>(q, lx, value). length (lx_input lx))")
    (auto simp: skip_def peek_def charAt_def split: if_splits)

declare stringLoop.simps [simp del]

definition scanStringLiteral :: "lexer \<Rightarrow> (token \<times> lexer) option" where
  "scanStringLiteral lx =
     (case peek lx 0 of
        None \<Rightarrow> None
      | Some q \<Rightarrow> if q \<noteq> 34 \<and> q \<noteq> 39 then None else Some (stringLoop q (skip 0 lx) []))"

subsection \<open>The token stream\<close>

function skipSpaces :: "lexer \<Rightarrow> lexer" where
  "skipSpaces lx =
     (case peek lx 0 of
        None \<Rightarrow> lx
      | Some c \<Rightarrow> if isSpace c then skipSpaces (skip 0 (lx\<lparr>lx_from := lx_from lx + 1\<rparr>)) else lx)"
  by pat_completeness auto
termination
  by (relation "measure (\<lambda>lx. length (lx_input lx))")
    (auto simp: skip_def peek_def charAt_def split: if_splits)

declare skipSpaces.simps [simp del]

definition orElse :: "'a option \<Rightarrow> 'a option \<Rightarrow> 'a option" where
  "orElse a b = (case a of None \<Rightarrow> b | Some x \<Rightarrow> Some x)"

definition scanOther :: "lexer \<Rightarrow> token option" where
  "scanOther lx =
     orElse (scanPunctuator lx)
       (orElse (scanNumericLiteral lx) (orElse (scanIdentifier lx) (scanTemplateSequence lx)))"

definition next_token :: "lexer \<Rightarrow> token option \<times> lexer" where
  "next_token lx0 =
     (let lx1 = lx0\<lparr>lx_from := lx_char lx0\<rparr>;
          lx = skipSpaces lx1
      in if lx \<noteq> lx1 \<and> peek lx 0 = None then (None, lx)
         else (case scanStringLiteral lx of
                 Some (t, lx') \<Rightarrow> (Some t, lx')
               | None \<Rightarrow>
                   (case scanOther lx of
                      Some t \<Rightarrow> (Some t, skip (case t_value t of None \<Rightarrow> 0 | Some v \<Rightarrow> length v) lx)
                    | None \<Rightarrow> (None, lx))))"

text \<open>Every token is taken from the input, so the stream ends.\<close>

lemma skip_input [simp]: "lx_input (skip n lx) = drop (if n = 0 then 1 else n) (lx_input lx)"
  by (simp add: skip_def Let_def)

lemma skip_char [simp]: "lx_char (skip n lx) = lx_char lx + (if n = 0 then 1 else n)"
  by (simp add: skip_def Let_def)

lemma skipSpaces_input: "lx_input (skipSpaces lx) = dropWhile isSpace (lx_input lx)"
proof (induction lx rule: skipSpaces.induct)
  case (1 lx)
  then show ?case
    by (cases "lx_input lx") (auto simp: skipSpaces.simps [of lx] peek_def)
qed

lemma stringLoop_length: "length (lx_input (snd (stringLoop q lx v))) \<le> length (lx_input lx)"
proof (induction q lx v rule: stringLoop.induct)
  case (1 q lx v)
  show ?case
  proof (cases "peek lx 0")
    case None
    then show ?thesis by (simp add: stringLoop.simps [of q lx v])
  next
    case (Some c)
    then show ?thesis
      using "1.IH" [OF Some] by (cases "c = q") (auto simp: stringLoop.simps [of q lx v] Let_def)
  qed
qed

lemma scanOther_Nil: "lx_input lx = [] \<Longrightarrow> scanOther lx = None"
  by (simp add: scanOther_def orElse_def scanPunctuator_def scanNumericLiteral_def scanIdentifier_def
      scanTemplateSequence_def getIdentifierStart_def peek_def)

lemma next_token_progress:
  assumes "next_token lx = (Some t, lx')"
  shows "length (lx_input lx') < length (lx_input lx)"
proof -
  let ?lx = "skipSpaces (lx\<lparr>lx_from := lx_char lx\<rparr>)"
  have le: "length (lx_input ?lx) \<le> length (lx_input lx)"
    by (simp add: skipSpaces_input length_dropWhile_le)
  show ?thesis
  proof (cases "scanStringLiteral ?lx")
    case (Some p)
    then obtain q where q: "peek ?lx 0 = Some q" "p = stringLoop q (skip 0 ?lx) []"
      by (auto simp: scanStringLiteral_def split: option.splits if_splits)
    then have ne: "lx_input ?lx \<noteq> []" by (auto simp: peek_def)
    have "lx' = snd p" using assms Some
      by (cases p) (auto simp: next_token_def Let_def split: if_splits)
    with q(2) stringLoop_length [of q "skip 0 ?lx" "[]"]
    have "length (lx_input lx') \<le> length (lx_input ?lx) - 1" by simp
    with ne le show ?thesis by (cases "lx_input ?lx") auto
  next
    case None
    with assms obtain t' where t': "scanOther ?lx = Some t'"
      and lx': "\<exists>n. lx' = skip n ?lx"
      by (auto simp: next_token_def Let_def split: if_splits option.splits)
    from t' have "lx_input ?lx \<noteq> []" by (auto simp: scanOther_Nil)
    with lx' le show ?thesis by (cases "lx_input ?lx") (auto split: if_splits)
  qed
qed

function tokenizeFrom :: "lexer \<Rightarrow> token list \<times> lexer" where
  "tokenizeFrom lx =
     (case next_token lx of
        (None, lx') \<Rightarrow> ([], lx')
      | (Some t, lx') \<Rightarrow> (case tokenizeFrom lx' of (ts, lx'') \<Rightarrow> (t # ts, lx'')))"
  by pat_completeness auto
termination
  by (relation "measure (\<lambda>lx. length (lx_input lx))") (auto dest: next_token_progress [OF sym])

declare tokenizeFrom.simps [simp del]

definition tokenize :: "jsstr \<Rightarrow> token list" where
  "tokenize expression = fst (tokenizeFrom (newLexer expression))"

text \<open>The position of the lexer when no more tokens are found.\<close>

definition finalChar :: "jsstr \<Rightarrow> nat" where
  "finalChar expression = lx_char (snd (tokenizeFrom (newLexer expression)))"

lemmas [js_defs] = mkToken_def newLexer_def peek_def skip_def isIdentifierCode_def
  identifierStartTable_def identifierPartTable_def isOctalDigit_def isHexDigit_def
  isIdentifierStart_def isPunctuator_def scanTemplateSequence_def hexVal_def
  readUnicodeEscapeSequence_def getIdentifierStart_def getIdentifierPart_def identifierLoop.simps
  scanIdentifier_def scanWhile.simps scanHex_def octalLoop.simps scanOctal_def scanExponent_def
  scanFraction_def finishNumber_def scanFromDigit_def scanNumericLiteral_def scanPunctuator_def
  mkString_def stringLoop.simps scanStringLiteral_def skipSpaces.simps orElse_def scanOther_def
  next_token_def tokenizeFrom.simps tokenize_def finalChar_def

end
