(* ===== verification/Parser.thy ===== *)
theory Parser
  imports Lexer
begin

text \<open>
  The recursive descent parser of Graphite expressions (\<open>parser.ts\<close>).  The state of the class
  \<open>Parser\<close> is the token array, the index of the next token and the position the lexer stopped at;
  every method takes the state and returns either the exception it throws or its result and the new
  state, with \<open>None\<close> for a result of \<open>null\<close>.  The loops have termination proofs; the mutually
  recursive \<open>functionCall\<close> and \<open>functionParameters\<close> take fuel, and \<open>getAst\<close> gives them
  \<open>parserFuel\<close>, which is shown to be enough for every expression in the theory of the properties.
\<close>

subsection \<open>Syntax trees, errors, state\<close>

datatype segmentNode = Segment jsstr | Template jsstr

datatype ast =
    AFunction jsstr "ast option list"
  | AMetric "segmentNode list"
  | ASeriesRef jsstr
  | ABool bool
  | ANumber jsnum
  | AString jsstr

text \<open>An exception: a \<open>GraphiteParserError\<close>, another error, or the model out of fuel.\<close>

datatype parserError = GraphiteParserError jsstr "nat option" | TypeError | OutOfFuel

type_synonym 'a presult = "parserError + 'a"

record parser =
  ps_tokens :: "token list"
  ps_index :: nat
  ps_char :: nat

definition newParser :: "jsstr \<Rightarrow> parser" where
  "newParser expression =
     \<lparr>ps_tokens = tokenize expression, ps_index = 0, ps_char = finalChar expression\<rparr>"

definition tokenAt :: "parser \<Rightarrow> nat \<Rightarrow> token option" where
  "tokenAt p i =
     (if ps_index p + i < length (ps_tokens p) then Some (ps_tokens p ! (ps_index p + i)) else None)"

text \<open>\<open>matchToken\<close> on a type; \<open>matchEnd\<close> is \<open>match('')\<close>, which only the end of the array matches.\<close>

definition matchToken :: "parser \<Rightarrow> tokType \<Rightarrow> nat \<Rightarrow> bool" where
  "matchToken p ty i = (case tokenAt p i of None \<Rightarrow> False | Some t \<Rightarrow> t_type t = ty)"

definition match :: "parser \<Rightarrow> tokType \<Rightarrow> bool" where
  "match p ty = matchToken p ty 0"

definition match2 :: "parser \<Rightarrow> tokType \<Rightarrow> tokType \<Rightarrow> bool" where
  "match2 p ty1 ty2 \<longleftrightarrow> matchToken p ty1 0 \<and> matchToken p ty2 1"

definition matchEnd :: "parser \<Rightarrow> bool" where
  "matchEnd p \<longleftrightarrow> tokenAt p 0 = None"

definition consumeToken :: "parser \<Rightarrow> token option \<times> parser" where
  "consumeToken p = (tokenAt p 0, p\<lparr>ps_index := ps_index p + 1\<rparr>)"

definition tokTypeStr :: "tokType \<Rightarrow> jsstr" where
  "tokTypeStr ty =
     (case ty of TString \<Rightarrow> js ''string'' | TNumber \<Rightarrow> js ''number'' | TIdentifier \<Rightarrow> js ''identifier''
      | TBool \<Rightarrow> js ''bool'' | TTemplateStart \<Rightarrow> js ''templateStart''
      | TTemplateEnd \<Rightarrow> js ''templateEnd'' | TPunct c \<Rightarrow> [c])"

definition errorMark :: "parser \<Rightarrow> jsstr \<Rightarrow> parserError" where
  "errorMark p msg =
     (case tokenAt p 0 of
        None \<Rightarrow> GraphiteParserError (msg @ js '' instead found end of string'') (Some (ps_char p))
      | Some t \<Rightarrow> GraphiteParserError (msg @ js '' instead found '' @ tokTypeStr (t_type t)) (t_pos t))"

text \<open>The value of a consumed token, as a string concatenation writes it.\<close>

definition tokenText :: "token option \<Rightarrow> jsstr" where
  "tokenText t =
     (case t of
        Some t' \<Rightarrow> (case t_value t' of Some v \<Rightarrow> v | None \<Rightarrow> js ''undefined'')
      | None \<Rightarrow> js ''undefined'')"

definition pLeft :: tokType where "pLeft = TPunct 40"
definition pRight :: tokType where "pRight = TPunct 41"
definition pComma :: tokType where "pComma = TPunct 44"
definition pDot :: tokType where "pDot = TPunct 46"
definition pOpen :: tokType where "pOpen = TPunct 123"
definition pClose :: tokType where "pClose = TPunct 125"

subsection \<open>Metric paths\<close>

lemma consumeToken_remaining:
  "consumeToken p = (t, p') \<Longrightarrow> \<not> matchEnd p \<Longrightarrow>
   length (ps_tokens p') - ps_index p' < length (ps_tokens p) - ps_index p"
  by (auto simp: consumeToken_def matchEnd_def tokenAt_def split: if_splits)

function curlyLoop :: "parser \<Rightarrow> jsstr \<Rightarrow> jsstr \<times> parser" where
  "curlyLoop p curlySegment =
     (if matchEnd p \<or> match p pClose then (curlySegment, p)
      else (case consumeToken p of (t, p') \<Rightarrow> curlyLoop p' (curlySegment @ tokenText t)))"
  by pat_completeness auto
termination
  by (relation "measure (\<lambda>(p, _). length (ps_tokens p) - ps_index p)")
    (auto dest: consumeToken_remaining [OF sym])

declare curlyLoop.simps [simp del]

definition curlyBraceSegment :: "parser \<Rightarrow> (segmentNode option \<times> parser) presult" where
  "curlyBraceSegment p =
     (if match2 p TIdentifier pOpen \<or> match p pOpen
      then (case curlyLoop p [] of
              (curlySegment, p1) \<Rightarrow>
                if \<not> match p1 pClose then Inl (errorMark p1 (js ''Expected closing '' @ [39, 125, 39]))
                else (case consumeToken p1 of
                        (t, p2) \<Rightarrow>
                          if match p2 TIdentifier
                          then (case consumeToken p2 of
                                  (t', p3) \<Rightarrow>
                                    Inr (Some (Segment (curlySegment @ tokenText t @ tokenText t')), p3))
                          else Inr (Some (Segment (curlySegment @ tokenText t)), p2)))
      else Inr (None, p))"

text \<open>The two tokens a number with a decimal point leaves behind its first part.\<close>

definition dotToken :: token where
  "dotToken = \<lparr>t_type = pDot, t_value = None, t_pos = None, t_isUnclosed = None, t_quote = None,
               t_base = None, t_isMalformed = None\<rparr>"

definition fractionToken :: "jsstr \<Rightarrow> token" where
  "fractionToken v =
     \<lparr>t_type = TNumber, t_value = Some v, t_pos = None, t_isUnclosed = None, t_quote = None,
      t_base = None, t_isMalformed = None\<rparr>"

definition spliceTokens :: "parser \<Rightarrow> nat \<Rightarrow> token \<Rightarrow> parser" where
  "spliceTokens p i t = p\<lparr>ps_tokens := snd (splice (ps_tokens p) (int i) 0 [t])\<rparr>"

definition metricSegment :: "parser \<Rightarrow> (segmentNode \<times> parser) presult" where
  "metricSegment p =
     (case curlyBraceSegment p of
        Inl e \<Rightarrow> Inl e
      | Inr (Some curly, p1) \<Rightarrow> Inr (curly, p1)
      | Inr (None, p1) \<Rightarrow>
          if match p1 TIdentifier \<or> match p1 TNumber
          then (case consumeToken p1 of
                  (Some t, p2) \<Rightarrow>
                    (case t_value t of
                       None \<Rightarrow> Inl TypeError
                     | Some v \<Rightarrow>
                         let parts = splitOn 46 v;
                             p3 = (if length parts = 2
                                   then spliceTokens (spliceTokens p2 (ps_index p2) dotToken)
                                          (ps_index p2 + 1) (fractionToken (parts ! 1))
                                   else p2)
                         in Inr (Segment (hd parts), p3))
                | (None, _) \<Rightarrow> Inl TypeError)
          else if \<not> match p1 TTemplateStart then Inl (errorMark p1 (js ''Expected metric identifier''))
          else (case consumeToken p1 of
                  (_, p2) \<Rightarrow>
                    if \<not> match p2 TIdentifier
                    then Inl (errorMark p2 (js ''Expected identifier after templateStart''))
                    else (case consumeToken p2 of
                            (t, p3) \<Rightarrow>
                              if \<not> match p3 TTemplateEnd
                              then Inl (errorMark p3 (js ''Expected templateEnd''))
                              else Inr (Template (tokenText t), snd (consumeToken p3)))))"

text \<open>
  What is left to read, for the termination of the loops: a token that \<open>metricSegment\<close> would split
  weighs more than the token and the two it leaves behind.
\<close>

definition tokenWeight :: "token \<Rightarrow> nat" where
  "tokenWeight t = (case t_value t of Some v \<Rightarrow> if length (splitOn 46 v) = 2 then 3 else 1 | None \<Rightarrow> 1)"

definition remaining :: "parser \<Rightarrow> nat" where
  "remaining p = sum_list (map tokenWeight (drop (ps_index p) (ps_tokens p)))"

lemma tokenWeight_pos [simp]: "0 < tokenWeight t"
  by (auto simp: tokenWeight_def split: option.splits)

lemma tokenAt_0_Some: "tokenAt p 0 = Some t \<longleftrightarrow> (\<exists>ts. drop (ps_index p) (ps_tokens p) = t # ts)"
  by (auto simp: tokenAt_def Cons_nth_drop_Suc [symmetric])

lemma remaining_consume:
  "tokenAt p 0 = Some t \<Longrightarrow> consumeToken p = (t', p') \<Longrightarrow> remaining p = tokenWeight t + remaining p'"
  by (auto simp: consumeToken_def remaining_def tokenAt_def Cons_nth_drop_Suc [symmetric] split: if_splits)

lemma remaining_consume_le: "consumeToken p = (t, p') \<Longrightarrow> remaining p' \<le> remaining p"
proof (cases "tokenAt p 0")
  case None
  then have "length (ps_tokens p) \<le> ps_index p" by (simp add: tokenAt_def split: if_splits)
  moreover assume "consumeToken p = (t, p')"
  ultimately show ?thesis by (auto simp: consumeToken_def remaining_def)
next
  case (Some u)
  moreover assume "consumeToken p = (t, p')"
  ultimately show ?thesis by (simp add: remaining_consume)
qed

lemma remaining_consume_less:
  "consumeToken p = (t, p') \<Longrightarrow> \<not> matchEnd p \<Longrightarrow> remaining p' < remaining p"
  by (cases "tokenAt p 0") (auto dest: remaining_consume simp: matchEnd_def)

lemma match_tokenAt: "match p ty \<longleftrightarrow> (\<exists>t. tokenAt p 0 = Some t \<and> t_type t = ty)"
  by (auto simp: match_def matchToken_def split: option.splits)

lemma match_not_end: "match p ty \<Longrightarrow> \<not> matchEnd p"
  by (auto simp: match_tokenAt matchEnd_def)

lemma curlyLoop_remaining: "remaining (snd (curlyLoop p s)) \<le> remaining p"
proof (induction p s rule: curlyLoop.induct)
  case (1 p s)
  obtain t p' where c: "consumeToken p = (t, p')" by (cases "consumeToken p")
  show ?case
  proof (cases "matchEnd p \<or> match p pClose")
    case True
    then show ?thesis by (simp add: curlyLoop.simps [of p s])
  next
    case False
    from "1.IH" [OF False c [symmetric]] remaining_consume_le [OF c] False c show ?thesis
      by (simp add: curlyLoop.simps [of p s])
  qed
qed

lemma curlyBraceSegment_remaining:
  assumes "curlyBraceSegment p = Inr (seg, p')"
  shows "if seg = None then p' = p else remaining p' < remaining p"
proof (cases "match2 p TIdentifier pOpen \<or> match p pOpen")
  case False
  with assms show ?thesis by (simp add: curlyBraceSegment_def)
next
  case True
  obtain s p1 where l: "curlyLoop p [] = (s, p1)" by (cases "curlyLoop p []")
  obtain t p2 where c: "consumeToken p1 = (t, p2)" by (cases "consumeToken p1")
  obtain t' p3 where c': "consumeToken p2 = (t', p3)" by (cases "consumeToken p2")
  from assms True l c c' have m: "match p1 pClose" and seg: "seg \<noteq> None" and "p' = p2 \<or> p' = p3"
    by (auto simp: curlyBraceSegment_def split: if_splits)
  then have "remaining p' \<le> remaining p2" using remaining_consume_le [OF c'] by auto
  also have "\<dots> < remaining p1" using remaining_consume_less [OF c match_not_end [OF m]] .
  also have "\<dots> \<le> remaining p" using curlyLoop_remaining [of p "[]"] l by simp
  finally have "remaining p' < remaining p" .
  with seg show ?thesis by auto
qed

lemma splice_insert: "i \<le> length xs \<Longrightarrow> snd (splice xs (int i) 0 ys) = take i xs @ ys @ drop i xs"
  by (simp add: splice_def)

lemma remaining_splice:
  assumes "ps_index p \<le> length (ps_tokens p)"
  shows "drop (ps_index p) (ps_tokens (spliceTokens (spliceTokens p (ps_index p) t) (ps_index p + 1) u))
    = t # u # drop (ps_index p) (ps_tokens p)"
    (is "_ = ?r")
  using assms splice_insert [of "Suc (ps_index p)" "take (ps_index p) (ps_tokens p) @ t # drop (ps_index p) (ps_tokens p)"]
  by (simp add: spliceTokens_def splice_insert)

lemma spliceTokens_index [simp]: "ps_index (spliceTokens p i t) = ps_index p"
  by (simp add: spliceTokens_def)

lemma tokenWeight_dot: "tokenWeight dotToken = 1"
  by (simp add: tokenWeight_def dotToken_def)

lemma splitOn_part_weight: "length (splitOn 46 v) = 2 \<Longrightarrow> tokenWeight (fractionToken (splitOn 46 v ! 1)) = 1"
proof -
  assume "length (splitOn 46 v) = 2"
  then have "splitOn 46 v ! 1 \<in> set (splitOn 46 v)" by simp
  from splitOn_no_sep [OF splitOn_parts [OF this]] show ?thesis
    by (simp add: tokenWeight_def fractionToken_def)
qed

lemma metricSegment_remaining:
  assumes "metricSegment p = Inr (seg, p')"
  shows "remaining p' < remaining p"
proof -
  obtain c p1 where c: "curlyBraceSegment p = Inr (c, p1)"
    using assms by (cases "curlyBraceSegment p") (auto simp: metricSegment_def)
  show ?thesis
  proof (cases c)
    case (Some s)
    with c assms curlyBraceSegment_remaining [OF c] show ?thesis by (simp add: metricSegment_def)
  next
    case None
    with curlyBraceSegment_remaining [OF c] have [simp]: "p1 = p" by simp
    obtain t p2 where t: "consumeToken p = (t, p2)" by (cases "consumeToken p")
    obtain t' p3 where t': "consumeToken p2 = (t', p3)" by (cases "consumeToken p2")
    obtain t'' p4 where t'': "consumeToken p3 = (t'', p4)" by (cases "consumeToken p3")
    show ?thesis
    proof (cases "match p TIdentifier \<or> match p TNumber")
      case True
      then obtain k where k: "tokenAt p 0 = Some k" by (auto simp: match_tokenAt)
      with t have tk: "t = Some k" and ix: "ps_index p2 \<le> length (ps_tokens p2)"
        by (auto simp: consumeToken_def tokenAt_def split: if_splits)
      with assms c None True t obtain v where v: "t_value k = Some v"
        by (auto simp: metricSegment_def split: option.splits)
      have r: "remaining p = tokenWeight k + remaining p2" using remaining_consume [OF k t] .
      show ?thesis
      proof (cases "length (splitOn 46 v) = 2")
        case False
        with assms c None True t tk v have "p' = p2" by (simp add: metricSegment_def)
        with r show ?thesis by simp
      next
        case two: True
        with assms c None True t tk v
        have p': "p' = spliceTokens (spliceTokens p2 (ps_index p2) dotToken) (ps_index p2 + 1)
            (fractionToken (splitOn 46 v ! 1))"
          by (simp add: metricSegment_def Let_def)
        then have "remaining p' = 2 + remaining p2"
          using remaining_splice [OF ix, of dotToken "fractionToken (splitOn 46 v ! 1)"]
            splitOn_part_weight [OF two]
          by (simp add: remaining_def tokenWeight_dot)
        with r v two show ?thesis by (simp add: tokenWeight_def)
      qed
    next
      case False
      with assms c None t t' t'' have m: "match p TTemplateStart" and "p' = p4"
        by (auto simp: metricSegment_def split: if_splits)
      with remaining_consume_le [OF t''] remaining_consume_le [OF t']
        remaining_consume_less [OF t match_not_end [OF m]] show ?thesis by simp
    qed
  qed
qed

text \<open>The loop of \<open>metricExpression\<close>.\<close>

function metricLoop :: "parser \<Rightarrow> segmentNode list \<Rightarrow> (segmentNode list \<times> parser) presult" where
  "metricLoop p segs =
     (if \<not> match p pDot then Inr (segs, p)
      else (case metricSegment (snd (consumeToken p)) of
              Inl e \<Rightarrow> Inl e
            | Inr (seg, p') \<Rightarrow> metricLoop p' (segs @ [seg])))"
  by pat_completeness auto
termination
proof (relation "measure (\<lambda>(p, _). remaining p)")
  fix p :: parser and segs r q and seg :: segmentNode and p'
  assume "metricSegment (snd (consumeToken p)) = Inr q" "(seg, p') = q"
  then have "metricSegment (snd (consumeToken p)) = Inr (seg, p')" by simp
  from metricSegment_remaining [OF this] remaining_consume_le [of p]
  have "remaining p' < remaining p"
    by (cases "consumeToken p") fastforce
  then show "((p', segs @ [seg]), p, segs) \<in> measure (\<lambda>(p, _). remaining p)" by simp
qed simp

declare metricLoop.simps [simp del]

definition metricExpression :: "parser \<Rightarrow> (ast option \<times> parser) presult" where
  "metricExpression p =
     (if \<not> match p TTemplateStart \<and> \<not> match p TIdentifier \<and> \<not> match p TNumber \<and> \<not> match p pOpen
      then Inr (None, p)
      else (case metricSegment p of
              Inl e \<Rightarrow> Inl e
            | Inr (seg, p1) \<Rightarrow>
                (case metricLoop p1 [seg] of
                   Inl e \<Rightarrow> Inl e
                 | Inr (segs, p2) \<Rightarrow> Inr (Some (AMetric segs), p2))))"

subsection \<open>Parameters and functions\<close>

text \<open>The pattern \<open>/\#[A-Z]/\<close>: a reference to another query.\<close>

definition isRefLetter :: "codeUnit \<Rightarrow> bool" where
  "isRefLetter c \<longleftrightarrow> 65 \<le> c \<and> c \<le> 90"

fun hasSeriesRef :: "jsstr \<Rightarrow> bool" where
  "hasSeriesRef (c # d # s) \<longleftrightarrow> c = 35 \<and> isRefLetter d \<or> hasSeriesRef (d # s)"
| "hasSeriesRef _ \<longleftrightarrow> False"

definition seriesRefExpression :: "parser \<Rightarrow> (ast option \<times> parser) presult" where
  "seriesRefExpression p =
     (if \<not> match p TIdentifier then Inr (None, p)
      else (case tokenAt p 0 of
              None \<Rightarrow> Inl TypeError
            | Some t \<Rightarrow>
                (case t_value t of
                   None \<Rightarrow> Inl TypeError
                 | Some v \<Rightarrow>
                     if \<not> hasSeriesRef v then Inr (None, p)
                     else Inr (Some (ASeriesRef v), snd (consumeToken p)))))"

definition boolExpression :: "parser \<Rightarrow> (ast option \<times> parser) presult" where
  "boolExpression p =
     (if \<not> match p TBool then Inr (None, p)
      else (case consumeToken p of
              (Some t, p') \<Rightarrow> Inr (Some (ABool (t_value t = Some (js ''true''))), p')
            | (None, _) \<Rightarrow> Inl TypeError))"

definition numericLiteral :: "parser \<Rightarrow> (ast option \<times> parser) presult" where
  "numericLiteral p =
     (if \<not> match p TNumber then Inr (None, p)
      else (case consumeToken p of (t, p') \<Rightarrow> Inr (Some (ANumber (parseFloat (tokenText t))), p')))"

definition stringLiteral :: "parser \<Rightarrow> (ast option \<times> parser) presult" where
  "stringLiteral p =
     (if \<not> match p TString then Inr (None, p)
      else (case consumeToken p of
              (Some t, p') \<Rightarrow>
                if t_isUnclosed t = Some True
                then Inl (GraphiteParserError (js ''Unclosed string parameter'') (t_pos t))
                else Inr (Some (AString (tokenText (Some t))), p')
            | (None, _) \<Rightarrow> Inl TypeError))"

text \<open>\<open>a || b\<close> on results: \<open>b\<close> runs only when \<open>a\<close> gave \<open>null\<close>.\<close>

definition orTry ::
  "(ast option \<times> parser) presult \<Rightarrow> (parser \<Rightarrow> (ast option \<times> parser) presult) \<Rightarrow>
   (ast option \<times> parser) presult" where
  "orTry r alt =
     (case r of Inl e \<Rightarrow> Inl e | Inr (Some x, p) \<Rightarrow> Inr (Some x, p) | Inr (None, p) \<Rightarrow> alt p)"

text \<open>The alternatives of a parameter that is not a function call.\<close>

definition simpleParameter :: "parser \<Rightarrow> (ast option \<times> parser) presult" where
  "simpleParameter p =
     orTry (numericLiteral p)
       (\<lambda>p. orTry (seriesRefExpression p)
         (\<lambda>p. orTry (boolExpression p)
           (\<lambda>p. orTry (metricExpression p) stringLiteral)))"

fun functionCall :: "nat \<Rightarrow> parser \<Rightarrow> (ast option \<times> parser) presult"
  and functionParameters :: "nat \<Rightarrow> parser \<Rightarrow> (ast option list \<times> parser) presult" where
  "functionCall 0 p = Inl OutOfFuel"
| "functionCall (Suc n) p =
     (if \<not> match2 p TIdentifier pLeft then Inr (None, p)
      else (case consumeToken p of
              (t, p1) \<Rightarrow>
                (case functionParameters n (snd (consumeToken p1)) of
                   Inl e \<Rightarrow> Inl e
                 | Inr (params, p2) \<Rightarrow>
                     if \<not> match p2 pRight
                     then Inl (errorMark p2 (js ''Expected closing parenthesis''))
                     else Inr (Some (AFunction (tokenText t) params), snd (consumeToken p2)))))"
| "functionParameters 0 p = Inl OutOfFuel"
| "functionParameters (Suc n) p =
     (if match p pRight \<or> matchEnd p then Inr ([], p)
      else (case orTry (functionCall n p) simpleParameter of
              Inl e \<Rightarrow> Inl e
            | Inr (param, p1) \<Rightarrow>
                if \<not> match p1 pComma then Inr ([param], p1)
                else (case functionParameters n (snd (consumeToken p1)) of
                        Inl e \<Rightarrow> Inl e
                      | Inr (params, p2) \<Rightarrow> Inr (param # params, p2))))"

definition parserFuel :: "parser \<Rightarrow> nat" where
  "parserFuel p = 2 * remaining p + 2"

text \<open>
  The result of \<open>getAst\<close>: a tree, \<open>null\<close>, the error node \<open>start\<close> makes of a
  \<open>GraphiteParserError\<close>, or \<open>undefined\<close> when another error was thrown and swallowed.
\<close>

datatype parseResult = Parsed ast | ParsedNull | ParsedError jsstr "nat option" | ParsedUndefined

definition runStart :: "nat \<Rightarrow> parser \<Rightarrow> (ast option \<times> parser) presult" where
  "runStart n p = orTry (functionCall n p) metricExpression"

definition getAst :: "jsstr \<Rightarrow> parseResult" where
  "getAst expression =
     (let p = newParser expression
      in case runStart (parserFuel p) p of
           Inr (Some a, _) \<Rightarrow> Parsed a
         | Inr (None, _) \<Rightarrow> ParsedNull
         | Inl (GraphiteParserError msg pos) \<Rightarrow> ParsedError msg pos
         | Inl TypeError \<Rightarrow> ParsedUndefined
         | Inl OutOfFuel \<Rightarrow> ParsedUndefined)"

lemmas parser_defs = newParser_def tokenAt_def matchToken_def match_def match2_def matchEnd_def
  consumeToken_def tokTypeStr_def errorMark_def tokenText_def pLeft_def pRight_def pComma_def
  pDot_def pOpen_def pClose_def curlyLoop.simps curlyBraceSegment_def dotToken_def
  fractionToken_def spliceTokens_def metricSegment_def metricLoop.simps metricExpression_def
  seriesRefExpression_def boolExpression_def numericLiteral_def stringLiteral_def orTry_def
  simpleParameter_def isRefLetter_def

end
