(* ===== verification/LexerProps.thy ===== *)
theory LexerProps
  imports Lexer
begin

text \<open>
  What the lexer guarantees on every input: the tokens, in order, spell the expression up to white
  space between them, and their positions point at their text.  Then how it reads the pieces a
  rendered query is made of (words, punctuators, integers, quoted strings), and facts about
  particular branches: the template brackets are unreachable, octal literals of more than two
  digits are reported malformed, and the letter table leaves out the ranges it was meant to cover.
\<close>

named_theorems lex_simps \<open>how one token is read off the front of the input\<close>

subsection \<open>Scanners read a prefix of the input\<close>

definition isPrefix :: "jsstr \<Rightarrow> nat \<times> jsstr \<Rightarrow> bool" where
  "isPrefix inp = (\<lambda>(i, v). i \<le> length inp \<and> v = take i inp)"

lemma isPrefix_step:
  "isPrefix inp (i, v) \<Longrightarrow> charAt inp i = Some c \<Longrightarrow> isPrefix inp (i + 1, v @ [c])"
  by (auto simp: isPrefix_def charAt_def take_Suc_conv_app_nth split: if_splits)

lemma scanWhile_prefix:
  "isPrefix inp (i, v) \<Longrightarrow> isPrefix inp (scanWhile p inp i v)"
proof (induction p inp i v rule: scanWhile.induct)
  case (1 p inp i v)
  show ?case
  proof (cases "i < length inp \<and> p (inp ! i)")
    case True
    with "1.prems" have "isPrefix inp (i + 1, v @ [inp ! i])"
      by (intro isPrefix_step) (auto simp: charAt_def)
    with "1.IH" [OF True] True show ?thesis by (simp add: scanWhile.simps [of p inp i v])
  next
    case False
    with "1.prems" show ?thesis by (auto simp: scanWhile.simps [of p inp i v])
  qed
qed

lemma scanWhile_ge: "i \<le> fst (scanWhile p inp i v)"
  by (induction p inp i v rule: scanWhile.induct) (subst scanWhile.simps, auto)

lemma octalLoop_prefix:
  "isPrefix inp (i, v) \<Longrightarrow> octalLoop inp i v bad = Some (j, w, bad') \<Longrightarrow> isPrefix inp (j, w) \<and> i \<le> j"
proof (induction inp i v bad rule: octalLoop.induct)
  case (1 inp i v bad)
  show ?case
  proof (cases "i < length inp \<and> isOctalDigit (inp ! i)")
    case True
    with "1.prems"(1) have "isPrefix inp (i + 1, v @ [inp ! i])"
      by (intro isPrefix_step) (auto simp: charAt_def)
    with 1 True show ?thesis
      by (fastforce simp: octalLoop.simps [of inp i v bad] Let_def)
  next
    case False
    with "1.prems" show ?thesis
      by (auto simp: octalLoop.simps [of inp i v bad] Let_def split: if_splits)
  qed
qed

lemma getIdentifierPart_prefix:
  assumes "isPrefix inp (i, v)" and "getIdentifierPart inp i = Some (s, j)"
  shows "isPrefix inp (j, v @ s)"
proof -
  have ext: "take (i + 6) inp = take i inp @ [c0, c1, c2, c3, c4, c5]"
    if "charAt inp i = Some c0" "charAt inp (i + 1) = Some c1" "charAt inp (i + 2) = Some c2"
      "charAt inp (i + 3) = Some c3" "charAt inp (i + 4) = Some c4" "charAt inp (i + 5) = Some c5"
    for c0 c1 c2 c3 c4 c5
    using that by (auto simp: charAt_Some_iff numeral_eq_Suc take_Suc_conv_app_nth)
  from assms show ?thesis
    by (auto simp: getIdentifierPart_def readUnicodeEscapeSequence_def isPrefix_def
        charAt_Some_iff take_Suc_conv_app_nth intro!: ext [symmetric]
        split: option.splits if_splits)
qed

lemma identifierLoop_prefix:
  "isPrefix inp (i, v) \<Longrightarrow>
   \<exists>j. isPrefix inp (j, identifierLoop inp i v) \<and> i \<le> j"
proof (induction inp i v rule: identifierLoop.induct)
  case (1 inp i v)
  show ?case
  proof (cases "getIdentifierPart inp i")
    case None
    with "1.prems" show ?thesis by (auto simp: identifierLoop.simps [of inp i v])
  next
    case (Some p)
    then obtain s j where p: "getIdentifierPart inp i = Some (s, j)" by (cases p) auto
    from "1.IH" [OF p refl getIdentifierPart_prefix [OF "1.prems" p]]
    obtain k where "isPrefix inp (k, identifierLoop inp j (v @ s))" "j \<le> k" by blast
    with p getIdentifierPart_progress [OF p] show ?thesis
      by (auto simp: identifierLoop.simps [of inp i v] intro!: exI [of _ k])
  qed
qed

text \<open>A token that reads its value off the front of the input, at position \<open>pos\<close>.\<close>

definition readsPrefix :: "jsstr \<Rightarrow> nat \<Rightarrow> token \<Rightarrow> bool" where
  "readsPrefix inp pos t \<longleftrightarrow>
     (\<exists>j. 0 < j \<and> j \<le> length inp \<and> t_value t = Some (take j inp)) \<and>
     t_type t \<notin> {TString, TTemplateStart, TTemplateEnd} \<and> (t_pos t = None \<or> t_pos t = Some pos)"

lemma readsPrefixI:
  "isPrefix inp (j, w) \<Longrightarrow> 0 < j \<Longrightarrow> t_value t = Some w \<Longrightarrow>
   t_type t \<notin> {TString, TTemplateStart, TTemplateEnd} \<Longrightarrow> t_pos t = None \<or> t_pos t = Some pos \<Longrightarrow>
   readsPrefix inp pos t"
  by (auto simp: readsPrefix_def isPrefix_def)

lemma mkToken_select [simp]:
  "t_type (mkToken ty v p) = ty" "t_value (mkToken ty v p) = Some v" "t_pos (mkToken ty v p) = Some p"
  "t_isUnclosed (mkToken ty v p) = None" "t_quote (mkToken ty v p) = None"
  "t_base (mkToken ty v p) = None" "t_isMalformed (mkToken ty v p) = None"
  by (simp_all add: mkToken_def)

lemma scanExponent_prefix:
  assumes "isPrefix inp (i, v)" and "scanExponent inp i v = Some (j, w)"
  shows "isPrefix inp (j, w) \<and> i \<le> j"
proof -
  have more: "isPrefix inp (scanWhile isDigit inp (k + 1) (u @ [d]))
      \<and> k \<le> fst (scanWhile isDigit inp (k + 1) (u @ [d]))"
    if "isPrefix inp (k, u)" "charAt inp k = Some d" for k u d
    using scanWhile_prefix [OF isPrefix_step [OF that]] scanWhile_ge [of "k + 1" isDigit inp "u @ [d]"]
    by simp
  show ?thesis
  proof (cases "charAt inp i")
    case None
    with assms show ?thesis by (simp add: scanExponent_def)
  next
    case (Some c)
    note c = Some
    show ?thesis
    proof (cases "c = 101 \<or> c = 69")
      case False
      with assms c show ?thesis by (auto simp: scanExponent_def)
    next
      case True
      have p1: "isPrefix inp (i + 1, v @ [c])" using assms(1) c by (rule isPrefix_step)
      show ?thesis
      proof (cases "charAt inp (i + 1) \<in> {Some 43, Some 45}")
        case True': True
        then obtain d where d: "charAt inp (i + 1) = Some d" "d = 43 \<or> d = 45" by auto
        have "isPrefix inp (i + 1 + 1, (v @ [c]) @ [d])" using p1 d(1) by (rule isPrefix_step)
        then have p2: "isPrefix inp (i + 2, v @ [c, d])" by simp
        with more [OF p2] assms(2) c True d show ?thesis
          by (auto simp: scanExponent_def Let_def split: option.splits if_splits)
      next
        case False
        with more [OF p1] assms(2) c True show ?thesis
          by (auto simp: scanExponent_def Let_def split: option.splits if_splits)
      qed
    qed
  qed
qed

lemma finishNumber_prefix:
  assumes "isPrefix inp (i, v)" and "finishNumber inp pos i v = Some t" and "0 < i \<or> charAt inp i = Some 46"
  shows "readsPrefix inp pos t"
proof -
  obtain j u where f: "scanFraction inp i v = (j, u)" by (cases "scanFraction inp i v")
  have j: "isPrefix inp (j, u) \<and> 0 < j"
  proof (cases "charAt inp i = Some 46")
    case True
    then have "(j, u) = scanWhile isDigit inp (i + 1) (v @ [46])"
      using f by (simp add: scanFraction_def)
    with scanWhile_prefix [OF isPrefix_step [OF assms(1) True], of isDigit]
      scanWhile_ge [of "i + 1" isDigit inp "v @ [46]"] show ?thesis
      by (metis fst_conv less_le_trans add_gr_0 zero_less_one)
  next
    case False
    with f assms(1,3) show ?thesis by (auto simp: scanFraction_def)
  qed
  with f assms(2) obtain k w where e: "scanExponent inp j u = Some (k, w)"
    by (auto simp: finishNumber_def split: option.splits)
  with scanExponent_prefix [OF conjunct1 [OF j] e] j have "isPrefix inp (k, w) \<and> 0 < k" by auto
  moreover from f e assms(2) have "t_value t = Some w" "t_type t = TNumber" "t_pos t = Some pos"
    by (auto simp: finishNumber_def split: if_splits)
  ultimately show ?thesis by (auto intro: readsPrefixI)
qed

lemma scanFromDigit_prefix:
  assumes "isPrefix inp (i, v)" and "charAt inp i = Some c" and "scanFromDigit inp pos i v = Some t"
  shows "readsPrefix inp pos t"
proof -
  have p1: "isPrefix inp (i + 1, v @ [c])" using assms(1,2) by (rule isPrefix_step)
  have c: "inp ! i = c" using assms(2) by (simp add: charAt_Some_iff)
  have dec: "readsPrefix inp pos t'"
    if "isPrefix inp (k, u)" "0 < k" "(case scanWhile isDigit inp k u of (j, w) \<Rightarrow> finishNumber inp pos j w) = Some t'"
    for k u t'
    using that scanWhile_prefix [OF that(1), of isDigit] scanWhile_ge [of k isDigit inp u]
    by (auto split: prod.splits intro!: finishNumber_prefix)
  show ?thesis
  proof (cases "charAt inp (i + 1)")
    case None
    with assms(3) c p1 show ?thesis by (auto simp: scanFromDigit_def Let_def intro: dec)
  next
    case (Some d)
    have p2: "isPrefix inp (i + 1 + 1, (v @ [c]) @ [d])" using p1 Some by (rule isPrefix_step)
    have hex: "readsPrefix inp pos t'" if "scanHex inp pos (i + 1) (v @ [c]) d = Some t'" for t'
    proof -
      obtain k u where ku: "scanWhile isHexDigit inp (i + 1 + 1) ((v @ [c]) @ [d]) = (k, u)" by force
      with scanWhile_prefix [OF p2, of isHexDigit]
        scanWhile_ge [of "i + 1 + 1" isHexDigit inp "(v @ [c]) @ [d]"]
      have "isPrefix inp (k, u)" "0 < k" by auto
      with that ku show ?thesis by (auto simp: scanHex_def intro!: readsPrefixI split: if_splits)
    qed
    have oct: "readsPrefix inp pos t'" if "scanOctal inp (i + 1) (v @ [c]) d = Some t'" for t'
    proof -
      from that obtain k u bad where ku: "octalLoop inp (i + 1 + 1) ((v @ [c]) @ [d]) False = Some (k, u, bad)"
        by (auto simp: scanOctal_def split: option.splits prod.splits)
      with octalLoop_prefix [OF p2 ku] have "isPrefix inp (k, u)" "0 < k" by auto
      with that ku show ?thesis by (auto simp: scanOctal_def intro!: readsPrefixI split: if_splits)
    qed
    have p2': "isPrefix inp (i + 2, v @ [c, d])" using p2 by simp
    show ?thesis
      using assms(3) c Some hex oct dec [OF p2'] dec [OF p1]
      by (auto simp: scanFromDigit_def Let_def split: if_splits)
  qed
qed

lemma scanNumericLiteral_prefix:
  assumes "scanNumericLiteral lx = Some t"
  shows "readsPrefix (lx_input lx) (lx_char lx) t"
proof -
  let ?inp = "lx_input lx"
  obtain i v where iv: "(if charAt ?inp 0 = Some 45 then (1 :: nat, [45 :: codeUnit]) else (0, [])) = (i, v)"
    by force
  have p: "isPrefix ?inp (i, v)"
    using iv by (cases ?inp) (auto simp: isPrefix_def split: if_splits)
  from assms obtain c where c: "charAt ?inp i = Some c"
    and t: "if c \<noteq> 46 then scanFromDigit ?inp (lx_char lx) i v = Some t
            else finishNumber ?inp (lx_char lx) i v = Some t"
    using iv by (auto simp: scanNumericLiteral_def Let_def split: option.splits if_splits)
  show ?thesis
  proof (cases "c = 46")
    case True
    with t c finishNumber_prefix [OF p] show ?thesis by simp
  next
    case False
    with t scanFromDigit_prefix [OF p c] show ?thesis by simp
  qed
qed

lemma identifierStartTable_nth: "c < 128 \<Longrightarrow> identifierStartTable ! c = isIdentifierCode c"
  by (simp add: identifierStartTable_def)

lemma scanIdentifier_prefix:
  assumes "scanIdentifier lx = Some t"
  shows "readsPrefix (lx_input lx) (lx_char lx) t"
proof -
  let ?inp = "lx_input lx"
  from assms obtain s i where s: "getIdentifierStart ?inp 0 = Some (s, i)"
    by (auto simp: scanIdentifier_def split: option.splits)
  have "getIdentifierStart ?inp 0 = getIdentifierPart ?inp 0"
    by (auto simp: getIdentifierStart_def getIdentifierPart_def identifierPartTable_def
        identifierStartTable_nth isIdentifierCode_def split: option.splits)
  with s have g: "getIdentifierPart ?inp 0 = Some (s, i)" by simp
  have "isPrefix ?inp (i, [] @ s)"
    using getIdentifierPart_prefix [OF _ g, of "[]"] by (simp add: isPrefix_def)
  from identifierLoop_prefix [OF this] obtain j
    where j: "isPrefix ?inp (j, identifierLoop ?inp i s)" "i \<le> j" by auto
  from getIdentifierPart_progress [OF g] j(2) have "0 < j" by simp
  with j(1) assms s show ?thesis
    by (auto simp: scanIdentifier_def Let_def intro!: readsPrefixI split: if_splits)
qed

text \<open>An identifier starts wherever a template bracket could: the template scanner finds nothing.\<close>

lemma scanIdentifier_bracket:
  "scanIdentifier lx = None \<Longrightarrow> scanTemplateSequence lx = None"
  by (auto simp: scanIdentifier_def scanTemplateSequence_def getIdentifierStart_def peek_def
      identifierStartTable_nth isIdentifierCode_def Let_def split: option.splits if_splits)

lemma scanOther_prefix:
  assumes "scanOther lx = Some t"
  shows "readsPrefix (lx_input lx) (lx_char lx) t"
proof -
  have "readsPrefix (lx_input lx) (lx_char lx) t" if "scanPunctuator lx = Some t"
    using that by (cases "lx_input lx")
      (auto simp: scanPunctuator_def peek_def readsPrefix_def split: option.splits if_splits
        intro!: exI [of _ 1])
  with assms show ?thesis
    using scanNumericLiteral_prefix [of lx] scanIdentifier_prefix [of lx] scanIdentifier_bracket [of lx]
    by (auto simp: scanOther_def orElse_def split: option.splits)
qed

subsection \<open>Strings\<close>

text \<open>The string scanner reads up to the next occurrence of the opening quote; nothing is escaped.\<close>

lemma stringLoop_closed:
  "q \<notin> set w \<Longrightarrow> lx_input lx = w @ q # r \<Longrightarrow>
   stringLoop q lx v =
     (mkString (v @ w) False q (lx_char lx + length w + 1),
      lx\<lparr>lx_char := lx_char lx + length w + 1, lx_input := r\<rparr>)"
proof (induction w arbitrary: lx v)
  case Nil
  then show ?case by (simp add: stringLoop.simps [of q lx v] peek_def skip_def)
next
  case (Cons c w)
  then have "stringLoop q lx v = stringLoop q (skip 1 lx) (v @ [c])"
    by (simp add: stringLoop.simps [of q lx v] peek_def)
  with Cons show ?case by (simp add: skip_def)
qed

lemma stringLoop_unclosed:
  "q \<notin> set w \<Longrightarrow> lx_input lx = w \<Longrightarrow>
   stringLoop q lx v =
     (mkString (v @ w) True q (lx_char lx + length w),
      lx\<lparr>lx_char := lx_char lx + length w, lx_input := []\<rparr>)"
proof (induction w arbitrary: lx v)
  case Nil
  then show ?case by (simp add: stringLoop.simps [of q lx v] peek_def)
next
  case (Cons c w)
  then have "stringLoop q lx v = stringLoop q (skip 1 lx) (v @ [c])"
    by (simp add: stringLoop.simps [of q lx v] peek_def)
  with Cons show ?case by (simp add: skip_def)
qed

lemma mkString_select [simp]:
  "t_type (mkString v u q p) = TString" "t_value (mkString v u q p) = Some v"
  "t_pos (mkString v u q p) = Some p" "t_isUnclosed (mkString v u q p) = Some u"
  "t_quote (mkString v u q p) = Some q"
  by (simp_all add: mkString_def mkToken_def)

subsection \<open>The tokens spell the expression\<close>

text \<open>The text a token was read from: the value, in its quotes for a string.\<close>

definition lexeme :: "token \<Rightarrow> jsstr" where
  "lexeme t =
     (let v = (case t_value t of None \<Rightarrow> [] | Some v \<Rightarrow> v)
      in case t_quote t of
           None \<Rightarrow> v
         | Some q \<Rightarrow> q # v @ (if t_isUnclosed t = Some True then [] else [q]))"

text \<open>
  \<open>spells p ts inp rest\<close>: from position \<open>p\<close> on, \<open>inp\<close> is the text of the tokens \<open>ts\<close> with white space
  before each, then white space, then \<open>rest\<close>.  The position of a string token is the one after it,
  that of any other token (octal literals have none) is where its text starts.
\<close>

fun spells :: "nat \<Rightarrow> token list \<Rightarrow> jsstr \<Rightarrow> jsstr \<Rightarrow> bool" where
  "spells p [] inp rest \<longleftrightarrow> dropWhile isSpace inp = rest"
| "spells p (t # ts) inp rest \<longleftrightarrow>
     (let body = dropWhile isSpace inp;
          start = p + length (takeWhile isSpace inp);
          stop = start + length (lexeme t)
      in lexeme t \<noteq> [] \<and> take (length (lexeme t)) body = lexeme t \<and>
         (if t_type t = TString then t_pos t = Some stop else t_pos t = None \<or> t_pos t = Some start) \<and>
         spells stop ts (drop (length (lexeme t)) body) rest)"

lemma lx_eqI: "lx_input a = lx_input b \<Longrightarrow> lx_char a = lx_char b \<Longrightarrow> lx_from a = lx_from b \<Longrightarrow> a = (b :: lexer)"
  by simp

lemma skipSpaces_char:
  "lx_char (skipSpaces lx) = lx_char lx + length (takeWhile isSpace (lx_input lx))"
proof (induction lx rule: skipSpaces.induct)
  case (1 lx)
  then show ?case
    by (cases "lx_input lx") (auto simp: skipSpaces.simps [of lx] peek_def)
qed

definition noToken :: "lexer \<Rightarrow> bool" where
  "noToken lx \<longleftrightarrow> scanStringLiteral lx = None \<and> scanOther lx = None"

lemma noToken_Nil: "lx_input lx = [] \<Longrightarrow> noToken lx"
  by (simp add: noToken_def scanOther_Nil scanStringLiteral_def peek_def)

lemma next_token_eq:
  "next_token lx =
     (let ly = skipSpaces (lx\<lparr>lx_from := lx_char lx\<rparr>)
      in case scanStringLiteral ly of
           Some (t, lx') \<Rightarrow> (Some t, lx')
         | None \<Rightarrow>
             (case scanOther ly of
                Some t \<Rightarrow> (Some t, skip (case t_value t of None \<Rightarrow> 0 | Some v \<Rightarrow> length v) ly)
              | None \<Rightarrow> (None, ly)))"
proof -
  have "peek ly 0 = None \<Longrightarrow> scanStringLiteral ly = None \<and> scanOther ly = None" for ly
    using noToken_Nil [of ly] by (simp add: peek_def charAt_def noToken_def split: if_splits)
  then show ?thesis by (simp add: next_token_def Let_def)
qed

lemma next_token_None:
  assumes "next_token lx = (None, lx')"
  shows "lx' = skipSpaces (lx\<lparr>lx_from := lx_char lx\<rparr>) \<and> noToken lx'"
proof (cases "scanStringLiteral (skipSpaces (lx\<lparr>lx_from := lx_char lx\<rparr>))")
  case None
  with assms show ?thesis
    by (cases "scanOther (skipSpaces (lx\<lparr>lx_from := lx_char lx\<rparr>))")
      (auto simp: next_token_eq noToken_def)
next
  case (Some p)
  with assms show ?thesis by (cases p) (simp add: next_token_eq)
qed

lemma scan_quote:
  "scanPunctuator lx = Some t \<Longrightarrow> t_quote t = None"
  "scanHex inp pos i v c = Some t \<Longrightarrow> t_quote t = None"
  "scanOctal inp i v c = Some t \<Longrightarrow> t_quote t = None"
  "finishNumber inp pos i v = Some t \<Longrightarrow> t_quote t = None"
  "scanIdentifier lx = Some t \<Longrightarrow> t_quote t = None"
  "scanTemplateSequence lx = Some t \<Longrightarrow> t_quote t = None"
  by (auto simp: scanPunctuator_def scanHex_def scanOctal_def finishNumber_def scanIdentifier_def
      scanTemplateSequence_def Let_def split: option.splits if_splits prod.splits)

lemma scanFromDigit_quote: "scanFromDigit inp pos i v = Some t \<Longrightarrow> t_quote t = None"
  by (auto simp: scanFromDigit_def Let_def dest: scan_quote split: option.splits if_splits prod.splits)

lemma scanNumericLiteral_quote: "scanNumericLiteral lx = Some t \<Longrightarrow> t_quote t = None"
  by (auto simp: scanNumericLiteral_def Let_def dest: scan_quote scanFromDigit_quote
      split: option.splits if_splits prod.splits)

lemma scanOther_quote: "scanOther lx = Some t \<Longrightarrow> t_quote t = None"
  by (auto simp: scanOther_def orElse_def dest: scan_quote scanNumericLiteral_quote
      split: option.splits)

lemma scanStringLiteral_spells:
  assumes "scanStringLiteral lx = Some (t, lx')"
  shows "lexeme t \<noteq> [] \<and> take (length (lexeme t)) (lx_input lx) = lexeme t \<and> t_type t = TString \<and>
    t_pos t = Some (lx_char lx + length (lexeme t)) \<and>
    lx_char lx' = lx_char lx + length (lexeme t) \<and>
    lx_input lx' = drop (length (lexeme t)) (lx_input lx)"
proof -
  from assms obtain q r where inp: "lx_input lx = q # r"
    and loop: "stringLoop q (skip 0 lx) [] = (t, lx')"
    by (cases "lx_input lx") (auto simp: scanStringLiteral_def peek_def split: if_splits)
  show ?thesis
  proof (cases "q \<in> set r")
    case True
    then obtain w r' where r: "r = w @ q # r'" "q \<notin> set w" by (meson split_list_first)
    then have "stringLoop q (skip 0 lx) [] =
        (mkString w False q (lx_char lx + length w + 2),
         (skip 0 lx)\<lparr>lx_char := lx_char lx + length w + 2, lx_input := r'\<rparr>)"
      using stringLoop_closed [of q w "skip 0 lx" r' "[]"] inp by simp
    with loop inp r show ?thesis by (auto simp: lexeme_def)
  next
    case False
    then have "stringLoop q (skip 0 lx) [] =
        (mkString r True q (lx_char lx + 1 + length r),
         (skip 0 lx)\<lparr>lx_char := lx_char lx + 1 + length r, lx_input := []\<rparr>)"
      using stringLoop_unclosed [of q r "skip 0 lx" "[]"] inp by simp
    with loop inp show ?thesis by (auto simp: lexeme_def)
  qed
qed

lemma next_token_step:
  fixes lx :: lexer
  defines "body \<equiv> dropWhile isSpace (lx_input lx)"
    and "start \<equiv> lx_char lx + length (takeWhile isSpace (lx_input lx))"
  assumes "next_token lx = (Some t, lx')"
  shows "lexeme t \<noteq> []" and "take (length (lexeme t)) body = lexeme t"
    and "if t_type t = TString then t_pos t = Some (start + length (lexeme t))
         else t_pos t = None \<or> t_pos t = Some start"
    and "lx_char lx' = start + length (lexeme t)" and "lx_input lx' = drop (length (lexeme t)) body"
proof -
  define ly where "ly = skipSpaces (lx\<lparr>lx_from := lx_char lx\<rparr>)"
  have ly: "lx_input ly = body" "lx_char ly = start"
    by (simp_all add: ly_def skipSpaces_input skipSpaces_char body_def start_def)
  have "lexeme t \<noteq> [] \<and> take (length (lexeme t)) body = lexeme t \<and>
    (if t_type t = TString then t_pos t = Some (start + length (lexeme t))
     else t_pos t = None \<or> t_pos t = Some start) \<and>
    lx_char lx' = start + length (lexeme t) \<and> lx_input lx' = drop (length (lexeme t)) body"
  proof (cases "scanStringLiteral ly")
    case (Some p)
    with assms(3) have "scanStringLiteral ly = Some (t, lx')"
      by (cases p) (simp add: next_token_eq flip: ly_def)
    from scanStringLiteral_spells [OF this] ly show ?thesis by simp
  next
    case None
    with assms(3) have o: "scanOther ly = Some t"
      and lx': "lx' = skip (case t_value t of None \<Rightarrow> 0 | Some v \<Rightarrow> length v) ly"
      by (auto simp: next_token_eq simp flip: ly_def split: option.splits)
    from scanOther_prefix [OF o] obtain j where j: "0 < j" "j \<le> length body"
      "t_value t = Some (take j body)" and ty: "t_type t \<noteq> TString"
      and pos: "t_pos t = None \<or> t_pos t = Some start"
      by (auto simp: readsPrefix_def ly)
    have lex: "lexeme t = take j body" using j scanOther_quote [OF o] by (simp add: lexeme_def)
    from lx' j have "lx_char lx' = start + j" "lx_input lx' = drop j body"
      by (simp_all add: min_def ly)
    with j ty pos lex show ?thesis by (auto simp: min_def)
  qed
  then show "lexeme t \<noteq> []" and "take (length (lexeme t)) body = lexeme t"
    and "if t_type t = TString then t_pos t = Some (start + length (lexeme t))
         else t_pos t = None \<or> t_pos t = Some start"
    and "lx_char lx' = start + length (lexeme t)" and "lx_input lx' = drop (length (lexeme t)) body"
    by blast+
qed

lemma tokenizeFrom_spells:
  "tokenizeFrom lx = (ts, lx') \<Longrightarrow>
   spells (lx_char lx) ts (lx_input lx) (lx_input lx') \<and> noToken lx' \<and>
   lx_char lx' + length (lx_input lx') = lx_char lx + length (lx_input lx)"
proof (induction lx arbitrary: ts rule: tokenizeFrom.induct)
  case (1 lx)
  have sp: "length (takeWhile isSpace xs) + length (dropWhile isSpace xs) = length xs" for xs
    by (metis length_append takeWhile_dropWhile_id)
  obtain ot ly where n: "next_token lx = (ot, ly)" by (cases "next_token lx")
  show ?case
  proof (cases ot)
    case None
    with n "1.prems" have ts: "ts = []" and lx': "lx' = ly" by (simp_all add: tokenizeFrom.simps [of lx])
    have "next_token lx = (None, ly)" using n None by simp
    from next_token_None [OF this]
    have ly: "ly = skipSpaces (lx\<lparr>lx_from := lx_char lx\<rparr>)" and nt: "noToken ly" by blast+
    have "lx_input ly = dropWhile isSpace (lx_input lx)"
      "lx_char ly = lx_char lx + length (takeWhile isSpace (lx_input lx))"
      by (simp_all add: ly skipSpaces_input skipSpaces_char)
    then show ?thesis using sp [of "lx_input lx"] nt unfolding lx' ts by simp
  next
    case (Some t)
    obtain us where us: "tokenizeFrom ly = (us, lx')" "ts = t # us"
      using "1.prems" n Some by (auto simp: tokenizeFrom.simps [of lx] split: prod.splits)
    have nt: "next_token lx = (Some t, ly)" using n Some by simp
    note st = next_token_step [OF nt]
    from "1.IH" [OF n [symmetric] Some us(1)]
    have ih: "spells (lx_char ly) us (lx_input ly) (lx_input lx')" "noToken lx'"
      "lx_char lx' + length (lx_input lx') = lx_char ly + length (lx_input ly)" by simp_all
    have "length (lexeme t) \<le> length (dropWhile isSpace (lx_input lx))"
      using st(2) by (metis length_take min.bounded_iff order_refl)
    with st(4,5) sp [of "lx_input lx"]
    have "lx_char ly + length (lx_input ly) = lx_char lx + length (lx_input lx)" by simp
    moreover have "spells (lx_char lx) ts (lx_input lx) (lx_input lx')"
      using st ih(1) us(2) by (simp add: Let_def)
    ultimately show ?thesis using ih(2,3) by simp
  qed
qed

text \<open>
  Claim C5. The lexer loses nothing: for every expression, the tokens, with the white space between
  them, spell a prefix of it, each token is placed where its text is, and the lexer stops only
  where no token can be read; the position it stops at, which the parser reports in errors at the
  end of the string, is the number of characters read plus one.
\<close>

theorem tokenize_spells:
  "let (ts, lx) = tokenizeFrom (newLexer expression)
   in tokenize expression = ts \<and> finalChar expression = lx_char lx \<and>
      spells 1 ts expression (lx_input lx) \<and> noToken lx \<and>
      lx_char lx + length (lx_input lx) = 1 + length expression"
  using tokenizeFrom_spells [of "newLexer expression"]
  by (auto simp: tokenize_def finalChar_def newLexer_def split: prod.splits)

lemma next_token_value:
  assumes "next_token lx = (Some t, lx')"
  shows "t_value t \<noteq> None \<and> t_type t \<noteq> TTemplateStart \<and> t_type t \<noteq> TTemplateEnd"
proof -
  define ly where "ly = skipSpaces (lx\<lparr>lx_from := lx_char lx\<rparr>)"
  have loop: "t_value (fst (stringLoop q k v)) \<noteq> None \<and> t_type (fst (stringLoop q k v)) = TString" for q k v
  proof (induction q k v rule: stringLoop.induct)
    case (1 q k v)
    then show ?case
      by (subst (1 2) stringLoop.simps) (auto simp: Let_def split: option.splits)
  qed
  show ?thesis
  proof (cases "scanStringLiteral ly")
    case (Some p)
    with assms have "scanStringLiteral ly = Some (t, lx')"
      by (cases p) (simp add: next_token_eq flip: ly_def)
    then obtain q where "stringLoop q (skip 0 ly) [] = (t, lx')"
      by (auto simp: scanStringLiteral_def split: option.splits if_splits)
    with loop [of q "skip 0 ly" "[]"] show ?thesis by simp
  next
    case None
    with assms have "scanOther ly = Some t"
      by (auto simp: next_token_eq simp flip: ly_def split: option.splits)
    from scanOther_prefix [OF this] show ?thesis by (auto simp: readsPrefix_def)
  qed
qed

lemma tokenizeFrom_tokens:
  "t \<in> set (fst (tokenizeFrom lx)) \<Longrightarrow>
   t_value t \<noteq> None \<and> t_type t \<noteq> TTemplateStart \<and> t_type t \<noteq> TTemplateEnd"
proof (induction lx rule: tokenizeFrom.induct)
  case (1 lx)
  obtain ot ly where n: "next_token lx = (ot, ly)" by (cases "next_token lx")
  show ?case
  proof (cases ot)
    case None
    with n "1.prems" show ?thesis by (simp add: tokenizeFrom.simps [of lx])
  next
    case (Some u)
    obtain us lx' where us: "tokenizeFrom ly = (us, lx')" by (cases "tokenizeFrom ly")
    with "1.prems" n Some have "t = u \<or> t \<in> set us" by (simp add: tokenizeFrom.simps [of lx])
    with "1.IH" [OF n [symmetric] Some] us next_token_value [of lx u ly] n Some show ?thesis by auto
  qed
qed

text \<open>
  Square brackets are characters of identifiers, so the scanner of template brackets is
  never reached with one: no expression has a \<open>templateStart\<close> or a \<open>templateEnd\<close> token, and the
  template branch of the parser is dead code.
\<close>

theorem tokenize_no_template:
  "TTemplateStart \<notin> t_type ` set (tokenize expression) \<and> TTemplateEnd \<notin> t_type ` set (tokenize expression)"
proof -
  have "TTemplateStart \<noteq> t_type t \<and> TTemplateEnd \<noteq> t_type t" if "t \<in> set (tokenize expression)" for t
    using tokenizeFrom_tokens that by (metis tokenize_def)
  then show ?thesis by blast
qed

subsection \<open>The letter table\<close>

fun tableRanges :: "nat list \<Rightarrow> (nat \<times> nat) list" where
  "tableRanges (lo # hi # t) = (lo, hi) # tableRanges t"
| "tableRanges _ = []"

text \<open>The ranges are in order, the first above \<open>prev\<close>.\<close>

fun rangesSorted :: "nat \<Rightarrow> nat list \<Rightarrow> bool" where
  "rangesSorted prev [] = True"
| "rangesSorted prev [lo] = False"
| "rangesSorted prev (lo # hi # t) = (if prev < lo then if lo \<le> hi then rangesSorted hi t else False else False)"

lemma rangesSorted_lower:
  "rangesSorted prev t \<Longrightarrow> (lo, hi) \<in> set (tableRanges t) \<Longrightarrow> prev < lo"
  by (induction prev t rule: rangesSorted.induct) (auto split: if_splits)

text \<open>Stopping at the first range that begins above the code is right because the table is sorted.\<close>

lemma letterSearch_sorted:
  "rangesSorted prev t \<Longrightarrow>
   letterSearch t code \<longleftrightarrow> (\<exists>(lo, hi) \<in> set (tableRanges t). lo \<le> code \<and> code \<le> hi)"
proof (induction t code arbitrary: prev rule: letterSearch.induct)
  case (1 lo hi t code)
  then have s: "rangesSorted hi t" by (simp split: if_splits)
  show ?case
  proof (cases "code \<le> hi")
    case True
    with rangesSorted_lower [OF s] "1.prems" show ?thesis by (fastforce split: if_splits)
  next
    case False
    with 1 s show ?thesis by (auto split: if_splits)
  qed
qed auto

lemma unicodeLetterTable_sorted: "rangesSorted 0 unicodeLetterTable"
  by (simp only: unicodeLetterTable_def rangesSorted.simps if_True if_P
        rel_simps arith_simps simp_thms zero_less_numeral)

text \<open>
  \<open>isUnicodeLetter\<close> decides whether a code unit lies in one of the ranges of the table:
  leaving the loop at the first range that begins above the code loses nothing.
\<close>

theorem isUnicodeLetter_ranges:
  "isUnicodeLetter code \<longleftrightarrow>
     list_ex (\<lambda>(lo, hi). lo \<le> code \<and> code \<le> hi) (tableRanges unicodeLetterTable)"
  by (simp add: isUnicodeLetter_def letterSearch_sorted [OF unicodeLetterTable_sorted] list_ex_iff)

text \<open>No range of the table meets the interval from \<open>a\<close> to \<open>b\<close>.\<close>

fun tableGap :: "nat \<Rightarrow> nat \<Rightarrow> nat list \<Rightarrow> bool" where
  "tableGap a b (lo # hi # t) = (if hi < a then tableGap a b t else b < lo)"
| "tableGap a b _ = True"

lemma letterSearch_gap: "tableGap a b t \<Longrightarrow> a \<le> code \<Longrightarrow> code \<le> b \<Longrightarrow> \<not> letterSearch t code"
  by (induction a b t rule: tableGap.induct) (auto split: if_splits)

lemma table_gaps:
  "tableGap 13313 19892 unicodeLetterTable" "tableGap 19969 40906 unicodeLetterTable"
  "tableGap 44033 55202 unicodeLetterTable"
  by (simp_all only: unicodeLetterTable_def tableGap.simps if_True if_False if_P if_not_P
        rel_simps arith_simps simp_thms)

text \<open>
  The entries \<open>First\<close> and \<open>Last\<close> by which the Unicode database abbreviates its three
  large blocks were put into the table as two ranges of one letter each, so that the letters between
  them (CJK ideographs and their extension A, Hangul syllables) are not letters of identifiers:
  a path with one of them ends there.
\<close>

theorem cjk_not_letters:
  "code \<in> {13313..19892} \<union> {19969..40906} \<union> {44033..55202} \<Longrightarrow>
   \<not> isUnicodeLetter code \<and> getIdentifierPart [code] 0 = None"
  using table_gaps [THEN letterSearch_gap, of code]
  by (auto simp: isUnicodeLetter_def getIdentifierPart_def)

text \<open>A syllable of Hangul (U+AC01) is rejected.\<close>

theorem cjk_not_letters_witness:
  "\<not> isUnicodeLetter 44033 \<and> getIdentifierPart [44033] 0 = None"
  by (rule cjk_not_letters) simp
end
