(* ===== verification/LexPieces.thy ===== *)
theory LexPieces
  imports LexerProps
begin

text \<open>
  How the lexer reads the pieces a rendered query is made of: words, punctuators, blanks before a
  token, quoted strings and integers.  \<open>lexes inp vs\<close> says that the tokens of \<open>inp\<close>, whatever the
  position it stands at, have the types, values and closing marks \<open>vs\<close>; the rules of the
  collection \<open>lex_simps\<close> read one piece off the front.
\<close>

type_synonym tokenView = "tokType \<times> jsstr option \<times> bool option"

definition view :: "token \<Rightarrow> tokenView" where
  "view t = (t_type t, t_value t, t_isUnclosed t)"

definition lexes :: "jsstr \<Rightarrow> tokenView list \<Rightarrow> bool" where
  "lexes inp vs \<longleftrightarrow> (\<forall>lx. lx_input lx = inp \<longrightarrow> map view (fst (tokenizeFrom lx)) = vs)"

definition wordView :: "jsstr \<Rightarrow> tokenView" where
  "wordView w = (if w = js ''true'' \<or> w = js ''false'' then TBool else TIdentifier, Some w, None)"

definition punctView :: "codeUnit \<Rightarrow> tokenView" where
  "punctView c = (TPunct c, Some [c], None)"

definition stringView :: "jsstr \<Rightarrow> tokenView" where
  "stringView s = (TString, Some s, Some False)"

definition numberView :: "jsstr \<Rightarrow> tokenView" where
  "numberView s = (TNumber, Some s, None)"

lemma lexes_Nil: "lexes [] []"
proof -
  have "tokenizeFrom lx = ([], skipSpaces (lx\<lparr>lx_from := lx_char lx\<rparr>))" if "lx_input lx = []" for lx
  proof -
    have "noToken (skipSpaces (lx\<lparr>lx_from := lx_char lx\<rparr>))"
      using that by (intro noToken_Nil) (simp add: skipSpaces_input)
    then show ?thesis by (simp add: tokenizeFrom.simps [of lx] next_token_eq noToken_def Let_def)
  qed
  then show ?thesis by (simp add: lexes_def)
qed

lemma lexes_step:
  assumes "\<And>lx. lx_input lx = inp \<Longrightarrow> \<exists>t lx'. next_token lx = (Some t, lx') \<and> view t = v \<and> lx_input lx' = rest"
    and "lexes rest vs"
  shows "lexes inp (v # vs)"
  unfolding lexes_def
proof (intro allI impI)
  fix lx :: lexer
  assume "lx_input lx = inp"
  from assms(1) [OF this] obtain t lx' where
    n: "next_token lx = (Some t, lx')" "view t = v" "lx_input lx' = rest" by blast
  with assms(2) show "map view (fst (tokenizeFrom lx)) = v # vs"
    by (simp add: tokenizeFrom.simps [of lx] lexes_def split: prod.split) (metis fst_conv)
qed

text \<open>A blank before the first token changes nothing but positions.\<close>

lemma skipSpaces_nospace: "lx_input lx = c # r \<Longrightarrow> \<not> isSpace c \<Longrightarrow> skipSpaces lx = lx"
  by (simp add: skipSpaces.simps [of lx] peek_def)

lemma next_token_nospace:
  assumes "lx_input lx = c # r" and "\<not> isSpace c" and "c \<noteq> 34" and "c \<noteq> 39"
    and "scanOther (lx\<lparr>lx_from := lx_char lx\<rparr>) = Some t" and "t_value t = Some v" and "v \<noteq> []"
  shows "next_token lx = (Some t, skip (length v) (lx\<lparr>lx_from := lx_char lx\<rparr>))"
proof -
  have "scanStringLiteral (lx\<lparr>lx_from := lx_char lx\<rparr>) = None"
    using assms by (simp add: scanStringLiteral_def peek_def)
  with assms skipSpaces_nospace [of "lx\<lparr>lx_from := lx_char lx\<rparr>" c r] show ?thesis
    by (simp add: next_token_eq Let_def)
qed

lemma skipSpaces_space: "lx_input lx = c # r \<Longrightarrow> isSpace c \<Longrightarrow>
    skipSpaces lx = skipSpaces (skip 0 (lx\<lparr>lx_from := lx_from lx + 1\<rparr>))"
  by (simp add: skipSpaces.simps [of lx] peek_def)

subsection \<open>Punctuators\<close>

lemma punct_not_space: "isPunctuator c \<Longrightarrow> \<not> isSpace c \<and> c \<noteq> 34 \<and> c \<noteq> 39"
  by (auto simp: isPunctuator_def isSpace_def)

lemma lexes_punct [lex_simps]:
  assumes "isPunctuator c" and "lexes r vs"
  shows "lexes (c # r) (punctView c # vs)"
proof (rule lexes_step)
  fix lx :: lexer
  assume inp: "lx_input lx = c # r"
  have "scanOther (lx\<lparr>lx_from := lx_char lx\<rparr>) = Some (mkToken (TPunct c) [c] (lx_char lx))"
    using inp assms(1) by (simp add: scanOther_def orElse_def scanPunctuator_def peek_def)
  from next_token_nospace [OF inp _ _ _ this] punct_not_space [OF assms(1)]
  have "next_token lx = (Some (mkToken (TPunct c) [c] (lx_char lx)), skip 1 (lx\<lparr>lx_from := lx_char lx\<rparr>))"
    by simp
  with inp show "\<exists>t lx'. next_token lx = (Some t, lx') \<and> view t = punctView c \<and> lx_input lx' = r"
    by (auto simp: view_def punctView_def)
qed (fact assms(2))

subsection \<open>Strings\<close>

lemma lexes_string [lex_simps]:
  assumes "39 \<notin> set s" and "lexes r vs"
  shows "lexes (39 # s @ 39 # r) (stringView s # vs)"
proof (rule lexes_step)
  fix lx :: lexer
  assume inp: "lx_input lx = 39 # s @ 39 # r"
  let ?lx = "lx\<lparr>lx_from := lx_char lx\<rparr>"
  have sp: "skipSpaces ?lx = ?lx"
    using inp by (intro skipSpaces_nospace [of _ 39 "s @ 39 # r"]) (simp_all add: isSpace_def)
  have "scanStringLiteral ?lx = Some (stringLoop 39 (skip 0 ?lx) [])"
    using inp by (simp add: scanStringLiteral_def peek_def)
  moreover have "stringLoop 39 (skip 0 ?lx) [] = (mkString s False 39 (lx_char lx + length s + 2),
      (skip 0 ?lx)\<lparr>lx_char := lx_char lx + length s + 2, lx_input := r\<rparr>)"
    using stringLoop_closed [OF assms(1), of "skip 0 ?lx" r "[]"] inp by simp
  ultimately show "\<exists>t lx'. next_token lx = (Some t, lx') \<and> view t = stringView s \<and> lx_input lx' = r"
    by (simp add: next_token_eq sp Let_def view_def stringView_def)
qed (fact assms(2))

subsection \<open>Words\<close>

text \<open>Where a word ends: at the end of the text, before a punctuator, a blank or a quote.\<close>

definition wordEnds :: "jsstr \<Rightarrow> bool" where
  "wordEnds r \<longleftrightarrow> (case r of [] \<Rightarrow> True | c # _ \<Rightarrow> isPunctuator c \<or> c = 32 \<or> c = 39)"

text \<open>
  A plain word: characters of identifiers, the first of which cannot begin a number.
\<close>

definition plainWord :: "jsstr \<Rightarrow> bool" where
  "plainWord w \<longleftrightarrow>
     (case w of [] \<Rightarrow> False
      | c # _ \<Rightarrow> list_all (\<lambda>c. c < 128 \<and> isIdentifierCode c) w \<and> \<not> isDigit c \<and> c \<noteq> 45)"

lemma getIdentifierPart_code:
  "i < length inp \<Longrightarrow> inp ! i < 128 \<Longrightarrow> isIdentifierCode (inp ! i) \<Longrightarrow>
   getIdentifierPart inp i = Some ([inp ! i], i + 1)"
  by (auto simp: getIdentifierPart_def charAt_def identifierPartTable_def identifierStartTable_nth
      isIdentifierCode_def)

lemma getIdentifierPart_end:
  "wordEnds (drop i inp) \<Longrightarrow> getIdentifierPart inp i = None"
proof (cases "i < length inp")
  case True
  assume "wordEnds (drop i inp)"
  moreover obtain c where c: "drop i inp = c # drop (Suc i) inp" "charAt inp i = Some c"
    using True by (simp add: Cons_nth_drop_Suc [symmetric] charAt_def)
  ultimately have "c \<in> {46, 40, 41, 44, 123, 125, 32, 39}"
    by (simp add: wordEnds_def isPunctuator_def)
  then have "c < 128 \<and> c \<noteq> 92 \<and> \<not> isIdentifierCode c"
    by (auto simp: isIdentifierCode_def)
  with c show ?thesis
    by (simp add: getIdentifierPart_def identifierPartTable_def identifierStartTable_nth)
qed (simp add: getIdentifierPart_def charAt_def)

lemma identifierLoop_word:
  "list_all (\<lambda>c. c < 128 \<and> isIdentifierCode c) w \<Longrightarrow> wordEnds r \<Longrightarrow>
   identifierLoop (p @ w @ r) (length p) ident = ident @ w"
proof (induction w arbitrary: p ident)
  case Nil
  then show ?case
    using getIdentifierPart_end [of "length p" "p @ r"]
    by (simp add: identifierLoop.simps [of "p @ r"])
next
  case (Cons c w)
  have g: "getIdentifierPart (p @ (c # w) @ r) (length p) = Some ([c], length p + 1)"
    using getIdentifierPart_code [of "length p" "p @ (c # w) @ r"] Cons.prems(1) by (simp add: nth_append)
  have "identifierLoop (p @ (c # w) @ r) (length p) ident
      = identifierLoop (p @ (c # w) @ r) (length p + 1) (ident @ [c])"
    by (subst identifierLoop.simps) (simp add: g del: append_assoc append_Cons)
  also have "\<dots> = ident @ c # w"
    using Cons.IH [of "p @ [c]" "ident @ [c]"] Cons.prems by simp
  finally show ?case .
qed

lemma scanIdentifier_word:
  assumes "list_all (\<lambda>c. c < 128 \<and> isIdentifierCode c) w" and "w \<noteq> []" and "wordEnds r"
    and "lx_input lx = w @ r"
  shows "scanIdentifier lx =
    Some (mkToken (if w = js ''true'' \<or> w = js ''false'' then TBool else TIdentifier) w (lx_char lx))"
proof -
  from assms(1,2) obtain c u where w: "w = c # u" "c < 128" "isIdentifierCode c"
    "list_all (\<lambda>c. c < 128 \<and> isIdentifierCode c) u" by (cases w) auto
  have "getIdentifierStart (w @ r) 0 = Some ([c], 1)"
    using w by (auto simp: getIdentifierStart_def identifierStartTable_nth isIdentifierCode_def)
  moreover have "identifierLoop (w @ r) 1 [c] = w"
    using identifierLoop_word [OF w(4) assms(3), of "[c]" "[c]"] w(1) by simp
  ultimately show ?thesis using assms(4) by (simp add: scanIdentifier_def Let_def)
qed

lemma identifierCode_not:
  "isIdentifierCode c \<Longrightarrow> \<not> isSpace c \<and> c \<noteq> 34 \<and> c \<noteq> 39 \<and> \<not> isPunctuator c"
  by (auto simp: isIdentifierCode_def isSpace_def isPunctuator_def)

lemma lexes_identifier:
  assumes "list_all (\<lambda>c. c < 128 \<and> isIdentifierCode c) w" and "w \<noteq> []" and "wordEnds r"
    and num: "\<And>lx. lx_input lx = w @ r \<Longrightarrow> scanNumericLiteral lx = None" and "lexes r vs"
  shows "lexes (w @ r) (wordView w # vs)"
proof (rule lexes_step)
  fix lx :: lexer
  assume inp: "lx_input lx = w @ r"
  let ?lx = "lx\<lparr>lx_from := lx_char lx\<rparr>"
  let ?t = "mkToken (if w = js ''true'' \<or> w = js ''false'' then TBool else TIdentifier) w (lx_char lx)"
  from assms(1,2) obtain c u where w: "w = c # u" "isIdentifierCode c" by (cases w) auto
  have "scanPunctuator ?lx = None"
    using inp w identifierCode_not [OF w(2)] by (simp add: scanPunctuator_def peek_def)
  moreover have "scanIdentifier ?lx = Some ?t"
    using scanIdentifier_word [OF assms(1-3), of ?lx] inp by simp
  ultimately have "scanOther ?lx = Some ?t"
    using num [of ?lx] inp by (simp add: scanOther_def orElse_def)
  from next_token_nospace [OF _ _ _ _ this, of c "u @ r" w] inp w identifierCode_not [OF w(2)]
  have "next_token lx = (Some ?t, skip (length w) ?lx)" by simp
  with inp w(1) show "\<exists>t lx'. next_token lx = (Some t, lx') \<and> view t = wordView w \<and> lx_input lx' = r"
    by (simp add: view_def wordView_def)
qed (fact assms(5))

lemma lexes_word [lex_simps]:
  assumes "plainWord w" and "wordEnds r" and "lexes r vs"
  shows "lexes (w @ r) (wordView w # vs)"
proof -
  from assms(1) obtain c u where w: "w = c # u" "\<not> isDigit c" "c \<noteq> 45" "isIdentifierCode c"
    "list_all (\<lambda>c. c < 128 \<and> isIdentifierCode c) w" by (auto simp: plainWord_def split: list.splits)
  have "scanNumericLiteral lx = None" if "lx_input lx = w @ r" for lx
    using that w identifierCode_not [OF w(4)]
    by (simp add: scanNumericLiteral_def Let_def isPunctuator_def)
  with w assms show ?thesis by (intro lexes_identifier) auto
qed

subsection \<open>Blanks\<close>

lemma next_token_space:
  assumes "lx_input lx = c # r" and "isSpace c"
  shows "next_token lx = next_token (skip 1 lx)"
proof -
  have "skipSpaces (lx\<lparr>lx_from := lx_char lx\<rparr>)
      = skipSpaces (skip 0 (lx\<lparr>lx_from := lx_char lx + 1\<rparr>))"
    using skipSpaces_space [of "lx\<lparr>lx_from := lx_char lx\<rparr>" c r] assms by simp
  also have "skip 0 (lx\<lparr>lx_from := lx_char lx + 1\<rparr>)
      = (skip 1 lx)\<lparr>lx_from := lx_char (skip 1 lx)\<rparr>"
    by (simp add: skip_def)
  finally show ?thesis by (simp add: next_token_eq)
qed

lemma lexes_blank [lex_simps]:
  assumes "isSpace c" and "lexes r vs"
  shows "lexes (c # r) vs"
  unfolding lexes_def
proof (intro allI impI)
  fix lx :: lexer
  assume inp: "lx_input lx = c # r"
  have "tokenizeFrom lx = tokenizeFrom (skip 1 lx)"
    unfolding tokenizeFrom.simps [of lx] tokenizeFrom.simps [of "skip 1 lx"]
      next_token_space [OF inp assms(1)] ..
  with assms(2) inp show "map view (fst (tokenizeFrom lx)) = vs" by (simp add: lexes_def)
qed

subsection \<open>Integers\<close>

definition paramEnds :: "jsstr \<Rightarrow> bool" where
  "paramEnds r \<longleftrightarrow> (case r of [] \<Rightarrow> True | c # _ \<Rightarrow> c = 41 \<or> c = 44)"

lemma paramEnds_wordEnds: "paramEnds r \<Longrightarrow> wordEnds r"
  by (auto simp: paramEnds_def wordEnds_def isPunctuator_def split: list.splits)

lemma scanWhile_digits:
  "list_all isDigit ds \<Longrightarrow> (case r of [] \<Rightarrow> True | c # _ \<Rightarrow> \<not> isDigit c) \<Longrightarrow>
   scanWhile isDigit (p @ ds @ r) (length p) v = (length p + length ds, v @ ds)"
proof (induction ds arbitrary: p v)
  case Nil
  then show ?case by (subst scanWhile.simps) (auto simp: nth_append split: list.splits)
next
  case (Cons d ds)
  from Cons.IH [of "p @ [d]" "v @ [d]"] Cons.prems show ?case
    by (subst scanWhile.simps) (simp add: nth_append)
qed

lemma finishNumber_paramEnds:
  assumes "paramEnds r"
  shows "finishNumber (p @ r) pos (length p) v =
    Some (mkToken TNumber v pos \<lparr>t_base := Some 10, t_isMalformed := Some (\<not> isFinite (toNumber v))\<rparr>)"
proof -
  have "charAt (p @ r) (length p) = None \<and> r = [] \<or> (\<exists>c. charAt (p @ r) (length p) = Some c \<and>
      (p @ r) ! length p = c \<and> (c = 41 \<or> c = 44))"
    using assms by (cases r) (auto simp: paramEnds_def charAt_def)
  then show ?thesis by (auto simp: finishNumber_def scanFraction_def scanExponent_def isPunctuator_def)
qed

lemma scanFromDigit_nat:
  assumes "paramEnds r"
  shows "\<exists>b m. scanFromDigit (p @ natToStr n @ r) pos (length p) p =
    Some (mkToken TNumber (p @ natToStr n) pos \<lparr>t_base := b, t_isMalformed := m\<rparr>)"
proof -
  obtain d ds where n: "natToStr n = d # ds" "list_all isDigit ds"
    using natToStr_digits [of n] by (cases "natToStr n") (auto simp: list_all_iff)
  have ends: "case r of [] \<Rightarrow> True | c # _ \<Rightarrow> \<not> isDigit c"
    using assms by (auto simp: paramEnds_def isDigit_def split: list.splits)
  have plain: "scanWhile isDigit (p @ natToStr n @ r) (length p + 1) (p @ [d]) = (length (p @ natToStr n), p @ natToStr n)"
    using scanWhile_digits [OF n(2) ends, of "p @ [d]" "p @ [d]"] n(1) by simp
  have fin: "finishNumber (p @ natToStr n @ r) pos (length (p @ natToStr n)) (p @ natToStr n) =
    Some (mkToken TNumber (p @ natToStr n) pos
      \<lparr>t_base := Some 10, t_isMalformed := Some (\<not> isFinite (toNumber (p @ natToStr n)))\<rparr>)"
    using finishNumber_paramEnds [OF assms, of "p @ natToStr n" pos "p @ natToStr n"] by simp
  have c: "charAt (p @ natToStr n @ r) (length p + 1) = charAt (ds @ r) 0"
    using charAt_append_length [of "p @ [d]" "ds @ r"] n(1) by simp
  have lead: "charAt (ds @ r) 0 = None \<or> (\<exists>k. charAt (ds @ r) 0 = Some k \<and> k \<noteq> 120 \<and> k \<noteq> 88 \<and> (p @ [d] = [48] \<longrightarrow> \<not> isDigit k))"
  proof (cases ds)
    case Nil
    with ends assms show ?thesis by (cases r) (auto simp: paramEnds_def)
  next
    case (Cons k ks)
    have "d \<noteq> 48"
    proof
      assume "d = 48"
      with n(1) hd_natToStr [of n] have "n = 0" by (cases n) auto
      with n(1) Cons show False by (simp add: natToStr_small)
    qed
    with Cons n(2) show ?thesis by (auto simp: isDigit_def)
  qed
  have oct: "isOctalDigit k \<Longrightarrow> isDigit k" for k by (simp add: isOctalDigit_def isDigit_def)
  have i: "(p @ natToStr n @ r) ! length p = d" using n(1) by simp
  have "scanFromDigit (p @ natToStr n @ r) pos (length p) p =
      finishNumber (p @ natToStr n @ r) pos (length (p @ natToStr n)) (p @ natToStr n)"
    using lead plain oct unfolding scanFromDigit_def Let_def i c
    by (auto simp del: append_assoc split: option.splits)
  with fin show ?thesis by (intro exI) simp
qed

definition intStr :: "int \<Rightarrow> jsstr" where
  "intStr i = (if i < 0 then [45] else []) @ natToStr (nat \<bar>i\<bar>)"

lemma lexes_integer [lex_simps]:
  assumes "paramEnds r" and "lexes r vs"
  shows "lexes (intStr i @ r) (numberView (intStr i) # vs)"
proof (rule lexes_step)
  fix lx :: lexer
  assume inp: "lx_input lx = intStr i @ r"
  let ?lx = "lx\<lparr>lx_from := lx_char lx\<rparr>"
  define p where "p = (if i < 0 then [45 :: codeUnit] else [])"
  obtain d ds where d: "natToStr (nat \<bar>i\<bar>) = d # ds" "isDigit d"
    using natToStr_Cons by blast
  have s: "intStr i = p @ natToStr (nat \<bar>i\<bar>)" by (simp add: intStr_def p_def)
  obtain b m where f: "scanFromDigit (intStr i @ r) (lx_char lx) (length p) p =
      Some (mkToken TNumber (intStr i) (lx_char lx) \<lparr>t_base := b, t_isMalformed := m\<rparr>)"
    using scanFromDigit_nat [OF assms(1), of p "nat \<bar>i\<bar>" "lx_char lx"] s by auto
  have c: "charAt (intStr i @ r) (length p) = Some d" using s d by simp
  have d46: "d \<noteq> 46" "d \<noteq> 45" using d(2) by (auto simp: isDigit_def)
  have "scanNumericLiteral ?lx = scanFromDigit (intStr i @ r) (lx_char lx) (length p) p"
  proof (cases "i < 0")
    case True
    with c d46 d(2) inp s show ?thesis by (simp add: scanNumericLiteral_def p_def)
  next
    case False
    with c d46 d inp s show ?thesis by (simp add: scanNumericLiteral_def p_def)
  qed
  with f have num: "scanNumericLiteral ?lx =
      Some (mkToken TNumber (intStr i) (lx_char lx) \<lparr>t_base := b, t_isMalformed := m\<rparr>)" by simp
  obtain e u where e: "intStr i = e # u" "e = 45 \<or> isDigit e"
    using d s by (cases "i < 0") (auto simp: p_def)
  then have e': "\<not> isSpace e" "e \<noteq> 34" "e \<noteq> 39" "\<not> isPunctuator e"
    by (auto simp: isSpace_def isPunctuator_def isDigit_def)
  have "scanPunctuator ?lx = None" using inp e e' by (simp add: scanPunctuator_def peek_def)
  with num have "scanOther ?lx =
      Some (mkToken TNumber (intStr i) (lx_char lx) \<lparr>t_base := b, t_isMalformed := m\<rparr>)"
    by (simp add: scanOther_def orElse_def)
  from next_token_nospace [OF _ _ _ _ this, of e "u @ r" "intStr i"] inp e e'
  have "next_token lx = (Some (mkToken TNumber (intStr i) (lx_char lx) \<lparr>t_base := b, t_isMalformed := m\<rparr>),
      skip (length (intStr i)) ?lx)" by simp
  with inp e(1) show "\<exists>t lx'. next_token lx = (Some t, lx') \<and> view t = numberView (intStr i) \<and> lx_input lx' = r"
    by (auto simp: view_def numberView_def)
qed (fact assms(2))

lemma lexes_tokenize: "lexes inp vs \<Longrightarrow> map view (tokenize inp) = vs"
  by (simp add: lexes_def tokenize_def newLexer_def)

end
