(* ===== verification/ParserProps.thy ===== *)
theory ParserProps
  imports Parser LexPieces
begin

text \<open>
  What the parser guarantees on every expression: it returns (the fuel of the model is enough and
  more fuel changes nothing), it throws nothing but its own errors, so that \<open>getAst\<close> is never
  \<open>undefined\<close>, and the positions of its errors lie in the expression.
\<close>

subsection \<open>The invariant of the token array\<close>

definition posOk :: "nat \<Rightarrow> nat option \<Rightarrow> bool" where
  "posOk n pos \<longleftrightarrow> (case pos of None \<Rightarrow> True | Some k \<Rightarrow> 1 \<le> k \<and> k \<le> n + 1)"

definition tokenOk :: "nat \<Rightarrow> token \<Rightarrow> bool" where
  "tokenOk n t \<longleftrightarrow> (t_value t \<noteq> None \<or> t_type t = pDot) \<and> posOk n (t_pos t)"

definition parserOk :: "nat \<Rightarrow> parser \<Rightarrow> bool" where
  "parserOk n p \<longleftrightarrow> list_all (tokenOk n) (ps_tokens p) \<and> posOk n (Some (ps_char p))"

definition errorOk :: "nat \<Rightarrow> parserError \<Rightarrow> bool" where
  "errorOk n e \<longleftrightarrow> (\<exists>msg pos. e = GraphiteParserError msg pos \<and> posOk n pos)"

text \<open>A result is good when it is a parser error, or leaves a sound state with no more to read.\<close>

definition good :: "nat \<Rightarrow> parser \<Rightarrow> ('a \<times> parser) presult \<Rightarrow> bool" where
  "good n p r \<longleftrightarrow>
     (case r of Inl e \<Rightarrow> errorOk n e | Inr (x, p') \<Rightarrow> parserOk n p' \<and> remaining p' \<le> remaining p)"

lemma good_Inr [simp]: "good n p (Inr (x, p')) \<longleftrightarrow> parserOk n p' \<and> remaining p' \<le> remaining p"
  by (simp add: good_def)

lemma good_Inl [simp]: "good n p (Inl e) \<longleftrightarrow> errorOk n e"
  by (simp add: good_def)

lemma parserOk_consume: "parserOk n p \<Longrightarrow> parserOk n (snd (consumeToken p))"
  by (simp add: parserOk_def consumeToken_def)

lemma remaining_snd_consume: "remaining (snd (consumeToken p)) \<le> remaining p"
  using remaining_consume_le [of p] by (cases "consumeToken p") simp

lemma remaining_snd_consume_less: "match p ty \<Longrightarrow> remaining (snd (consumeToken p)) < remaining p"
  using remaining_consume_less [of p] match_not_end [of p] by (cases "consumeToken p") fastforce

lemma tokenOk_at: "parserOk n p \<Longrightarrow> tokenAt p i = Some t \<Longrightarrow> tokenOk n t"
  by (auto simp: parserOk_def tokenAt_def list_all_length split: if_splits)

lemma errorOk_mark: "parserOk n p \<Longrightarrow> errorOk n (errorMark p msg)"
  using tokenOk_at [of n p 0]
  by (auto simp: errorMark_def errorOk_def parserOk_def tokenOk_def split: option.splits)

lemma good_trans:
  "good n q r \<Longrightarrow> remaining q \<le> remaining p \<Longrightarrow> good n p r"
  by (auto simp: good_def split: sum.splits prod.splits)

lemma curlyLoop_ok: "parserOk n p \<Longrightarrow> parserOk n (snd (curlyLoop p s))"
proof (induction p s rule: curlyLoop.induct)
  case (1 p s)
  obtain t p' where c: "consumeToken p = (t, p')" by (cases "consumeToken p")
  from "1.prems" c have "parserOk n p'" using parserOk_consume by (metis snd_conv)
  with 1 c show ?case
    by (cases "matchEnd p \<or> match p pClose") (auto simp: curlyLoop.simps [of p s])
qed

lemma consume_pair:
  obtains p' where "consumeToken p = (tokenAt p 0, p')" "snd (consumeToken p) = p'"
  by (simp add: consumeToken_def)

lemma curlyBraceSegment_good: "parserOk n p \<Longrightarrow> good n p (curlyBraceSegment p)"
proof -
  assume ok: "parserOk n p"
  obtain s p1 where l: "curlyLoop p [] = (s, p1)" by (cases "curlyLoop p []")
  obtain p2 where c: "consumeToken p1 = (tokenAt p1 0, p2)" "snd (consumeToken p1) = p2" by (rule consume_pair)
  obtain p3 where c': "consumeToken p2 = (tokenAt p2 0, p3)" "snd (consumeToken p2) = p3" by (rule consume_pair)
  have "parserOk n p1" "remaining p1 \<le> remaining p"
    using curlyLoop_ok [OF ok, of "[]"] curlyLoop_remaining [of p "[]"] l by simp_all
  moreover from this have "parserOk n p2" "remaining p2 \<le> remaining p"
    using parserOk_consume [of n p1] remaining_snd_consume [of p1] c by simp_all
  moreover from this have "parserOk n p3" "remaining p3 \<le> remaining p"
    using parserOk_consume [of n p2] remaining_snd_consume [of p2] c' by simp_all
  ultimately show ?thesis
    using ok errorOk_mark [of n p1] by (simp add: curlyBraceSegment_def l c c')
qed

lemma spliceTokens_ok:
  assumes "parserOk n p" and "tokenOk n t" shows "parserOk n (spliceTokens p i t)"
proof -
  have "set (take k xs) \<subseteq> set xs" "set (drop k xs) \<subseteq> set xs" for k and xs :: "token list"
    by (auto dest: in_set_takeD in_set_dropD)
  with assms show ?thesis
    by (auto simp: spliceTokens_def splice_def parserOk_def list_all_iff Let_def dest: in_set_takeD in_set_dropD)
qed


lemma metricSegment_good:
  assumes ok: "parserOk n p" shows "good n p (metricSegment p)"
proof (cases "curlyBraceSegment p")
  case (Inl e)
  with curlyBraceSegment_good [OF ok] show ?thesis by (simp add: metricSegment_def)
next
  case (Inr r)
  show ?thesis
  proof (cases "fst r")
    case (Some s)
    with curlyBraceSegment_good [OF ok] Inr show ?thesis by (cases r) (simp add: metricSegment_def)
  next
    case None
    with Inr have c: "curlyBraceSegment p = Inr (None, snd r)" by (cases r) simp
    from curlyBraceSegment_remaining [OF c] c have c: "curlyBraceSegment p = Inr (None, p)" by simp
    obtain p2 where t: "consumeToken p = (tokenAt p 0, p2)" "snd (consumeToken p) = p2" by (rule consume_pair)
    obtain p3 where t': "consumeToken p2 = (tokenAt p2 0, p3)" "snd (consumeToken p2) = p3" by (rule consume_pair)
    obtain p4 where t'': "consumeToken p3 = (tokenAt p3 0, p4)" "snd (consumeToken p3) = p4" by (rule consume_pair)
    have ok2: "parserOk n p2" using parserOk_consume [OF ok] t by simp
    have ok3: "parserOk n p3" using parserOk_consume [OF ok2] t' by simp
    have ok4: "parserOk n p4" using parserOk_consume [OF ok3] t'' by simp
    show ?thesis
    proof (cases "match p TIdentifier \<or> match p TNumber")
      case True
      then obtain k where k: "tokenAt p 0 = Some k" "t_type k \<noteq> pDot"
        by (auto simp: match_tokenAt pDot_def)
      with tokenOk_at [OF ok k(1)] obtain v where v: "t_value k = Some v" by (auto simp: tokenOk_def)
      obtain q where q: "metricSegment p = Inr (Segment (hd (splitOn 46 v)), q)"
        and q_or: "q = p2 \<or> q = spliceTokens (spliceTokens p2 (ps_index p2) dotToken) (ps_index p2 + 1)
            (fractionToken (splitOn 46 v ! 1))"
        using c True t k v by (simp add: metricSegment_def Let_def)
      have "tokenOk n dotToken" "tokenOk n (fractionToken w)" for w
        by (simp_all add: tokenOk_def dotToken_def fractionToken_def posOk_def)
      with ok2 q_or have "parserOk n q" by (auto intro: spliceTokens_ok)
      with q metricSegment_remaining [OF q] show ?thesis by simp
    next
      case False
      have r: "remaining p4 \<le> remaining p"
        using remaining_snd_consume [of p] remaining_snd_consume [of p2] remaining_snd_consume [of p3] t t' t''
        by simp
      from False c t t' t'' ok ok2 ok3 ok4 r show ?thesis by (simp add: metricSegment_def errorOk_mark)
    qed
  qed
qed

lemma metricLoop_good:
  "parserOk n p \<Longrightarrow> good n p (metricLoop p segs)"
proof (induction p segs rule: metricLoop.induct)
  case (1 p segs)
  show ?case
  proof (cases "match p pDot")
    case False
    with "1.prems" show ?thesis by (simp add: metricLoop.simps [of p segs])
  next
    case True
    let ?q = "snd (consumeToken p)"
    have ok: "parserOk n ?q" using "1.prems" by (rule parserOk_consume)
    note g = metricSegment_good [OF ok]
    show ?thesis
    proof (cases "metricSegment ?q")
      case (Inl e)
      with g True show ?thesis by (simp add: metricLoop.simps [of p segs])
    next
      case (Inr r)
      obtain seg p' where r: "r = (seg, p')" by (cases r)
      with g Inr have "parserOk n p'" "remaining p' \<le> remaining p"
        using remaining_snd_consume [of p] by auto
      with "1.IH" [OF _ Inr r [symmetric]] True Inr r show ?thesis
        by (simp add: metricLoop.simps [of p segs] good_trans)
    qed
  qed
qed

lemma metricExpression_good:
  assumes ok: "parserOk n p" shows "good n p (metricExpression p)"
proof (cases "metricSegment p")
  case (Inl e)
  with metricSegment_good [OF ok] ok show ?thesis by (simp add: metricExpression_def)
next
  case (Inr r)
  obtain seg p1 where r: "r = (seg, p1)" by (cases r)
  with metricSegment_good [OF ok] Inr have "parserOk n p1" "remaining p1 \<le> remaining p" by simp_all
  with metricLoop_good [of n p1 "[seg]"] have "good n p (metricLoop p1 [seg])" by (blast intro: good_trans)
  with Inr r ok show ?thesis
    by (auto simp: metricExpression_def split: sum.splits prod.splits)
qed

lemma literals_good:
  assumes ok: "parserOk n p"
  shows "good n p (numericLiteral p)" and "good n p (seriesRefExpression p)"
    and "good n p (boolExpression p)" and "good n p (stringLiteral p)"
proof -
  obtain p2 where t: "consumeToken p = (tokenAt p 0, p2)" "snd (consumeToken p) = p2" by (rule consume_pair)
  have ok2: "parserOk n p2" "remaining p2 \<le> remaining p"
    using parserOk_consume [OF ok] remaining_snd_consume [of p] t by simp_all
  show "good n p (numericLiteral p)" using ok ok2 t by (simp add: numericLiteral_def)
  show "good n p (seriesRefExpression p)"
    using ok ok2 t tokenOk_at [OF ok, of 0]
    by (auto simp: seriesRefExpression_def match_tokenAt tokenOk_def pDot_def split: option.splits)
  show "good n p (boolExpression p)"
    using ok ok2 t by (auto simp: boolExpression_def match_tokenAt split: option.splits)
  show "good n p (stringLiteral p)"
    using ok ok2 t tokenOk_at [OF ok, of 0]
    by (auto simp: stringLiteral_def match_tokenAt tokenOk_def errorOk_def split: option.splits)
qed

lemma orTry_good:
  assumes "good n p r" and "\<And>q. parserOk n q \<Longrightarrow> remaining q \<le> remaining p \<Longrightarrow> good n q (alt q)"
  shows "good n p (orTry r alt)"
proof (cases r)
  case (Inl e)
  with assms(1) show ?thesis by (simp add: orTry_def)
next
  case (Inr s)
  obtain x q where s: "s = (x, q)" by (cases s)
  with assms(1) Inr have q: "parserOk n q" "remaining q \<le> remaining p" by simp_all
  with assms(2) have "good n p (alt q)" by (blast intro: good_trans)
  with q Inr s show ?thesis by (cases x) (simp_all add: orTry_def)
qed

lemma simpleParameter_good: "parserOk n p \<Longrightarrow> good n p (simpleParameter p)"
  unfolding simpleParameter_def
  by (intro orTry_good literals_good metricExpression_good)

subsection \<open>Enough fuel\<close>

lemma functionCall_good:
  "(parserOk k p \<longrightarrow> 2 * remaining p + 1 \<le> n \<longrightarrow> good k p (functionCall n p)) \<and>
   (parserOk k p \<longrightarrow> 2 * remaining p + 2 \<le> n \<longrightarrow> good k p (functionParameters n p))"
proof (induction n arbitrary: p)
  case 0
  then show ?case by simp
next
  case (Suc n)
  have A: "good k p (functionCall (Suc n) p)" if ok: "parserOk k p" and f: "2 * remaining p + 1 \<le> Suc n"
  proof (cases "match2 p TIdentifier pLeft")
    case False
    with ok show ?thesis by simp
  next
    case True
    let ?p1 = "snd (consumeToken p)"
    let ?p2 = "snd (consumeToken ?p1)"
    have "match p TIdentifier" using True by (simp add: match2_def match_def)
    moreover have "match ?p1 pLeft"
      using True by (auto simp: match2_def match_def matchToken_def consumeToken_def tokenAt_def split: if_splits)
    ultimately have less: "remaining ?p2 + 2 \<le> remaining p"
      using remaining_snd_consume_less [of p TIdentifier] remaining_snd_consume_less [of ?p1 pLeft] by simp
    with ok f have g: "good k ?p2 (functionParameters n ?p2)"
      using Suc.IH [of ?p2] by (simp add: parserOk_consume)
    obtain t p1 where c: "consumeToken p = (t, p1)" by (cases "consumeToken p")
    show ?thesis
    proof (cases "functionParameters n ?p2")
      case (Inl e)
      with True c g show ?thesis by simp
    next
      case (Inr r)
      obtain ps q where r: "r = (ps, q)" by (cases r)
      from Inr r g have q: "parserOk k q" "remaining q \<le> remaining ?p2" by simp_all
      with remaining_snd_consume [of q] less
      have "parserOk k (snd (consumeToken q))" "remaining (snd (consumeToken q)) \<le> remaining p"
        by (simp_all add: parserOk_consume)
      with Inr r True c q(1) show ?thesis by (simp add: errorOk_mark)
    qed
  qed
  have B: "good k p (functionParameters (Suc n) p)" if ok: "parserOk k p" and f: "2 * remaining p + 2 \<le> Suc n"
  proof (cases "match p pRight \<or> matchEnd p")
    case True
    with ok show ?thesis by simp
  next
    case False
    have g: "good k p (orTry (functionCall n p) simpleParameter)"
      using Suc.IH [of p] ok f by (intro orTry_good simpleParameter_good) simp_all
    show ?thesis
    proof (cases "orTry (functionCall n p) simpleParameter")
      case (Inl e)
      with False g show ?thesis by simp
    next
      case (Inr r)
      obtain a p1 where r: "r = (a, p1)" by (cases r)
      from Inr r g have p1: "parserOk k p1" "remaining p1 \<le> remaining p" by simp_all
      let ?p2 = "snd (consumeToken p1)"
      show ?thesis
      proof (cases "match p1 pComma")
        case True
        have "remaining ?p2 < remaining p1" using remaining_snd_consume_less [OF True] .
        with p1 f have "good k ?p2 (functionParameters n ?p2)" "remaining ?p2 \<le> remaining p"
          using Suc.IH [of ?p2] by (simp_all add: parserOk_consume)
        then have "good k p (functionParameters n ?p2)" by (rule good_trans)
        with False Inr r True show ?thesis by (auto split: sum.splits)
      next
        case no: False
        with False Inr r p1 show ?thesis by simp
      qed
    qed
  qed
  from A B show ?case by blast
qed

text \<open>More fuel than enough gives the same result.\<close>

lemma functionCall_mono:
  "(functionCall n p \<noteq> Inl OutOfFuel \<longrightarrow> functionCall (Suc n) p = functionCall n p) \<and>
   (functionParameters n p \<noteq> Inl OutOfFuel \<longrightarrow> functionParameters (Suc n) p = functionParameters n p)"
proof (induction n arbitrary: p)
  case 0
  then show ?case by simp
next
  case (Suc n)
  have A: "functionCall (Suc (Suc n)) p = functionCall (Suc n) p" if "functionCall (Suc n) p \<noteq> Inl OutOfFuel"
  proof (cases "match2 p TIdentifier pLeft")
    case True
    let ?q = "snd (consumeToken (snd (consumeToken p)))"
    obtain t p1 where c: "consumeToken p = (t, p1)" by (cases "consumeToken p")
    have "functionParameters n ?q \<noteq> Inl OutOfFuel" using that True c by auto
    with Suc.IH [of ?q] have "functionParameters (Suc n) ?q = functionParameters n ?q" by blast
    with True c show ?thesis
      unfolding functionCall.simps by simp
  qed simp
  have B: "functionParameters (Suc (Suc n)) p = functionParameters (Suc n) p"
    if "functionParameters (Suc n) p \<noteq> Inl OutOfFuel"
  proof (cases "match p pRight \<or> matchEnd p")
    case False
    have "functionCall n p \<noteq> Inl OutOfFuel" using that False by (auto simp: orTry_def)
    with Suc.IH [of p] have f: "functionCall (Suc n) p = functionCall n p" by blast
    show ?thesis
    proof (cases "orTry (functionCall n p) simpleParameter")
      case (Inr r)
      obtain a p1 where r: "r = (a, p1)" by (cases r)
      let ?q = "snd (consumeToken p1)"
      show ?thesis
      proof (cases "match p1 pComma")
        case True
        have "functionParameters n ?q \<noteq> Inl OutOfFuel" using that True False Inr r by auto
        with Suc.IH [of ?q] have "functionParameters (Suc n) ?q = functionParameters n ?q" by blast
        with f True False Inr r show ?thesis unfolding functionParameters.simps by simp
      next
        case no: False
        with f False Inr r show ?thesis unfolding functionParameters.simps by simp
      qed
    next
      case (Inl e)
      with f False show ?thesis unfolding functionParameters.simps by simp
    qed
  qed simp
  from A B show ?case by blast
qed

lemma functionCall_more_fuel:
  "functionCall n p \<noteq> Inl OutOfFuel \<Longrightarrow> functionCall (n + k) p = functionCall n p"
proof (induction k)
  case (Suc k)
  then show ?case using functionCall_mono [of "n + k" p] by simp
qed simp

subsection \<open>The state the parser starts in\<close>

lemma spells_pos:
  "spells p ts inp rest \<Longrightarrow> 1 \<le> p \<Longrightarrow> p + length inp \<le> n + 1 \<Longrightarrow> t \<in> set ts \<Longrightarrow> posOk n (t_pos t)"
proof (induction p ts inp rest rule: spells.induct)
  case (2 p u ts inp rest)
  let ?sp = "length (takeWhile isSpace inp)"
  let ?body = "dropWhile isSpace inp"
  let ?len = "length (lexeme u)"
  have len: "?sp + length ?body = length inp"
    by (metis length_append takeWhile_dropWhile_id)
  from "2.prems"(1) have s: "take ?len ?body = lexeme u"
    "if t_type u = TString then t_pos u = Some (p + ?sp + ?len) else t_pos u = None \<or> t_pos u = Some (p + ?sp)"
    and sp: "spells (p + ?sp + ?len) ts (drop ?len ?body) rest"
    by (simp_all add: Let_def)
  from s(1) have le: "?len \<le> length ?body" by (metis length_take min.bounded_iff order_refl)
  have "posOk n (t_pos u)"
    using s(2) len le "2.prems"(2,3) by (auto simp: posOk_def split: if_splits)
  moreover have "posOk n (t_pos t)" if "t \<in> set ts"
    using "2.IH" [OF refl refl refl sp _ _ that] len le "2.prems"(2,3) by simp
  ultimately show ?case using "2.prems"(4) by auto
qed simp

lemma spells_rest: "spells p ts inp rest \<Longrightarrow> length rest \<le> length inp"
proof (induction p ts inp rest rule: spells.induct)
  case (1 p inp rest)
  then show ?case by (auto simp: length_dropWhile_le)
next
  case (2 p u ts inp rest)
  then have "length rest \<le> length (drop (length (lexeme u)) (dropWhile isSpace inp))"
    by (simp add: Let_def)
  also have "\<dots> \<le> length inp" using length_dropWhile_le [of isSpace inp] by simp
  finally show ?case .
qed

lemma newParser_ok: "parserOk (length expression) (newParser expression)"
proof -
  obtain ts lx where t: "tokenizeFrom (newLexer expression) = (ts, lx)" by (cases "tokenizeFrom (newLexer expression)")
  from tokenizeFrom_spells [OF t] have sp: "spells 1 ts expression (lx_input lx)"
    and c: "lx_char lx + length (lx_input lx) = 1 + length expression"
    by (simp_all add: newLexer_def)
  have "tokenOk (length expression) t" if "t \<in> set ts" for t
    using spells_pos [OF sp, of "length expression" t] tokenizeFrom_tokens [of t "newLexer expression"] that t
    by (simp add: tokenOk_def)
  moreover have "1 \<le> lx_char lx"
  proof -
    have "length (lx_input lx) \<le> length expression" using spells_rest [OF sp] .
    with c show ?thesis by simp
  qed
  ultimately show ?thesis
    using t c by (simp add: newParser_def parserOk_def tokenize_def finalChar_def list_all_iff posOk_def)
qed

lemma runStart_good:
  assumes ok: "parserOk n p" and f: "parserFuel p \<le> k"
  shows "good n p (runStart k p)"
  unfolding runStart_def using functionCall_good [of n p k] ok f
  by (intro orTry_good metricExpression_good) (simp_all add: parserFuel_def)

text \<open>
  Claim C4. The parser returns on every expression: with the fuel \<open>parserFuel\<close> it ends, any more
  fuel gives the same result, and it throws nothing but \<open>GraphiteParserError\<close>s, so that \<open>getAst\<close>
  never swallows an exception and is never \<open>undefined\<close>.
\<close>

theorem parser_total:
  "runStart (parserFuel (newParser expression) + k) (newParser expression) =
     runStart (parserFuel (newParser expression)) (newParser expression) \<and>
   runStart (parserFuel (newParser expression)) (newParser expression) \<noteq> Inl OutOfFuel \<and>
   runStart (parserFuel (newParser expression)) (newParser expression) \<noteq> Inl TypeError \<and>
   getAst expression \<noteq> ParsedUndefined"
proof -
  let ?p = "newParser expression"
  have good: "good (length expression) ?p (runStart (parserFuel ?p) ?p)"
    using newParser_ok by (rule runStart_good) simp
  have "functionCall (parserFuel ?p) ?p \<noteq> Inl OutOfFuel"
    using functionCall_good [of "length expression" ?p "parserFuel ?p"] newParser_ok [of expression]
    by (auto simp: parserFuel_def good_def errorOk_def)
  then have "runStart (parserFuel ?p + k) ?p = runStart (parserFuel ?p) ?p"
    by (simp add: runStart_def functionCall_more_fuel)
  with good show ?thesis
    by (auto simp: getAst_def Let_def good_def errorOk_def split: sum.splits option.splits)
qed

text \<open>
  The position of an error, which the editor shows with the message, is a position of the
  expression or the one just after it.
\<close>

theorem error_position_in_expression:
  "getAst expression = ParsedError msg (Some pos) \<Longrightarrow> 1 \<le> pos \<and> pos \<le> length expression + 1"
proof -
  assume e: "getAst expression = ParsedError msg (Some pos)"
  let ?p = "newParser expression"
  have "good (length expression) ?p (runStart (parserFuel ?p) ?p)"
    using newParser_ok by (rule runStart_good) simp
  with e show ?thesis
    by (auto simp: getAst_def Let_def good_def errorOk_def posOk_def
        split: sum.splits option.splits parserError.splits)
qed

lemma tokenizeFrom_empty: "lx_input lx = [] \<Longrightarrow> tokenizeFrom lx = ([], lx\<lparr>lx_from := lx_char lx\<rparr>)"
proof -
  assume e: "lx_input lx = []"
  then have "skipSpaces (lx\<lparr>lx_from := lx_char lx\<rparr>) = lx\<lparr>lx_from := lx_char lx\<rparr>"
    by (simp add: skipSpaces.simps [of "lx\<lparr>lx_from := lx_char lx\<rparr>"] peek_def)
  with e noToken_Nil [of "lx\<lparr>lx_from := lx_char lx\<rparr>"] show ?thesis
    by (simp add: tokenizeFrom.simps [of lx] next_token_eq noToken_def Let_def)
qed

text \<open>The whole lexer on an expression of one punctuator.\<close>

lemma tokenizeFrom_punct:
  "isPunctuator c \<Longrightarrow> tokenizeFrom (newLexer [c]) =
     ([mkToken (TPunct c) [c] 1], \<lparr>lx_input = [], lx_char = 2, lx_from = 2\<rparr>)"
proof -
  assume c: "isPunctuator c"
  have sp: "skipSpaces (newLexer [c]) = newLexer [c]"
    using punct_not_space [OF c] by (intro skipSpaces_nospace [of _ c "[]"]) (simp_all add: newLexer_def)
  have "next_token (newLexer [c]) = (Some (mkToken (TPunct c) [c] 1), \<lparr>lx_input = [], lx_char = 2, lx_from = 1\<rparr>)"
    using c punct_not_space [OF c] sp
    by (simp add: newLexer_def next_token_eq scanStringLiteral_def scanOther_def scanPunctuator_def
        peek_def orElse_def skip_def)
  then show ?thesis by (simp add: tokenizeFrom.simps [of "newLexer [c]"] tokenizeFrom_empty)
qed

text \<open>An opening brace alone: the error is at the end of the string, position 2.\<close>

theorem error_position_in_expression_witness:
  "getAst (js ''{'') = ParsedError (js ''Expected closing '' @ [39, 125, 39] @ js '' instead found end of string'') (Some 2)
   \<and> 1 \<le> (2 :: nat) \<and> 2 \<le> length (js ''{'') + 1"
proof -
  have j: "js ''{'' = [123]" by (simp add: js_def)
  have p: "newParser [123] = \<lparr>ps_tokens = [mkToken pOpen [123] 1], ps_index = 0, ps_char = 2\<rparr>"
    using tokenizeFrom_punct [of 123]
    by (simp add: newParser_def tokenize_def finalChar_def isPunctuator_def pOpen_def)
  let ?p = "\<lparr>ps_tokens = [mkToken pOpen [123] 1], ps_index = 0, ps_char = 2\<rparr>"
  let ?q = "\<lparr>ps_tokens = [mkToken pOpen [123] 1], ps_index = 1, ps_char = 2\<rparr>"
  have l: "curlyLoop ?p [] = ([123], ?q)"
    by (simp add: curlyLoop.simps [of ?p] curlyLoop.simps [of ?q] parser_defs)
  have "metricSegment ?p = Inl (errorMark ?q (js ''Expected closing '' @ [39, 125, 39]))"
    using l by (simp add: metricSegment_def curlyBraceSegment_def parser_defs)
  then have m: "metricExpression ?p = Inl (GraphiteParserError
      (js ''Expected closing '' @ [39, 125, 39] @ js '' instead found end of string'') (Some 2))"
    by (simp add: metricExpression_def errorMark_def match_def matchToken_def tokenAt_def pOpen_def)
  have f: "functionCall (parserFuel ?p) ?p = Inr (None, ?p)"
    by (simp add: parserFuel_def match2_def matchToken_def tokenAt_def pOpen_def)
  have e: "getAst (js ''{'') =
      ParsedError (js ''Expected closing '' @ [39, 125, 39] @ js '' instead found end of string'') (Some 2)"
    by (simp add: getAst_def j p Let_def runStart_def f m orTry_def del: One_nat_def functionCall.simps)
  with error_position_in_expression [OF e] show ?thesis by simp
qed
end
