(* ===== verification/PrintParse.thy ===== *)
theory PrintParse
  imports ParserProps
begin

text \<open>
  Printing and parsing.  \<open>printAst\<close> writes a syntax tree the way the editor renders a query: the
  parameters separated by a comma and a blank, strings in single quotes, a path with dots.  The
  theory proves that \<open>getAst\<close> reads every well-formed tree back from its text: first the lexer gives
  the tokens \<open>astViews\<close> of the tree, then the parser builds the tree from them.
\<close>

subsection \<open>The printer\<close>

definition segmentStr :: "segmentNode \<Rightarrow> jsstr" where
  "segmentStr s = (case s of Segment v \<Rightarrow> v | Template v \<Rightarrow> v)"

function printAst :: "ast \<Rightarrow> jsstr" and printParams :: "ast option list \<Rightarrow> jsstr list" where
  "printAst (AFunction n ps) = n @ [40] @ joinWith [44, 32] (printParams ps) @ [41]"
| "printAst (AMetric segs) = joinWith [46] (map segmentStr segs)"
| "printAst (ASeriesRef v) = v"
| "printAst (ABool b) = (if b then js ''true'' else js ''false'')"
| "printAst (ANumber x) = numToStr x"
| "printAst (AString s) = [39] @ s @ [39]"
| "printParams [] = []"
| "printParams (None # ps) = [] # printParams ps"
| "printParams (Some a # ps) = printAst a # printParams ps"
  by pat_completeness auto
termination
  by (relation "measure (case_sum size (size_list (size_option size)))") auto

subsection \<open>Well-formed trees\<close>

definition isBoolWord :: "jsstr \<Rightarrow> bool" where
  "isBoolWord w \<longleftrightarrow> w = js ''true'' \<or> w = js ''false''"

definition wfWord :: "jsstr \<Rightarrow> bool" where
  "wfWord w \<longleftrightarrow> plainWord w \<and> \<not> isBoolWord w"

definition wfSegments :: "segmentNode list \<Rightarrow> bool" where
  "wfSegments segs \<longleftrightarrow>
     (case segs of
        Segment v # _ \<Rightarrow> \<not> hasSeriesRef v \<and> list_all (\<lambda>s. case s of Segment w \<Rightarrow> wfWord w | Template _ \<Rightarrow> False) segs
      | _ \<Rightarrow> False)"

function wfAst :: "ast \<Rightarrow> bool" and wfParams :: "ast option list \<Rightarrow> bool" where
  "wfAst (AFunction n ps) \<longleftrightarrow> wfWord n \<and> wfParams ps"
| "wfAst (AMetric segs) \<longleftrightarrow> wfSegments segs"
| "wfAst (ASeriesRef v) \<longleftrightarrow> wfWord v \<and> hasSeriesRef v"
| "wfAst (ABool b) \<longleftrightarrow> True"
| "wfAst (ANumber x) \<longleftrightarrow> (case x of Dec m 0 \<Rightarrow> smallInt m | _ \<Rightarrow> False)"
| "wfAst (AString s) \<longleftrightarrow> 39 \<notin> set s"
| "wfParams [] \<longleftrightarrow> True"
| "wfParams (None # ps) \<longleftrightarrow> False"
| "wfParams (Some a # ps) \<longleftrightarrow> wfAst a \<and> wfParams ps"
  by pat_completeness auto
termination
  by (relation "measure (case_sum size (size_list (size_option size)))") auto

subsection \<open>The tokens of a tree\<close>

fun segViews :: "segmentNode list \<Rightarrow> tokenView list" where
  "segViews [] = []"
| "segViews [s] = [wordView (segmentStr s)]"
| "segViews (s # ss) = wordView (segmentStr s) # punctView 46 # segViews ss"

function astViews :: "ast \<Rightarrow> tokenView list" and paramViews :: "ast option list \<Rightarrow> tokenView list" where
  "astViews (AFunction n ps) = wordView n # punctView 40 # paramViews ps @ [punctView 41]"
| "astViews (AMetric segs) = segViews segs"
| "astViews (ASeriesRef v) = [wordView v]"
| "astViews (ABool b) = [wordView (if b then js ''true'' else js ''false'')]"
| "astViews (ANumber x) = [numberView (numToStr x)]"
| "astViews (AString s) = [stringView s]"
| "paramViews [] = []"
| "paramViews (None # ps) = []"
| "paramViews (Some a # ps) = astViews a @ (if ps = [] then [] else punctView 44 # paramViews ps)"
  by pat_completeness auto
termination
  by (relation "measure (case_sum size (size_list (size_option size)))") auto

lemma wordEnds_punct [simp]: "c \<in> {46, 40, 41, 44} \<Longrightarrow> wordEnds (c # r)"
  by (auto simp: wordEnds_def isPunctuator_def)

lemma isPunctuator_marks [simp]:
  "isPunctuator 40" "isPunctuator 41" "isPunctuator 44" "isPunctuator 46"
  by (simp_all add: isPunctuator_def)

lemma plainWord_bool: "plainWord (js ''true'')" "plainWord (js ''false'')"
  by (simp_all add: plainWord_def js_def isIdentifierCode_def isDigit_def)

lemma lexes_segments:
  "list_all (\<lambda>s. plainWord (segmentStr s)) segs \<Longrightarrow> segs \<noteq> [] \<Longrightarrow> wordEnds r \<Longrightarrow> lexes r vs \<Longrightarrow>
   lexes (joinWith [46] (map segmentStr segs) @ r) (segViews segs @ vs)"
proof (induction segs rule: segViews.induct)
  case (3 s s' ss)
  then have "lexes (joinWith [46] (map segmentStr (s' # ss)) @ r) (segViews (s' # ss) @ vs)" by simp
  with 3 show ?case by (auto intro!: lexes_word lexes_punct)
qed (auto intro!: lexes_word lexes_punct)

lemma intStr_numToStr: "smallInt m \<Longrightarrow> numToStr (Dec m 0) = intStr m"
  by (simp add: numToStr_int intStr_def)

lemma lexes_printed:
  "wfAst a \<Longrightarrow> paramEnds r \<Longrightarrow> lexes r vs \<Longrightarrow> lexes (printAst a @ r) (astViews a @ vs)"
  "wfParams ps \<Longrightarrow> paramEnds r \<Longrightarrow> lexes r vs \<Longrightarrow>
   lexes (joinWith [44, 32] (printParams ps) @ r) (paramViews ps @ vs)"
proof (induction a and ps arbitrary: r vs and r vs rule: printAst_printParams.induct)
  case (1 n ps)
  have "lexes (41 # r) (punctView 41 # vs)" using 1 by (auto intro: lexes_punct)
  from "1.IH" [OF _ _ this] 1 show ?case by (auto simp: paramEnds_def wfWord_def intro!: lexes_word lexes_punct)
next
  case (2 segs)
  then have "segs \<noteq> []" "list_all (\<lambda>s. plainWord (segmentStr s)) segs"
    by (auto simp: wfSegments_def wfWord_def segmentStr_def list_all_iff split: list.splits segmentNode.splits)
  with lexes_segments [OF this(2,1) paramEnds_wordEnds] 2 show ?case by simp
next
  case (3 v)
  then show ?case by (auto simp: wfWord_def paramEnds_wordEnds intro!: lexes_word)
next
  case (4 b)
  then show ?case by (auto simp: plainWord_bool paramEnds_wordEnds intro!: lexes_word)
next
  case (5 x)
  then obtain m where "x = Dec m 0" "smallInt m" by (auto split: jsnum.splits nat.splits)
  with 5 show ?case by (auto simp: intStr_numToStr intro!: lexes_integer)
next
  case (6 s)
  then show ?case using lexes_string [of s r vs] by simp
next
  case (9 a ps)
  show ?case
  proof (cases "ps = []")
    case True
    with 9 show ?thesis by simp
  next
    case False
    then have ne: "printParams ps \<noteq> []" using 9 by (cases ps rule: printParams.cases) auto
    have "lexes (joinWith [44, 32] (printParams ps) @ r) (paramViews ps @ vs)"
      using 9 by simp
    then have "lexes (44 # 32 # joinWith [44, 32] (printParams ps) @ r) (punctView 44 # paramViews ps @ vs)"
      by (intro lexes_punct [OF _ lexes_blank]) (simp_all add: isSpace_def)
    from "9.IH"(1) [OF _ _ this] 9 False ne show ?thesis
      by (simp add: joinWith_Cons paramEnds_def)
  qed
qed auto

subsection \<open>What the parser sees\<close>

definition pview :: "parser \<Rightarrow> tokenView list" where
  "pview p = map view (drop (ps_index p) (ps_tokens p))"

lemma pview_newParser: "lexes inp vs \<Longrightarrow> pview (newParser inp) = vs"
  by (simp add: pview_def newParser_def lexes_tokenize)

lemma pview_tokenAt:
  "pview p = v # vs \<Longrightarrow> \<exists>t. tokenAt p 0 = Some t \<and> view t = v \<and> pview (snd (consumeToken p)) = vs \<and>
     fst (consumeToken p) = Some t"
proof -
  assume v: "pview p = v # vs"
  then obtain t ts where d: "drop (ps_index p) (ps_tokens p) = t # ts" "view t = v" "map view ts = vs"
    by (auto simp: pview_def)
  have "drop (Suc (ps_index p)) (ps_tokens p) = drop 1 (drop (ps_index p) (ps_tokens p))" by simp
  with d show ?thesis by (auto simp: tokenAt_0_Some pview_def consumeToken_def)
qed

lemma match_pview [simp]: "pview p = (ty, v, u) # vs \<Longrightarrow> match p ty' \<longleftrightarrow> ty' = ty"
  using pview_tokenAt [of p "(ty, v, u)" vs] by (auto simp: match_tokenAt view_def)

lemma match_pview_Nil [simp]: "pview p = [] \<Longrightarrow> match p ty' \<longleftrightarrow> False"
  by (auto simp: match_tokenAt pview_def tokenAt_0_Some)

lemma matchEnd_pview: "pview p = v # vs \<Longrightarrow> \<not> matchEnd p"
  using pview_tokenAt [of p v vs] by (auto simp: matchEnd_def)

lemma tokenAt_1: "tokenAt p 1 = tokenAt (snd (consumeToken p)) 0"
  by (simp add: tokenAt_def consumeToken_def)

lemma match2_match: "match2 p ty1 ty2 \<longleftrightarrow> match p ty1 \<and> match (snd (consumeToken p)) ty2"
  by (simp only: match2_def match_def matchToken_def tokenAt_1)

lemma consume_pview:
  assumes "pview p = (ty, Some v, u) # vs"
  obtains t p' where "consumeToken p = (Some t, p')" "tokenAt p 0 = Some t" "t_type t = ty" "t_value t = Some v"
    "t_isUnclosed t = u" "pview p' = vs"
  using pview_tokenAt [OF assms] that by (cases "consumeToken p") (auto simp: view_def)

text \<open>What can follow a parameter.\<close>

definition follows :: "tokenView list \<Rightarrow> bool" where
  "follows vs \<longleftrightarrow> (case vs of [] \<Rightarrow> True | v # _ \<Rightarrow> v = punctView 41 \<or> v = punctView 44)"

lemma follows_match [simp]:
  "follows (pview p) \<Longrightarrow> c \<noteq> 41 \<Longrightarrow> c \<noteq> 44 \<Longrightarrow> match p (TPunct c) = False"
  by (cases "pview p") (auto simp: follows_def punctView_def)

subsection \<open>The parser reads the tree back\<close>

lemma curly_none:
  "\<not> match (snd (consumeToken p)) pOpen \<Longrightarrow> \<not> match p pOpen \<Longrightarrow> curlyBraceSegment p = Inr (None, p)"
  by (simp add: curlyBraceSegment_def match2_match)

lemma wordView_id [simp]: "\<not> isBoolWord w \<Longrightarrow> wordView w = (TIdentifier, Some w, None)"
  by (auto simp: wordView_def isBoolWord_def)

lemma plainWord_no_dot: "plainWord w \<Longrightarrow> splitOn 46 w = [w]"
  by (rule splitOn_no_sep) (auto simp: plainWord_def list_all_iff isIdentifierCode_def split: list.splits)

lemma metricSegment_word:
  assumes "pview p = wordView w # vs" and "wfWord w"
    and vs: "vs = [] \<or> hd vs = punctView 46 \<or> follows vs"
  shows "\<exists>p'. metricSegment p = Inr (Segment w, p') \<and> pview p' = vs"
proof -
  from assms(1,2) have pv: "pview p = (TIdentifier, Some w, None) # vs" by (simp add: wfWord_def)
  obtain t p' where t: "consumeToken p = (Some t, p')" "t_value t = Some w" "pview p' = vs"
    using consume_pview [OF pv] by metis
  have "\<not> match p' pOpen"
    using vs t(3) by (cases vs) (auto simp: punctView_def pOpen_def follows_def)
  with pv t have "curlyBraceSegment p = Inr (None, p)"
    by (intro curly_none) (simp_all add: pOpen_def)
  with pv t plainWord_no_dot [of w] assms(2) show ?thesis
    by (simp add: metricSegment_def Let_def wfWord_def)
qed

definition wfSeg :: "segmentNode \<Rightarrow> bool" where
  "wfSeg s \<longleftrightarrow> (case s of Segment w \<Rightarrow> wfWord w | Template _ \<Rightarrow> False)"

lemma segViews_Cons: "segViews (s # ss) = wordView (segmentStr s) # (if ss = [] then [] else punctView 46 # segViews ss)"
  by (cases ss) auto

lemma metricLoop_segments:
  "list_all wfSeg ss \<Longrightarrow> follows vs \<Longrightarrow> pview p = (if ss = [] then [] else punctView 46 # segViews ss) @ vs \<Longrightarrow>
   \<exists>p'. metricLoop p done = Inr (done @ ss, p') \<and> pview p' = vs"
proof (induction ss arbitrary: p "done")
  case Nil
  then have "\<not> match p pDot" by (simp add: pDot_def)
  with Nil show ?case by (simp add: metricLoop.simps [of p])
next
  case (Cons s ss)
  obtain w where w: "s = Segment w" "wfWord w"
    using Cons.prems(1) by (auto simp: wfSeg_def split: segmentNode.splits)
  let ?vs = "(if ss = [] then [] else punctView 46 # segViews ss) @ vs"
  from Cons.prems(3) w have pv: "pview p = (TPunct 46, Some [46], None) # wordView w # ?vs"
    by (simp add: segViews_Cons punctView_def segmentStr_def)
  from pview_tokenAt [OF pv] have pv2: "pview (snd (consumeToken p)) = wordView w # ?vs" by blast
  have "?vs = [] \<or> hd ?vs = punctView 46 \<or> follows ?vs" using Cons.prems(2) by simp
  from metricSegment_word [OF pv2 w(2) this] obtain q where
    q: "metricSegment (snd (consumeToken p)) = Inr (Segment w, q)" "pview q = ?vs" by blast
  have "\<exists>p'. metricLoop q (done @ [s]) = Inr ((done @ [s]) @ ss, p') \<and> pview p' = vs"
    using Cons.IH [of q "done @ [s]"] Cons.prems(1,2) q(2) by simp
  moreover have "match p pDot" using pv by (simp add: pDot_def)
  ultimately show ?case using q(1) w(1) by (simp add: metricLoop.simps [of p])
qed

lemma metricExpression_segments:
  assumes "list_all wfSeg segs" and "segs \<noteq> []" and "follows vs" and "pview p = segViews segs @ vs"
  shows "\<exists>p'. metricExpression p = Inr (Some (AMetric segs), p') \<and> pview p' = vs"
proof -
  obtain s ss where segs: "segs = s # ss" using assms(2) by (cases segs) auto
  obtain w where w: "s = Segment w" "wfWord w"
    using assms(1) segs by (auto simp: wfSeg_def split: segmentNode.splits)
  let ?vs = "(if ss = [] then [] else punctView 46 # segViews ss) @ vs"
  have pv: "pview p = wordView w # ?vs" using assms(4) segs w by (simp add: segViews_Cons segmentStr_def)
  have "?vs = [] \<or> hd ?vs = punctView 46 \<or> follows ?vs" using assms(3) by simp
  from metricSegment_word [OF pv w(2) this] obtain q where
    q: "metricSegment p = Inr (Segment w, q)" "pview q = ?vs" by blast
  from metricLoop_segments [OF _ assms(3) q(2), of "[s]"] assms(1) segs
  obtain p' where "metricLoop q [s] = Inr (segs, p')" "pview p' = vs" by auto
  moreover have "match p TIdentifier" using pv w(2) by (simp add: wfWord_def)
  ultimately show ?thesis using q w(1) by (simp add: metricExpression_def)
qed

text \<open>The alternatives of a parameter that do not apply give \<open>null\<close>.\<close>

lemma no_number: "\<not> match p TNumber \<Longrightarrow> numericLiteral p = Inr (None, p)"
  by (simp add: numericLiteral_def)

lemma no_bool: "\<not> match p TBool \<Longrightarrow> boolExpression p = Inr (None, p)"
  by (simp add: boolExpression_def)

lemma no_metric: "pview p = (ty, v, u) # vs \<Longrightarrow> ty \<in> {TString, TBool} \<Longrightarrow> metricExpression p = Inr (None, p)"
  by (auto simp: metricExpression_def pOpen_def)

lemma seriesRef_word:
  assumes "pview p = wordView w # vs" and "wfWord w"
  shows "if hasSeriesRef w
         then \<exists>p'. seriesRefExpression p = Inr (Some (ASeriesRef w), p') \<and> pview p' = vs
         else seriesRefExpression p = Inr (None, p)"
proof -
  from assms have pv: "pview p = (TIdentifier, Some w, None) # vs" by (simp add: wfWord_def)
  obtain t p' where t: "consumeToken p = (Some t, p')" "tokenAt p 0 = Some t" "t_value t = Some w" "pview p' = vs"
    using consume_pview [OF pv] by metis
  with pv show ?thesis by (simp add: seriesRefExpression_def)
qed

lemma no_seriesRef: "\<not> match p TIdentifier \<Longrightarrow> seriesRefExpression p = Inr (None, p)"
  by (simp add: seriesRefExpression_def)

definition isCall :: "ast \<Rightarrow> bool" where
  "isCall a \<longleftrightarrow> (case a of AFunction _ _ \<Rightarrow> True | _ \<Rightarrow> False)"

lemma simpleParameter_leaf:
  assumes "wfAst a" and "\<not> isCall a" and "follows vs" and "pview p = astViews a @ vs"
  shows "\<exists>p'. simpleParameter p = Inr (Some a, p') \<and> pview p' = vs"
proof (cases a)
  case (AFunction n ps)
  with assms(2) show ?thesis by (simp add: isCall_def)
next
  case (AMetric segs)
  with assms(1) obtain w ss where segs: "segs = Segment w # ss" "\<not> hasSeriesRef w" "wfWord w" "list_all wfSeg segs"
    by (auto simp: wfSegments_def wfSeg_def list_all_iff split: list.splits segmentNode.splits)
  have pv: "pview p = wordView w # (if ss = [] then [] else punctView 46 # segViews ss) @ vs"
    using assms(4) AMetric segs by (simp add: segViews_Cons segmentStr_def)
  then have m: "match p ty \<longleftrightarrow> ty = TIdentifier" for ty using segs(3) by (simp add: wfWord_def)
  have "seriesRefExpression p = Inr (None, p)" using seriesRef_word [OF pv segs(3)] segs(2) by simp
  moreover obtain p' where "metricExpression p = Inr (Some (AMetric segs), p')" "pview p' = vs"
    using metricExpression_segments [OF segs(4) _ assms(3)] assms(4) AMetric segs(1) by auto
  ultimately show ?thesis using AMetric m by (simp add: simpleParameter_def orTry_def no_number no_bool)
next
  case (ASeriesRef w)
  with assms(1,4) have w: "wfWord w" "hasSeriesRef w" and pv: "pview p = wordView w # vs" by simp_all
  then have m: "match p ty \<longleftrightarrow> ty = TIdentifier" for ty by (simp add: wfWord_def)
  from seriesRef_word [OF pv w(1)] w(2) m ASeriesRef show ?thesis
    by (auto simp: simpleParameter_def orTry_def no_number)
next
  case (ABool b)
  with assms(4) have pv: "pview p = (TBool, Some (if b then js ''true'' else js ''false''), None) # vs"
    by (simp add: wordView_def)
  obtain t p' where t: "consumeToken p = (Some t, p')" "t_value t = Some (if b then js ''true'' else js ''false'')" "pview p' = vs"
    using consume_pview [OF pv] by metis
  with pv ABool show ?thesis
    by (simp add: simpleParameter_def orTry_def no_number no_seriesRef boolExpression_def)
next
  case (ANumber x)
  with assms(1) obtain m where x: "x = Dec m 0" "smallInt m" by (auto split: jsnum.splits nat.splits)
  from ANumber assms(4) have pv: "pview p = (TNumber, Some (numToStr x), None) # vs"
    by (simp add: numberView_def)
  obtain t p' where t: "consumeToken p = (Some t, p')" "t_value t = Some (numToStr x)" "pview p' = vs"
    using consume_pview [OF pv] by metis
  with pv ANumber x show ?thesis
    by (simp add: simpleParameter_def orTry_def numericLiteral_def tokenText_def parseFloat_numToStr_int)
next
  case (AString s)
  with assms(4) have pv: "pview p = (TString, Some s, Some False) # vs" by (simp add: stringView_def)
  obtain t p' where t: "consumeToken p = (Some t, p')" "t_value t = Some s" "t_isUnclosed t = Some False" "pview p' = vs"
    using consume_pview [OF pv] by metis
  with pv AString show ?thesis
    by (simp add: simpleParameter_def orTry_def no_number no_bool no_seriesRef no_metric [OF pv] stringLiteral_def tokenText_def)
qed

text \<open>Fuel for a tree, in terms of its depth.\<close>

function astFuel :: "ast \<Rightarrow> nat" and paramsFuel :: "ast option list \<Rightarrow> nat" where
  "astFuel (AFunction n ps) = Suc (paramsFuel ps)"
| "astFuel (AMetric segs) = 1"
| "astFuel (ASeriesRef v) = 1"
| "astFuel (ABool b) = 1"
| "astFuel (ANumber x) = 1"
| "astFuel (AString s) = 1"
| "paramsFuel [] = 1"
| "paramsFuel (None # ps) = 1"
| "paramsFuel (Some a # ps) = Suc (max (astFuel a) (paramsFuel ps))"
  by pat_completeness auto
termination
  by (relation "measure (case_sum size (size_list (size_option size)))") auto

lemma astFuel_pos [simp]: "0 < astFuel a"
  by (cases a) auto

lemma astViews_Cons: "wfAst a \<Longrightarrow> \<exists>v vs. astViews a = v # vs \<and> v \<noteq> punctView 41"
  by (cases a) (auto simp: wfSegments_def segViews_Cons wordView_def punctView_def stringView_def
      numberView_def split: list.splits)

lemma leaf_no_call:
  assumes "wfAst a" and "\<not> isCall a" and "follows vs" and "pview p = astViews a @ vs" and "0 < n"
  shows "functionCall n p = Inr (None, p)"
proof -
  obtain v us where v: "astViews a = v # us" "v \<noteq> punctView 41" using astViews_Cons [OF assms(1)] by blast
  have us: "us = [] \<or> hd us = punctView 46"
    using v(1) assms(1,2) by (cases a) (auto simp: isCall_def segViews_Cons wfSegments_def split: list.splits if_splits)
  from assms(4) v(1) have "pview p = v # us @ vs" by simp
  from pview_tokenAt [OF this] have q: "pview (snd (consumeToken p)) = us @ vs" by blast
  have "\<not> match (snd (consumeToken p)) pLeft"
    using q us assms(3) by (cases us; cases vs) (auto simp: pLeft_def follows_def punctView_def split: list.splits)
  then show ?thesis using assms(5) by (cases n) (simp_all add: match2_match)
qed

lemma parse_leaf:
  assumes "wfAst a" and "\<not> isCall a" and "follows vs" and "pview p = astViews a @ vs"
  shows "\<exists>p'. pview p' = vs \<and>
     (\<forall>n \<ge> astFuel a. orTry (functionCall n p) simpleParameter = Inr (Some a, p') \<and>
       (isCall a \<longrightarrow> functionCall n p = Inr (Some a, p')))"
proof -
  have "0 < n" if "astFuel a \<le> n" for n using that astFuel_pos [of a] by linarith
  with simpleParameter_leaf [OF assms] leaf_no_call [OF assms] assms(2) show ?thesis
    by (fastforce simp: orTry_def)
qed

lemma parse_printed:
  "wfAst a \<Longrightarrow> follows vs \<Longrightarrow> pview p = astViews a @ vs \<Longrightarrow>
   \<exists>p'. pview p' = vs \<and>
     (\<forall>n \<ge> astFuel a. orTry (functionCall n p) simpleParameter = Inr (Some a, p') \<and>
       (isCall a \<longrightarrow> functionCall n p = Inr (Some a, p')))"
  "wfParams ps \<Longrightarrow> pview p = paramViews ps @ punctView 41 # us \<Longrightarrow>
   \<exists>p'. pview p' = punctView 41 # us \<and> (\<forall>n \<ge> paramsFuel ps. functionParameters n p = Inr (ps, p'))"
proof (induction a and ps arbitrary: vs p and us p rule: printAst_printParams.induct)
  case (1 n ps)
  have w: "wfWord n" using 1 by simp
  from 1(4) w have pv: "pview p = (TIdentifier, Some n, None) # punctView 40 # paramViews ps @ punctView 41 # vs"
    by (simp add: wfWord_def)
  obtain t p1 where t: "consumeToken p = (Some t, p1)" "t_value t = Some n"
    "pview p1 = punctView 40 # paramViews ps @ punctView 41 # vs"
    using consume_pview [OF pv] by metis
  from pview_tokenAt [OF t(3)] have p2: "pview (snd (consumeToken p1)) = paramViews ps @ punctView 41 # vs" by blast
  from "1.IH" [OF _ p2] 1(2) obtain p3 where p3: "pview p3 = punctView 41 # vs"
    "\<forall>m \<ge> paramsFuel ps. functionParameters m (snd (consumeToken p1)) = Inr (ps, p3)" by auto
  from pview_tokenAt [OF p3(1)] have p4: "pview (snd (consumeToken p3)) = vs" by blast
  have m2: "match2 p TIdentifier pLeft" using pv t by (simp add: match2_match pLeft_def punctView_def)
  have mr: "match p3 pRight" using p3(1) by (simp add: pRight_def punctView_def)
  have f: "functionCall m p = Inr (Some (AFunction n ps), snd (consumeToken p3))" if "astFuel (AFunction n ps) \<le> m" for m
  proof -
    from that obtain k where k: "m = Suc k" "paramsFuel ps \<le> k" by (cases m) auto
    with p3(2) m2 mr t show ?thesis by (simp add: tokenText_def)
  qed
  then show ?case using p4 by (intro exI [of _ "snd (consumeToken p3)"]) (simp add: orTry_def)
next
  case (7 us p)
  have "match p pRight" using 7 by (simp add: pRight_def punctView_def)
  moreover have "\<exists>k. m = Suc k" if "paramsFuel [] \<le> m" for m using that by (cases m) auto
  ultimately show ?case using 7 by (intro exI [of _ p]) fastforce
next
  case (9 a ps)
  let ?vs = "(if ps = [] then [] else punctView 44 # paramViews ps) @ punctView 41 # us"
  have wf: "wfAst a" "wfParams ps" using 9 by simp_all
  have pv: "pview p = astViews a @ ?vs" using 9 by simp
  have fo: "follows ?vs" by (simp add: follows_def)
  from "9.IH"(1) [OF wf(1) fo pv] obtain p1 where p1: "pview p1 = ?vs"
    "\<forall>m \<ge> astFuel a. orTry (functionCall m p) simpleParameter = Inr (Some a, p1)" by blast
  have nr: "\<not> (match p pRight \<or> matchEnd p)"
  proof -
    obtain v ws where v: "astViews a = v # ws" "v \<noteq> punctView 41" using astViews_Cons [OF wf(1)] by blast
    then have pv': "pview p = v # ws @ ?vs" using pv by simp
    have "fst v \<noteq> pRight"
      using v wf(1) by (cases a) (auto simp: pRight_def wordView_def stringView_def numberView_def
          segViews_Cons wfSegments_def split: list.splits if_splits)
    then show ?thesis using pv' matchEnd_pview [OF pv'] by (cases v) simp
  qed
  show ?case
  proof (cases "ps = []")
    case True
    then have "\<not> match p1 pComma" using p1(1) by (simp add: pComma_def punctView_def)
    moreover have "\<exists>k. m = Suc k \<and> astFuel a \<le> k" if "paramsFuel (Some a # ps) \<le> m" for m
      using that by (cases m) auto
    ultimately show ?thesis using p1 nr True by (intro exI [of _ p1]) fastforce
  next
    case False
    then have c: "pview p1 = punctView 44 # paramViews ps @ punctView 41 # us" using p1(1) by simp
    from pview_tokenAt [OF this] have p2: "pview (snd (consumeToken p1)) = paramViews ps @ punctView 41 # us" by blast
    from "9.IH"(2) [OF wf(2) p2] obtain p3 where p3: "pview p3 = punctView 41 # us"
      "\<forall>m \<ge> paramsFuel ps. functionParameters m (snd (consumeToken p1)) = Inr (ps, p3)" by blast
    have mc: "match p1 pComma" using c by (simp add: pComma_def punctView_def)
    have "functionParameters m p = Inr (Some a # ps, p3)" if "paramsFuel (Some a # ps) \<le> m" for m
    proof -
      from that obtain k where k: "m = Suc k" "astFuel a \<le> k" "paramsFuel ps \<le> k" by (cases m) auto
      with p1(2) p3(2) mc nr show ?thesis by simp
    qed
    with p3(1) show ?thesis by blast
  qed
next
  case (8 ps)
  then show ?case by simp
next
  case (2 segs)
  then show ?case by (intro parse_leaf) (simp_all add: isCall_def)
next
  case (3 v)
  then show ?case by (intro parse_leaf) (simp_all add: isCall_def)
next
  case (4 b)
  then show ?case by (intro parse_leaf) (simp_all add: isCall_def)
next
  case (5 x)
  then show ?case by (intro parse_leaf) (simp_all add: isCall_def)
next
  case (6 s)
  then show ?case by (intro parse_leaf) (simp_all add: isCall_def)
qed

lemma getAst_printed:
  assumes "wfAst a" and "case a of AFunction _ _ \<Rightarrow> True | AMetric _ \<Rightarrow> True | _ \<Rightarrow> False"
  shows "getAst (printAst a) = Parsed a"
proof -
  let ?p = "newParser (printAst a)"
  have l: "lexes (printAst a @ []) (astViews a @ [])"
    using assms(1) by (intro lexes_printed lexes_Nil) (simp_all add: paramEnds_def)
  then have pv: "pview ?p = astViews a @ []" by (intro pview_newParser) simp
  have fo: "follows []" by (simp add: follows_def)
  have nf: "functionCall (parserFuel ?p) ?p \<noteq> Inl OutOfFuel"
    using functionCall_good [of "length (printAst a)" ?p "parserFuel ?p"] newParser_ok [of "printAst a"]
    by (auto simp: parserFuel_def good_def errorOk_def)
  show ?thesis
  proof (cases "isCall a")
    case True
    with parse_printed(1) [OF assms(1) fo pv] obtain p' where
      "\<forall>n \<ge> astFuel a. functionCall n ?p = Inr (Some a, p')" by blast
    then have "functionCall (parserFuel ?p + astFuel a) ?p = Inr (Some a, p')" by simp
    with functionCall_more_fuel [OF nf] have "functionCall (parserFuel ?p) ?p = Inr (Some a, p')" by simp
    then show ?thesis by (simp add: getAst_def Let_def runStart_def orTry_def)
  next
    case False
    with assms(2) obtain segs where a: "a = AMetric segs" by (auto simp: isCall_def split: ast.splits)
    have "functionCall (parserFuel ?p) ?p = Inr (None, ?p)"
      using leaf_no_call [OF assms(1) False fo pv, of "parserFuel ?p"]
      by (simp add: parserFuel_def del: functionCall.simps)
    moreover obtain p' where "metricExpression ?p = Inr (Some a, p')"
    proof -
      from a assms(1) have "list_all wfSeg segs" "segs \<noteq> []"
        by (auto simp: wfSegments_def wfSeg_def list_all_iff split: list.splits segmentNode.splits)
      from metricExpression_segments [OF this fo, of ?p] pv a that show ?thesis by auto
    qed
    ultimately show ?thesis by (simp add: getAst_def Let_def runStart_def orTry_def)
  qed
qed

text \<open>
  Claim C2. Printing and parsing are inverse: the parser reads every well-formed query back from
  its text, whatever the depth of its calls and the number of their parameters.
\<close>

theorem getAst_printAst:
  assumes "wfAst a" and "case a of AFunction _ _ \<Rightarrow> True | AMetric _ \<Rightarrow> True | _ \<Rightarrow> False"
  shows "getAst (printAst a) = Parsed a"
  using assms by (rule getAst_printed)

text \<open>The query \<open>alias(sum(app.*.cpu, #B), 'cpu', 2, true)\<close>.\<close>

theorem getAst_printAst_witness:
  "getAst (js ''alias(sum(app.*.cpu, #B), '' @ [39] @ js ''cpu'' @ [39] @ js '', 2, true)'') =
     Parsed (AFunction (js ''alias'')
       [Some (AFunction (js ''sum'')
          [Some (AMetric [Segment (js ''app''), Segment (js ''*''), Segment (js ''cpu'')]),
           Some (ASeriesRef (js ''#B''))]),
        Some (AString (js ''cpu'')), Some (ANumber (Dec 2 0)), Some (ABool True)])"
    (is "getAst ?s = Parsed ?a")
proof -
  have words: "wfWord (js ''alias'')" "wfWord (js ''sum'')" "wfWord (js ''app'')" "wfWord (js ''*'')"
    "wfWord (js ''cpu'')" "wfWord (js ''#B'')"
    by (simp_all add: wfWord_def isBoolWord_def plainWord_def js_def isIdentifierCode_def isDigit_def)
  have refs: "\<not> hasSeriesRef (js ''app'')" "hasSeriesRef (js ''#B'')" "39 \<notin> set (js ''cpu'')"
    by (simp_all add: js_def isRefLetter_def)
  have "wfAst ?a" using words refs by (simp add: wfSegments_def smallInt_def)
  moreover have "printAst ?a = ?s"
    by (simp add: segmentStr_def numToStr_int smallInt_def natToStr_small js_def)
  ultimately show ?thesis using getAst_printAst [of ?a] by simp
qed

end
