(* ===== verification/GraphiteQuery.thy ===== *)
theory GraphiteQuery
  imports Gfunc Parser
begin

text \<open>
  The query model behind the visual editor (\<open>graphite_query.ts\<close>): the path segments, the functions
  and the tags a query is taken apart into, the operations on them, and the query text they are
  rendered back to, with the references to other queries replaced.

  The functions are objects the editor refers to, so that an instance carries an identifier
  (\<open>fi_id\<close>, drawn from \<open>gq_nextId\<close>) and is found by it.  The data source enters through its function
  definitions (\<open>funcDefs\<close>, as in \<open>datasource.createFuncInstance\<close>) and the template service through
  \<open>replaceVariables\<close>.  The other queries are values: \<open>targets\<close> holds no alias of the query's own
  target, and the counter \<open>refCount\<close> the source leaves behind in them is kept apart from them.
\<close>

subsection \<open>State\<close>

record segment =
  sg_value :: jsstr
  sg_type :: "jsstr option"
  sg_expandable :: bool
  sg_fake :: bool

definition plainSegment :: "jsstr \<Rightarrow> segment" where
  "plainSegment v = \<lparr>sg_value = v, sg_type = None, sg_expandable = False, sg_fake = False\<rparr>"

record gtag =
  tag_key :: jsstr
  tag_operator :: jsstr
  tag_value :: jsstr

record gtarget =
  tg_refId :: jsstr
  tg_target :: jsstr
  tg_targetFull :: "jsstr option"
  tg_textEditor :: bool

record graphiteQuery =
  gq_target :: gtarget
  gq_functions :: "funcInstance list"
  gq_segments :: "segment list"
  gq_tags :: "gtag list"
  gq_error :: "jsstr option"
  gq_seriesByTagUsed :: bool
  gq_checkOtherSegmentsIndex :: int
  gq_nextId :: nat

definition removeTagValue :: jsstr where
  "removeTagValue = js ''-- remove tag --''"

definition seriesByTag :: jsstr where
  "seriesByTag = js ''seriesByTag''"

subsection \<open>Paths and tags\<close>

definition joinPath :: "jsstr \<Rightarrow> segment \<Rightarrow> jsstr" where
  "joinPath result s = (if result \<noteq> [] then result @ [46] @ sg_value s else sg_value s)"

definition getSegmentPathUpTo :: "graphiteQuery \<Rightarrow> nat \<Rightarrow> jsstr" where
  "getSegmentPathUpTo q i = foldl joinPath [] (take i (gq_segments q))"

text \<open>\<open>.replace(/\.?select metric$/, '')\<close>\<close>

definition stripSelectMetric :: "jsstr \<Rightarrow> jsstr" where
  "stripSelectMetric s =
     (let w = js ''select metric''
      in if length w \<le> length s \<and> drop (length s - length w) s = w
         then (let p = take (length s - length w) s
               in if p \<noteq> [] \<and> last p = 46 then butlast p else p)
         else s)"

text \<open>
  The pattern of a tag expression: a key of characters other than \<open>! = ~\<close>, an operator, a value
  up to the end of the line.  A key that no operator follows is skipped, whole, by the search.
\<close>

definition isTagMark :: "codeUnit \<Rightarrow> bool" where
  "isTagMark c \<longleftrightarrow> c = 33 \<or> c = 61 \<or> c = 126"

definition isLineEnd :: "codeUnit \<Rightarrow> bool" where
  "isLineEnd c \<longleftrightarrow> c = 10 \<or> c = 13 \<or> c = 8232 \<or> c = 8233"

definition tagOperator :: "jsstr \<Rightarrow> (jsstr \<times> jsstr) option" where
  "tagOperator s =
     (case s of
        c # d # r \<Rightarrow>
          if c = 33 \<and> d = 61
          then (case r of e # r' \<Rightarrow> if e = 126 then Some ([33, 61, 126], r') else Some ([33, 61], r)
                | [] \<Rightarrow> Some ([33, 61], []))
          else if c = 61 then (if d = 126 then Some ([61, 126], r) else Some ([61], d # r))
          else None
      | [c] \<Rightarrow> if c = 61 then Some ([61], []) else None
      | [] \<Rightarrow> None)"

function tagPattern :: "jsstr \<Rightarrow> gtag option" where
  "tagPattern s =
     (case dropWhile isTagMark s of
        [] \<Rightarrow> None
      | c # r \<Rightarrow>
          (let key = takeWhile (\<lambda>c. \<not> isTagMark c) (c # r);
               rest = dropWhile (\<lambda>c. \<not> isTagMark c) (c # r)
           in case tagOperator rest of
                Some (operator, r') \<Rightarrow>
                  Some \<lparr>tag_key = key, tag_operator = operator, tag_value = takeWhile (\<lambda>c. \<not> isLineEnd c) r'\<rparr>
              | None \<Rightarrow> tagPattern rest))"
  by pat_completeness auto
termination
proof (relation "measure length", goal_cases)
  case (2 s c r key rest)
  from 2(1) have "\<not> isTagMark c" by (metis hd_dropWhile list.distinct(1) list.sel(1))
  then have "rest = dropWhile (\<lambda>c. \<not> isTagMark c) r" using 2 by simp
  then have "length rest < length (c # r)"
    using length_dropWhile_le [of "\<lambda>c. \<not> isTagMark c" r] by simp
  also have "\<dots> \<le> length s" using length_dropWhile_le [of isTagMark s] 2(1) by simp
  finally show ?case by simp
qed simp

declare tagPattern.simps [simp del]

definition splitSeriesByTagParams :: "pval list \<Rightarrow> gtag list" where
  "splitSeriesByTagParams params =
     concat (map (\<lambda>p. case tagPattern (pvalStr p) of Some t \<Rightarrow> [t] | None \<Rightarrow> []) params)"

definition renderTagString :: "gtag \<Rightarrow> jsstr" where
  "renderTagString t = tag_key t @ tag_operator t @ tag_value t"

subsection \<open>Taking a query apart\<close>

text \<open>
  What a call of \<open>parseTargetRecursive\<close> throws: the object \<open>{ message }\<close> of \<open>addFunctionParameter\<close>,
  which is not an \<open>Error\<close>, or the \<open>TypeError\<close> of a parameter outside any function.  The state keeps
  what was added before.
\<close>

datatype queryError = TooManyParameters jsstr | NoFunction

record parseState =
  pt_query :: graphiteQuery
  pt_func :: "funcInstance option"
  pt_thrown :: "queryError option"

definition addFunctionParameter :: "pval \<Rightarrow> parseState \<Rightarrow> parseState" where
  "addFunctionParameter v st =
     (case pt_func st of
        None \<Rightarrow> st\<lparr>pt_thrown := Some NoFunction\<rparr>
      | Some f \<Rightarrow>
          if length (f_params (fi_def f)) \<le> length (fi_params f) \<and> \<not> lastMultiple (fi_def f)
          then st\<lparr>pt_thrown := Some (TooManyParameters (js ''too many parameters for function '' @ f_name (fi_def f)))\<rparr>
          else st\<lparr>pt_func := Some (f\<lparr>fi_params := fi_params f @ [v]\<rparr>)\<rparr>)"

definition getSeriesByTagFuncIndex :: "graphiteQuery \<Rightarrow> nat option" where
  "getSeriesByTagFuncIndex q =
     (let i = length (takeWhile (\<lambda>f. f_name (fi_def f) \<noteq> seriesByTag) (gq_functions q))
      in if i < length (gq_functions q) then Some i else None)"

definition nodeSegment :: "segmentNode \<Rightarrow> segment" where
  "nodeSegment s =
     (case s of
        Segment v \<Rightarrow> plainSegment v\<lparr>sg_type := Some (js ''segment'')\<rparr>
      | Template v \<Rightarrow> plainSegment v\<lparr>sg_type := Some (js ''template'')\<rparr>)"

text \<open>What the end of the case \<open>'function'\<close> does with the finished instance.\<close>

definition pushFunction :: "funcInstance \<Rightarrow> graphiteQuery \<Rightarrow> graphiteQuery" where
  "pushFunction f q =
     (if f_name (fi_def f) = seriesByTag \<and> \<not> gq_seriesByTagUsed q
      then q\<lparr>gq_functions := gq_functions q @ [f\<lparr>fi_hidden := True\<rparr>], gq_seriesByTagUsed := True,
             gq_tags := splitSeriesByTagParams (fi_params f)\<rparr>
      else q\<lparr>gq_functions := gq_functions q @ [f]\<rparr>)"

definition createInstance :: "funcDefs option \<Rightarrow> jsstr \<Rightarrow> graphiteQuery \<Rightarrow> funcInstance" where
  "createInstance funcDefs name q = createFuncInstance (gq_nextId q) (ByName name) False funcDefs"

function parseTargetRecursive :: "funcDefs option \<Rightarrow> ast option \<Rightarrow> parseState \<Rightarrow> parseState"
  and parseParams :: "funcDefs option \<Rightarrow> ast option list \<Rightarrow> parseState \<Rightarrow> parseState" where
  "parseTargetRecursive defs None st = st"
| "parseTargetRecursive defs (Some (AFunction name params)) st =
     (let q = pt_query st;
          innerFunc = createInstance defs name q;
          inner = parseParams defs params
                    (st\<lparr>pt_query := q\<lparr>gq_nextId := gq_nextId q + 1\<rparr>, pt_func := Some innerFunc\<rparr>)
      in case (pt_thrown inner, pt_func inner) of
           (None, Some f) \<Rightarrow> inner\<lparr>pt_query := pushFunction (updateText f) (pt_query inner), pt_func := pt_func st\<rparr>
         | _ \<Rightarrow> inner\<lparr>pt_func := pt_func st\<rparr>)"
| "parseTargetRecursive defs (Some (ASeriesRef v)) st =
     (let q = pt_query st
      in if gq_segments q \<noteq> [] \<or> getSeriesByTagFuncIndex q \<noteq> None
         then addFunctionParameter (PStr v) st
         else st\<lparr>pt_query := q\<lparr>gq_segments := gq_segments q @ [plainSegment v\<lparr>sg_type := Some (js ''series-ref'')\<rparr>]\<rparr>\<rparr>)"
| "parseTargetRecursive defs (Some (ABool b)) st = addFunctionParameter (PBool b) st"
| "parseTargetRecursive defs (Some (AString s)) st = addFunctionParameter (PStr s) st"
| "parseTargetRecursive defs (Some (ANumber n)) st = addFunctionParameter (PNum n) st"
| "parseTargetRecursive defs (Some (AMetric segs)) st =
     (let q = pt_query st
      in if gq_segments q \<noteq> [] \<or> gq_tags q \<noteq> []
         then addFunctionParameter (PStr (joinWith [46] (map (sg_value \<circ> nodeSegment) segs))) st
         else st\<lparr>pt_query := q\<lparr>gq_segments := map nodeSegment segs\<rparr>\<rparr>)"
| "parseParams defs [] st = st"
| "parseParams defs (p # ps) st =
     (let st' = parseTargetRecursive defs p st
      in if pt_thrown st' \<noteq> None then st' else parseParams defs ps st')"
  by pat_completeness auto
termination
  by (relation "measure (case_sum (\<lambda>(_, a, _). size_option size a) (\<lambda>(_, ps, _). size_list (size_option size) ps))")
    auto

definition posStr :: "nat option \<Rightarrow> jsstr" where
  "posStr pos = (case pos of Some k \<Rightarrow> natToStr k | None \<Rightarrow> js ''undefined'')"

text \<open>\<open>parseTarget\<close>; \<open>None\<close> when reading the type of an \<open>undefined\<close> tree throws.\<close>

definition resetQuery :: "graphiteQuery \<Rightarrow> graphiteQuery" where
  "resetQuery q =
     q\<lparr>gq_functions := [], gq_segments := [], gq_tags := [], gq_seriesByTagUsed := False, gq_error := None\<rparr>"

definition setTextEditor :: "graphiteQuery \<Rightarrow> graphiteQuery" where
  "setTextEditor q = q\<lparr>gq_target := gq_target q\<lparr>tg_textEditor := True\<rparr>\<rparr>"

definition checkFromEnd :: "graphiteQuery \<Rightarrow> graphiteQuery" where
  "checkFromEnd q = q\<lparr>gq_checkOtherSegmentsIndex := int (length (gq_segments q)) - 1\<rparr>"

definition parseAst :: "funcDefs option \<Rightarrow> ast \<Rightarrow> graphiteQuery \<Rightarrow> graphiteQuery" where
  "parseAst defs a q =
     (let st = parseTargetRecursive defs (Some a) \<lparr>pt_query = q, pt_func = None, pt_thrown = None\<rparr>;
          q1 = (case pt_thrown st of
                  None \<Rightarrow> pt_query st
                | Some (TooManyParameters _) \<Rightarrow> setTextEditor (pt_query st)
                | Some NoFunction \<Rightarrow>
                    setTextEditor (pt_query st\<lparr>gq_error := Some (js ''Cannot read properties of null'')\<rparr>))
      in checkFromEnd q1)"

definition parseTarget :: "funcDefs option \<Rightarrow> graphiteQuery \<Rightarrow> graphiteQuery option" where
  "parseTarget defs q0 =
     (let q = resetQuery q0
      in if tg_textEditor (gq_target q) then Some q
         else (case getAst (tg_target (gq_target q)) of
                 ParsedNull \<Rightarrow> Some (q\<lparr>gq_checkOtherSegmentsIndex := 0\<rparr>)
               | ParsedError msg pos \<Rightarrow>
                   Some (setTextEditor (q\<lparr>gq_error := Some (msg @ js '' at position: '' @ posStr pos)\<rparr>))
               | ParsedUndefined \<Rightarrow> None
               | Parsed a \<Rightarrow> Some (parseAst defs a q)))"

definition newGraphiteQuery :: "funcDefs option \<Rightarrow> gtarget \<Rightarrow> graphiteQuery option" where
  "newGraphiteQuery defs target =
     parseTarget defs
       \<lparr>gq_target = target, gq_functions = [], gq_segments = [], gq_tags = [], gq_error = None,
        gq_seriesByTagUsed = False, gq_checkOtherSegmentsIndex = 0, gq_nextId = 0\<rparr>"

subsection \<open>Editing\<close>

text \<open>\<open>updateSegmentValue\<close>; \<open>None\<close> is the \<open>TypeError\<close> of an index out of range.\<close>

definition updateSegmentValue :: "segment \<Rightarrow> nat \<Rightarrow> graphiteQuery \<Rightarrow> graphiteQuery option" where
  "updateSegmentValue s i q =
     (if i < length (gq_segments q)
      then Some (q\<lparr>gq_segments := (gq_segments q)[i := (gq_segments q ! i)\<lparr>sg_value := sg_value s\<rparr>]\<rparr>)
      else None)"

definition addSelectMetricSegment :: "graphiteQuery \<Rightarrow> graphiteQuery" where
  "addSelectMetricSegment q = q\<lparr>gq_segments := gq_segments q @ [plainSegment (js ''select metric'')]\<rparr>"

definition addFunction :: "funcInstance \<Rightarrow> graphiteQuery \<Rightarrow> graphiteQuery" where
  "addFunction f q = q\<lparr>gq_functions := gq_functions q @ [f]\<rparr>"

text \<open>\<open>without(this.functions, func)\<close>, by identity.\<close>

definition removeFunction :: "nat \<Rightarrow> graphiteQuery \<Rightarrow> graphiteQuery" where
  "removeFunction ident q = q\<lparr>gq_functions := filter (\<lambda>f. fi_id f \<noteq> ident) (gq_functions q)\<rparr>"

definition indexOfFunction :: "nat \<Rightarrow> graphiteQuery \<Rightarrow> int" where
  "indexOfFunction ident q =
     (let i = length (takeWhile (\<lambda>f. fi_id f \<noteq> ident) (gq_functions q))
      in if i < length (gq_functions q) then int i else -1)"

text \<open>\<open>undef\<close> stands for the \<open>undefined\<close> that a move in an empty array inserts.\<close>

definition moveFunction :: "funcInstance \<Rightarrow> nat \<Rightarrow> int \<Rightarrow> graphiteQuery \<Rightarrow> graphiteQuery" where
  "moveFunction undef ident offset q =
     (let i = indexOfFunction ident q
      in q\<lparr>gq_functions := arrayMove undef (gq_functions q) i (i + offset)\<rparr>)"

definition getSeriesByTagFunc :: "graphiteQuery \<Rightarrow> funcInstance option" where
  "getSeriesByTagFunc q = map_option (\<lambda>i. gq_functions q ! i) (getSeriesByTagFuncIndex q)"

text \<open>A write to the parameters of the function \<open>seriesByTag\<close>; \<open>None\<close> is the \<open>TypeError\<close> without one.\<close>

definition updateTagParams :: "(pval list \<Rightarrow> pval list) \<Rightarrow> graphiteQuery \<Rightarrow> graphiteQuery option" where
  "updateTagParams g q =
     (case getSeriesByTagFuncIndex q of
        None \<Rightarrow> None
      | Some i \<Rightarrow>
          Some (q\<lparr>gq_functions :=
                  (gq_functions q)[i := (gq_functions q ! i)\<lparr>fi_params := g (fi_params (gq_functions q ! i))\<rparr>]\<rparr>))"

definition addTag :: "gtag \<Rightarrow> graphiteQuery \<Rightarrow> graphiteQuery option" where
  "addTag t q =
     map_option (\<lambda>q. q\<lparr>gq_tags := gq_tags q @ [t]\<rparr>)
       (updateTagParams (\<lambda>ps. ps @ [PStr (renderTagString t)]) q)"

definition removeTag :: "nat \<Rightarrow> graphiteQuery \<Rightarrow> graphiteQuery option" where
  "removeTag i q =
     map_option (\<lambda>q. q\<lparr>gq_tags := snd (splice (gq_tags q) (int i) 1 [])\<rparr>)
       (updateTagParams (\<lambda>ps. snd (splice ps (int i) 1 [])) q)"

definition removeSeriesByTagFunc :: "graphiteQuery \<Rightarrow> graphiteQuery" where
  "removeSeriesByTagFunc q =
     (case getSeriesByTagFunc q of Some f \<Rightarrow> removeFunction (fi_id f) q | None \<Rightarrow> q)"

definition updateTag :: "gtag \<Rightarrow> nat \<Rightarrow> graphiteQuery \<Rightarrow> graphiteQuery option" where
  "updateTag t tagIndex q0 =
     (let q = q0\<lparr>gq_error := None\<rparr>
      in if tag_key t = removeTagValue
         then map_option
                (\<lambda>q. if gq_tags q = []
                     then (removeSeriesByTagFunc q)\<lparr>gq_checkOtherSegmentsIndex := 0, gq_seriesByTagUsed := False\<rparr>
                     else q)
                (removeTag tagIndex q)
         else map_option (\<lambda>q. q\<lparr>gq_tags := arraySet t (gq_tags q) tagIndex t\<rparr>)
                (updateTagParams (\<lambda>ps. arraySet PUndef ps tagIndex (PStr (renderTagString t))) q))"

text \<open>\<open>renderTagExpressions\<close>; no index is excluded for the default \<open>-1\<close>, here \<open>None\<close>.\<close>

definition renderTagExpressions :: "nat option \<Rightarrow> graphiteQuery \<Rightarrow> jsstr list" where
  "renderTagExpressions excludeIndex q =
     filter (\<lambda>s. s \<noteq> [])
       (map (\<lambda>(i, t). if Some i \<noteq> excludeIndex then renderTagString t else []) (enumerate 0 (gq_tags q)))"

subsection \<open>Rendering\<close>

text \<open>The number of times a reference to a query occurs: the matches of \<open>#id\<close>.\<close>

fun countRefs :: "codeUnit \<Rightarrow> jsstr \<Rightarrow> nat" where
  "countRefs c (a # b # s) = (if a = 35 \<and> b = c then Suc (countRefs c s) else countRefs c (b # s))"
| "countRefs c _ = 0"

text \<open>
  The queries by their identifier, each with its counter and its text.  Only references of one
  capital letter are replaced, so that only the queries with such an identifier matter; of two
  queries with one identifier the last counts (\<open>keyBy\<close>), and the query itself is left out.
\<close>

type_synonym refTable = "(codeUnit, nat \<times> jsstr) obj"

definition targetsByRefId :: "gtarget \<Rightarrow> gtarget list \<Rightarrow> refTable" where
  "targetsByRefId target targets =
     fold (\<lambda>t m. case tg_refId t of
                   [c] \<Rightarrow> if tg_refId t \<noteq> tg_refId target
                           then objSet c (countRefs c (tg_target target), tg_target t) m else m
                 | _ \<Rightarrow> m) targets []"

text \<open>One pass of the replacement: every reference, from left to right.\<close>

fun replaceRefs :: "refTable \<Rightarrow> jsstr \<Rightarrow> jsstr \<times> refTable" where
  "replaceRefs m (a # b # s) =
     (if a = 35 \<and> isRefLetter b
      then (case objGet m b of
              None \<Rightarrow> (case replaceRefs m s of (r, m') \<Rightarrow> (a # b # r, m'))
            | Some (refCount, t) \<Rightarrow>
                (case replaceRefs (if refCount = 0 then objDelete b m else objSet b (refCount - 1, t) m) s of
                   (r, m') \<Rightarrow> (t @ r, m')))
      else (case replaceRefs m (b # s) of (r, m') \<Rightarrow> (a # r, m')))"
| "replaceRefs m s = (s, m)"

definition refBudget :: "refTable \<Rightarrow> nat" where
  "refBudget m = sum_list (map (\<lambda>(_, n, _). Suc n) m)"

lemma refBudget_objSet: "objGet m k = Some (Suc n, t) \<Longrightarrow> refBudget (objSet k (n, t') m) < refBudget m"
  by (induction m) (auto simp: refBudget_def objGet_def split: if_splits)

lemma refBudget_filter: "refBudget (filter P m) \<le> refBudget m"
  by (induction m) (auto simp: refBudget_def)

lemma refBudget_objDelete: "objGet m k = Some v \<Longrightarrow> refBudget (objDelete k m) < refBudget m"
proof (induction m)
  case (Cons p m)
  then show ?case
    using refBudget_filter [of "\<lambda>(k', _). k' \<noteq> k" m]
    by (cases p) (auto simp: refBudget_def objGet_def objDelete_def split: if_splits)
qed simp

text \<open>A pass that replaces something uses the counters up.\<close>

lemma replaceRefs_budget:
  "replaceRefs m s = (r, m') \<Longrightarrow> (m' = m \<and> r = s) \<or> refBudget m' < refBudget m"
proof (induction m s arbitrary: r m' rule: replaceRefs.induct)
  case (1 m a b s)
  show ?case
  proof (cases "a = 35 \<and> isRefLetter b")
    case False
    with 1 show ?thesis by (auto split: prod.splits)
  next
    case ref: True
    show ?thesis
    proof (cases "objGet m b")
      case None
      with 1 ref show ?thesis by (auto split: prod.splits)
    next
      case (Some p)
      obtain n t where p: "p = (n, t)" by (cases p)
      let ?m = "if n = 0 then objDelete b m else objSet b (n - 1, t) m"
      have "refBudget ?m < refBudget m"
        using Some p refBudget_objDelete [of m b] refBudget_objSet [of m b "n - 1" t t] by simp
      moreover obtain r' where "replaceRefs ?m s = (r', m')"
        using "1.prems" ref Some p by (auto split: prod.splits)
      ultimately show ?thesis
        using "1.IH"(2) [OF ref Some p [symmetric]] by fastforce
    qed
  qed
qed auto

function expandRefs :: "refTable \<Rightarrow> jsstr \<Rightarrow> jsstr" where
  "expandRefs m s =
     (if hasSeriesRef s
      then (case replaceRefs m s of (updated, m') \<Rightarrow> if updated = s then s else expandRefs m' updated)
      else s)"
  by pat_completeness auto
termination
  by (relation "measure (\<lambda>(m, _). refBudget m)") (auto dest: replaceRefs_budget [OF sym])

declare expandRefs.simps [simp del]

definition updateRenderedTarget :: "gtarget \<Rightarrow> gtarget list \<Rightarrow> gtarget" where
  "updateRenderedTarget target targets =
     (let full = expandRefs (targetsByRefId target targets) (tg_target target)
      in target\<lparr>tg_targetFull := (if tg_target target \<noteq> full then Some full else None)\<rparr>)"

definition metricPath :: "graphiteQuery \<Rightarrow> jsstr" where
  "metricPath q = stripSelectMetric (getSegmentPathUpTo q (length (gq_segments q)))"

definition renderFunctions :: "(jsstr \<Rightarrow> jsstr) \<Rightarrow> graphiteQuery \<Rightarrow> jsstr" where
  "renderFunctions replaceVariables q =
     foldl (\<lambda>target f. render replaceVariables f target) (metricPath q) (gq_functions q)"

definition updateModelTarget ::
  "(jsstr \<Rightarrow> jsstr) \<Rightarrow> gtarget list \<Rightarrow> graphiteQuery \<Rightarrow> graphiteQuery \<times> gtarget list" where
  "updateModelTarget replaceVariables targets q =
     (let target = gq_target q;
          target1 = (if tg_textEditor target then target
                     else target\<lparr>tg_target := renderFunctions replaceVariables q\<rparr>);
          q1 = q\<lparr>gq_target := updateRenderedTarget target1 targets,
                 gq_functions := map (\<lambda>f. f\<lparr>fi_added := False\<rparr>) (gq_functions q)\<rparr>
      in (q1, map (\<lambda>t. if tg_refId t \<noteq> tg_refId target then updateRenderedTarget t targets else t) targets))"

end
