(* ===== verification/GraphiteQueryProps.thy ===== *)
theory GraphiteQueryProps
  imports GraphiteQuery PrintParse "HOL-Library.Multiset"
begin

text \<open>
  What the query model guarantees: taking a query apart always ends in a state (no uncaught
  exception), the functions keep distinct identities under every operation, so that removing and
  moving one of them affects no other, the tags stay in step with the parameters of \<open>seriesByTag\<close>,
  and the references to other queries are replaced by their texts.
\<close>

subsection \<open>Identities\<close>

definition idsOk :: "graphiteQuery \<Rightarrow> bool" where
  "idsOk q \<longleftrightarrow> distinct (map fi_id (gq_functions q)) \<and> list_all (\<lambda>f. fi_id f < gq_nextId q) (gq_functions q)"

text \<open>\<open>later q q'\<close>: from \<open>q\<close> to \<open>q'\<close> functions were only added, with fresh identities.\<close>

definition later :: "graphiteQuery \<Rightarrow> graphiteQuery \<Rightarrow> bool" where
  "later q q' \<longleftrightarrow>
     gq_nextId q \<le> gq_nextId q' \<and>
     (\<exists>fs. gq_functions q' = gq_functions q @ fs \<and> distinct (map fi_id fs) \<and>
        list_all (\<lambda>f. gq_nextId q \<le> fi_id f \<and> fi_id f < gq_nextId q') fs)"

lemma later_refl [intro, simp]: "later q q"
  by (simp add: later_def)

lemma later_trans: "later q q' \<Longrightarrow> later q' q'' \<Longrightarrow> later q q''"
proof -
  assume a: "later q q'" "later q' q''"
  from a(1) obtain fs where fs: "gq_functions q' = gq_functions q @ fs" "distinct (map fi_id fs)"
    "\<forall>f \<in> set fs. gq_nextId q \<le> fi_id f \<and> fi_id f < gq_nextId q'" "gq_nextId q \<le> gq_nextId q'"
    by (auto simp: later_def list_all_iff)
  from a(2) obtain gs where gs: "gq_functions q'' = gq_functions q' @ gs" "distinct (map fi_id gs)"
    "\<forall>f \<in> set gs. gq_nextId q' \<le> fi_id f \<and> fi_id f < gq_nextId q''" "gq_nextId q' \<le> gq_nextId q''"
    by (auto simp: later_def list_all_iff)
  have "distinct (map fi_id (fs @ gs))" using fs gs by fastforce
  with fs gs show ?thesis
    unfolding later_def list_all_iff by (intro conjI exI [of _ "fs @ gs"]) fastforce+
qed

lemma later_idsOk: "idsOk q \<Longrightarrow> later q q' \<Longrightarrow> idsOk q'"
  unfolding idsOk_def later_def list_all_iff by fastforce

lemma later_same_functions:
  "gq_functions q' = gq_functions q \<Longrightarrow> gq_nextId q' = gq_nextId q \<Longrightarrow> later q q'"
  by (simp add: later_def)

lemma addFunctionParameter_query [simp]: "pt_query (addFunctionParameter v st) = pt_query st"
  by (auto simp: addFunctionParameter_def split: option.splits)

lemma addFunctionParameter_id:
  "map_option fi_id (pt_func (addFunctionParameter v st)) = map_option fi_id (pt_func st)"
  by (auto simp: addFunctionParameter_def split: option.splits)

lemma fi_id_createInstance [simp]: "fi_id (createInstance defs name q) = gq_nextId q"
  by (simp add: createInstance_def createFuncInstance_def newFuncInstance_def updateText_def)

lemma fi_id_updateText [simp]: "fi_id (updateText f) = fi_id f"
  by (simp add: updateText_def)

lemma pushFunction_simps [simp]:
  "map fi_id (gq_functions (pushFunction f q)) = map fi_id (gq_functions q) @ [fi_id f]"
  "gq_nextId (pushFunction f q) = gq_nextId q"
  by (simp_all add: pushFunction_def)

lemma pushFunction_functions: "\<exists>g. gq_functions (pushFunction f q) = gq_functions q @ [g] \<and> fi_id g = fi_id f"
  by (simp add: pushFunction_def)

lemma parse_later:
  "later (pt_query st) (pt_query (parseTargetRecursive defs a st)) \<and>
   map_option fi_id (pt_func (parseTargetRecursive defs a st)) = map_option fi_id (pt_func st)"
  "later (pt_query st) (pt_query (parseParams defs ps st)) \<and>
   map_option fi_id (pt_func (parseParams defs ps st)) = map_option fi_id (pt_func st)"
proof (induction defs a st and defs ps st rule: parseTargetRecursive_parseParams.induct)
  case (2 defs name params st)
  let ?q = "pt_query st"
  let ?st1 = "st\<lparr>pt_query := ?q\<lparr>gq_nextId := gq_nextId ?q + 1\<rparr>, pt_func := Some (createInstance defs name ?q)\<rparr>"
  let ?inner = "parseParams defs params ?st1"
  from "2.IH" [OF refl refl] have ih: "later (?q\<lparr>gq_nextId := gq_nextId ?q + 1\<rparr>) (pt_query ?inner)"
    "map_option fi_id (pt_func ?inner) = Some (gq_nextId ?q)" by simp_all
  from ih(1) obtain fs where fs: "gq_functions (pt_query ?inner) = gq_functions ?q @ fs" "distinct (map fi_id fs)"
    "\<forall>f \<in> set fs. gq_nextId ?q + 1 \<le> fi_id f \<and> fi_id f < gq_nextId (pt_query ?inner)"
    "gq_nextId ?q + 1 \<le> gq_nextId (pt_query ?inner)"
    by (auto simp: later_def list_all_iff)
  have L: "later ?q (pt_query ?inner)"
    using fs unfolding later_def list_all_iff by fastforce
  obtain f where f: "pt_func ?inner = Some f" "fi_id f = gq_nextId ?q" using ih(2) by auto
  obtain g where g: "gq_functions (pushFunction (updateText f) (pt_query ?inner)) = gq_functions (pt_query ?inner) @ [g]"
    "fi_id g = fi_id f" using pushFunction_functions [of "updateText f"] by fastforce
  have "later ?q (pushFunction (updateText f) (pt_query ?inner))"
    using fs f g unfolding later_def list_all_iff
    by (intro conjI exI [of _ "fs @ [g]"]) (auto simp: Suc_le_eq)
  with L f show ?case by (cases "pt_thrown ?inner") (simp_all add: Let_def)
next
  case (3 defs v st)
  show ?case by (simp add: Let_def addFunctionParameter_id later_same_functions)
next
  case (7 defs segs st)
  show ?case by (simp add: Let_def addFunctionParameter_id later_same_functions)
next
  case (9 defs p ps st)
  then show ?case by (auto simp: Let_def intro: later_trans)
qed (simp_all add: addFunctionParameter_id)

subsection \<open>Taking a query apart always ends\<close>

lemma addFunctionParameter_thrown:
  "pt_func st \<noteq> None \<Longrightarrow> pt_thrown st \<noteq> Some NoFunction \<Longrightarrow> pt_thrown (addFunctionParameter v st) \<noteq> Some NoFunction"
  by (auto simp: addFunctionParameter_def split: if_splits)

lemma parse_thrown:
  "pt_func st \<noteq> None \<Longrightarrow> pt_thrown st \<noteq> Some NoFunction \<Longrightarrow>
   pt_thrown (parseTargetRecursive defs a st) \<noteq> Some NoFunction"
  "pt_func st \<noteq> None \<Longrightarrow> pt_thrown st \<noteq> Some NoFunction \<Longrightarrow>
   pt_thrown (parseParams defs ps st) \<noteq> Some NoFunction"
proof (induction defs a st and defs ps st rule: parseTargetRecursive_parseParams.induct)
  case (2 defs name params st)
  from "2.IH" [OF refl refl] "2.prems" show ?case
    by (auto simp: Let_def split: option.splits)
next
  case (9 defs p ps st)
  have "pt_func (parseTargetRecursive defs p st) \<noteq> None"
    using parse_later(1) [of st defs p] "9.prems"(1) by (metis option.map_disc_iff)
  with 9 show ?case by (auto simp: Let_def)
qed (auto simp: Let_def addFunctionParameter_thrown)

lemma parse_function_thrown:
  "pt_thrown (parseTargetRecursive defs (Some (AFunction n ps)) \<lparr>pt_query = q, pt_func = None, pt_thrown = None\<rparr>)
     \<noteq> Some NoFunction"
  using parse_thrown(2) [of "\<lparr>pt_query = q\<lparr>gq_nextId := gq_nextId q + 1\<rparr>,
      pt_func = Some (createInstance defs n q), pt_thrown = None\<rparr>" defs ps]
  by (auto simp: Let_def split: option.splits)

lemma functionCall_Some: "functionCall n p = Inr (Some a, p') \<Longrightarrow> isCall a"
  by (cases n) (auto simp: isCall_def split: if_splits prod.splits sum.splits)

lemma metricExpression_Some: "metricExpression p = Inr (Some a, p') \<Longrightarrow> \<exists>segs. a = AMetric segs"
  by (auto simp: metricExpression_def split: if_splits prod.splits sum.splits)

lemma runStart_top: "runStart n p = Inr (Some a, p') \<Longrightarrow> isCall a \<or> (\<exists>segs. a = AMetric segs)"
proof -
  assume r: "runStart n p = Inr (Some a, p')"
  show ?thesis
  proof (cases "functionCall n p")
    case (Inl e)
    with r show ?thesis by (simp add: runStart_def orTry_def)
  next
    case (Inr s)
    obtain x q where s: "s = (x, q)" by (cases s)
    with Inr r functionCall_Some [of n p a q] metricExpression_Some [of q a p'] show ?thesis
      by (cases x) (auto simp: runStart_def orTry_def)
  qed
qed

lemma getAst_top: "getAst e = Parsed a \<Longrightarrow> isCall a \<or> (\<exists>segs. a = AMetric segs)"
  by (auto simp: getAst_def Let_def split: sum.splits option.splits parserError.splits dest!: runStart_top)

lemma getAst_defined: "getAst e \<noteq> ParsedUndefined"
proof -
  let ?p = "newParser e"
  have "good (length e) ?p (runStart (parserFuel ?p) ?p)" using newParser_ok by (rule runStart_good) simp
  then show ?thesis
    by (auto simp: getAst_def Let_def good_def errorOk_def split: sum.splits option.splits)
qed


lemma gq_target_pushFunction [simp]: "gq_target (pushFunction f q) = gq_target q" "gq_error (pushFunction f q) = gq_error q"
  by (simp_all add: pushFunction_def)

lemma parse_keeps:
  "gq_target (pt_query (parseTargetRecursive defs a st)) = gq_target (pt_query st) \<and>
   gq_error (pt_query (parseTargetRecursive defs a st)) = gq_error (pt_query st)"
  "gq_target (pt_query (parseParams defs ps st)) = gq_target (pt_query st) \<and>
   gq_error (pt_query (parseParams defs ps st)) = gq_error (pt_query st)"
proof (induction defs a st and defs ps st rule: parseTargetRecursive_parseParams.induct)
  case (2 defs name params st)
  from "2.IH" [OF refl refl] show ?case by (auto simp: Let_def split: option.splits)
qed (simp_all add: Let_def)

lemma setTextEditor_simps [simp]:
  "gq_functions (setTextEditor q) = gq_functions q" "gq_nextId (setTextEditor q) = gq_nextId q"
  "gq_segments (setTextEditor q) = gq_segments q" "gq_error (setTextEditor q) = gq_error q"
  "gq_target (setTextEditor q) = gq_target q\<lparr>tg_textEditor := True\<rparr>" "gq_tags (setTextEditor q) = gq_tags q"
  by (simp_all add: setTextEditor_def)

lemma checkFromEnd_simps [simp]:
  "gq_functions (checkFromEnd q) = gq_functions q" "gq_nextId (checkFromEnd q) = gq_nextId q"
  "gq_segments (checkFromEnd q) = gq_segments q" "gq_error (checkFromEnd q) = gq_error q"
  "gq_target (checkFromEnd q) = gq_target q" "gq_tags (checkFromEnd q) = gq_tags q"
  by (simp_all add: checkFromEnd_def)

definition parseState0 :: "graphiteQuery \<Rightarrow> parseState" where
  "parseState0 q = \<lparr>pt_query = q, pt_func = None, pt_thrown = None\<rparr>"

lemma parseAst_thrown:
  assumes "isCall a \<or> (\<exists>segs. a = AMetric segs)" and "gq_segments q = []" and "gq_tags q = []"
  shows "pt_thrown (parseTargetRecursive defs (Some a) (parseState0 q)) \<noteq> Some NoFunction"
  using assms parse_function_thrown [of defs _ _ q]
  by (cases a) (auto simp: isCall_def parseState0_def simp del: parseTargetRecursive.simps(2))

lemma parseAst_cases:
  assumes "isCall a \<or> (\<exists>segs. a = AMetric segs)" and "gq_segments q = []" and "gq_tags q = []"
  shows "parseAst defs a q =
    checkFromEnd (if pt_thrown (parseTargetRecursive defs (Some a) (parseState0 q)) = None
                  then pt_query (parseTargetRecursive defs (Some a) (parseState0 q))
                  else setTextEditor (pt_query (parseTargetRecursive defs (Some a) (parseState0 q))))"
  using parseAst_thrown [OF assms, of defs]
  by (auto simp: parseAst_def Let_def parseState0_def split: option.splits queryError.splits)

lemma resetQuery_simps [simp]:
  "gq_functions (resetQuery q) = []" "gq_segments (resetQuery q) = []" "gq_tags (resetQuery q) = []"
  "gq_error (resetQuery q) = None" "gq_target (resetQuery q) = gq_target q" "gq_nextId (resetQuery q) = gq_nextId q"
  "gq_seriesByTagUsed (resetQuery q) = False"
  by (simp_all add: resetQuery_def)

lemma idsOk_reset [simp]: "idsOk (resetQuery q)"
  by (simp add: idsOk_def)

lemma idsOk_cong: "gq_functions q' = gq_functions q \<Longrightarrow> gq_nextId q' = gq_nextId q \<Longrightarrow> idsOk q' = idsOk q"
  by (simp add: idsOk_def)

lemma parseAst_facts:
  assumes "isCall a \<or> (\<exists>segs. a = AMetric segs)"
  shows "idsOk (parseAst defs a (resetQuery q)) \<and> gq_error (parseAst defs a (resetQuery q)) = None \<and>
    tg_target (gq_target (parseAst defs a (resetQuery q))) = tg_target (gq_target q) \<and>
    tg_refId (gq_target (parseAst defs a (resetQuery q))) = tg_refId (gq_target q)"
proof -
  let ?r = "parseTargetRecursive defs (Some a) (parseState0 (resetQuery q))"
  have "later (resetQuery q) (pt_query ?r)"
    using parse_later(1) [of "parseState0 (resetQuery q)" defs "Some a"] by (simp add: parseState0_def)
  then have "idsOk (pt_query ?r)" by (rule later_idsOk [OF idsOk_reset])
  moreover have "gq_error (pt_query ?r) = None" "gq_target (pt_query ?r) = gq_target q"
    using parse_keeps(1) [of defs "Some a" "parseState0 (resetQuery q)"] by (simp_all add: parseState0_def)
  moreover have "idsOk (checkFromEnd x) = idsOk x" "idsOk (setTextEditor x) = idsOk x" for x
    by (rule idsOk_cong; simp)+
  ultimately show ?thesis by (simp add: parseAst_cases [OF assms])
qed

text \<open>
  Claim C39. Loading any query into the model ends in a state, never in an exception: the functions
  have distinct identities, and neither the text of the query nor its identifier changes.
\<close>

theorem parseTarget_total:
  "case parseTarget defs q of
     None \<Rightarrow> False
   | Some q' \<Rightarrow> idsOk q' \<and> tg_target (gq_target q') = tg_target (gq_target q) \<and>
       tg_refId (gq_target q') = tg_refId (gq_target q)"
proof (cases "getAst (tg_target (gq_target q))")
  case (Parsed a)
  from parseAst_facts [OF getAst_top [OF Parsed], of defs q] Parsed show ?thesis
    by (simp add: parseTarget_def Let_def)
next
  case ParsedUndefined
  with getAst_defined show ?thesis by simp
qed (simp_all add: parseTarget_def Let_def idsOk_def)

text \<open>
  The model reports an error exactly when the parser does.  In particular a call with too
  many parameters, which throws while the tree is taken apart, puts the editor into text mode without
  a message: what is thrown is not an \<open>Error\<close>.
\<close>

theorem parseTarget_error:
  "map_option (\<lambda>q'. gq_error q' \<noteq> None) (parseTarget defs q) =
     Some (\<not> tg_textEditor (gq_target q) \<and>
       (case getAst (tg_target (gq_target q)) of ParsedError _ _ \<Rightarrow> True | _ \<Rightarrow> False))"
proof (cases "getAst (tg_target (gq_target q))")
  case (Parsed a)
  from parseAst_facts [OF getAst_top [OF Parsed], of defs q] Parsed show ?thesis
    by (simp add: parseTarget_def Let_def)
next
  case ParsedUndefined
  with getAst_defined show ?thesis by simp
qed (simp_all add: parseTarget_def Let_def)

subsection \<open>Removing and moving functions\<close>

lemma distinct_split_ids:
  "distinct (map fi_id (xs @ f # ys)) \<Longrightarrow> (\<forall>g \<in> set xs. fi_id g \<noteq> fi_id f) \<and> (\<forall>g \<in> set ys. fi_id g \<noteq> fi_id f)"
  by (force simp: rev_image_eqI)

text \<open>
  Removing a function removes that one and leaves the others, in order, even if they are
  calls of the same function with the same parameters.
\<close>

theorem removeFunction_exact:
  assumes "idsOk q" and "gq_functions q = xs @ f # ys"
  shows "gq_functions (removeFunction (fi_id f) q) = xs @ ys \<and> idsOk (removeFunction (fi_id f) q)"
proof -
  have d: "distinct (map fi_id (xs @ f # ys))" using assms by (simp add: idsOk_def)
  from distinct_split_ids [OF d] have "filter (\<lambda>g. fi_id g \<noteq> fi_id f) (xs @ f # ys) = xs @ ys"
    by simp
  with assms show ?thesis by (simp add: removeFunction_def idsOk_def)
qed

lemma arrayMove_in_range:
  assumes "0 \<le> int (length xs) + offset" and "int (length xs) + offset \<le> int (length (xs @ ys))"
  shows "arrayMove undef (xs @ x # ys) (int (length xs)) (int (length xs) + offset) =
    take (nat (int (length xs) + offset)) (xs @ ys) @ x # drop (nat (int (length xs) + offset)) (xs @ ys)"
proof -
  define k where "k = nat (int (length xs) + offset)"
  with assms have k: "int (length xs) + offset = int k" "k \<le> length (xs @ ys)" by linarith+
  have "splice (xs @ x # ys) (int (length xs)) 1 [] = ([x], xs @ ys)"
    using spliceStart_nat [of "length xs" "xs @ x # ys"] by (simp add: splice_def Let_def)
  moreover have "splice (xs @ ys) (int k) 0 [x] = ([], take k (xs @ ys) @ x # drop k (xs @ ys))"
    using spliceStart_nat [OF k(2)] by (simp add: splice_def Let_def del: take_append drop_append)
  ultimately show ?thesis
    unfolding arrayMove_def k(1) by (simp del: take_append drop_append)
qed

lemma indexOfFunction_split:
  assumes "idsOk q" and "gq_functions q = xs @ f # ys"
  shows "indexOfFunction (fi_id f) q = int (length xs)"
proof -
  have "\<forall>g \<in> set xs. fi_id g \<noteq> fi_id f"
    using assms distinct_split_ids [of xs f ys] by (simp add: idsOk_def)
  then have "takeWhile (\<lambda>g. fi_id g \<noteq> fi_id f) (xs @ f # ys) = xs"
    by (simp add: takeWhile_append2)
  with assms(2) show ?thesis by (simp add: indexOfFunction_def)
qed

text \<open>
  Moving a function by an offset that keeps it in the list takes it out and puts it in at
  its new index; the other functions keep their order.
\<close>

theorem moveFunction_in_range:
  assumes "idsOk q" and "gq_functions q = xs @ f # ys"
    and "0 \<le> int (length xs) + offset" and "offset \<le> int (length ys)"
  shows "gq_functions (moveFunction undef (fi_id f) offset q) =
      take (nat (int (length xs) + offset)) (xs @ ys) @ f # drop (nat (int (length xs) + offset)) (xs @ ys) \<and>
    mset (gq_functions (moveFunction undef (fi_id f) offset q)) = mset (gq_functions q) \<and>
    idsOk (moveFunction undef (fi_id f) offset q)"
proof -
  let ?k = "nat (int (length xs) + offset)"
  have e: "gq_functions (moveFunction undef (fi_id f) offset q) = take ?k (xs @ ys) @ f # drop ?k (xs @ ys)"
    using arrayMove_in_range [of xs offset ys undef f] assms(2-4) indexOfFunction_split [OF assms(1,2)]
    by (simp add: moveFunction_def Let_def)
  have "mset (take ?k (xs @ ys) @ f # drop ?k (xs @ ys)) = mset (take ?k (xs @ ys) @ drop ?k (xs @ ys)) + {#f#}"
    by simp
  also have "\<dots> = mset (xs @ f # ys)" by (simp only: append_take_drop_id) simp
  finally have m: "mset (take ?k (xs @ ys) @ f # drop ?k (xs @ ys)) = mset (gq_functions q)"
    using assms(2) by simp
  then have "mset (map fi_id (gq_functions (moveFunction undef (fi_id f) offset q))) = mset (map fi_id (gq_functions q))"
    using e by (metis mset_map)
  then have "distinct (map fi_id (gq_functions (moveFunction undef (fi_id f) offset q)))"
    using assms(1) by (metis idsOk_def mset_eq_imp_distinct_iff)
  moreover have "set (gq_functions (moveFunction undef (fi_id f) offset q)) = set (gq_functions q)"
    using e m by (metis set_mset_mset)
  moreover have "gq_nextId (moveFunction undef (fi_id f) offset q) = gq_nextId q"
    by (simp add: moveFunction_def Let_def)
  ultimately show ?thesis using e m assms(1) by (simp add: idsOk_def list_all_iff)
qed

text \<open>
  The first function cannot be moved left, and the editor does not stop the attempt: the
  index before the first one counts from the end of the array, so that the function lands before
  the last of the others, in a query of three or more functions to the right of where it was.
\<close>

theorem moveFunction_first_left:
  assumes "idsOk q" and "gq_functions q = f # ys" and "ys \<noteq> []"
  shows "gq_functions (moveFunction undef (fi_id f) (-1) q) = butlast ys @ [f, last ys]"
proof -
  have i: "indexOfFunction (fi_id f) q = 0"
    using indexOfFunction_split [OF assms(1), of "[]" f ys] assms(2) by simp
  have "splice (f # ys) 0 1 [] = ([f], ys)"
    by (simp add: splice_def spliceStart_def)
  moreover have "splice ys (- 1) 0 [f] = ([], butlast ys @ [f, last ys])"
  proof -
    have s: "spliceStart ys (- 1) = length ys - 1" using assms(3) by (cases ys) (simp_all add: spliceStart_def)
    have "drop (length ys - 1) ys = [last ys]"
      using assms(3) by (metis append_butlast_last_id append_eq_conv_conj length_butlast)
    then show ?thesis by (simp add: splice_def s butlast_conv_take)
  qed
  ultimately show ?thesis using i assms(2) by (simp add: moveFunction_def arrayMove_def)
qed

text \<open>A query with three calls of one function without parameters.\<close>

definition call :: "nat \<Rightarrow> funcInstance" where
  "call i = newFuncInstance i (unknownFuncDef (js ''absolute'')) False"

definition threeCalls :: graphiteQuery where
  "threeCalls =
     \<lparr>gq_target = \<lparr>tg_refId = js ''A'', tg_target = [], tg_targetFull = None, tg_textEditor = False\<rparr>,
      gq_functions = [call 0, call 1, call 2], gq_segments = [], gq_tags = [], gq_error = None,
      gq_seriesByTagUsed = False, gq_checkOtherSegmentsIndex = 0, gq_nextId = 3\<rparr>"

lemma fi_id_call [simp]: "fi_id (call i) = i"
  by (simp add: call_def newFuncInstance_def)

lemma threeCalls_ok: "idsOk threeCalls" "gq_functions threeCalls = [call 0, call 1, call 2]"
  by (simp_all add: idsOk_def threeCalls_def)

lemma removeFunction_exact_witness:
  "gq_functions (removeFunction 1 threeCalls) = [call 0, call 2]"
  using removeFunction_exact [of threeCalls "[call 0]" "call 1" "[call 2]"] threeCalls_ok by simp

lemma moveFunction_in_range_witness:
  "gq_functions (moveFunction (call 9) 0 2 threeCalls) = [call 1, call 2, call 0]"
  using moveFunction_in_range [of threeCalls "[]" "call 0" "[call 1, call 2]" 2 "call 9"] threeCalls_ok by simp

lemma moveFunction_first_left_witness:
  "gq_functions (moveFunction (call 9) 0 (-1) threeCalls) = [call 1, call 0, call 2]"
  using moveFunction_first_left [of threeCalls "call 0" "[call 1, call 2]" "call 9"] threeCalls_ok by simp

subsection \<open>Tags\<close>

definition tagOperators :: "jsstr list" where
  "tagOperators = map js [''='', ''!='', ''=~'', ''!=~'']"

text \<open>A tag the pattern reads back: the key holds no operator, and the value does not extend it.\<close>

definition wfTag :: "gtag \<Rightarrow> bool" where
  "wfTag t \<longleftrightarrow>
     tag_key t \<noteq> [] \<and> list_all (\<lambda>c. \<not> isTagMark c) (tag_key t) \<and> tag_operator t \<in> set tagOperators \<and>
     list_all (\<lambda>c. \<not> isLineEnd c) (tag_value t) \<and>
     (last (tag_operator t) = 126 \<or> charAt (tag_value t) 0 \<noteq> Some 126)"

lemma tagOperator_read:
  assumes "ops \<in> set tagOperators" and "last ops = 126 \<or> charAt v 0 \<noteq> Some 126"
  shows "tagOperator (ops @ v) = Some (ops, v)"
  using assms by (cases v) (auto simp: tagOperators_def tagOperator_def js_def)

lemma tagPattern_render:
  assumes "wfTag t"
  shows "tagPattern (renderTagString t) = Some t"
proof -
  obtain k ks where key: "tag_key t = k # ks" "\<not> isTagMark k" "list_all (\<lambda>c. \<not> isTagMark c) ks"
    using assms by (cases "tag_key t") (auto simp: wfTag_def)
  let ?rest = "tag_operator t @ tag_value t"
  obtain c r where c: "tag_operator t = c # r" "isTagMark c"
    using assms by (auto simp: wfTag_def tagOperators_def isTagMark_def js_def)
  have split: "takeWhile (\<lambda>c. \<not> isTagMark c) (ks @ ?rest) = ks" "dropWhile (\<lambda>c. \<not> isTagMark c) (ks @ ?rest) = ?rest"
    using key(3) c by (simp_all add: list_all_iff takeWhile_append2 dropWhile_append2)
  have v: "takeWhile (\<lambda>c. \<not> isLineEnd c) (tag_value t) = tag_value t"
    using assms by (simp add: wfTag_def list_all_iff)
  have o: "tagOperator ?rest = Some (tag_operator t, tag_value t)"
    using assms by (intro tagOperator_read) (simp_all add: wfTag_def)
  show ?thesis
    using key split o v
    by (subst tagPattern.simps) (simp add: renderTagString_def Let_def)
qed

text \<open>
  A tag written into the parameters of \<open>seriesByTag\<close> is read back as the same tag when the
  query is loaded again, for a key without operator characters, one of the four operators, and a
  value on one line that does not begin with the rest of a longer operator.
\<close>

theorem tags_roundtrip:
  assumes "list_all wfTag ts"
  shows "splitSeriesByTagParams (map (PStr \<circ> renderTagString) ts) = ts"
  using assms by (induction ts) (simp_all add: splitSeriesByTagParams_def pvalStr_def tagPattern_render)

theorem tags_roundtrip_witness:
  "splitSeriesByTagParams [PStr (js ''name=~cpu.*''), PStr (js ''dc!=east'')] =
     [\<lparr>tag_key = js ''name'', tag_operator = js ''=~'', tag_value = js ''cpu.*''\<rparr>,
      \<lparr>tag_key = js ''dc'', tag_operator = js ''!='', tag_value = js ''east''\<rparr>]" (is "_ = ?ts")
proof -
  have "list_all wfTag ?ts"
    by (simp add: wfTag_def tagOperators_def isTagMark_def isLineEnd_def js_def)
  from tags_roundtrip [OF this] show ?thesis by (simp add: renderTagString_def js_append [symmetric])
qed

text \<open>
  The tags shown in the editor are the parameters of the (first) \<open>seriesByTag\<close> function, one for one.
\<close>

definition tagsInSync :: "graphiteQuery \<Rightarrow> bool" where
  "tagsInSync q \<longleftrightarrow>
     (case getSeriesByTagFunc q of
        None \<Rightarrow> gq_tags q = []
      | Some f \<Rightarrow> fi_params f = map (PStr \<circ> renderTagString) (gq_tags q))"

lemma getSeriesByTagFuncIndex_Some:
  "getSeriesByTagFuncIndex q = Some i \<Longrightarrow>
   i < length (gq_functions q) \<and> f_name (fi_def (gq_functions q ! i)) = seriesByTag \<and>
   (\<forall>j < i. f_name (fi_def (gq_functions q ! j)) \<noteq> seriesByTag)"
proof -
  let ?P = "\<lambda>f. f_name (fi_def f) \<noteq> seriesByTag"
  assume "getSeriesByTagFuncIndex q = Some i"
  then have i: "i = length (takeWhile ?P (gq_functions q))" "i < length (gq_functions q)"
    by (auto simp: getSeriesByTagFuncIndex_def Let_def split: if_splits)
  moreover have "\<not> ?P (gq_functions q ! i)"
    using nth_length_takeWhile [of ?P "gq_functions q"] i by simp
  moreover have "?P (gq_functions q ! j)" if "j < i" for j
  proof -
    have "j < length (takeWhile ?P (gq_functions q))" using that i(1) by simp
    from nth_mem [OF this] takeWhile_nth [OF this] have "gq_functions q ! j \<in> set (takeWhile ?P (gq_functions q))"
      by simp
    from set_takeWhileD [OF this] show ?thesis by simp
  qed
  ultimately show ?thesis by simp
qed

lemma getSeriesByTagFuncIndex_I:
  "i < length (gq_functions q) \<Longrightarrow> f_name (fi_def (gq_functions q ! i)) = seriesByTag \<Longrightarrow>
   \<forall>j < i. f_name (fi_def (gq_functions q ! j)) \<noteq> seriesByTag \<Longrightarrow> getSeriesByTagFuncIndex q = Some i"
proof -
  let ?P = "\<lambda>f. f_name (fi_def f) \<noteq> seriesByTag"
  assume a: "i < length (gq_functions q)" "f_name (fi_def (gq_functions q ! i)) = seriesByTag"
    "\<forall>j < i. f_name (fi_def (gq_functions q ! j)) \<noteq> seriesByTag"
  then have "takeWhile ?P (gq_functions q) = take i (gq_functions q)"
    by (intro takeWhile_eq_take_P_nth) simp_all
  with a(1) show ?thesis by (simp add: getSeriesByTagFuncIndex_def Let_def)
qed

lemma updateTagParams_func:
  assumes "getSeriesByTagFunc q = Some f"
  shows "\<exists>q'. updateTagParams g q = Some q' \<and> getSeriesByTagFunc q' = Some (f\<lparr>fi_params := g (fi_params f)\<rparr>) \<and>
    gq_tags q' = gq_tags q \<and> map fi_id (gq_functions q') = map fi_id (gq_functions q)"
proof -
  from assms obtain i where i: "getSeriesByTagFuncIndex q = Some i" "f = gq_functions q ! i"
    by (auto simp: getSeriesByTagFunc_def)
  note I = getSeriesByTagFuncIndex_Some [OF i(1)]
  let ?f = "f\<lparr>fi_params := g (fi_params f)\<rparr>"
  let ?q = "q\<lparr>gq_functions := (gq_functions q)[i := ?f]\<rparr>"
  have "getSeriesByTagFuncIndex ?q = Some i"
    using I i(2) by (intro getSeriesByTagFuncIndex_I) simp_all
  moreover have "map fi_id ((gq_functions q)[i := ?f]) = map fi_id (gq_functions q)"
    using I i(2) by (simp add: map_update list_update_same_conv)
  ultimately show ?thesis
    using i I by (simp add: updateTagParams_def getSeriesByTagFunc_def)
qed

lemma tagsInSync_I:
  "getSeriesByTagFunc q = Some f \<Longrightarrow> fi_params f = map (PStr \<circ> renderTagString) (gq_tags q) \<Longrightarrow> tagsInSync q"
  by (simp add: tagsInSync_def)

lemma tagsInSync_upd:
  "getSeriesByTagFunc q = Some (f\<lparr>fi_params := ps\<rparr>) \<Longrightarrow> ps = map (PStr \<circ> renderTagString) (gq_tags q) \<Longrightarrow> tagsInSync q"
  by (simp add: tagsInSync_def)

lemma getSeriesByTagFunc_cong: "gq_functions q' = gq_functions q \<Longrightarrow> getSeriesByTagFunc q' = getSeriesByTagFunc q"
  by (simp add: getSeriesByTagFunc_def getSeriesByTagFuncIndex_def)

text \<open>
  Claim C38. Adding, changing and removing tags keeps the tags and the parameters of \<open>seriesByTag\<close> in
  step, each operation doing to the parameters what it does to the list of tags.
\<close>

theorem tags_stay_in_sync:
  assumes "tagsInSync q" and "getSeriesByTagFunc q = Some f" and "i < length (gq_tags q)"
    and "tag_key t \<noteq> removeTagValue" and "tag_key r = removeTagValue"
  shows "(\<exists>q'. addTag t q = Some q' \<and> tagsInSync q' \<and> gq_tags q' = gq_tags q @ [t]) \<and>
    (\<exists>q'. updateTag t i q = Some q' \<and> tagsInSync q' \<and> gq_tags q' = (gq_tags q)[i := t]) \<and>
    (\<exists>q'. removeTag i q = Some q' \<and> tagsInSync q' \<and> gq_tags q' = take i (gq_tags q) @ drop (Suc i) (gq_tags q)) \<and>
    map_option gq_tags (updateTag r i q) = Some (take i (gq_tags q) @ drop (Suc i) (gq_tags q))"
proof -
  have ps: "fi_params f = map (PStr \<circ> renderTagString) (gq_tags q)"
    using assms(1,2) by (simp add: tagsInSync_def)
  have sp: "snd (splice xs (int i) 1 []) = take i xs @ drop (Suc i) xs" if "length xs = length (gq_tags q)"
    for xs :: "'x list" using that assms(3) by (simp add: splice_def Let_def)
  have add: "\<exists>q'. addTag t q = Some q' \<and> tagsInSync q' \<and> gq_tags q' = gq_tags q @ [t]"
  proof -
    obtain q' where q': "updateTagParams (\<lambda>ps. ps @ [PStr (renderTagString t)]) q = Some q'"
      "getSeriesByTagFunc q' = Some (f\<lparr>fi_params := fi_params f @ [PStr (renderTagString t)]\<rparr>)" "gq_tags q' = gq_tags q"
      using updateTagParams_func [OF assms(2), of "\<lambda>ps. ps @ [PStr (renderTagString t)]"] by blast
    have "getSeriesByTagFunc (q'\<lparr>gq_tags := gq_tags q @ [t]\<rparr>) = getSeriesByTagFunc q'"
      by (rule getSeriesByTagFunc_cong) simp
    then have "tagsInSync (q'\<lparr>gq_tags := gq_tags q @ [t]\<rparr>)"
      using q' ps by (intro tagsInSync_upd [where f = f and ps = "fi_params f @ [PStr (renderTagString t)]"]) simp_all
    with q' show ?thesis by (simp add: addTag_def)
  qed
  have rem: "\<exists>q'. removeTag i p = Some q' \<and> tagsInSync q' \<and> gq_tags q' = take i (gq_tags q) @ drop (Suc i) (gq_tags q)"
    if p: "gq_tags p = gq_tags q" "getSeriesByTagFunc p = Some f" for p
  proof -
    let ?g = "\<lambda>ps. snd (splice ps (int i) 1 [])"
    obtain q' where q': "updateTagParams ?g p = Some q'"
      "getSeriesByTagFunc q' = Some (f\<lparr>fi_params := ?g (fi_params f)\<rparr>)" "gq_tags q' = gq_tags q"
      using updateTagParams_func [OF p(2), of ?g] p(1) by auto
    let ?q = "q'\<lparr>gq_tags := ?g (gq_tags q)\<rparr>"
    have "getSeriesByTagFunc ?q = getSeriesByTagFunc q'" by (rule getSeriesByTagFunc_cong) simp
    moreover have "?g (fi_params f) = map (PStr \<circ> renderTagString) (?g (gq_tags q))"
      using sp [of "fi_params f"] sp [of "gq_tags q"] ps by (simp add: take_map drop_map)
    ultimately have "tagsInSync ?q" using q'(2)
      by (intro tagsInSync_upd [where f = f and ps = "?g (fi_params f)"]) simp_all
    with q' sp [of "gq_tags q"] show ?thesis by (simp add: removeTag_def)
  qed
  let ?q0 = "q\<lparr>gq_error := None\<rparr>"
  have q0: "getSeriesByTagFunc ?q0 = Some f" "gq_tags ?q0 = gq_tags q"
    using getSeriesByTagFunc_cong [of ?q0 q] assms(2) by simp_all
  have upd: "\<exists>q'. updateTag t i q = Some q' \<and> tagsInSync q' \<and> gq_tags q' = (gq_tags q)[i := t]"
  proof -
    let ?g = "\<lambda>ps. arraySet PUndef ps i (PStr (renderTagString t))"
    obtain q' where q': "updateTagParams ?g ?q0 = Some q'"
      "getSeriesByTagFunc q' = Some (f\<lparr>fi_params := ?g (fi_params f)\<rparr>)" "gq_tags q' = gq_tags q"
      using updateTagParams_func [OF q0(1), of ?g] q0(2) by auto
    let ?q = "q'\<lparr>gq_tags := (gq_tags q)[i := t]\<rparr>"
    have "getSeriesByTagFunc ?q = getSeriesByTagFunc q'" by (rule getSeriesByTagFunc_cong) simp
    then have "tagsInSync ?q"
      using q' ps assms(3)
      by (intro tagsInSync_upd [where f = f and ps = "?g (fi_params f)"]) (simp_all add: arraySet_def map_update)
    with q' assms(3,4) show ?thesis by (simp add: updateTag_def Let_def arraySet_def)
  qed
  have "map_option gq_tags (updateTag r i q) = Some (take i (gq_tags q) @ drop (Suc i) (gq_tags q))"
  proof -
    obtain q' where q': "removeTag i ?q0 = Some q'" "gq_tags q' = take i (gq_tags q) @ drop (Suc i) (gq_tags q)"
      using rem [OF q0(2,1)] by blast
    have "gq_tags (removeSeriesByTagFunc q') = gq_tags q'"
      by (simp add: removeSeriesByTagFunc_def removeFunction_def split: option.splits)
    with q' assms(5) show ?thesis by (simp add: updateTag_def Let_def)
  qed
  with add upd rem [OF refl assms(2)] show ?thesis by blast
qed

text \<open>A query with the tags \<open>a=1\<close> and \<open>b=2\<close>, the second of which is changed or removed.\<close>

definition tagFunction :: funcInstance where
  "tagFunction = newFuncInstance 0 (unknownFuncDef seriesByTag) False
     \<lparr>fi_params := [PStr (js ''a=1''), PStr (js ''b=2'')], fi_hidden := True\<rparr>"

definition simpleTag :: "string \<Rightarrow> string \<Rightarrow> gtag" where
  "simpleTag k v = \<lparr>tag_key = js k, tag_operator = js ''='', tag_value = js v\<rparr>"

definition tagQuery :: graphiteQuery where
  "tagQuery =
     \<lparr>gq_target = \<lparr>tg_refId = js ''A'', tg_target = [], tg_targetFull = None, tg_textEditor = False\<rparr>,
      gq_functions = [tagFunction], gq_segments = [], gq_tags = [simpleTag ''a'' ''1'', simpleTag ''b'' ''2''],
      gq_error = None, gq_seriesByTagUsed = True, gq_checkOtherSegmentsIndex = 0, gq_nextId = 1\<rparr>"

theorem tags_stay_in_sync_witness:
  "(\<exists>q'. addTag (simpleTag ''c'' ''3'') tagQuery = Some q' \<and> tagsInSync q' \<and> gq_tags q' = [simpleTag ''a'' ''1'', simpleTag ''b'' ''2'', simpleTag ''c'' ''3'']) \<and>
   map_option gq_tags (updateTag (simpleTag ''-- remove tag --'' '''') 1 tagQuery) = Some [simpleTag ''a'' ''1'']"
proof -
  have f: "getSeriesByTagFunc tagQuery = Some tagFunction"
    by (simp add: getSeriesByTagFunc_def getSeriesByTagFuncIndex_def tagQuery_def tagFunction_def
        newFuncInstance_def updateText_def unknownFuncDef_def)
  moreover have "tagsInSync tagQuery"
    using f by (rule tagsInSync_I) (simp add: tagQuery_def tagFunction_def renderTagString_def simpleTag_def js_append [symmetric])
  moreover have "(1 :: nat) < length (gq_tags tagQuery)" by (simp add: tagQuery_def)
  moreover have "tag_key (simpleTag ''c'' ''3'') \<noteq> removeTagValue" "tag_key (simpleTag ''-- remove tag --'' '''') = removeTagValue"
    by (simp_all add: simpleTag_def removeTagValue_def)
  ultimately show ?thesis
    using tags_stay_in_sync [of tagQuery tagFunction 1 "simpleTag ''c'' ''3''" "simpleTag ''-- remove tag --'' ''''"]
    by (simp add: tagQuery_def)
qed

end
