(* ===== verification/GraphiteRoundTrip.thy ===== *)
theory GraphiteRoundTrip
  imports GraphiteQueryProps GfuncProps
begin

text \<open>
  The round trip of the visual editor: the text \<open>updateModelTarget\<close> renders for a query is parsed
  back, by \<open>parseTarget\<close>, to the path and the functions it was rendered from, so that switching
  editors and reloading a dashboard change nothing.  \<open>editable\<close> names the queries this holds for;
  a query outside them, with a function call as a second parameter, is shown to change.
\<close>

subsection \<open>Editable queries\<close>

text \<open>The tree a parameter is rendered as, and the value the model makes of a tree.\<close>

definition unquoted :: "(jsstr \<Rightarrow> jsstr) \<Rightarrow> jsstr option \<Rightarrow> pval \<Rightarrow> bool" where
  "unquoted rv ty v \<longleftrightarrow>
     (case ty of None \<Rightarrow> False
      | Some t \<Rightarrow> t \<in> set neverQuoted \<or> t \<in> set maybeQuoted \<and> plusFinite (interpolate rv v))"

definition leafFor :: "(jsstr \<Rightarrow> jsstr) \<Rightarrow> jsstr option \<Rightarrow> pval \<Rightarrow> ast" where
  "leafFor rv ty v =
     (if unquoted rv ty v
      then (case v of
              PNum n \<Rightarrow> ANumber n
            | PBool b \<Rightarrow> ABool b
            | PStr s \<Rightarrow> if hasSeriesRef s then ASeriesRef s else AMetric (map Segment (splitOn 46 s))
            | _ \<Rightarrow> AString [])
      else AString (pvalStr v))"

definition leafValue :: "ast \<Rightarrow> pval option" where
  "leafValue a =
     (case a of
        ASeriesRef w \<Rightarrow> Some (PStr w)
      | ABool b \<Rightarrow> Some (PBool b)
      | ANumber n \<Rightarrow> Some (PNum n)
      | AString s \<Rightarrow> Some (PStr s)
      | AMetric segs \<Rightarrow> Some (PStr (joinWith [46] (map (sg_value \<circ> nodeSegment) segs)))
      | AFunction _ _ \<Rightarrow> None)"

text \<open>
  A parameter that comes back as it is: a string in quotes without a quote in it, or without quotes
  an integer, a boolean, a reference or a path of plain words.
\<close>

definition editableParam :: "(jsstr \<Rightarrow> jsstr) \<Rightarrow> jsstr option \<Rightarrow> pval \<Rightarrow> bool" where
  "editableParam rv ty v \<longleftrightarrow> wfAst (leafFor rv ty v) \<and> leafValue (leafFor rv ty v) = Some v"

definition editableFunc :: "(jsstr \<Rightarrow> jsstr) \<Rightarrow> funcDefs option \<Rightarrow> funcInstance \<Rightarrow> bool" where
  "editableFunc rv defs f \<longleftrightarrow>
     wfWord (f_name (fi_def f)) \<and> f_name (fi_def f) \<noteq> seriesByTag \<and>
     getFuncDef (f_name (fi_def f)) defs = fi_def f \<and>
     (length (fi_params f) \<le> length (f_params (fi_def f)) \<or> lastMultiple (fi_def f)) \<and>
     list_all (\<lambda>p. editableParam rv (paramType (fi_def f) (fst p)) (snd p)) (enumerate 0 (fi_params f))"

definition editablePath :: "segment list \<Rightarrow> bool" where
  "editablePath segs \<longleftrightarrow>
     segs \<noteq> [] \<and> list_all (\<lambda>s. wfWord (sg_value s)) segs \<and> \<not> hasSeriesRef (sg_value (hd segs))"

definition editable :: "(jsstr \<Rightarrow> jsstr) \<Rightarrow> funcDefs option \<Rightarrow> graphiteQuery \<Rightarrow> bool" where
  "editable rv defs q \<longleftrightarrow>
     \<not> tg_textEditor (gq_target q) \<and> editablePath (gq_segments q) \<and>
     list_all (editableFunc rv defs) (gq_functions q)"

subsection \<open>The text of an editable query is a printed tree\<close>

definition pathAst :: "segment list \<Rightarrow> ast" where
  "pathAst segs = AMetric (map (Segment \<circ> sg_value) segs)"

definition paramLeaf :: "(jsstr \<Rightarrow> jsstr) \<Rightarrow> funcInstance \<Rightarrow> nat \<times> pval \<Rightarrow> ast" where
  "paramLeaf rv f p = leafFor rv (paramType (fi_def f) (fst p)) (snd p)"

definition callAst :: "(jsstr \<Rightarrow> jsstr) \<Rightarrow> ast \<Rightarrow> funcInstance \<Rightarrow> ast" where
  "callAst rv a f =
     AFunction (f_name (fi_def f))
       (Some a # map (\<lambda>p. Some (paramLeaf rv f p)) (enumerate 0 (fi_params f)))"

definition chainAst :: "(jsstr \<Rightarrow> jsstr) \<Rightarrow> segment list \<Rightarrow> funcInstance list \<Rightarrow> ast" where
  "chainAst rv segs fs = foldl (callAst rv) (pathAst segs) fs"

lemma leafFor_no_call: "\<not> isCall (leafFor rv ty v)"
  by (auto simp: leafFor_def isCall_def split: pval.splits)

lemma printAst_nonempty: "wfAst a \<Longrightarrow> printAst a \<noteq> []"
proof (cases a)
  case (AMetric segs)
  assume "wfAst a"
  with AMetric obtain w ss where "segs = Segment w # ss" "wfWord w"
    by (auto simp: wfSegments_def split: list.splits segmentNode.splits)
  with AMetric show ?thesis
    by (auto simp: joinWith_Cons segmentStr_def wfWord_def plainWord_def)
next
  case (ANumber x)
  assume "wfAst a"
  with ANumber obtain m where "x = Dec m 0" "smallInt m" by (auto split: jsnum.splits nat.splits)
  with ANumber show ?thesis by (simp add: intStr_numToStr intStr_def)
qed (auto simp: wfWord_def plainWord_def)

lemma quoteParam_unquoted:
  "quoteParam rv ty v =
     (if unquoted rv ty v
      then (if (case ty of None \<Rightarrow> False | Some t \<Rightarrow> t \<in> set neverQuoted) then v else PStr (pvalJoinStr v))
      else PStr ([39] @ pvalStr v @ [39]))"
  by (auto simp: quoteParam_def unquoted_def split: option.splits)

lemma quoteParam_printed:
  assumes "editableParam rv ty v"
  shows "pvalJoinStr (quoteParam rv ty v) = printAst (leafFor rv ty v)" and "quoteParam rv ty v \<noteq> PStr []"
proof -
  have j: "pvalJoinStr (PStr s) = s" for s by (simp add: pvalJoinStr_def pvalStr_def)
  have join: "joinWith [46] (map segmentStr (map Segment (splitOn 46 s))) = s" for s
    using joinWith_splitOn [of 46 s] by (simp add: segmentStr_def comp_def)
  show e: "pvalJoinStr (quoteParam rv ty v) = printAst (leafFor rv ty v)"
  proof (cases "unquoted rv ty v")
    case False
    then show ?thesis by (simp add: quoteParam_unquoted leafFor_def j)
  next
    case True
    then have "pvalJoinStr (quoteParam rv ty v) = pvalJoinStr v" by (simp add: quoteParam_unquoted j)
    also have "\<dots> = printAst (leafFor rv ty v)"
      using assms True join
      by (cases v) (auto simp: leafFor_def editableParam_def leafValue_def pvalJoinStr_def pvalStr_def)
    finally show ?thesis .
  qed
  show "quoteParam rv ty v \<noteq> PStr []"
  proof
    assume "quoteParam rv ty v = PStr []"
    with e j [of "[]"] have "printAst (leafFor rv ty v) = []" by simp
    with printAst_nonempty assms show False by (auto simp: editableParam_def)
  qed
qed

lemma printParams_Some: "printParams (map (\<lambda>x. Some (g x)) xs) = map (\<lambda>x. printAst (g x)) xs"
  by (induction xs) auto

lemma wfParams_Some: "wfParams (map (\<lambda>x. Some (g x)) xs) \<longleftrightarrow> list_all (\<lambda>x. wfAst (g x)) xs"
  by (induction xs) auto

lemma popBlank_id: "ps = [] \<or> last ps \<noteq> PStr [] \<Longrightarrow> popBlank ps = ps"
  by (cases ps rule: rev_cases) (auto simp: popBlank_def)

lemma renderParams_pairs:
  "renderParams rv f = map (\<lambda>p. quoteParam rv (paramType (fi_def f) (fst p)) (snd p)) (enumerate 0 (fi_params f))"
  by (simp add: renderParams_def case_prod_beta)

lemma render_printed:
  assumes "editableFunc rv defs f" and "target = printAst a" and "wfAst a"
  shows "render rv f target = printAst (callAst rv a f)"
proof -
  have ep: "editableParam rv (paramType (fi_def f) (fst p)) (snd p)" if "p \<in> set (enumerate 0 (fi_params f))" for p
    using assms(1) that by (auto simp: editableFunc_def list_all_iff)
  have "PStr [] \<notin> set (renderParams rv f)"
  proof
    assume "PStr [] \<in> set (renderParams rv f)"
    then obtain p where "p \<in> set (enumerate 0 (fi_params f))"
      "quoteParam rv (paramType (fi_def f) (fst p)) (snd p) = PStr []"
      unfolding renderParams_pairs by auto
    with quoteParam_printed(2) [OF ep] show False by blast
  qed
  then have pop: "popBlank (renderParams rv f) = renderParams rv f"
    by (intro popBlank_id) (metis last_in_set)
  have "map pvalJoinStr (renderParams rv f) = map (\<lambda>p. printAst (paramLeaf rv f p)) (enumerate 0 (fi_params f))"
    unfolding renderParams_pairs map_map comp_def paramLeaf_def
    by (intro map_cong refl quoteParam_printed(1) ep)
  moreover have "printAst a \<noteq> []" using printAst_nonempty [OF assms(3)] .
  moreover have "pvalJoinStr (PStr s) = s" for s by (simp add: pvalJoinStr_def pvalStr_def)
  ultimately show ?thesis
    using pop assms(2) by (simp add: render_def callAst_def joinParams_def js_def printParams_Some)
qed

lemma wfAst_call:
  "editableFunc rv defs f \<Longrightarrow> wfAst a \<Longrightarrow> wfAst (callAst rv a f)"
  by (auto simp: callAst_def editableFunc_def editableParam_def list_all_iff wfParams_Some paramLeaf_def)

lemma wfAst_path: "editablePath segs \<Longrightarrow> wfAst (pathAst segs)"
  by (cases segs) (auto simp: editablePath_def pathAst_def wfSegments_def list_all_iff)

lemma chain_printed:
  assumes "wfAst a" and "list_all (editableFunc rv defs) fs"
  shows "foldl (\<lambda>target f. render rv f target) (printAst a) fs = printAst (foldl (callAst rv) a fs)
    \<and> wfAst (foldl (callAst rv) a fs)"
  using assms
proof (induction fs arbitrary: a)
  case (Cons f fs)
  then have "render rv f (printAst a) = printAst (callAst rv a f)" "wfAst (callAst rv a f)"
    using render_printed [of rv defs f "printAst a" a] wfAst_call [of rv defs f a] by simp_all
  with Cons show ?case by simp
qed simp


lemma joinPath_nonempty: "p \<noteq> [] \<Longrightarrow> joinPath p s = p @ 46 # sg_value s"
  by (simp add: joinPath_def)

lemma foldl_joinPath:
  "list_all (\<lambda>s. sg_value s \<noteq> []) segs \<Longrightarrow> p \<noteq> [] \<Longrightarrow>
   foldl joinPath p segs = joinWith [46] (p # map sg_value segs)"
proof (induction segs arbitrary: p)
  case (Cons s segs)
  then have "foldl joinPath p (s # segs) = joinWith [46] ((p @ 46 # sg_value s) # map sg_value segs)"
    by (simp add: joinPath_nonempty)
  then show ?case by (cases segs) simp_all
qed simp

lemma wfWord_chars: "wfWord w \<Longrightarrow> w \<noteq> [] \<and> 32 \<notin> set w"
  by (auto simp: wfWord_def plainWord_def list_all_iff isIdentifierCode_def split: list.splits)

lemma set_joinWith: "set (joinWith sep ss) \<subseteq> set sep \<union> \<Union> (set (map set ss))"
  by (induction sep ss rule: joinWith.induct) auto

lemma metricPath_printed:
  assumes "editablePath (gq_segments q)"
  shows "metricPath q = printAst (pathAst (gq_segments q))"
proof -
  obtain s ss where segs: "gq_segments q = s # ss" using assms by (cases "gq_segments q") (auto simp: editablePath_def)
  have words: "\<forall>x \<in> set (s # ss). wfWord (sg_value x)"
    using assms segs by (simp add: editablePath_def list_all_iff)
  let ?p = "joinWith [46] (map sg_value (s # ss))"
  have "foldl joinPath [] (s # ss) = ?p"
    using foldl_joinPath [of ss "sg_value s"] words wfWord_chars by (simp add: joinPath_def [of "[]"] list_all_iff)
  then have path: "getSegmentPathUpTo q (length (gq_segments q)) = ?p"
    by (simp add: getSegmentPathUpTo_def segs)
  have no_blank: "32 \<notin> set ?p"
    using set_joinWith [of "[46]" "map sg_value (s # ss)"] words wfWord_chars by force
  have "drop (length ?p - length (js ''select metric'')) ?p \<noteq> js ''select metric''"
  proof
    assume "drop (length ?p - length (js ''select metric'')) ?p = js ''select metric''"
    moreover have "32 \<in> set (js ''select metric'')" by (simp add: js_def)
    ultimately have "32 \<in> set (drop (length ?p - length (js ''select metric'')) ?p)" by simp
    with no_blank show False by (meson in_set_dropD)
  qed
  then have "stripSelectMetric ?p = ?p" by (simp add: stripSelectMetric_def Let_def del: joinWith.simps)
  with path segs show ?thesis
    by (simp add: metricPath_def pathAst_def segmentStr_def comp_def)
qed

lemma renderFunctions_printed:
  assumes "editable rv defs q"
  shows "renderFunctions rv q = printAst (chainAst rv (gq_segments q) (gq_functions q))"
    and "wfAst (chainAst rv (gq_segments q) (gq_functions q))"
proof -
  from assms have e: "editablePath (gq_segments q)" "list_all (editableFunc rv defs) (gq_functions q)"
    by (simp_all add: editable_def)
  from chain_printed [OF wfAst_path [OF e(1)] e(2)] metricPath_printed [OF e(1)]
  show "renderFunctions rv q = printAst (chainAst rv (gq_segments q) (gq_functions q))"
    and "wfAst (chainAst rv (gq_segments q) (gq_functions q))"
    by (simp_all add: renderFunctions_def chainAst_def)
qed

subsection \<open>Taking the tree apart\<close>

lemma parse_leaf_value:
  "leafValue a = Some v \<Longrightarrow> gq_segments (pt_query st) \<noteq> [] \<Longrightarrow>
   parseTargetRecursive defs (Some a) st = addFunctionParameter v st"
  by (cases a) (auto simp: leafValue_def Let_def)

lemma parseParams_leaves:
  "list_all (\<lambda>p. leafValue (g p) = Some (h p)) ps \<Longrightarrow> gq_segments (pt_query st) \<noteq> [] \<Longrightarrow>
   pt_func st = Some f \<Longrightarrow> pt_thrown st = None \<Longrightarrow>
   length (fi_params f) + length ps \<le> length (f_params (fi_def f)) \<or> lastMultiple (fi_def f) \<Longrightarrow>
   parseParams defs (map (\<lambda>p. Some (g p)) ps) st =
     st\<lparr>pt_func := Some (f\<lparr>fi_params := fi_params f @ map h ps\<rparr>)\<rparr>"
proof (induction ps arbitrary: st f)
  case Nil
  then show ?case by (cases st) simp
next
  case (Cons p ps)
  let ?st = "st\<lparr>pt_func := Some (f\<lparr>fi_params := fi_params f @ [h p]\<rparr>)\<rparr>"
  have "parseTargetRecursive defs (Some (g p)) st = ?st"
    using Cons.prems parse_leaf_value [of "g p" "h p" st defs]
    by (auto simp: addFunctionParameter_def)
  moreover have "parseParams defs (map (\<lambda>p. Some (g p)) ps) ?st =
      ?st\<lparr>pt_func := Some (f\<lparr>fi_params := fi_params f @ [h p] @ map h ps\<rparr>)\<rparr>"
    using Cons.IH [of ?st "f\<lparr>fi_params := fi_params f @ [h p]\<rparr>"] Cons.prems by auto
  ultimately show ?case using Cons.prems(4) by (simp add: Let_def del: parseTargetRecursive.simps)
qed

text \<open>What is compared: the definition, the parameters, the text and the marks of a function.\<close>

type_synonym funcView = "funcDef \<times> pval list \<times> jsstr \<times> bool \<times> bool"

definition funcView :: "funcInstance \<Rightarrow> funcView" where
  "funcView f = (fi_def f, fi_params f, fi_text f, fi_hidden f, fi_added f)"

definition freshView :: "funcInstance \<Rightarrow> funcView" where
  "freshView f = (fi_def f, fi_params f, instanceText (fi_def f) (fi_params f), False, False)"

lemma createInstance_fields:
  "fi_def (createInstance defs name q) = getFuncDef name defs" "fi_params (createInstance defs name q) = []"
  "fi_hidden (createInstance defs name q) = False" "fi_added (createInstance defs name q) = False"
  by (simp_all add: createInstance_def createFuncInstance_def newFuncInstance_def updateText_def)

definition pathSegments :: "segment list \<Rightarrow> segment list" where
  "pathSegments segs = map nodeSegment (map (Segment \<circ> sg_value) segs)"

lemma parse_chain:
  assumes "list_all (editableFunc rv defs) fs" and "editablePath segs"
    and "gq_segments (pt_query st) = []" and "gq_tags (pt_query st) = []" and "pt_thrown st = None"
  shows "\<exists>fs' n. parseTargetRecursive defs (Some (chainAst rv segs fs)) st =
      st\<lparr>pt_query := (pt_query st)\<lparr>gq_segments := pathSegments segs,
           gq_functions := gq_functions (pt_query st) @ fs', gq_nextId := n\<rparr>\<rparr> \<and>
      map funcView fs' = map freshView fs"
  using assms(1,3-5)
proof (induction fs arbitrary: st rule: rev_induct)
  case Nil
  then show ?case
    by (intro exI [of _ "[]"] exI [of _ "gq_nextId (pt_query st)"])
      (cases "pt_query st", simp add: chainAst_def pathAst_def Let_def pathSegments_def)
next
  case (snoc f fs)
  let ?q = "pt_query st"
  let ?name = "f_name (fi_def f)"
  let ?i = "createInstance defs ?name ?q"
  let ?st = "st\<lparr>pt_query := ?q\<lparr>gq_nextId := gq_nextId ?q + 1\<rparr>, pt_func := Some ?i\<rparr>"
  from snoc.prems(1) have ef: "editableFunc rv defs f" by simp
  have "\<exists>fs' n. parseTargetRecursive defs (Some (chainAst rv segs fs)) ?st =
      ?st\<lparr>pt_query := (pt_query ?st)\<lparr>gq_segments := pathSegments segs,
           gq_functions := gq_functions (pt_query ?st) @ fs', gq_nextId := n\<rparr>\<rparr> \<and>
      map funcView fs' = map freshView fs"
    using snoc.prems by (intro snoc.IH) simp_all
  then obtain fs' n where r: "parseTargetRecursive defs (Some (chainAst rv segs fs)) ?st =
      ?st\<lparr>pt_query := ?q\<lparr>gq_segments := pathSegments segs,
           gq_functions := gq_functions ?q @ fs', gq_nextId := n\<rparr>\<rparr>"
    and views: "map funcView fs' = map freshView fs"
    by auto
  let ?st1 = "?st\<lparr>pt_query := ?q\<lparr>gq_segments := pathSegments segs,
           gq_functions := gq_functions ?q @ fs', gq_nextId := n\<rparr>\<rparr>"
  have def_i: "fi_def ?i = fi_def f" using ef by (simp add: createInstance_fields editableFunc_def)
  have ps: "parseParams defs (map (\<lambda>p. Some (paramLeaf rv f p)) (enumerate 0 (fi_params f))) ?st1 =
      ?st1\<lparr>pt_func := Some (?i\<lparr>fi_params := fi_params ?i @ map snd (enumerate 0 (fi_params f))\<rparr>)\<rparr>"
  proof (rule parseParams_leaves)
    show "list_all (\<lambda>p. leafValue (paramLeaf rv f p) = Some (snd p)) (enumerate 0 (fi_params f))"
      using ef by (auto simp: editableFunc_def editableParam_def paramLeaf_def list_all_iff)
    show "length (fi_params ?i) + length (enumerate 0 (fi_params f)) \<le> length (f_params (fi_def ?i)) \<or> lastMultiple (fi_def ?i)"
      using ef def_i by (simp add: editableFunc_def createInstance_fields)
  qed (use assms(2) snoc.prems(4) in \<open>auto simp: editablePath_def pathSegments_def\<close>)
  let ?f = "updateText (?i\<lparr>fi_params := fi_params f\<rparr>)"
  let ?q1 = "?q\<lparr>gq_segments := pathSegments segs,
           gq_functions := gq_functions ?q @ fs', gq_nextId := n\<rparr>"
  have chain: "chainAst rv segs (fs @ [f]) =
      AFunction ?name (Some (chainAst rv segs fs) # map (\<lambda>p. Some (paramLeaf rv f p)) (enumerate 0 (fi_params f)))"
    by (simp add: chainAst_def callAst_def)
  have "parseParams defs (Some (chainAst rv segs fs) # map (\<lambda>p. Some (paramLeaf rv f p)) (enumerate 0 (fi_params f))) ?st
      = ?st1\<lparr>pt_func := Some (?i\<lparr>fi_params := fi_params f\<rparr>)\<rparr>"
    using r ps snoc.prems(4) by (simp add: Let_def createInstance_fields)
  then have "parseTargetRecursive defs (Some (chainAst rv segs (fs @ [f]))) st =
      st\<lparr>pt_query := pushFunction ?f ?q1\<rparr>"
    using snoc.prems(4) unfolding chain by (simp add: Let_def)
  moreover have "f_name (fi_def ?f) \<noteq> seriesByTag"
    using ef def_i by (simp add: editableFunc_def updateText_def)
  ultimately have "parseTargetRecursive defs (Some (chainAst rv segs (fs @ [f]))) st =
      st\<lparr>pt_query := ?q\<lparr>gq_segments := pathSegments segs,
           gq_functions := gq_functions ?q @ (fs' @ [?f]), gq_nextId := n\<rparr>\<rparr>"
    by (simp add: pushFunction_def)
  moreover have "funcView ?f = freshView f"
    using def_i by (simp add: funcView_def freshView_def updateText_def createInstance_fields)
  ultimately show ?case using views by (intro exI [of _ "fs' @ [?f]"] exI [of _ n]) simp
qed

lemma render_cong:
  "fi_def f = fi_def g \<Longrightarrow> fi_params f = fi_params g \<Longrightarrow> render rv f target = render rv g target"
  by (simp add: render_def renderParams_def)

lemma foldl_render_cong:
  "map (\<lambda>f. (fi_def f, fi_params f)) fs = map (\<lambda>f. (fi_def f, fi_params f)) gs \<Longrightarrow>
   foldl (\<lambda>target f. render rv f target) t fs = foldl (\<lambda>target f. render rv f target) t gs"
proof (induction fs arbitrary: gs t)
  case (Cons f fs)
  then obtain g gs' where gs: "gs = g # gs'" "fi_def f = fi_def g" "fi_params f = fi_params g"
    "map (\<lambda>f. (fi_def f, fi_params f)) fs = map (\<lambda>f. (fi_def f, fi_params f)) gs'" by (cases gs) auto
  with Cons.IH [of gs' "render rv f t"] render_cong [of f g rv t] show ?case by simp
qed simp

lemma sg_value_pathSegments [simp]: "map sg_value (pathSegments segs) = map sg_value segs"
  by (simp add: pathSegments_def nodeSegment_def plainSegment_def)

lemma foldl_joinPath_values:
  "map sg_value xs = map sg_value ys \<Longrightarrow> foldl joinPath p xs = foldl joinPath p ys"
proof (induction xs arbitrary: ys p)
  case (Cons x xs)
  then obtain y ys' where "ys = y # ys'" "sg_value x = sg_value y" "map sg_value xs = map sg_value ys'"
    by (cases ys) auto
  with Cons.IH [of ys'] show ?case by (simp add: joinPath_def)
qed simp

lemma renderFunctions_cong:
  assumes "map sg_value (gq_segments q) = map sg_value (gq_segments q')"
    and "map funcView (gq_functions q) = map freshView (gq_functions q')"
  shows "renderFunctions rv q = renderFunctions rv q'"
proof -
  have len: "length (gq_segments q) = length (gq_segments q')" using assms(1) by (rule map_eq_imp_length_eq)
  have path: "metricPath q = metricPath q'"
    using foldl_joinPath_values [OF assms(1), of "[]"] len
    by (simp add: metricPath_def getSegmentPathUpTo_def)
  have fs: "map (\<lambda>f. (fi_def f, fi_params f)) (gq_functions q) = map (\<lambda>f. (fi_def f, fi_params f)) (gq_functions q')"
    using arg_cong [OF assms(2), of "map (\<lambda>(d, ps, _). (d, ps))"]
    by (simp add: funcView_def freshView_def comp_def)
  show ?thesis
    unfolding renderFunctions_def path by (rule foldl_render_cong [OF fs])
qed

lemma updateRenderedTarget_fields [simp]:
  "tg_target (updateRenderedTarget t ts) = tg_target t" "tg_refId (updateRenderedTarget t ts) = tg_refId t"
  "tg_textEditor (updateRenderedTarget t ts) = tg_textEditor t"
  by (simp_all add: updateRenderedTarget_def Let_def)


text \<open>\<open>alias(scale(app.*.cpu, 10), 'CPU')\<close>, with the definitions of the registry.\<close>

definition sampleQuery :: graphiteQuery where
  "sampleQuery =
     \<lparr>gq_target = \<lparr>tg_refId = js ''A'', tg_target = [], tg_targetFull = None, tg_textEditor = False\<rparr>,
      gq_functions =
        [newFuncInstance 0 (getFuncDef (js ''scale'') None) False \<lparr>fi_params := [PNum (Dec 10 0)]\<rparr>,
         newFuncInstance 1 (getFuncDef (js ''alias'') None) False \<lparr>fi_params := [PStr (js ''CPU'')]\<rparr>],
      gq_segments = map plainSegment [js ''app'', js ''*'', js ''cpu''], gq_tags = [],
      gq_error = None, gq_seriesByTagUsed = False, gq_checkOtherSegmentsIndex = 0, gq_nextId = 2\<rparr>"

lemma registry_alias: "getFuncDef (js ''alias'') None = completeDef
    (entry (js ''alias'') (js ''Alias'')
      \<lparr>pf_params := Some [param (js ''alias'') (js ''string'')],
        pf_defaultParams := Some [PStr (js ''alias'')]\<rparr>)"
  by (simp add: getFuncDef_registry funcTable_defs entry_def)

lemma registry_scale: "getFuncDef (js ''scale'') None = completeDef
    (entry (js ''scale'') (js ''Transform'')
      \<lparr>pf_params := Some [param (js ''factor'') (js ''int'')],
        pf_defaultParams := Some [PNum (Dec 1 0)]\<rparr>)"
  by (simp add: getFuncDef_registry funcTable_defs entry_def)


subsection \<open>A query that is not editable\<close>

definition nestedAst :: ast where
  "nestedAst =
     AFunction (js ''divideSeries'')
       [Some (AMetric [Segment (js ''app''), Segment (js ''a'')]),
        Some (AFunction (js ''sumSeries'') [Some (AMetric [Segment (js ''app''), Segment (js ''b'')])])]"

lemma registry_divideSeries: "getFuncDef (js ''divideSeries'') None = completeDef
    (entry (js ''divideSeries'') (js ''Combine'')
      \<lparr>pf_params := Some optionalSeriesRefArgs,
        pf_defaultParams := Some [PStr (js ''#A'')]\<rparr>)"
  by (simp add: getFuncDef_registry funcTable_defs entry_def)

lemma registry_sumSeries: "getFuncDef (js ''sumSeries'') None = completeDef
    (entry (js ''sumSeries'') (js ''Combine'')
      \<lparr>pf_params := Some optionalSeriesRefArgs, pf_defaultParams := Some [PStr []],
        pf_shortName := Some (js ''sum'')\<rparr>)"
  by (simp add: getFuncDef_registry funcTable_defs entry_def)

text \<open>
  The model keeps a query as one chain of functions, so that a call in any place but the
  first is moved: a quotient by a sum is loaded and, at the next change, written as the quotient of
  a sum of both paths, without an error.
\<close>

theorem nested_call_rewritten:
  "case newGraphiteQuery None
      \<lparr>tg_refId = js ''A'', tg_target = js ''divideSeries(app.a, sumSeries(app.b))'', tg_targetFull = None,
       tg_textEditor = False\<rparr> of
     None \<Rightarrow> False
   | Some q \<Rightarrow>
       gq_error q = None \<and> \<not> tg_textEditor (gq_target q) \<and>
       renderFunctions id q = js ''divideSeries(sumSeries(app.a, app.b))''"
proof -
  let ?s = "js ''divideSeries(app.a, sumSeries(app.b))''"
  have words: "wfWord (js ''divideSeries'')" "wfWord (js ''sumSeries'')" "wfWord (js ''app'')" "wfWord (js ''a'')" "wfWord (js ''b'')"
    by (simp_all add: wfWord_def isBoolWord_def plainWord_def js_def isIdentifierCode_def isDigit_def)
  have "\<not> hasSeriesRef (js ''app'')" by (simp add: js_def isRefLetter_def)
  with words have "getAst (printAst nestedAst) = Parsed nestedAst"
    by (intro getAst_printed) (simp_all add: nestedAst_def wfSegments_def)
  moreover have "printAst nestedAst = ?s" by (simp add: nestedAst_def segmentStr_def js_def)
  ultimately have ast: "getAst ?s = Parsed nestedAst" by simp
  have tag: "js ''divideSeries'' \<noteq> seriesByTag" "js ''sumSeries'' \<noteq> seriesByTag" by (simp_all add: seriesByTag_def)
  let ?sum = "\<lparr>fi_id = 1, fi_def = getFuncDef (js ''sumSeries'') None, fi_params = [PStr (joinWith [46] [js ''app'', js ''b''])],
      fi_text = instanceText (getFuncDef (js ''sumSeries'') None) [PStr (joinWith [46] [js ''app'', js ''b''])],
      fi_added = False, fi_hidden = False\<rparr>"
  let ?div = "\<lparr>fi_id = 0, fi_def = getFuncDef (js ''divideSeries'') None, fi_params = [],
      fi_text = instanceText (getFuncDef (js ''divideSeries'') None) [], fi_added = False, fi_hidden = False\<rparr>"
  let ?q = "\<lparr>gq_target = \<lparr>tg_refId = js ''A'', tg_target = ?s, tg_targetFull = None, tg_textEditor = False\<rparr>,
      gq_functions = [?sum, ?div], gq_segments = map nodeSegment [Segment (js ''app''), Segment (js ''a'')], gq_tags = [],
      gq_error = None, gq_seriesByTagUsed = False, gq_checkOtherSegmentsIndex = 1, gq_nextId = 2\<rparr>"
  have p: "newGraphiteQuery None \<lparr>tg_refId = js ''A'', tg_target = ?s, tg_targetFull = None, tg_textEditor = False\<rparr> = Some ?q"
    using tag
    by (simp add: newGraphiteQuery_def parseTarget_def Let_def ast parseAst_def nestedAst_def resetQuery_def checkFromEnd_def
        createInstance_def createFuncInstance_def newFuncInstance_def updateText_def nodeSegment_def plainSegment_def
        registry_divideSeries registry_sumSeries completeDef_def entry_def optionalSeriesRefArgs_def param_def
        addFunctionParameter_def lastMultiple_def pushFunction_def)
  have path: "metricPath ?q = js ''app.a''"
    by (simp add: metricPath_def getSegmentPathUpTo_def joinPath_def nodeSegment_def plainSegment_def stripSelectMetric_def js_def)
  have sum: "render id ?sum (js ''app.a'') = js ''sumSeries(app.a, app.b)''"
    unfolding registry_sumSeries
    by (simp add: render_def renderParams_def completeDef_def entry_def optionalSeriesRefArgs_def param_def
        quoteParam_def paramType_def neverQuoted_def popBlank_def joinParams_def pvalJoinStr_def pvalStr_def js_def)
  have div: "render id ?div (js ''sumSeries(app.a, app.b)'') = js ''divideSeries(sumSeries(app.a, app.b))''"
    unfolding registry_divideSeries
    by (simp add: render_def renderParams_def completeDef_def entry_def popBlank_def joinParams_def
        pvalJoinStr_def pvalStr_def js_def)
  have "renderFunctions id ?q = render id ?div (render id ?sum (metricPath ?q))"
    by (simp add: renderFunctions_def)
  then have "renderFunctions id ?q = js ''divideSeries(sumSeries(app.a, app.b))''"
    unfolding path sum div .
  with p show ?thesis by simp
qed

end
