(* ===== verification/GraphiteRefs.thy ===== *)
theory GraphiteRefs
  imports GraphiteQueryProps
begin

text \<open>
  References to other queries (\<open>#A\<close>): what \<open>updateRenderedTarget\<close> computes when the queries referred
  to hold no references themselves, and where the reference counts that are to stop circular
  references stop a legitimate one.
\<close>

subsection \<open>Replacing references, as a specification\<close>

text \<open>Every reference to a query with a known text is replaced by it, once, from left to right.\<close>

fun substRefs :: "(codeUnit \<Rightarrow> jsstr option) \<Rightarrow> jsstr \<Rightarrow> jsstr" where
  "substRefs g (a # b # s) =
     (if a = 35 \<and> isRefLetter b
      then (case g b of None \<Rightarrow> a # b # substRefs g s | Some t \<Rightarrow> t @ substRefs g s)
      else a # substRefs g (b # s))"
| "substRefs g s = s"

text \<open>The text of a query by its identifier, as \<open>keyBy\<close> resolves it; the query itself is unknown.\<close>

definition queryText :: "gtarget \<Rightarrow> gtarget list \<Rightarrow> codeUnit \<Rightarrow> jsstr option" where
  "queryText target targets c =
     (if tg_refId target = [c] then None
      else map_option tg_target (find (\<lambda>t. tg_refId t = [c]) (rev targets)))"

text \<open>A text that contains no reference and cannot form one with what stands around it.\<close>

definition quietText :: "jsstr \<Rightarrow> bool" where
  "quietText t \<longleftrightarrow> t \<noteq> [] \<and> \<not> hasSeriesRef (35 # t) \<and> last t \<noteq> 35"

definition lookupText :: "refTable \<Rightarrow> codeUnit \<Rightarrow> jsstr option" where
  "lookupText m c = map_option snd (objGet m c)"

lemma letter_not_hash [simp]: "isRefLetter b \<Longrightarrow> b \<noteq> 35"
  by (auto simp: isRefLetter_def)

lemma countRefs_skip: "a \<noteq> 35 \<Longrightarrow> countRefs c (a # s) = countRefs c s"
  by (cases s) auto

lemma countRefs_tail_le: "isRefLetter c \<Longrightarrow> countRefs c s \<le> countRefs c (a # s)"
  by (cases s) (auto simp: countRefs_skip)

lemma countRefs_ref:
  "isRefLetter b \<Longrightarrow> countRefs c (35 # b # s) = (if b = c then Suc (countRefs c s) else countRefs c s)"
  using countRefs_skip [of b c s] by simp

lemma substRefs_cong:
  "(\<And>c. isRefLetter c \<Longrightarrow> 0 < countRefs c s \<Longrightarrow> g c = g' c) \<Longrightarrow> substRefs g s = substRefs g' s"
proof (induction g s rule: substRefs.induct)
  case (1 g a b s)
  have tail: "g c = g' c" if "isRefLetter c" "0 < countRefs c (b # s)" for c
    using "1.prems" [OF that(1)] that(2) countRefs_tail_le [OF that(1), of "b # s" a] by linarith
  show ?case
  proof (cases "a = 35 \<and> isRefLetter b")
    case True
    then have "g b = g' b" using "1.prems" [of b] by (simp add: countRefs_ref)
    moreover have "substRefs g s = substRefs g' s" if "g b = None \<or> (\<exists>t. g b = Some t)"
    proof -
      have t: "g c = g' c" if "isRefLetter c" "0 < countRefs c s" for c
        using tail [OF that(1)] that(2) countRefs_tail_le [OF that(1), of s b] by linarith
      from that show ?thesis using "1.IH"(1) [OF True] "1.IH"(2) [OF True] t by blast
    qed
    ultimately show ?thesis using True by (cases "g' b") simp_all
  next
    case False
    with "1.IH"(3) [OF False tail] show ?thesis by auto
  qed
qed auto

text \<open>While the counters last, a pass is the substitution.\<close>

lemma replaceRefs_subst:
  "(\<And>c n t. isRefLetter c \<Longrightarrow> objGet m c = Some (n, t) \<Longrightarrow> countRefs c s \<le> Suc n) \<Longrightarrow>
   fst (replaceRefs m s) = substRefs (lookupText m) s"
proof (induction m s rule: replaceRefs.induct)
  case (1 m a b s)
  show ?case
  proof (cases "a = 35 \<and> isRefLetter b")
    case False
    have "countRefs c (b # s) \<le> Suc n" if "isRefLetter c" "objGet m c = Some (n, t)" for c n t
      using "1.prems" [OF that] countRefs_tail_le [OF that(1), of "b # s" a] by linarith
    from "1.IH"(3) [OF False this] False show ?thesis by (auto split: prod.splits)
  next
    case ref: True
    have le: "countRefs c s + (if b = c then 1 else 0) \<le> Suc n" if "isRefLetter c" "objGet m c = Some (n, t)" for c n t
      using "1.prems" [OF that] ref countRefs_ref [of b c s] by (auto split: if_splits)
    show ?thesis
    proof (cases "objGet m b")
      case None
      from "1.IH"(1) [OF ref None] le have "fst (replaceRefs m s) = substRefs (lookupText m) s"
        by fastforce
      moreover have "lookupText m b = None" using None by (simp add: lookupText_def)
      ultimately show ?thesis using ref None by (auto split: prod.splits)
    next
      case (Some p)
      obtain n t where p: "p = (n, t)" by (cases p)
      let ?m = "if n = 0 then objDelete b m else objSet b (n - 1, t) m"
      have "countRefs c s \<le> Suc k" if "isRefLetter c" "objGet ?m c = Some (k, u)" for c k u
        using le [OF that(1), of k u] le [OF that(1), of n t] that(2) Some p
        by (auto simp: objGet_objSet objGet_objDelete split: if_splits)
      from "1.IH"(2) [OF ref Some p [symmetric] this]
      have "fst (replaceRefs ?m s) = substRefs (lookupText ?m) s" .
      also have "\<dots> = substRefs (lookupText m) s"
      proof (rule substRefs_cong)
        fix c assume c: "isRefLetter c" "0 < countRefs c s"
        show "lookupText ?m c = lookupText m c"
          using le [of b n t] c Some p ref
          by (auto simp: lookupText_def objGet_objSet objGet_objDelete)
      qed
      finally have "fst (replaceRefs ?m s) = substRefs (lookupText m) s" .
      moreover have "lookupText m b = Some t" using Some p by (simp add: lookupText_def)
      ultimately show ?thesis using ref Some p by (auto split: prod.splits)
    qed
  qed
qed auto

subsection \<open>The text after one pass is stable\<close>

lemma replaceRefs_none:
  "(\<And>c. isRefLetter c \<Longrightarrow> objGet m c \<noteq> None \<Longrightarrow> countRefs c s = 0) \<Longrightarrow> replaceRefs m s = (s, m)"
proof (induction m s rule: replaceRefs.induct)
  case (1 m a b s)
  show ?case
  proof (cases "a = 35 \<and> isRefLetter b")
    case False
    have "countRefs c (b # s) = 0" if "isRefLetter c" "objGet m c \<noteq> None" for c
      using "1.prems" [OF that] countRefs_tail_le [OF that(1), of "b # s" a] by simp
    with "1.IH"(3) [OF False] False show ?thesis by auto
  next
    case ref: True
    have none: "objGet m b = None"
    proof (rule ccontr)
      assume "objGet m b \<noteq> None"
      with "1.prems" [of b] ref show False by simp
    qed
    have "countRefs c s = 0" if "isRefLetter c" "objGet m c \<noteq> None" for c
      using "1.prems" [OF that] ref countRefs_ref [of b c s] by (auto split: if_splits)
    with "1.IH"(1) [OF ref none] ref none show ?thesis by auto
  qed
qed auto

lemma replaceRefs_dom: "replaceRefs m s = (r, m') \<Longrightarrow> objGet m' c \<noteq> None \<Longrightarrow> objGet m c \<noteq> None"
proof (induction m s arbitrary: r m' rule: replaceRefs.induct)
  case (1 m a b s)
  show ?case
  proof (cases "a = 35 \<and> isRefLetter b")
    case False
    with 1 show ?thesis by (auto split: prod.splits)
  next
    case ref: True
    show ?thesis
    proof (cases "objGet m b")
      case None
      with 1 ref show ?thesis by (auto split: prod.splits)
    next
      case (Some p)
      obtain n t where p: "p = (n, t)" by (cases p)
      let ?m = "if n = 0 then objDelete b m else objSet b (n - 1, t) m"
      obtain r' where "replaceRefs ?m s = (r', m')" using "1.prems"(1) ref Some p by (auto split: prod.splits)
      from "1.IH"(2) [OF ref Some p [symmetric] this "1.prems"(2)] Some show ?thesis
        by (auto simp: objGet_objSet objGet_objDelete split: if_splits)
    qed
  qed
qed auto

lemma countRefs_append:
  "isRefLetter c \<Longrightarrow> t \<noteq> [] \<Longrightarrow> last t \<noteq> 35 \<Longrightarrow> countRefs c (t @ r) = countRefs c t + countRefs c r"
proof (induction c t rule: countRefs.induct)
  case (1 c a b t)
  show ?case
  proof (cases "a = 35 \<and> b = c")
    case True
    have "countRefs c (t @ r) = countRefs c t + countRefs c r"
      using True 1 by (cases "t = []") auto
    with True show ?thesis by simp
  next
    case False
    with 1 show ?thesis by auto
  qed
next
  case "2_2"
  then show ?case by (simp add: countRefs_skip)
qed simp

lemma countRefs_hasSeriesRef: "isRefLetter c \<Longrightarrow> \<not> hasSeriesRef s \<Longrightarrow> countRefs c s = 0"
  by (induction c s rule: countRefs.induct) (auto split: if_splits)

lemma hasSeriesRef_Cons: "hasSeriesRef s \<Longrightarrow> hasSeriesRef (a # s)"
  by (cases s) auto

lemma quietText_count: "quietText t \<Longrightarrow> isRefLetter c \<Longrightarrow> countRefs c t = 0"
  using countRefs_hasSeriesRef hasSeriesRef_Cons unfolding quietText_def by blast

lemma quietText_hd: "quietText t \<Longrightarrow> \<not> isRefLetter (hd t)"
  by (cases t) (auto simp: quietText_def)

definition quietTexts :: "(codeUnit \<Rightarrow> jsstr option) \<Rightarrow> bool" where
  "quietTexts g \<longleftrightarrow> (\<forall>c t. g c = Some t \<longrightarrow> quietText t)"

lemma substRefs_hd:
  "quietTexts g \<Longrightarrow> \<not> isRefLetter b \<Longrightarrow> substRefs g (b # s) \<noteq> [] \<and> \<not> isRefLetter (hd (substRefs g (b # s)))"
  using quietText_hd by (cases s) (auto simp: quietTexts_def quietText_def hd_append split: option.splits)

lemma substRefs_stable:
  "quietTexts g \<Longrightarrow> isRefLetter c \<Longrightarrow> g c \<noteq> None \<Longrightarrow> countRefs c (substRefs g s) = 0"
proof (induction g s rule: substRefs.induct)
  case (1 g a b s)
  show ?case
  proof (cases "a = 35 \<and> isRefLetter b")
    case True
    show ?thesis
    proof (cases "g b")
      case None
      with "1.prems" have "b \<noteq> c" by auto
      with True None 1 show ?thesis using countRefs_ref [of b c "substRefs g s"] by simp
    next
      case (Some t)
      then have t: "quietText t" using "1.prems" by (simp add: quietTexts_def)
      then have "t \<noteq> []" "last t \<noteq> 35" by (simp_all add: quietText_def)
      with countRefs_append [OF "1.prems"(2) this, of "substRefs g s"] quietText_count [OF t "1.prems"(2)]
        True Some 1 show ?thesis by simp
    qed
  next
    case False
    let ?r = "substRefs g (b # s)"
    have ih: "countRefs c ?r = 0" using "1.IH"(3) [OF False "1.prems"] .
    have "countRefs c (a # ?r) = countRefs c ?r"
    proof (cases "a = 35")
      case True
      with False have "\<not> isRefLetter b" by simp
      from substRefs_hd [OF "1.prems"(1) this, of s] "1.prems"(2) show ?thesis
        by (cases ?r) auto
    qed (rule countRefs_skip)
    with ih False show ?thesis by auto
  qed
qed auto

subsection \<open>The table of the queries\<close>

lemma targetsByRefId_snoc:
  "targetsByRefId target (ts @ [t]) =
     (case tg_refId t of
        [c] \<Rightarrow> if tg_refId t \<noteq> tg_refId target
               then objSet c (countRefs c (tg_target target), tg_target t) (targetsByRefId target ts)
               else targetsByRefId target ts
      | _ \<Rightarrow> targetsByRefId target ts)"
  by (simp add: targetsByRefId_def split: list.split)

lemma lookup_targetsByRefId:
  "objGet (targetsByRefId target targets) c =
     map_option (\<lambda>t. (countRefs c (tg_target target), t)) (queryText target targets c)"
proof (induction targets rule: rev_induct)
  case Nil
  then show ?case by (simp add: targetsByRefId_def queryText_def)
next
  case (snoc t ts)
  show ?case
    by (auto simp: targetsByRefId_snoc snoc.IH queryText_def objGet_objSet split: list.splits)
qed


definition queryA :: "string \<Rightarrow> string \<Rightarrow> gtarget" where
  "queryA refId t = \<lparr>tg_refId = js refId, tg_target = js t, tg_targetFull = None, tg_textEditor = False\<rparr>"


subsection \<open>Where the counters stop a legitimate reference\<close>

text \<open>
  The counters are taken from the query itself, so that a query referred to only by the
  queries it refers to is replaced once: of two references to \<open>#D\<close>, one through \<open>#B\<close> and one
  through \<open>#C\<close>, none circular, the second is left in the full query.
\<close>

theorem diamond_reference_left:
  "tg_targetFull (updateRenderedTarget (queryA ''A'' ''#B,#C'')
     [queryA ''A'' ''#B,#C'', queryA ''B'' ''#D'', queryA ''C'' ''#D'', queryA ''D'' ''app'']) =
   Some (js ''app,#D'')"
proof -
  have m: "targetsByRefId (queryA ''A'' ''#B,#C'')
      [queryA ''A'' ''#B,#C'', queryA ''B'' ''#D'', queryA ''C'' ''#D'', queryA ''D'' ''app''] =
      [(66, 1, js ''#D''), (67, 1, js ''#D''), (68, 0, js ''app'')]"
    by (simp add: targetsByRefId_def queryA_def js_def)
  have "expandRefs [(66, 1, js ''#D''), (67, 1, js ''#D''), (68, 0, js ''app'')] (js ''#B,#C'') =
      expandRefs [(66, 0, js ''#D''), (67, 0, js ''#D''), (68, 0, js ''app'')] (js ''#D,#D'')"
    by (subst expandRefs.simps) (simp add: js_def isRefLetter_def objGet_def)
  also have "\<dots> = expandRefs [(66, 0, js ''#D''), (67, 0, js ''#D'')] (js ''app,#D'')"
    by (subst expandRefs.simps) (simp add: js_def isRefLetter_def objGet_def objDelete_def)
  also have "\<dots> = js ''app,#D''"
    by (subst expandRefs.simps) (simp add: js_def isRefLetter_def objGet_def)
  finally have "expandRefs [(66, 1, js ''#D''), (67, 1, js ''#D''), (68, 0, js ''app'')] (js ''#B,#C'') = js ''app,#D''" .
  with m show ?thesis by (simp add: updateRenderedTarget_def Let_def queryA_def)
qed

end
