(* ===== verification/GraphiteStore.thy ===== *)
theory GraphiteStore
  imports GraphiteQuery
begin

text \<open>
  The state of the query editor and its reducer (\<open>state/store.ts\<close>, \<open>state/helpers.ts\<close>): the query
  model, the segments the editor shows, and every action.

  What the reducer awaits is modelled as its answer: \<open>ev_find\<close> is \<open>datasource.metricFindQuery\<close>, which
  may fail with an \<open>Error\<close> or with something else; actions dispatched while one is awaited are not
  interleaved with it.  The editor's \<open>target\<close> is the one of the model, calls of \<open>refresh\<close> are counted
  and the error notifications kept in a list.  The search for further segments calls itself without
  a bound of its own, so that it is a partial function: \<open>None\<close> means that it does not return.  An
  action returns the new state or \<open>Threw\<close>; what it wrote in place before it threw is not kept.
\<close>

subsection \<open>State\<close>

datatype 'a response = Found 'a | FailedError jsstr | FailedOther

record findResult =
  fr_text :: jsstr
  fr_expandable :: bool

record environment =
  ev_find :: "jsstr \<Rightarrow> findResult list response"
  ev_replace :: "jsstr \<Rightarrow> jsstr"

text \<open>A query of the panel; one of another data source need not have a text.\<close>

datatype dataQuery = GraphiteLike gtarget | OtherQuery jsstr

record editorState =
  st_queryModel :: graphiteQuery
  st_segments :: "segment list"
  st_queries :: "dataQuery list"
  st_range :: "jsstr option"
  st_supportsTags :: bool
  st_paused :: bool
  st_removeTagValue :: jsstr
  st_funcDefs :: "funcDefs option"
  st_error :: "jsstr option"
  st_tagsErrorShown :: bool
  st_metricErrorShown :: bool
  st_notifications :: "jsstr list"
  st_refreshes :: nat

definition onModel :: "(graphiteQuery \<Rightarrow> graphiteQuery) \<Rightarrow> editorState \<Rightarrow> editorState" where
  "onModel g st = st\<lparr>st_queryModel := g (st_queryModel st)\<rparr>"

definition refresh :: "editorState \<Rightarrow> editorState" where
  "refresh st = st\<lparr>st_refreshes := Suc (st_refreshes st)\<rparr>"

definition TAG_PREFIX :: jsstr where
  "TAG_PREFIX = js ''tag: ''"

definition removeTagPrefix :: "jsstr \<Rightarrow> jsstr" where
  "removeTagPrefix value = replaceFirst TAG_PREFIX [] value"

subsection \<open>Helpers\<close>

definition addSelectMetric :: "editorState \<Rightarrow> editorState" where
  "addSelectMetric st =
     (onModel addSelectMetricSegment st)
       \<lparr>st_segments := st_segments st @ [plainSegment (js ''select metric'')\<lparr>sg_fake := True\<rparr>]\<rparr>"

definition spliceSegments :: "nat \<Rightarrow> editorState \<Rightarrow> editorState" where
  "spliceSegments i st =
     (onModel (\<lambda>q. q\<lparr>gq_segments := take i (gq_segments q)\<rparr>) st)\<lparr>st_segments := take i (st_segments st)\<rparr>"

definition emptySegments :: "editorState \<Rightarrow> editorState" where
  "emptySegments st = (onModel (\<lambda>q. q\<lparr>gq_segments := []\<rparr>) st)\<lparr>st_segments := []\<rparr>"

definition pause :: "editorState \<Rightarrow> editorState" where
  "pause st = st\<lparr>st_paused := True\<rparr>"

definition handleMetricsAutoCompleteError :: "jsstr \<Rightarrow> editorState \<Rightarrow> editorState" where
  "handleMetricsAutoCompleteError msg st =
     (if \<not> st_metricErrorShown st
      then st\<lparr>st_metricErrorShown := True,
              st_notifications := st_notifications st @ [js ''Fetching metrics failed: '' @ msg @ js ''.'']\<rparr>
      else st)"

definition handleTagsAutoCompleteError :: "jsstr \<Rightarrow> editorState \<Rightarrow> editorState" where
  "handleTagsAutoCompleteError msg st =
     (if \<not> st_tagsErrorShown st
      then st\<lparr>st_tagsErrorShown := True,
              st_notifications := st_notifications st @ [js ''Fetching tags failed: '' @ msg @ js ''.'']\<rparr>
      else st)"

text \<open>The test of \<open>checkOtherSegments\<close> for a query that is a reference to another one.\<close>

definition onlySeriesRef :: "graphiteQuery \<Rightarrow> bool" where
  "onlySeriesRef q \<longleftrightarrow> length (gq_segments q) = 1 \<and> sg_type (hd (gq_segments q)) = Some (js ''series-ref'')"

partial_function (option) checkOtherSegments ::
  "environment \<Rightarrow> int \<Rightarrow> bool \<Rightarrow> editorState \<Rightarrow> editorState option" where
  "checkOtherSegments env fromIndex modifyLastSegment st =
     (if onlySeriesRef (st_queryModel st) then Some st
      else if fromIndex = 0 then Some (addSelectMetric st)
      else if getSegmentPathUpTo (st_queryModel st) (nat (fromIndex + 1)) = [] then Some st
      else (case ev_find env (getSegmentPathUpTo (st_queryModel st) (nat (fromIndex + 1))) of
              FailedError msg \<Rightarrow> Some (handleMetricsAutoCompleteError msg st)
            | FailedOther \<Rightarrow> Some st
            | Found [] \<Rightarrow>
                if modifyLastSegment then Some (addSelectMetric (spliceSegments (nat fromIndex) st)) else Some st
            | Found (s # _) \<Rightarrow>
                if fr_expandable s
                then (if int (length (st_segments st)) = fromIndex then Some (addSelectMetric st)
                      else checkOtherSegments env (fromIndex + 1) True st)
                else Some st))"

definition buildSegments :: "environment \<Rightarrow> bool \<Rightarrow> editorState \<Rightarrow> editorState option" where
  "buildSegments env modifyLastSegment st =
     checkOtherSegments env (gq_checkOtherSegmentsIndex (st_queryModel st)) modifyLastSegment
       (st\<lparr>st_segments := gq_segments (st_queryModel st)\<rparr>)"

text \<open>The outcome of an action.\<close>

datatype outcome = Done editorState | Threw

definition parseTargetState :: "environment \<Rightarrow> editorState \<Rightarrow> outcome option" where
  "parseTargetState env st =
     (case parseTarget (st_funcDefs st) (st_queryModel st) of
        None \<Rightarrow> Some Threw
      | Some q \<Rightarrow> map_option Done (buildSegments env True (st\<lparr>st_queryModel := q\<rparr>)))"

text \<open>\<open>handleTargetChanged\<close>: the texts of the other queries are written back where they came from.\<close>

definition graphiteTargets :: "dataQuery list \<Rightarrow> gtarget list" where
  "graphiteTargets qs = concat (map (\<lambda>q. case q of GraphiteLike t \<Rightarrow> [t] | OtherQuery _ \<Rightarrow> []) qs)"

fun putTargets :: "gtarget list \<Rightarrow> dataQuery list \<Rightarrow> dataQuery list" where
  "putTargets (t # ts) (GraphiteLike _ # qs) = GraphiteLike t # putTargets ts qs"
| "putTargets ts (OtherQuery r # qs) = OtherQuery r # putTargets ts qs"
| "putTargets _ qs = qs"

definition handleTargetChanged :: "environment \<Rightarrow> editorState \<Rightarrow> editorState" where
  "handleTargetChanged env st =
     (if gq_error (st_queryModel st) \<noteq> None then st
      else (case updateModelTarget (ev_replace env) (graphiteTargets (st_queries st)) (st_queryModel st) of
              (q, targets) \<Rightarrow>
                let oldTarget = tg_target (gq_target (st_queryModel st));
                    st' = st\<lparr>st_queryModel := q, st_queries := putTargets targets (st_queries st)\<rparr>
                in if tg_target (gq_target q) \<noteq> oldTarget \<and> \<not> st_paused st' then refresh st' else st'))"

text \<open>Creating a function: the instance takes the next identifier of the model.\<close>

definition newFunction :: "jsstr \<Rightarrow> bool \<Rightarrow> editorState \<Rightarrow> funcInstance" where
  "newFunction name withDefaultParams st =
     createFuncInstance (gq_nextId (st_queryModel st)) (ByName name) withDefaultParams (st_funcDefs st)"

definition pushNewFunction :: "funcInstance \<Rightarrow> editorState \<Rightarrow> editorState" where
  "pushNewFunction f = onModel (\<lambda>q. (addFunction f q)\<lparr>gq_nextId := gq_nextId q + 1\<rparr>)"

definition addSeriesByTagFunc :: "environment \<Rightarrow> jsstr \<Rightarrow> editorState \<Rightarrow> outcome option" where
  "addSeriesByTagFunc env tag st =
     (let newFunc = (newFunction seriesByTag False st)\<lparr>fi_params := [PStr (tag @ [61])], fi_added := True\<rparr>
      in parseTargetState env (handleTargetChanged env (emptySegments (pushNewFunction newFunc st))))"

definition updateFunction :: "nat \<Rightarrow> (funcInstance \<Rightarrow> funcInstance) \<Rightarrow> editorState \<Rightarrow> editorState" where
  "updateFunction ident g =
     onModel (\<lambda>q. q\<lparr>gq_functions := map (\<lambda>f. if fi_id f = ident then g f else f) (gq_functions q)\<rparr>)"

text \<open>The index of the first segment with a wildcard becomes the parameter of a new \<open>aliasByNode\<close>.\<close>

definition firstWildcard :: "segment list \<Rightarrow> nat option" where
  "firstWildcard segs =
     (let i = length (takeWhile (\<lambda>s. 42 \<notin> set (sg_value s)) segs) in if i < length segs then Some i else None)"

definition smartlyHandleNewAliasByNode :: "environment \<Rightarrow> funcInstance \<Rightarrow> editorState \<Rightarrow> editorState" where
  "smartlyHandleNewAliasByNode env f st =
     (if f_name (fi_def f) \<noteq> js ''aliasByNode'' then st
      else (case firstWildcard (st_segments st) of
              None \<Rightarrow> st
            | Some i \<Rightarrow>
                handleTargetChanged env
                  (updateFunction (fi_id f)
                     (\<lambda>f. f\<lparr>fi_params := arraySet PUndef (fi_params f) 0 (PNum (Dec (int i) 0)), fi_added := False\<rparr>) st)))"

definition findFunction :: "nat \<Rightarrow> editorState \<Rightarrow> funcInstance option" where
  "findFunction ident st = find (\<lambda>f. fi_id f = ident) (gq_functions (st_queryModel st))"

subsection \<open>Actions\<close>

datatype segmentOrString = SegString jsstr | SegSegment segment

datatype action =
    Init gtarget "dataQuery list" bool "funcDefs option"
  | TimeRangeChanged "jsstr option"
  | QueriesChanged "dataQuery list"
  | QueryChanged "jsstr option"
  | SegmentValueChanged segmentOrString nat
  | TagChanged gtag nat
  | AddNewTag segment
  | Unpause
  | AddFunction jsstr
  | RemoveFunction nat
  | MoveFunction nat int
  | UpdateFunctionParam nat nat jsstr
  | UpdateQuery jsstr
  | RunQuery
  | ToggleEditorMode

definition setTarget :: "jsstr \<Rightarrow> editorState \<Rightarrow> editorState" where
  "setTarget s = onModel (\<lambda>q. q\<lparr>gq_target := (gq_target q)\<lparr>tg_target := s\<rparr>\<rparr>)"

text \<open>\<open>andThen\<close> runs a step on the state of an action that did not throw.\<close>

definition andThen :: "outcome option \<Rightarrow> (editorState \<Rightarrow> outcome option) \<Rightarrow> outcome option" where
  "andThen r k = (case r of Some (Done st) \<Rightarrow> k st | _ \<Rightarrow> r)"

definition done' :: "editorState \<Rightarrow> outcome option" where
  "done' st = Some (Done st)"

definition initState :: "environment \<Rightarrow> gtarget \<Rightarrow> dataQuery list \<Rightarrow> bool \<Rightarrow> funcDefs option \<Rightarrow> editorState \<Rightarrow> outcome option" where
  "initState env target queries supportsTags funcDefs st =
     (case newGraphiteQuery funcDefs target of
        None \<Rightarrow> Some Threw
      | Some q \<Rightarrow>
          map_option Done
            (buildSegments env False
               (st\<lparr>st_queryModel := q, st_supportsTags := supportsTags, st_paused := False,
                   st_removeTagValue := removeTagValue, st_funcDefs := funcDefs, st_queries := queries\<rparr>)))"

definition resetFake :: "graphiteQuery \<Rightarrow> graphiteQuery" where
  "resetFake q =
     (if gq_functions q \<noteq> [] \<and> f_fake (fi_def (hd (gq_functions q))) then q\<lparr>gq_functions := []\<rparr> else q)"

definition segmentValueChanged :: "environment \<Rightarrow> segmentOrString \<Rightarrow> nat \<Rightarrow> editorState \<Rightarrow> outcome option" where
  "segmentValueChanged env segmentOrString segmentIndex st =
     (let segment = (case segmentOrString of
                       SegString s \<Rightarrow> plainSegment s\<lparr>sg_expandable := True\<rparr> | SegSegment s \<Rightarrow> s);
          st1 = st\<lparr>st_error := None, st_segments := arraySet (plainSegment []) (st_segments st) segmentIndex segment\<rparr>
      in case updateSegmentValue segment segmentIndex (st_queryModel st1) of
           None \<Rightarrow> Some Threw
         | Some q \<Rightarrow>
             let st2 = st1\<lparr>st_queryModel := resetFake q\<rparr>
             in if sg_type segment = Some (js ''tag'')
                then addSeriesByTagFunc env (removeTagPrefix (sg_value segment)) (pause st2)
                else andThen
                       (if sg_expandable segment
                        then map_option Done (checkOtherSegments env (int segmentIndex + 1) True st2)
                        else done' (spliceSegments (segmentIndex + 1) st2))
                       (\<lambda>st. done' (handleTargetChanged env st)))"

definition tagChanged :: "environment \<Rightarrow> gtag \<Rightarrow> nat \<Rightarrow> editorState \<Rightarrow> outcome option" where
  "tagChanged env tag tagIndex st =
     (case updateTag tag tagIndex (st_queryModel st) of
        None \<Rightarrow> Some Threw
      | Some q \<Rightarrow>
          let st1 = handleTargetChanged env (st\<lparr>st_queryModel := q\<rparr>)
          in if gq_tags (st_queryModel st1) = []
             then andThen (map_option Done (checkOtherSegments env 0 True st1))
                    (\<lambda>st. done' (st\<lparr>st_paused := False\<rparr>))
             else done' st1)"

definition addNewTag :: "environment \<Rightarrow> segment \<Rightarrow> editorState \<Rightarrow> outcome option" where
  "addNewTag env segment st =
     (case addTag \<lparr>tag_key = sg_value segment, tag_operator = js ''='', tag_value = []\<rparr> (st_queryModel st) of
        None \<Rightarrow> Some Threw
      | Some q \<Rightarrow> done' (handleTargetChanged env (st\<lparr>st_queryModel := q\<rparr>)))"

definition addFunctionAction :: "environment \<Rightarrow> jsstr \<Rightarrow> editorState \<Rightarrow> outcome option" where
  "addFunctionAction env name st =
     (let newFunc = (newFunction name True st)\<lparr>fi_added := True\<rparr>;
          st1 = smartlyHandleNewAliasByNode env newFunc (pushNewFunction newFunc st);
          st2 = (if length (st_segments st1) = 1 \<and> sg_fake (hd (st_segments st1)) then emptySegments st1 else st1);
          st3 = (case findFunction (fi_id newFunc) st2 of
                   Some f \<Rightarrow> if fi_params f = [] \<and> fi_added f then handleTargetChanged env st2 else st2
                 | None \<Rightarrow> st2)
      in if f_name (fi_def newFunc) = seriesByTag then parseTargetState env st3 else done' st3)"

definition undefinedFunction :: funcInstance where
  "undefinedFunction = newFuncInstance 0 (unknownFuncDef []) False"

definition toggleTextEditor :: "graphiteQuery \<Rightarrow> graphiteQuery" where
  "toggleTextEditor q = q\<lparr>gq_target := (gq_target q)\<lparr>tg_textEditor := \<not> tg_textEditor (gq_target q)\<rparr>\<rparr>"

definition reducer :: "environment \<Rightarrow> action \<Rightarrow> editorState \<Rightarrow> outcome option" where
  "reducer env a st =
     (case a of
        Init target queries supportsTags funcDefs \<Rightarrow> initState env target queries supportsTags funcDefs st
      | TimeRangeChanged r \<Rightarrow> done' (st\<lparr>st_range := r\<rparr>)
      | QueriesChanged qs \<Rightarrow> done' (handleTargetChanged env (st\<lparr>st_queries := qs\<rparr>))
      | QueryChanged t \<Rightarrow>
          andThen (parseTargetState env (setTarget (case t of Some s \<Rightarrow> s | None \<Rightarrow> []) st))
            (\<lambda>st. done' (handleTargetChanged env st))
      | SegmentValueChanged s i \<Rightarrow> segmentValueChanged env s i st
      | TagChanged t i \<Rightarrow> tagChanged env t i st
      | AddNewTag s \<Rightarrow> addNewTag env s st
      | Unpause \<Rightarrow> done' (refresh (st\<lparr>st_paused := False\<rparr>))
      | AddFunction name \<Rightarrow> addFunctionAction env name st
      | RemoveFunction ident \<Rightarrow> done' (handleTargetChanged env (onModel (removeFunction ident) st))
      | MoveFunction ident offset \<Rightarrow>
          done' (handleTargetChanged env (onModel (moveFunction undefinedFunction ident offset) st))
      | UpdateFunctionParam ident i value \<Rightarrow>
          done' (handleTargetChanged env (updateFunction ident (updateParam value i) st))
      | UpdateQuery query \<Rightarrow> done' (handleTargetChanged env (setTarget query st))
      | RunQuery \<Rightarrow> done' (refresh st)
      | ToggleEditorMode \<Rightarrow> parseTargetState env (onModel toggleTextEditor st))"

end
