(* ===== verification/Providers.thy ===== *)
theory Providers
  imports GraphiteStore "HOL-Library.List_Lexorder"
begin

text \<open>
  What the editor's views ask for: the suggestions of \<open>state/providers.ts\<close> and the conversions of
  \<open>components/helpers.ts\<close>.

  The data source is a parameter: \<open>sv_metrics\<close> is \<open>metricFindQuery\<close> with the time range, \<open>sv_tags\<close> and
  \<open>sv_tagValues\<close> are \<open>getTagsAutoComplete\<close> and \<open>getTagValuesAutoComplete\<close>, whose last argument is the
  limit the request names.  Providers write nothing but the two flags of the errors already shown.
\<close>

subsection \<open>Options of a drop-down\<close>

record 'a selectable =
  sel_label :: jsstr
  sel_value :: 'a

definition mapStringsToSelectables :: "jsstr list \<Rightarrow> jsstr selectable list" where
  "mapStringsToSelectables values = map (\<lambda>value. \<lparr>sel_label = value, sel_value = value\<rparr>) values"

definition mapSegmentsToSelectables :: "segment list \<Rightarrow> segment selectable list" where
  "mapSegmentsToSelectables segments = map (\<lambda>s. \<lparr>sel_label = sg_value s, sel_value = s\<rparr>) segments"

text \<open>
  The functions by category; one without a category, or with an empty one, is left out.  lodash's
  \<open>sortBy\<close> is stable and compares strings code unit by code unit.
\<close>

type_synonym categories = "(jsstr, jsstr selectable list) obj"

definition addToCategory :: "funcDef \<Rightarrow> categories \<Rightarrow> categories" where
  "addToCategory d m =
     (case f_category d of
        None \<Rightarrow> m
      | Some c \<Rightarrow>
          if c = [] then m
          else objSet c ((case objGet m c of None \<Rightarrow> [] | Some options \<Rightarrow> options)
                          @ [\<lparr>sel_label = f_name d, sel_value = f_name d\<rparr>]) m)"

definition mapFuncDefsToSelectables :: "funcDefs \<Rightarrow> (jsstr \<times> jsstr selectable list) list" where
  "mapFuncDefsToSelectables defs = sort_key fst (fold (\<lambda>(_, d). addToCategory d) defs [])"

subsection \<open>The parameters of a function\<close>

record editableParam =
  ep_name :: jsstr
  ep_value :: jsstr
  ep_optional :: bool
  ep_multiple :: bool
  ep_options :: "jsstr selectable list"

definition createEditableParam :: "paramDef \<Rightarrow> bool \<Rightarrow> pval \<Rightarrow> editableParam" where
  "createEditableParam d additional v =
     \<lparr>ep_name = p_name d,
      ep_value = (case v of PUndef \<Rightarrow> [] | PNull \<Rightarrow> [] | _ \<Rightarrow> pvalStr v),
      ep_optional = (p_optional d \<or> additional),
      ep_multiple = p_multiple d,
      ep_options = (case p_options d of
          None \<Rightarrow> []
        | Some vs \<Rightarrow> map (\<lambda>v. \<lparr>sel_label = pvalStr v, sel_value = pvalStr v\<rparr>) vs)\<rparr>"

text \<open>The loop over the values past the parameters of the definition; without any it throws.\<close>

definition lastParam :: "funcInstance \<Rightarrow> paramDef option" where
  "lastParam f = (if f_params (fi_def f) = [] then None else Some (last (f_params (fi_def f))))"

fun additionalParams :: "paramDef option \<Rightarrow> pval list \<Rightarrow> editableParam list option" where
  "additionalParams d [] = Some []"
| "additionalParams None (v # vs) = None"
| "additionalParams (Some d) (v # vs) =
     map_option (\<lambda>ps. createEditableParam d True v # ps) (additionalParams (Some d) vs)"

definition requiredParams :: "funcInstance \<Rightarrow> editableParam list" where
  "requiredParams f =
     map (\<lambda>(i, d). createEditableParam d False (if i < length (fi_params f) then fi_params f ! i else PUndef))
       (enumerate 0 (f_params (fi_def f)))"

definition mapFuncInstanceToParams :: "funcInstance \<Rightarrow> editableParam list option" where
  "mapFuncInstanceToParams f =
     (let required = requiredParams f
      in case additionalParams (lastParam f) (drop (length required) (fi_params f)) of
           None \<Rightarrow> None
         | Some additional \<Rightarrow>
             let params = required @ additional
             in if params \<noteq> [] \<and> ep_value (last params) \<noteq> [] \<and> ep_multiple (last params)
                then map_option (\<lambda>ps. params @ ps) (additionalParams (lastParam f) [PStr []])
                else Some params)"

datatype queryOrText = QueryText jsstr | QueryObject gtarget

definition convertToGraphiteQueryObject :: "queryOrText \<Rightarrow> gtarget" where
  "convertToGraphiteQueryObject query =
     (case query of
        QueryText s \<Rightarrow> \<lparr>tg_refId = js ''A'', tg_target = s, tg_targetFull = None, tg_textEditor = False\<rparr>
      | QueryObject t \<Rightarrow> t)"

subsection \<open>Suggestions\<close>

record service =
  sv_metrics :: "jsstr \<Rightarrow> jsstr option \<Rightarrow> findResult list response"
  sv_tags :: "jsstr list \<Rightarrow> jsstr \<Rightarrow> jsstr option \<Rightarrow> nat \<Rightarrow> jsstr list response"
  sv_tagValues :: "jsstr list \<Rightarrow> jsstr \<Rightarrow> jsstr \<Rightarrow> nat \<Rightarrow> jsstr list response"
  sv_variables :: "jsstr list"

definition MAX_SUGGESTIONS :: nat where
  "MAX_SUGGESTIONS = 5000"

definition GRAPHITE_TAG_OPERATORS :: "jsstr list" where
  "GRAPHITE_TAG_OPERATORS = [js ''='', js ''!='', js ''=~'', js ''!=~'']"

definition getTagOperatorsSelectables :: "jsstr selectable list" where
  "getTagOperatorsSelectables = mapStringsToSelectables GRAPHITE_TAG_OPERATORS"

definition queryRefId :: "dataQuery \<Rightarrow> jsstr" where
  "queryRefId q = (case q of GraphiteLike t \<Rightarrow> tg_refId t | OtherQuery r \<Rightarrow> r)"

definition removeTaggedEntry :: "segment list \<Rightarrow> segment list" where
  "removeTaggedEntry altSegments = filter (\<lambda>s. sg_value s \<noteq> js ''_tagged'') altSegments"

definition getTagsAsSegments :: "service \<Rightarrow> jsstr \<Rightarrow> editorState \<Rightarrow> segment list \<times> editorState" where
  "getTagsAsSegments sv tagPrefix st =
     (case sv_tags sv (renderTagExpressions None (st_queryModel st)) tagPrefix (st_range st) MAX_SUGGESTIONS of
        Found values \<Rightarrow> (map (\<lambda>v. plainSegment v\<lparr>sg_type := Some (js ''tag'')\<rparr>) values, st)
      | FailedError msg \<Rightarrow> ([], handleTagsAutoCompleteError msg st)
      | FailedOther \<Rightarrow> ([], st))"

definition addAltTagSegments :: "service \<Rightarrow> jsstr \<Rightarrow> segment list \<Rightarrow> editorState \<Rightarrow> segment list \<times> editorState" where
  "addAltTagSegments sv prefixText altSegments st =
     (case getTagsAsSegments sv prefixText st of
        (tagSegments, st') \<Rightarrow> (altSegments @ map (\<lambda>s. s\<lparr>sg_value := TAG_PREFIX @ sg_value s\<rparr>) tagSegments, st'))"

definition altQuery :: "editorState \<Rightarrow> nat \<Rightarrow> jsstr \<Rightarrow> jsstr" where
  "altQuery st i prefixText =
     (let query = (if 0 < length prefixText then [42] @ prefixText @ [42] else [42])
      in if 0 < i then getSegmentPathUpTo (st_queryModel st) i @ [46] @ query else query)"

definition foundSegments :: "findResult list \<Rightarrow> segment list" where
  "foundSegments rs = map (\<lambda>r. plainSegment (fr_text r)\<lparr>sg_expandable := fr_expandable r\<rparr>) rs"

text \<open>\<open>eachRight\<close> with \<open>unshift\<close> puts the new entries in front, in their order.\<close>

definition referenceSegments :: "editorState \<Rightarrow> segment list" where
  "referenceSegments st =
     map (\<lambda>r. plainSegment ([35] @ r)\<lparr>sg_type := Some (js ''series-ref'')\<rparr>)
       (filter (\<lambda>r. r \<noteq> tg_refId (gq_target (st_queryModel st))) (map queryRefId (st_queries st)))"

definition variableSegments :: "service \<Rightarrow> segment list" where
  "variableSegments sv =
     map (\<lambda>v. \<lparr>sg_value = [36] @ v, sg_type = Some (js ''template''), sg_expandable = True, sg_fake = False\<rparr>)
       (sv_variables sv)"

definition getAltSegments :: "service \<Rightarrow> nat \<Rightarrow> jsstr \<Rightarrow> editorState \<Rightarrow> segment list \<times> editorState" where
  "getAltSegments sv i prefixText st =
     (case sv_metrics sv (altQuery st i prefixText) (st_range st) of
        Found segments \<Rightarrow>
          if 0 < i \<and> segments = [] then ([], st)
          else
            let wildcard = plainSegment [42]\<lparr>sg_expandable := True\<rparr>;
                altSegments = take MAX_SUGGESTIONS
                  (wildcard # variableSegments sv @ (if i = 0 then referenceSegments st else [])
                     @ foundSegments segments)
            in if st_supportsTags st \<and> i = 0
               then addAltTagSegments sv prefixText (removeTaggedEntry altSegments) st
               else (altSegments, st)
      | FailedError msg \<Rightarrow> ([], handleMetricsAutoCompleteError msg st)
      | FailedOther \<Rightarrow> ([], st))"

definition getAltSegmentsSelectables :: "service \<Rightarrow> nat \<Rightarrow> jsstr \<Rightarrow> editorState \<Rightarrow> segment selectable list \<times> editorState" where
  "getAltSegmentsSelectables sv i prefixText st = map_prod mapSegmentsToSelectables id (getAltSegments sv i prefixText st)"

definition getTags :: "service \<Rightarrow> nat \<Rightarrow> jsstr \<Rightarrow> editorState \<Rightarrow> jsstr list \<times> editorState" where
  "getTags sv i tagPrefix st =
     (case sv_tags sv (renderTagExpressions (Some i) (st_queryModel st)) tagPrefix (st_range st) MAX_SUGGESTIONS of
        Found values \<Rightarrow> (st_removeTagValue st # values, st)
      | FailedError msg \<Rightarrow> ([], handleTagsAutoCompleteError msg st)
      | FailedOther \<Rightarrow> ([], st))"

definition getTagsSelectables :: "service \<Rightarrow> nat \<Rightarrow> jsstr \<Rightarrow> editorState \<Rightarrow> jsstr selectable list \<times> editorState" where
  "getTagsSelectables sv i tagPrefix st = map_prod mapStringsToSelectables id (getTags sv i tagPrefix st)"

definition getTagsAsSegmentsSelectables :: "service \<Rightarrow> jsstr \<Rightarrow> editorState \<Rightarrow> segment selectable list \<times> editorState" where
  "getTagsAsSegmentsSelectables sv tagPrefix st =
     map_prod mapSegmentsToSelectables id (getTagsAsSegments sv tagPrefix st)"

text \<open>
  The values of a tag; an error is the caller's.  \<open>push\<close> from right to left appends the variables in
  reverse.
\<close>

definition getTagValues :: "service \<Rightarrow> gtag \<Rightarrow> nat \<Rightarrow> jsstr \<Rightarrow> editorState \<Rightarrow> jsstr list response" where
  "getTagValues sv tag i valuePrefix st =
     (case sv_tagValues sv (renderTagExpressions (Some i) (st_queryModel st)) (tag_key tag) valuePrefix MAX_SUGGESTIONS of
        Found values \<Rightarrow>
          Found (values @ rev (map (\<lambda>v. js ''${'' @ v @ js '':regex}'') (sv_variables sv)))
      | FailedError msg \<Rightarrow> FailedError msg
      | FailedOther \<Rightarrow> FailedOther)"

definition getTagValuesSelectables ::
  "service \<Rightarrow> gtag \<Rightarrow> nat \<Rightarrow> jsstr \<Rightarrow> editorState \<Rightarrow> jsstr selectable list response" where
  "getTagValuesSelectables sv tag i valuePrefix st =
     (case getTagValues sv tag i valuePrefix st of
        Found values \<Rightarrow> Found (mapStringsToSelectables values)
      | FailedError msg \<Rightarrow> FailedError msg
      | FailedOther \<Rightarrow> FailedOther)"

end
