(* ===== verification/GraphiteStoreProps.thy ===== *)
theory GraphiteStoreProps
  imports GraphiteStore GraphiteQueryProps
begin

text \<open>
  The reducer of the query editor: every action returns, and throws only on an index or a tag that is
  not there; the segments shown stay those of the query model; the query runs again exactly when its
  text changed, and never while the editor is paused.
\<close>

named_theorems store_simps \<open>what the helpers of the reducer do to the parts of the state\<close>

subsection \<open>The helpers on the parts of the state\<close>

lemma onModel_simps [simp, store_simps]:
  "st_queryModel (onModel g st) = g (st_queryModel st)" "st_segments (onModel g st) = st_segments st"
  "st_paused (onModel g st) = st_paused st" "st_refreshes (onModel g st) = st_refreshes st"
  "st_funcDefs (onModel g st) = st_funcDefs st"
  by (simp_all add: onModel_def)

definition segmentsInSync :: "editorState \<Rightarrow> bool" where
  "segmentsInSync st \<longleftrightarrow> map sg_value (st_segments st) = map sg_value (gq_segments (st_queryModel st))"

lemma segmentsInSync_length: "segmentsInSync st \<Longrightarrow> length (st_segments st) = length (gq_segments (st_queryModel st))"
  unfolding segmentsInSync_def by (rule map_eq_imp_length_eq)

lemma segmentsInSync_cong:
  "st_segments st' = st_segments st \<Longrightarrow> gq_segments (st_queryModel st') = gq_segments (st_queryModel st) \<Longrightarrow>
   segmentsInSync st' = segmentsInSync st"
  by (simp add: segmentsInSync_def)

lemma addSelectMetric_sync: "segmentsInSync st \<Longrightarrow> segmentsInSync (addSelectMetric st)"
  by (simp add: segmentsInSync_def addSelectMetric_def addSelectMetricSegment_def plainSegment_def)

lemma spliceSegments_sync: "segmentsInSync st \<Longrightarrow> segmentsInSync (spliceSegments i st)"
  by (simp add: segmentsInSync_def spliceSegments_def take_map [symmetric])

lemma emptySegments_sync: "segmentsInSync (emptySegments st)"
  by (simp add: segmentsInSync_def emptySegments_def)

lemma updateModelTarget_segments:
  "gq_segments (fst (updateModelTarget rv ts q)) = gq_segments q"
  "gq_error (fst (updateModelTarget rv ts q)) = gq_error q" "gq_tags (fst (updateModelTarget rv ts q)) = gq_tags q"
  by (simp_all add: updateModelTarget_def Let_def)

lemma handleTargetChanged_fields:
  "st_segments (handleTargetChanged env st) = st_segments st"
  "gq_segments (st_queryModel (handleTargetChanged env st)) = gq_segments (st_queryModel st)"
  "gq_tags (st_queryModel (handleTargetChanged env st)) = gq_tags (st_queryModel st)"
  "st_paused (handleTargetChanged env st) = st_paused st"
  using updateModelTarget_segments [of "ev_replace env" "graphiteTargets (st_queries st)" "st_queryModel st"]
  by (auto simp: handleTargetChanged_def Let_def refresh_def split: prod.splits)

lemma handleTargetChanged_sync: "segmentsInSync (handleTargetChanged env st) = segmentsInSync st"
  by (rule segmentsInSync_cong) (simp_all add: handleTargetChanged_fields)

definition searchResult :: "editorState \<Rightarrow> editorState \<Rightarrow> bool" where
  "searchResult st st' \<longleftrightarrow>
     st' = st \<or> (\<exists>msg. st' = handleMetricsAutoCompleteError msg st) \<or> st' = addSelectMetric st \<or>
     (\<exists>k. st' = addSelectMetric (spliceSegments k st))"

lemma checkOtherSegments_cases:
  "checkOtherSegments env i m st = Some st' \<Longrightarrow> searchResult st st'"
proof (rule checkOtherSegments.raw_induct [where P = "\<lambda>env i m st st'. searchResult st st'"])
  fix f env i m st st'
  assume IH: "\<And>env i m st st'. f env i m st = Some st' \<Longrightarrow> searchResult st st'"
    and "(if onlySeriesRef (st_queryModel st) then Some st
      else if i = 0 then Some (addSelectMetric st)
      else if getSegmentPathUpTo (st_queryModel st) (nat (i + 1)) = [] then Some st
      else (case ev_find env (getSegmentPathUpTo (st_queryModel st) (nat (i + 1))) of
              Found [] \<Rightarrow> if m then Some (addSelectMetric (spliceSegments (nat i) st)) else Some st
            | Found (s # _) \<Rightarrow>
                if fr_expandable s
                then (if int (length (st_segments st)) = i then Some (addSelectMetric st) else f env (i + 1) True st)
                else Some st
            | FailedError msg \<Rightarrow> Some (handleMetricsAutoCompleteError msg st)
            | FailedOther \<Rightarrow> Some st)) = Some st'"
  then show "searchResult st st'"
    by (auto simp: searchResult_def split: if_splits response.splits list.splits dest: IH)
qed

lemma checkOtherSegments_sync:
  "checkOtherSegments env i m st = Some st' \<Longrightarrow> segmentsInSync st \<Longrightarrow> segmentsInSync st'"
proof -
  have "segmentsInSync (handleMetricsAutoCompleteError msg st) = segmentsInSync st" for msg
    by (rule segmentsInSync_cong) (simp_all add: handleMetricsAutoCompleteError_def)
  moreover assume "checkOtherSegments env i m st = Some st'" "segmentsInSync st"
  ultimately show "segmentsInSync st'"
    using checkOtherSegments_cases [of env i m st st'] addSelectMetric_sync spliceSegments_sync
    unfolding searchResult_def by metis
qed

lemma buildSegments_sync: "buildSegments env m st = Some st' \<Longrightarrow> segmentsInSync st'"
  unfolding buildSegments_def by (erule checkOtherSegments_sync) (simp add: segmentsInSync_def)

subsection \<open>The search for further segments returns\<close>

lemma checkOtherSegments_returns:
  "i \<le> int (length (st_segments st)) \<Longrightarrow> \<exists>st'. checkOtherSegments env i m st = Some st'"
proof (induction "nat (int (length (st_segments st)) - i)" arbitrary: i m rule: less_induct)
  case less
  let ?path = "getSegmentPathUpTo (st_queryModel st) (nat (i + 1))"
  show ?case
  proof (cases "\<exists>s ss. ev_find env ?path = Found (s # ss) \<and> fr_expandable s \<and> i \<noteq> 0 \<and> ?path \<noteq> [] \<and>
      \<not> onlySeriesRef (st_queryModel st) \<and> int (length (st_segments st)) \<noteq> i")
    case True
    then have lt: "i < int (length (st_segments st))" using less.prems by auto
    have "\<exists>st'. checkOtherSegments env (i + 1) True st = Some st'"
      using lt by (intro less.hyps) simp_all
    with True show ?thesis by (subst checkOtherSegments.simps) auto
  next
    case False
    then show ?thesis
      by (subst checkOtherSegments.simps) (auto split: response.splits list.splits)
  qed
qed

lemma checkOtherSegments_empty:
  "gq_segments (st_queryModel st) = [] \<Longrightarrow> \<exists>st'. checkOtherSegments env i m st = Some st'"
  by (subst checkOtherSegments.simps) (auto simp: getSegmentPathUpTo_def onlySeriesRef_def)

lemma parseTarget_index:
  assumes "parseTarget defs q = Some q'"
  shows "gq_segments q' = [] \<or> gq_checkOtherSegmentsIndex q' \<le> int (length (gq_segments q'))"
proof (cases "getAst (tg_target (gq_target q))")
  case (Parsed a)
  with assms show ?thesis
    by (auto simp: parseTarget_def Let_def parseAst_def checkFromEnd_def split: if_splits)
qed (use assms in \<open>auto simp: parseTarget_def Let_def split: if_splits\<close>)

lemma buildSegments_returns:
  assumes "gq_segments (st_queryModel st) = [] \<or>
    gq_checkOtherSegmentsIndex (st_queryModel st) \<le> int (length (gq_segments (st_queryModel st)))"
  shows "\<exists>st'. buildSegments env m st = Some st'"
  using assms
proof
  assume "gq_segments (st_queryModel st) = []"
  then show ?thesis unfolding buildSegments_def by (intro checkOtherSegments_empty) simp
next
  assume "gq_checkOtherSegmentsIndex (st_queryModel st) \<le> int (length (gq_segments (st_queryModel st)))"
  then show ?thesis unfolding buildSegments_def by (intro checkOtherSegments_returns) simp
qed

lemma parseTarget_Some: "\<exists>q'. parseTarget defs q = Some q'"
  using getAst_defined [of "tg_target (gq_target q)"]
  by (cases "getAst (tg_target (gq_target q))") (auto simp: parseTarget_def Let_def)

lemma parseTargetState_returns:
  "\<exists>st'. parseTargetState env st = Some (Done st') \<and> segmentsInSync st'"
proof -
  obtain q where q: "parseTarget (st_funcDefs st) (st_queryModel st) = Some q"
    using parseTarget_Some by blast
  have "gq_segments q = [] \<or> gq_checkOtherSegmentsIndex q \<le> int (length (gq_segments q))"
    using parseTarget_index [OF q] .
  then obtain st' where "buildSegments env True (st\<lparr>st_queryModel := q\<rparr>) = Some st'"
    using buildSegments_returns [of "st\<lparr>st_queryModel := q\<rparr>"] by auto
  with q buildSegments_sync [OF this] show ?thesis by (simp add: parseTargetState_def)
qed

lemma initState_returns:
  "\<exists>st'. initState env target queries supportsTags funcDefs st = Some (Done st') \<and> segmentsInSync st'"
proof -
  let ?q0 = "\<lparr>gq_target = target, gq_functions = [], gq_segments = [], gq_tags = [], gq_error = None,
        gq_seriesByTagUsed = False, gq_checkOtherSegmentsIndex = 0, gq_nextId = 0\<rparr>"
  obtain q where q: "parseTarget funcDefs ?q0 = Some q" using parseTarget_Some by blast
  let ?st = "st\<lparr>st_queryModel := q, st_supportsTags := supportsTags, st_paused := False,
        st_removeTagValue := removeTagValue, st_funcDefs := funcDefs, st_queries := queries\<rparr>"
  obtain st' where "buildSegments env False ?st = Some st'"
    using buildSegments_returns [of ?st] parseTarget_index [OF q] by auto
  with q buildSegments_sync [OF this] show ?thesis
    by (simp add: initState_def newGraphiteQuery_def)
qed

text \<open>The actions that throw: a segment that is not there, a tag without the function \<open>seriesByTag\<close>.\<close>

definition refused :: "action \<Rightarrow> editorState \<Rightarrow> bool" where
  "refused a st \<longleftrightarrow>
     (case a of
        SegmentValueChanged _ i \<Rightarrow> length (gq_segments (st_queryModel st)) \<le> i
      | TagChanged _ _ \<Rightarrow> getSeriesByTagFunc (st_queryModel st) = None
      | AddNewTag _ \<Rightarrow> getSeriesByTagFunc (st_queryModel st) = None
      | _ \<Rightarrow> False)"

definition endsWell :: "action \<Rightarrow> editorState \<Rightarrow> outcome option \<Rightarrow> bool" where
  "endsWell a st r \<longleftrightarrow>
     (case r of
        None \<Rightarrow> False
      | Some Threw \<Rightarrow> refused a st
      | Some (Done st') \<Rightarrow> \<not> refused a st \<and> segmentsInSync st')"

lemma endsWell_done [simp]: "endsWell a st (done' st') \<longleftrightarrow> \<not> refused a st \<and> segmentsInSync st'"
  by (simp add: endsWell_def done'_def)

lemma endsWell_parse: "\<not> refused a st \<Longrightarrow> endsWell a st (parseTargetState env st')"
  using parseTargetState_returns [of env st'] by (auto simp: endsWell_def)

lemma updateTagParams_None: "updateTagParams g q = None \<longleftrightarrow> getSeriesByTagFunc q = None"
  by (auto simp: updateTagParams_def getSeriesByTagFunc_def split: option.splits)

lemma updateTagParams_segments: "updateTagParams g q = Some q' \<Longrightarrow> gq_segments q' = gq_segments q"
  by (auto simp: updateTagParams_def split: option.splits)

lemma updateTag_segments: "updateTag t i q = Some q' \<Longrightarrow> gq_segments q' = gq_segments q"
  by (auto simp: updateTag_def removeTag_def removeSeriesByTagFunc_def removeFunction_def Let_def
      dest!: updateTagParams_segments split: if_splits option.splits)

lemma updateTag_None: "updateTag t i q = None \<longleftrightarrow> getSeriesByTagFunc q = None"
  using getSeriesByTagFunc_cong [of "q\<lparr>gq_error := None\<rparr>" q]
  by (simp add: updateTag_def removeTag_def Let_def updateTagParams_None)

lemma onModel_sync:
  "(\<And>q. gq_segments (g q) = gq_segments q) \<Longrightarrow> segmentsInSync (onModel g st) = segmentsInSync st"
  by (rule segmentsInSync_cong) simp_all

lemma edits_keep_segments:
  "gq_segments (removeFunction k q) = gq_segments q" "gq_segments (moveFunction u k offset q) = gq_segments q"
  "gq_segments ((addFunction f q)\<lparr>gq_nextId := n\<rparr>) = gq_segments q"
  by (simp_all add: removeFunction_def moveFunction_def addFunction_def Let_def)

lemma updateFunction_sync: "segmentsInSync (updateFunction k g st) = segmentsInSync st"
  unfolding updateFunction_def by (rule onModel_sync) simp

lemma pushNewFunction_sync: "segmentsInSync (pushNewFunction f st) = segmentsInSync st"
  unfolding pushNewFunction_def by (rule onModel_sync) (simp add: edits_keep_segments)

lemma smartly_sync: "segmentsInSync (smartlyHandleNewAliasByNode env f st) = segmentsInSync st"
  by (auto simp: smartlyHandleNewAliasByNode_def handleTargetChanged_sync updateFunction_sync split: option.split)

lemma segmentValueChanged_ends:
  assumes "segmentsInSync st"
  shows "endsWell (SegmentValueChanged s i) st (segmentValueChanged env s i st)"
proof (cases "i < length (gq_segments (st_queryModel st))")
  case False
  then show ?thesis
    by (simp add: segmentValueChanged_def updateSegmentValue_def Let_def endsWell_def refused_def)
next
  case True
  define seg where "seg = (case s of SegString s \<Rightarrow> plainSegment s\<lparr>sg_expandable := True\<rparr> | SegSegment s \<Rightarrow> s)"
  define q where "q = (st_queryModel st)\<lparr>gq_segments :=
      (gq_segments (st_queryModel st))[i := (gq_segments (st_queryModel st) ! i)\<lparr>sg_value := sg_value seg\<rparr>]\<rparr>"
  define st2 where "st2 = st\<lparr>st_error := None,
      st_segments := arraySet (plainSegment []) (st_segments st) i seg, st_queryModel := resetFake q\<rparr>"
  note len = segmentsInSync_length [OF assms]
  have rf: "gq_segments (resetFake x) = gq_segments x" for x by (simp add: resetFake_def)
  have sync: "segmentsInSync st2"
    using assms True len by (simp add: segmentsInSync_def st2_def rf q_def arraySet_def map_update)
  have nr: "\<not> refused (SegmentValueChanged s i) st" using True by (simp add: refused_def)
  have eq: "segmentValueChanged env s i st =
      (if sg_type seg = Some (js ''tag'')
       then addSeriesByTagFunc env (removeTagPrefix (sg_value seg)) (pause st2)
       else andThen
              (if sg_expandable seg then map_option Done (checkOtherSegments env (int i + 1) True st2)
               else done' (spliceSegments (i + 1) st2))
              (\<lambda>st. done' (handleTargetChanged env st)))"
    using True by (simp add: segmentValueChanged_def updateSegmentValue_def Let_def seg_def q_def st2_def)
  show ?thesis
  proof (cases "sg_type seg = Some (js ''tag'')")
    case True
    then show ?thesis unfolding eq using nr by (simp add: addSeriesByTagFunc_def Let_def endsWell_parse)
  next
    case no_tag: False
    show ?thesis
    proof (cases "sg_expandable seg")
      case True
      have "int i + 1 \<le> int (length (st_segments st2))"
        using \<open>i < length (gq_segments _)\<close> len by (simp add: st2_def arraySet_def)
      then obtain st3 where "checkOtherSegments env (int i + 1) True st2 = Some st3"
        using checkOtherSegments_returns by blast
      with True no_tag nr checkOtherSegments_sync [OF this sync] show ?thesis
        unfolding eq by (simp add: andThen_def handleTargetChanged_sync)
    next
      case False
      with no_tag nr spliceSegments_sync [OF sync] show ?thesis
        unfolding eq by (simp add: andThen_def done'_def handleTargetChanged_sync endsWell_def)
    qed
  qed
qed

lemma tagChanged_ends:
  assumes "segmentsInSync st"
  shows "endsWell (TagChanged t i) st (tagChanged env t i st)"
proof (cases "updateTag t i (st_queryModel st)")
  case None
  then have "getSeriesByTagFunc (st_queryModel st) = None" using updateTag_None by blast
  with None show ?thesis by (simp add: tagChanged_def endsWell_def refused_def)
next
  case (Some q)
  let ?st1 = "handleTargetChanged env (st\<lparr>st_queryModel := q\<rparr>)"
  have nr: "\<not> refused (TagChanged t i) st"
    using Some updateTag_None [of t i "st_queryModel st"] by (simp add: refused_def)
  have "segmentsInSync (st\<lparr>st_queryModel := q\<rparr>) = segmentsInSync st"
    using updateTag_segments [OF Some] by (intro segmentsInSync_cong) simp_all
  with assms have sync: "segmentsInSync ?st1" by (simp add: handleTargetChanged_sync)
  obtain st2 where c: "checkOtherSegments env 0 True ?st1 = Some st2"
    using checkOtherSegments_returns [of 0 ?st1] by auto
  have "segmentsInSync (st2\<lparr>st_paused := False\<rparr>) = segmentsInSync st2"
    by (rule segmentsInSync_cong) simp_all
  with checkOtherSegments_sync [OF c sync] c nr Some sync show ?thesis
    by (simp add: tagChanged_def Let_def andThen_def)
qed

lemma addNewTag_ends:
  assumes "segmentsInSync st"
  shows "endsWell (AddNewTag s) st (addNewTag env s st)"
proof -
  let ?t = "\<lparr>tag_key = sg_value s, tag_operator = js ''='', tag_value = []\<rparr>"
  have n: "addTag ?t (st_queryModel st) = None \<longleftrightarrow> getSeriesByTagFunc (st_queryModel st) = None"
    by (simp add: addTag_def updateTagParams_None)
  show ?thesis
  proof (cases "addTag ?t (st_queryModel st)")
    case None
    with n show ?thesis by (simp add: addNewTag_def endsWell_def refused_def)
  next
    case (Some q)
    then have "gq_segments q = gq_segments (st_queryModel st)"
      by (auto simp: addTag_def dest!: updateTagParams_segments)
    then have "segmentsInSync (st\<lparr>st_queryModel := q\<rparr>) = segmentsInSync st"
      by (intro segmentsInSync_cong) simp_all
    with Some n assms show ?thesis
      by (simp add: addNewTag_def handleTargetChanged_sync refused_def)
  qed
qed

lemma addFunction_ends:
  assumes "segmentsInSync st"
  shows "endsWell (AddFunction name) st (addFunctionAction env name st)"
proof -
  define f where "f = (newFunction name True st)\<lparr>fi_added := True\<rparr>"
  define st1 where "st1 = smartlyHandleNewAliasByNode env f (pushNewFunction f st)"
  define st2 where "st2 = (if length (st_segments st1) = 1 \<and> sg_fake (hd (st_segments st1)) then emptySegments st1 else st1)"
  define st3 where "st3 = (case findFunction (fi_id f) st2 of
      Some g \<Rightarrow> if fi_params g = [] \<and> fi_added g then handleTargetChanged env st2 else st2 | None \<Rightarrow> st2)"
  have "segmentsInSync st1" using assms by (simp add: st1_def smartly_sync pushNewFunction_sync)
  then have "segmentsInSync st2" by (simp add: st2_def emptySegments_sync)
  then have "segmentsInSync st3" by (simp add: st3_def handleTargetChanged_sync split: option.split)
  moreover have nr: "\<not> refused (AddFunction name) st" by (simp add: refused_def)
  moreover have "addFunctionAction env name st =
      (if f_name (fi_def f) = seriesByTag then parseTargetState env st3 else done' st3)"
    by (simp only: addFunctionAction_def Let_def f_def st1_def st2_def st3_def)
  ultimately show ?thesis by (simp add: endsWell_parse)
qed

lemma reducer_endsWell:
  assumes "segmentsInSync st"
  shows "endsWell a st (reducer env a st)"
proof -
  have cong: "segmentsInSync (st\<lparr>st_range := r\<rparr>) = segmentsInSync st"
    "segmentsInSync (st\<lparr>st_queries := qs\<rparr>) = segmentsInSync st"
    "segmentsInSync (refresh st) = segmentsInSync st"
    "segmentsInSync (refresh (st\<lparr>st_paused := False\<rparr>)) = segmentsInSync st" for r qs
    by (rule segmentsInSync_cong; simp add: refresh_def)+
  show ?thesis
  proof (cases a)
    case (Init target queries tags defs)
    with initState_returns [of env target queries tags defs st] show ?thesis
      by (auto simp: reducer_def endsWell_def refused_def)
  next
    case (QueryChanged t)
    with parseTargetState_returns [of env "setTarget (case t of Some s \<Rightarrow> s | None \<Rightarrow> []) st"] show ?thesis
      by (auto simp: reducer_def andThen_def refused_def handleTargetChanged_sync)
  next
    case (SegmentValueChanged s i)
    with segmentValueChanged_ends [OF assms] show ?thesis by (simp add: reducer_def)
  next
    case (TagChanged t i)
    with tagChanged_ends [OF assms] show ?thesis by (simp add: reducer_def)
  next
    case (AddNewTag s)
    with addNewTag_ends [OF assms] show ?thesis by (simp add: reducer_def)
  next
    case (AddFunction n)
    with addFunction_ends [OF assms] show ?thesis by (simp add: reducer_def)
  next
    case ToggleEditorMode
    then show ?thesis using parseTargetState_returns [of env "onModel toggleTextEditor st"]
      by (auto simp: reducer_def endsWell_def refused_def)
  qed (use assms cong in \<open>simp_all add: reducer_def refused_def handleTargetChanged_sync onModel_sync
        edits_keep_segments updateFunction_sync setTarget_def\<close>)
qed


subsection \<open>When the query runs\<close>

lemma updateModelTarget_text:
  "tg_target (gq_target (fst (updateModelTarget rv ts q))) =
     (if tg_textEditor (gq_target q) then tg_target (gq_target q) else renderFunctions rv q)"
  "tg_textEditor (gq_target (fst (updateModelTarget rv ts q))) = tg_textEditor (gq_target q)"
  "\<forall>f \<in> set (gq_functions (fst (updateModelTarget rv ts q))). \<not> fi_added f"
  by (auto simp: updateModelTarget_def updateRenderedTarget_def Let_def)

text \<open>
  After a change of the query model the text of the query is the one rendered from the
  model, unless it is edited as text or has an error; and the query runs, once, exactly when that
  text is a new one and the editor is not paused.
\<close>

theorem handleTargetChanged_refreshes:
  "tg_target (gq_target (st_queryModel (handleTargetChanged env st))) =
     (if gq_error (st_queryModel st) = None \<and> \<not> tg_textEditor (gq_target (st_queryModel st))
      then renderFunctions (ev_replace env) (st_queryModel st)
      else tg_target (gq_target (st_queryModel st)))
   \<and> st_refreshes (handleTargetChanged env st) = st_refreshes st +
     (if gq_error (st_queryModel st) = None \<and> \<not> st_paused st \<and> \<not> tg_textEditor (gq_target (st_queryModel st))
         \<and> renderFunctions (ev_replace env) (st_queryModel st) \<noteq> tg_target (gq_target (st_queryModel st))
      then 1 else 0)"
  using updateModelTarget_text [of "ev_replace env" "graphiteTargets (st_queries st)" "st_queryModel st"]
  by (auto simp: handleTargetChanged_def Let_def refresh_def split: prod.splits)

definition runsOnce :: "editorState \<Rightarrow> editorState \<Rightarrow> bool" where
  "runsOnce st st' \<longleftrightarrow> st_refreshes st' = st_refreshes st \<or>
     \<not> st_paused st \<and> st_refreshes st' = Suc (st_refreshes st)"

lemma runsOnce_same: "st_refreshes st' = st_refreshes st \<Longrightarrow> runsOnce st st'"
  by (simp add: runsOnce_def)

lemma runsOnce_handle:
  "runsOnce st0 st \<Longrightarrow> st_refreshes st = st_refreshes st0 \<Longrightarrow> st_paused st = st_paused st0 \<Longrightarrow>
   runsOnce st0 (handleTargetChanged env st)"
  by (auto simp: runsOnce_def handleTargetChanged_def Let_def refresh_def split: prod.splits)

lemma searchResult_keeps:
  assumes "searchResult st st'"
  shows "st_refreshes st' = st_refreshes st" "st_paused st' = st_paused st"
  using assms
  by (auto simp: searchResult_def handleMetricsAutoCompleteError_def addSelectMetric_def spliceSegments_def
      split: if_splits)

lemmas search_keeps = searchResult_keeps [OF checkOtherSegments_cases]

lemma buildSegments_keeps:
  assumes "buildSegments env m st = Some st'"
  shows "st_refreshes st' = st_refreshes st" "st_paused st' = st_paused st"
  using search_keeps [OF assms [unfolded buildSegments_def]] by simp_all

lemma parseTargetState_keeps:
  assumes "parseTargetState env st = Some (Done st')"
  shows "st_refreshes st' = st_refreshes st" "st_paused st' = st_paused st"
proof -
  from assms obtain q where "buildSegments env True (st\<lparr>st_queryModel := q\<rparr>) = Some st'"
    by (auto simp: parseTargetState_def split: option.splits)
  from buildSegments_keeps [OF this]
  show "st_refreshes st' = st_refreshes st" "st_paused st' = st_paused st" by simp_all
qed

lemma helper_keeps:
  "st_refreshes (spliceSegments i st) = st_refreshes st" "st_paused (spliceSegments i st) = st_paused st"
  "st_refreshes (emptySegments st) = st_refreshes st" "st_paused (emptySegments st) = st_paused st"
  "st_refreshes (pushNewFunction f st) = st_refreshes st" "st_paused (pushNewFunction f st) = st_paused st"
  "st_refreshes (updateFunction i g st) = st_refreshes st" "st_paused (updateFunction i g st) = st_paused st"
  "st_refreshes (setTarget s st) = st_refreshes st" "st_paused (setTarget s st) = st_paused st"
  "st_refreshes (pause st) = st_refreshes st"
  by (simp_all add: spliceSegments_def emptySegments_def pushNewFunction_def updateFunction_def setTarget_def pause_def)

lemma addFunction_runsOnce:
  assumes "addFunctionAction env name st = Some (Done st')"
  shows "runsOnce st st'"
proof -
  define f where "f = (newFunction name True st)\<lparr>fi_added := True\<rparr>"
  define st0 where "st0 = pushNewFunction f st"
  define st1 where "st1 = smartlyHandleNewAliasByNode env f st0"
  define st2 where "st2 = (if length (st_segments st1) = 1 \<and> sg_fake (hd (st_segments st1)) then emptySegments st1 else st1)"
  define st3 where "st3 = (case findFunction (fi_id f) st2 of
      Some g \<Rightarrow> if fi_params g = [] \<and> fi_added g then handleTargetChanged env st2 else st2 | None \<Rightarrow> st2)"
  have k0: "st_refreshes st0 = st_refreshes st" "st_paused st0 = st_paused st"
    by (simp_all add: st0_def helper_keeps)
  have k2: "st_refreshes st2 = st_refreshes st1" "st_paused st2 = st_paused st1"
    "gq_functions (st_queryModel st2) = gq_functions (st_queryModel st1)"
    "gq_error (st_queryModel st2) = gq_error (st_queryModel st1)"
    by (simp_all add: st2_def helper_keeps) (simp_all add: emptySegments_def)
  have eq: "addFunctionAction env name st =
      (if f_name (fi_def f) = seriesByTag then parseTargetState env st3 else done' st3)"
    by (simp only: addFunctionAction_def Let_def f_def st0_def st1_def st2_def st3_def)
  have "runsOnce st st3"
  proof (cases "st1 = st0")
    case True
    with k0 k2 have "st_refreshes st2 = st_refreshes st" "st_paused st2 = st_paused st" by simp_all
    moreover from this have "runsOnce st (handleTargetChanged env st2)"
      by (intro runsOnce_handle) (simp_all add: runsOnce_def)
    ultimately show ?thesis by (auto simp: st3_def runsOnce_def split: option.split)
  next
    case False
    then obtain sx where h: "st1 = handleTargetChanged env sx"
      and sx: "st_refreshes sx = st_refreshes st" "st_paused sx = st_paused st"
      using k0 by (auto simp: st1_def smartlyHandleNewAliasByNode_def helper_keeps split: if_splits option.splits)
    show ?thesis
    proof (cases "gq_error (st_queryModel sx) = None")
      case True
      have "\<forall>g \<in> set (gq_functions (st_queryModel st2)). \<not> fi_added g"
        using True k2 updateModelTarget_text(3)
          [of "ev_replace env" "graphiteTargets (st_queries sx)" "st_queryModel sx"]
        by (auto simp: h handleTargetChanged_def Let_def refresh_def split: prod.splits if_splits)
      then have "st3 = st2"
        by (auto simp: st3_def findFunction_def find_Some_iff split: option.split)
      moreover have "runsOnce st st1"
        unfolding h by (rule runsOnce_handle) (use sx in \<open>simp_all add: runsOnce_def\<close>)
      ultimately show ?thesis using k2 by (simp add: runsOnce_def)
    next
      case False
      then have "st1 = sx" by (auto simp: h handleTargetChanged_def)
      with False k2 have "handleTargetChanged env st2 = st2" by (simp add: handleTargetChanged_def)
      then have "st3 = st2" by (simp add: st3_def split: option.split)
      with \<open>st1 = sx\<close> k2 sx show ?thesis by (simp add: runsOnce_def)
    qed
  qed
  with assms eq show ?thesis
    by (auto simp: runsOnce_def done'_def parseTargetState_keeps(1) split: if_splits)
qed

lemma addSeriesByTag_paused:
  assumes "addSeriesByTagFunc env tagName st = Some (Done st')" "st_paused st"
  shows "st_refreshes st' = st_refreshes st" "st_paused st'"
proof -
  from assms(1) obtain f where
    p: "parseTargetState env (handleTargetChanged env (emptySegments (pushNewFunction f st))) = Some (Done st')"
    by (auto simp: addSeriesByTagFunc_def Let_def)
  let ?st = "emptySegments (pushNewFunction f st)"
  have "runsOnce ?st (handleTargetChanged env ?st)" by (rule runsOnce_handle) (simp_all add: runsOnce_def)
  then show "st_refreshes st' = st_refreshes st" "st_paused st'"
    using parseTargetState_keeps [OF p] assms(2)
    by (auto simp: runsOnce_def helper_keeps handleTargetChanged_fields)
qed

lemma segmentValueChanged_runsOnce:
  assumes "segmentValueChanged env s i st = Some (Done st')"
  shows "runsOnce st st'"
proof -
  define seg where "seg = (case s of SegString v \<Rightarrow> plainSegment v\<lparr>sg_expandable := True\<rparr> | SegSegment x \<Rightarrow> x)"
  let ?st1 = "st\<lparr>st_error := None, st_segments := arraySet (plainSegment []) (st_segments st) i seg\<rparr>"
  from assms obtain q where q: "updateSegmentValue seg i (st_queryModel ?st1) = Some q"
    unfolding segmentValueChanged_def Let_def seg_def [symmetric]
    by (cases "updateSegmentValue seg i (st_queryModel ?st1)") simp_all
  define st2 where "st2 = st\<lparr>st_error := None,
      st_segments := arraySet (plainSegment []) (st_segments st) i seg, st_queryModel := resetFake q\<rparr>"
  have eq: "segmentValueChanged env s i st =
      (if sg_type seg = Some (js ''tag'')
       then addSeriesByTagFunc env (removeTagPrefix (sg_value seg)) (pause st2)
       else andThen
              (if sg_expandable seg
               then map_option Done (checkOtherSegments env (int i + 1) True st2)
               else done' (spliceSegments (i + 1) st2))
              (\<lambda>st. done' (handleTargetChanged env st)))"
    using q unfolding segmentValueChanged_def Let_def seg_def [symmetric] st2_def by simp
  have k: "st_refreshes st2 = st_refreshes st" "st_paused st2 = st_paused st" by (simp_all add: st2_def)
  show ?thesis
  proof (cases "sg_type seg = Some (js ''tag'')")
    case True
    with assms eq have "addSeriesByTagFunc env (removeTagPrefix (sg_value seg)) (pause st2) = Some (Done st')" by simp
    from addSeriesByTag_paused(1) [OF this] k show ?thesis by (simp add: runsOnce_def helper_keeps pause_def)
  next
    case False
    with assms eq obtain st3 where "st' = handleTargetChanged env st3"
      and "checkOtherSegments env (int i + 1) True st2 = Some st3 \<or> st3 = spliceSegments (i + 1) st2"
      by (auto simp: andThen_def done'_def split: if_splits option.splits)
    with k search_keeps [of env "int i + 1" True st2 st3]
    have "st_refreshes st3 = st_refreshes st" "st_paused st3 = st_paused st" by (auto simp: helper_keeps)
    with \<open>st' = _\<close> show ?thesis by (simp add: runsOnce_handle runsOnce_same)
  qed
qed

lemma tagChanged_runsOnce:
  assumes "tagChanged env t i st = Some (Done st')"
  shows "runsOnce st st'"
proof -
  from assms obtain q where q: "updateTag t i (st_queryModel st) = Some q"
    by (cases "updateTag t i (st_queryModel st)") (simp_all add: tagChanged_def)
  define st1 where "st1 = handleTargetChanged env (st\<lparr>st_queryModel := q\<rparr>)"
  have "st' = st1 \<or>
      (\<exists>st2. checkOtherSegments env 0 True st1 = Some st2 \<and> st' = st2\<lparr>st_paused := False\<rparr>)"
    using assms q unfolding st1_def
    by (auto simp: tagChanged_def Let_def andThen_def done'_def split: if_splits option.splits)
  moreover have "runsOnce st st1"
    unfolding st1_def by (rule runsOnce_handle) (simp_all add: runsOnce_def)
  ultimately show ?thesis
    using search_keeps [of env 0 True st1] by (auto simp: runsOnce_def)
qed

text \<open>
  One action runs the query at most once; while the editor is paused only the actions that
  run it on purpose do.
\<close>

theorem reducer_runs_at_most_once:
  assumes "reducer env a st = Some (Done st')"
  shows "st_refreshes st' = st_refreshes st \<or>
    ((\<not> st_paused st \<or> a = Unpause \<or> a = RunQuery) \<and> st_refreshes st' = Suc (st_refreshes st))"
proof -
  have handled: "runsOnce st (handleTargetChanged env st1)"
    if "st_refreshes st1 = st_refreshes st" "st_paused st1 = st_paused st" for st1
    using that by (intro runsOnce_handle) (simp_all add: runsOnce_def)
  have "runsOnce st st' \<or> (a = Unpause \<or> a = RunQuery) \<and> st_refreshes st' = Suc (st_refreshes st)"
  proof (cases a)
    case (Init target queries tags defs)
    then show ?thesis
      using assms by (auto simp: reducer_def initState_def runsOnce_def buildSegments_keeps split: option.splits)
  next
    case (QueryChanged t)
    with assms obtain st1 where
      "parseTargetState env (setTarget (case t of Some s \<Rightarrow> s | None \<Rightarrow> []) st) = Some (Done st1)"
      "st' = handleTargetChanged env st1"
      by (auto simp: reducer_def andThen_def done'_def split: option.splits outcome.splits)
    with parseTargetState_keeps [of env "setTarget (case t of Some s \<Rightarrow> s | None \<Rightarrow> []) st" st1] show ?thesis
      by (simp add: handled helper_keeps)
  next
    case (SegmentValueChanged s i)
    with assms show ?thesis using segmentValueChanged_runsOnce by (simp add: reducer_def)
  next
    case (TagChanged t i)
    with assms show ?thesis using tagChanged_runsOnce by (simp add: reducer_def)
  next
    case (AddNewTag s)
    with assms show ?thesis
      by (auto simp: reducer_def addNewTag_def done'_def handled split: option.splits)
  next
    case (AddFunction n)
    with assms addFunction_runsOnce show ?thesis by (simp add: reducer_def)
  next
    case ToggleEditorMode
    with assms parseTargetState_keeps [of env "onModel toggleTextEditor st" st'] show ?thesis
      by (simp add: reducer_def runsOnce_def)
  qed (use assms in \<open>auto simp: reducer_def done'_def handled helper_keeps refresh_def intro: runsOnce_same\<close>)
  then show ?thesis by (auto simp: runsOnce_def)
qed

text \<open>A state of the editor with one segment, whose text is not yet the rendered one.\<close>

definition demoState :: editorState where
  "demoState = \<lparr>st_queryModel =
       \<lparr>gq_target = \<lparr>tg_refId = js ''A'', tg_target = js ''old'', tg_targetFull = None, tg_textEditor = False\<rparr>,
        gq_functions = [], gq_segments = [plainSegment (js ''app'')], gq_tags = [], gq_error = None,
        gq_seriesByTagUsed = False, gq_checkOtherSegmentsIndex = 0, gq_nextId = 0\<rparr>,
     st_segments = [plainSegment (js ''app'')], st_queries = [], st_range = None, st_supportsTags = True,
     st_paused = False, st_removeTagValue = removeTagValue, st_funcDefs = None, st_error = None,
     st_tagsErrorShown = False, st_metricErrorShown = False, st_notifications = [], st_refreshes = 0\<rparr>"

definition demoEnv :: environment where
  "demoEnv = \<lparr>ev_find = (\<lambda>_. Found []), ev_replace = id\<rparr>"


lemma reducer_runs_at_most_once_witness:
  "\<exists>st'. reducer demoEnv (QueriesChanged []) demoState = Some (Done st') \<and> st_refreshes st' = 1"
proof -
  let ?st = "handleTargetChanged demoEnv (demoState\<lparr>st_queries := []\<rparr>)"
  have r: "reducer demoEnv (QueriesChanged []) demoState = Some (Done ?st)"
    by (simp add: reducer_def done'_def)
  have "st_refreshes ?st \<noteq> st_refreshes demoState"
    by (simp add: handleTargetChanged_def updateModelTarget_def demoState_def demoEnv_def renderFunctions_def
        metricPath_def getSegmentPathUpTo_def plainSegment_def stripSelectMetric_def refresh_def
        updateRenderedTarget_def joinPath_def js_defs)
  with reducer_runs_at_most_once [OF r] r show ?thesis
    by (auto simp: demoState_def)
qed

end
