(* ===== verification/ProvidersProps.thy ===== *)
theory ProvidersProps
  imports Providers GraphiteStoreProps
begin

text \<open>
  The drop-downs of the editor: the functions by category, the parameters of a function before and
  after one is edited, the number of suggestions, and the errors a session of the editor reports.
\<close>

subsection \<open>Functions by category\<close>

definition namesIn :: "jsstr \<Rightarrow> funcDefs \<Rightarrow> jsstr selectable list" where
  "namesIn c defs =
     map (\<lambda>(_, d). \<lparr>sel_label = f_name d, sel_value = f_name d\<rparr>) (filter (\<lambda>(_, d). f_category d = Some c) defs)"

definition categoriesOk :: "funcDefs \<Rightarrow> categories \<Rightarrow> bool" where
  "categoriesOk defs m \<longleftrightarrow> objKeysOk m \<and>
     (\<forall>c. objGet m c = (if c = [] \<or> namesIn c defs = [] then None else Some (namesIn c defs)))"

lemma categoriesOk_step:
  assumes "categoriesOk defs m"
  shows "categoriesOk (defs @ [(k, d)]) (addToCategory d m)"
proof (cases "f_category d")
  case None
  with assms show ?thesis by (simp add: categoriesOk_def addToCategory_def namesIn_def)
next
  case (Some c)
  have n: "namesIn c' (defs @ [(k, d)]) =
      namesIn c' defs @ (if c' = c then [\<lparr>sel_label = f_name d, sel_value = f_name d\<rparr>] else [])" for c'
    using Some by (simp add: namesIn_def)
  show ?thesis
  proof (cases "c = []")
    case True
    with assms Some n show ?thesis by (simp add: categoriesOk_def addToCategory_def)
  next
    case False
    with assms Some n show ?thesis
      by (simp add: categoriesOk_def addToCategory_def obj.ok_set obj.get_set)
  qed
qed

lemma categoriesOk_fold: "categoriesOk defs (fold (\<lambda>(_, d). addToCategory d) defs [])"
proof (induction defs rule: rev_induct)
  case Nil
  show ?case by (simp add: categoriesOk_def objKeysOk_def namesIn_def)
next
  case (snoc p defs)
  then show ?case by (cases p) (simp add: categoriesOk_step)
qed

text \<open>
  The drop-down of functions has one group for every category that occurs, in increasing
  order, and a group holds the functions of its category, each once for each time it is registered and
  in the order of the registry.
\<close>

theorem mapFuncDefsToSelectables_groups:
  "sorted_wrt (<) (map fst (mapFuncDefsToSelectables defs)) \<and>
   (\<forall>c options. (c, options) \<in> set (mapFuncDefsToSelectables defs) \<longleftrightarrow>
      c \<noteq> [] \<and> options \<noteq> [] \<and> options = namesIn c defs)"
proof -
  let ?m = "fold (\<lambda>(_, d). addToCategory d) defs []"
  have ok: "objKeysOk ?m" and get: "objGet ?m c = (if c = [] \<or> namesIn c defs = [] then None else Some (namesIn c defs))" for c
    using categoriesOk_fold [of defs] by (simp_all add: categoriesOk_def)
  have "distinct (map fst (mapFuncDefsToSelectables defs))"
    using ok by (simp add: mapFuncDefsToSelectables_def objKeysOk_def distinct_map)
  moreover have "sorted (map fst (mapFuncDefsToSelectables defs))"
    by (simp add: mapFuncDefsToSelectables_def)
  ultimately have "sorted_wrt (<) (map fst (mapFuncDefsToSelectables defs))"
    by (simp add: strict_sorted_iff)
  moreover have "(c, options) \<in> set (mapFuncDefsToSelectables defs) \<longleftrightarrow> objGet ?m c = Some options" for c options
    using ok by (simp add: mapFuncDefsToSelectables_def objGet_def objKeysOk_def)
  ultimately show ?thesis by (auto simp: get)
qed


subsection \<open>The parameters of a function\<close>

definition paramsShowable :: "funcInstance \<Rightarrow> bool" where
  "paramsShowable f \<longleftrightarrow> (f_params (fi_def f) = [] \<longrightarrow> fi_params f = [])"

definition paramCount :: "funcInstance \<Rightarrow> nat" where
  "paramCount f = max (length (f_params (fi_def f))) (length (fi_params f))"

definition shownParam :: "funcInstance \<Rightarrow> nat \<Rightarrow> editableParam" where
  "shownParam f i =
     createEditableParam (f_params (fi_def f) ! min i (length (f_params (fi_def f)) - 1))
       (length (f_params (fi_def f)) \<le> i) (if i < length (fi_params f) then fi_params f ! i else PUndef)"

text \<open>The empty parameter that invites another value.\<close>

definition invitation :: "funcInstance \<Rightarrow> editableParam list" where
  "invitation f =
     (if 0 < paramCount f \<and> ep_value (shownParam f (paramCount f - 1)) \<noteq> [] \<and> lastMultiple (fi_def f)
      then [createEditableParam (last (f_params (fi_def f))) True (PStr [])] else [])"

lemma additionalParams_Some: "additionalParams (Some d) vs = Some (map (createEditableParam d True) vs)"
  by (induction vs) simp_all

lemma shown_params:
  assumes "f_params (fi_def f) \<noteq> []"
  shows "requiredParams f
      @ map (createEditableParam (last (f_params (fi_def f))) True) (drop (length (f_params (fi_def f))) (fi_params f))
    = map (shownParam f) [0..<paramCount f]"
proof (rule nth_equalityI)
  fix i
  let ?l = "requiredParams f
      @ map (createEditableParam (last (f_params (fi_def f))) True) (drop (length (f_params (fi_def f))) (fi_params f))"
  assume "i < length ?l"
  then have i: "i < paramCount f" by (simp add: requiredParams_def paramCount_def)
  show "?l ! i = map (shownParam f) [0..<paramCount f] ! i"
  proof (cases "i < length (f_params (fi_def f))")
    case True
    then have "min i (length (f_params (fi_def f)) - 1) = i" by simp
    with True i show ?thesis
      by (simp add: nth_append requiredParams_def shownParam_def nth_enumerate_eq)
  next
    case False
    with assms i show ?thesis
      by (simp add: nth_append requiredParams_def shownParam_def paramCount_def last_conv_nth min_absorb2)
  qed
qed (simp add: requiredParams_def paramCount_def)

lemma mapFuncInstanceToParams_eq:
  "mapFuncInstanceToParams f =
     (if paramsShowable f then Some (map (shownParam f) [0..<paramCount f] @ invitation f) else None)"
proof (cases "f_params (fi_def f) = []")
  case True
  then show ?thesis
    by (cases "fi_params f") (simp_all add: mapFuncInstanceToParams_def requiredParams_def lastParam_def
        paramsShowable_def paramCount_def invitation_def)
next
  case False
  let ?params = "map (shownParam f) [0..<paramCount f]"
  have n: "0 < paramCount f" using False by (simp add: paramCount_def less_max_iff_disj)
  then have ne: "?params \<noteq> []" by simp
  have l: "last ?params = shownParam f (paramCount f - 1)"
    using n by (simp add: last_map)
  have "min (paramCount f - 1) (length (f_params (fi_def f)) - 1) = length (f_params (fi_def f)) - 1"
    by (simp add: paramCount_def)
  then have m: "ep_multiple (shownParam f (paramCount f - 1)) = lastMultiple (fi_def f)"
    using False by (simp add: shownParam_def createEditableParam_def lastMultiple_def last_conv_nth)
  have len: "length (requiredParams f) = length (f_params (fi_def f))" by (simp add: requiredParams_def)
  have e: "mapFuncInstanceToParams f =
      (if ?params \<noteq> [] \<and> ep_value (last ?params) \<noteq> [] \<and> ep_multiple (last ?params)
       then map_option (\<lambda>ps. ?params @ ps) (additionalParams (lastParam f) [PStr []]) else Some ?params)"
    unfolding mapFuncInstanceToParams_def Let_def len lastParam_def
    using False shown_params [OF False] by (simp add: additionalParams_Some)
  show ?thesis
    unfolding e l m using False n ne
    by (simp add: paramsShowable_def lastParam_def invitation_def)
qed

lemma updateParam_typed:
  assumes "s \<noteq> []" and "\<not> hasMultipleParamsInString f s i"
  shows "fi_def (updateParam s i f) = fi_def f"
    "fi_params (updateParam s i f) = arraySet PUndef (fi_params f) i (PStr s)"
  using assms by (simp_all add: updateParam_def updateParamSingle_def updateText_def)

definition shownValue :: "pval \<Rightarrow> jsstr" where
  "shownValue v = (case v of PUndef \<Rightarrow> [] | PNull \<Rightarrow> [] | _ \<Rightarrow> pvalStr v)"

lemma ep_value_create [simp]: "ep_value (createEditableParam d a v) = shownValue v"
  by (simp add: createEditableParam_def shownValue_def)

lemma shownValue_simps [simp]: "shownValue (PStr t) = t" "shownValue PUndef = []"
  by (simp_all add: shownValue_def pvalStr_def)

lemma shownParam_typed:
  assumes "s \<noteq> []" and "\<not> hasMultipleParamsInString f s i"
  shows "ep_value (shownParam (updateParam s i f) j) = (if j = i then s else ep_value (shownParam f j))"
  by (auto simp: shownParam_def updateParam_typed [OF assms] arraySet_def nth_append nth_list_update)

text \<open>
  What is typed into one of the fields of a function is what that field shows afterwards,
  and no other field changes its value, also when the field is the one that invites a further value or
  lies past values not yet given; unless the text holds a comma that separates several values.
\<close>

theorem typed_parameter_is_shown:
  assumes "mapFuncInstanceToParams f = Some ps" and "i < length ps"
    and "s \<noteq> []" and "\<not> hasMultipleParamsInString f s i"
  shows "\<exists>ps'. mapFuncInstanceToParams (updateParam s i f) = Some ps' \<and> length ps \<le> length ps' \<and>
    (\<forall>j < length ps. ep_value (ps' ! j) = (if j = i then s else ep_value (ps ! j)))"
proof -
  let ?f = "updateParam s i f"
  note u = updateParam_typed [OF assms(3,4)] and v = shownParam_typed [OF assms(3,4)]
  from assms(1) have ok: "paramsShowable f" and ps: "ps = map (shownParam f) [0..<paramCount f] @ invitation f"
    by (simp_all add: mapFuncInstanceToParams_eq split: if_splits)
  have ne: "f_params (fi_def f) \<noteq> []"
    using assms(2) ok by (auto simp: ps paramCount_def paramsShowable_def invitation_def split: if_splits)
  have i: "i \<le> paramCount f" using assms(2) by (simp add: ps invitation_def split: if_splits)
  have c: "paramCount ?f = max (paramCount f) (Suc i)"
    by (simp add: paramCount_def u length_arraySet)
  have sh: "paramsShowable ?f" using ne by (simp add: paramsShowable_def u)
  have inv: "invitation ?f \<noteq> []" if "invitation f \<noteq> []"
    using that i assms(3) by (auto simp: invitation_def c u v max_def split: if_splits)
  have "ep_value (x ! 0) = []" if "x = invitation f \<or> x = invitation ?f" "x \<noteq> []" for x
    using that by (auto simp: invitation_def split: if_splits)
  moreover have "length (invitation f) = (if invitation f = [] then 0 else 1)"
    "length (invitation ?f) = (if invitation ?f = [] then 0 else 1)"
    by (simp_all add: invitation_def)
  ultimately show ?thesis
    using assms(2) i inv unfolding mapFuncInstanceToParams_eq [of ?f] ps
    by (auto simp: sh c v nth_append max_def split: if_splits)
qed

definition allShowable :: "parseState \<Rightarrow> bool" where
  "allShowable st \<longleftrightarrow> list_all paramsShowable (gq_functions (pt_query st)) \<and> pred_option paramsShowable (pt_func st)"

lemma addFunctionParameter_showable: "allShowable st \<Longrightarrow> allShowable (addFunctionParameter v st)"
  by (auto simp: allShowable_def addFunctionParameter_def paramsShowable_def lastMultiple_def split: option.splits)

lemma pushFunction_showable:
  "list_all paramsShowable (gq_functions q) \<Longrightarrow> paramsShowable f \<Longrightarrow>
   list_all paramsShowable (gq_functions (pushFunction f q))"
  by (simp add: pushFunction_def paramsShowable_def)

lemma createInstance_showable: "paramsShowable (createInstance defs name q)"
  by (simp add: paramsShowable_def createInstance_def createFuncInstance_def newFuncInstance_def updateText_def)

lemma allShowable_segments [simp]:
  "allShowable (st\<lparr>pt_query := pt_query st\<lparr>gq_segments := segs\<rparr>\<rparr>) = allShowable st"
  by (simp add: allShowable_def)

lemma parse_showable:
  "allShowable st \<Longrightarrow> allShowable (parseTargetRecursive defs a st)"
  "allShowable st \<Longrightarrow> allShowable (parseParams defs ps st)"
proof (induction defs a st and defs ps st rule: parseTargetRecursive_parseParams.induct)
  case (2 defs name params st)
  let ?st1 = "st\<lparr>pt_query := pt_query st\<lparr>gq_nextId := gq_nextId (pt_query st) + 1\<rparr>,
      pt_func := Some (createInstance defs name (pt_query st))\<rparr>"
  have "allShowable ?st1" using "2.prems" by (simp add: allShowable_def createInstance_showable)
  from "2.IH" [OF refl refl this] "2.prems" show ?case
    using pushFunction_showable
    by (auto simp: Let_def allShowable_def paramsShowable_def updateText_def split: option.splits)
next
  case (3 defs v st)
  then show ?case
    by (simp add: Let_def addFunctionParameter_showable)
next
  case (7 defs segs st)
  then show ?case
    by (simp add: Let_def addFunctionParameter_showable)
qed (auto simp: Let_def addFunctionParameter_showable)

text \<open>
  Every function of a query the model has taken apart has its fields: none has values
  without a parameter to show them under, even when the query has errors or too many parameters.
\<close>

theorem parsed_functions_are_editable:
  "case parseTarget defs q of
     None \<Rightarrow> False
   | Some q' \<Rightarrow> list_all (\<lambda>f. mapFuncInstanceToParams f \<noteq> None) (gq_functions q')"
proof -
  have e: "list_all (\<lambda>f. mapFuncInstanceToParams f \<noteq> None) fs = list_all paramsShowable fs" for fs
    by (simp add: mapFuncInstanceToParams_eq)
  show ?thesis
  proof (cases "getAst (tg_target (gq_target q))")
    case (Parsed a)
    have "allShowable (parseTargetRecursive defs (Some a) (parseState0 (resetQuery q)))"
      by (rule parse_showable) (simp add: allShowable_def parseState0_def)
    then show ?thesis
      unfolding e using parseAst_cases [OF getAst_top [OF Parsed], of "resetQuery q" defs] Parsed
      by (simp add: parseTarget_def Let_def allShowable_def)
  next
    case ParsedUndefined
    with getAst_defined show ?thesis by simp
  qed (simp_all add: e parseTarget_def Let_def)
qed


text \<open>A function with one parameter that may be given several times, and one value.\<close>

definition nodeFunction :: funcInstance where
  "nodeFunction =
     newFuncInstance 0
       \<lparr>f_name = js ''aliasByNode'',
        f_params = [\<lparr>p_name = js ''node'', p_type = js ''node'', p_options = None, p_multiple = True,
                     p_optional = False, p_version = None\<rparr>],
        f_defaultParams = [PNum (Dec 0 0)], f_category = None, f_shortName = None, f_fake = False,
        f_version = None, f_description = None, f_unknown = False\<rparr> True"

lemma typed_parameter_is_shown_witness:
  "map_option (map ep_value) (mapFuncInstanceToParams nodeFunction) = Some [js ''0'', []] \<and>
   (\<exists>ps'. mapFuncInstanceToParams (updateParam (js ''2'') 1 nodeFunction) = Some ps' \<and>
      ep_value (ps' ! 0) = js ''0'' \<and> ep_value (ps' ! 1) = js ''2'')"
proof -
  have f: "fi_params nodeFunction = [PNum (Dec 0 0)]" "length (f_params (fi_def nodeFunction)) = 1"
    "lastMultiple (fi_def nodeFunction)" "f_params (fi_def nodeFunction) \<noteq> []"
    by (simp_all add: nodeFunction_def newFuncInstance_def updateText_def lastMultiple_def)
  have z: "shownValue (PNum (Dec 0 0)) = js ''0''"
    by (simp add: shownValue_def pvalStr_def js_defs)
  obtain ps where m: "mapFuncInstanceToParams nodeFunction = Some ps" "map ep_value ps = [js ''0'', []]"
    using f z by (simp add: mapFuncInstanceToParams_eq paramsShowable_def paramCount_def invitation_def shownParam_def)
  then obtain a b where ab: "ps = [a, b]" "ep_value a = js ''0''" by (auto simp: map_eq_Cons_conv)
  have nc: "\<not> hasMultipleParamsInString nodeFunction (js ''2'') 1"
    by (simp add: hasMultipleParamsInString_def js_def)
  from typed_parameter_is_shown [OF m(1), of 1 "js ''2''"] nc ab m
  show ?thesis by auto
qed

subsection \<open>Suggestions\<close>

lemma getTagsAsSegments_tag:
  "s \<in> set (fst (getTagsAsSegments sv p st)) \<Longrightarrow>
   \<exists>vs v. sv_tags sv (renderTagExpressions None (st_queryModel st)) p (st_range st) MAX_SUGGESTIONS = Found vs \<and>
      v \<in> set vs \<and> s = plainSegment v\<lparr>sg_type := Some (js ''tag'')\<rparr>"
  by (auto simp: getTagsAsSegments_def split: response.splits)

lemma addAltTagSegments_fst:
  "fst (addAltTagSegments sv p alt st) =
     alt @ map (\<lambda>s. s\<lparr>sg_value := TAG_PREFIX @ sg_value s\<rparr>) (fst (getTagsAsSegments sv p st))"
  by (simp add: addAltTagSegments_def split: prod.splits)

text \<open>
  The drop-down of a segment offers at most \<open>MAX_SUGGESTIONS\<close> entries, or twice as many where
  it mixes metrics and tags and the data source keeps to the limit it is asked for; and it is empty or
  starts with the wildcard.
\<close>

theorem suggestions_bounded:
  assumes "\<And>e p r n vs. sv_tags sv e p r n = Found vs \<Longrightarrow> length vs \<le> n"
  shows "length (fst (getAltSegments sv i p st))
      \<le> (if st_supportsTags st \<and> i = 0 then 2 * MAX_SUGGESTIONS else MAX_SUGGESTIONS)
    \<and> (fst (getAltSegments sv i p st) = [] \<or>
       hd (fst (getAltSegments sv i p st)) = plainSegment [42]\<lparr>sg_expandable := True\<rparr>)"
proof -
  define w where "w = plainSegment [42]\<lparr>sg_expandable := True\<rparr>"
  define alt where "alt xs = take MAX_SUGGESTIONS (w # xs)" for xs
  have alt: "length (alt xs) \<le> MAX_SUGGESTIONS" "hd (alt xs) = w" for xs
    by (simp_all add: alt_def MAX_SUGGESTIONS_def)
  have tags: "length (fst (getTagsAsSegments sv p st)) \<le> MAX_SUGGESTIONS"
    using assms by (auto simp: getTagsAsSegments_def split: response.splits)
  have "length (removeTaggedEntry xs) \<le> length xs" for xs
    by (simp add: removeTaggedEntry_def)
  then have "length (removeTaggedEntry (alt xs)) \<le> MAX_SUGGESTIONS" for xs
    using alt(1) le_trans by blast
  then have len: "length (fst (addAltTagSegments sv p (removeTaggedEntry (alt xs)) st)) \<le> 2 * MAX_SUGGESTIONS" for xs
    using tags by (simp add: addAltTagSegments_fst add_mono mult_2)
  have "removeTaggedEntry (alt xs) = w # removeTaggedEntry (take (MAX_SUGGESTIONS - 1) xs)" for xs
    by (simp add: alt_def removeTaggedEntry_def w_def plainSegment_def js_def MAX_SUGGESTIONS_def)
  then have "hd (fst (addAltTagSegments sv p (removeTaggedEntry (alt xs)) st)) = w" for xs
    by (simp add: addAltTagSegments_fst)
  with alt len show ?thesis
    unfolding getAltSegments_def Let_def w_def [symmetric] alt_def [symmetric]
    by (cases "sv_metrics sv (altQuery st i p) (st_range st)") simp_all
qed

lemma suggestions_bounded_witness:
  "\<exists>sv. (\<forall>e p r n vs. sv_tags sv e p r n = Found vs \<longrightarrow> length vs \<le> n) \<and>
     length (fst (getAltSegments sv 0 [] demoState)) \<le> 2 * MAX_SUGGESTIONS \<and>
     fst (getAltSegments sv 0 [] demoState) \<noteq> []"
proof -
  define sv where "sv = \<lparr>sv_metrics = (\<lambda>_ _. Found [\<lparr>fr_text = js ''app'', fr_expandable = True\<rparr>]),
      sv_tags = (\<lambda>_ _ _ n. Found (take n [js ''env''])), sv_tagValues = (\<lambda>_ _ _ n. Found []), sv_variables = []\<rparr>"
  have lim: "length vs \<le> n" if "sv_tags sv e p r n = Found vs" for e p r n vs
    using that by (auto simp: sv_def min_def split: if_splits)
  have "length (fst (getAltSegments sv 0 [] demoState)) \<le> 2 * MAX_SUGGESTIONS"
    using suggestions_bounded [of sv 0 "[]" demoState] lim by (simp add: demoState_def)
  moreover have "fst (getAltSegments sv 0 [] demoState) \<noteq> []"
    by (simp add: getAltSegments_def sv_def demoState_def Let_def MAX_SUGGESTIONS_def addAltTagSegments_fst
        removeTaggedEntry_def plainSegment_def js_def)
  ultimately show ?thesis using lim by blast
qed

lemma removeTagPrefix_added: "removeTagPrefix (TAG_PREFIX @ v) = v"
proof -
  have "strIndexOf TAG_PREFIX (TAG_PREFIX @ v) = Some 0"
    by (simp add: strIndexOf.simps [of TAG_PREFIX] startsWith_def)
  then show ?thesis by (simp add: removeTagPrefix_def replaceFirst_def)
qed

text \<open>
  A tag among the suggestions of the first segment is one the data source returned, and
  choosing it starts a query by exactly that tag, paused until a value is chosen.
\<close>

theorem suggested_tag_starts_query:
  assumes "s \<in> set (fst (getAltSegments sv i p st))" and "sg_type s = Some (js ''tag'')"
    and "segmentValueChanged env (SegSegment s) k st = Some (Done st')"
  shows "\<exists>vs v. sv_tags sv (renderTagExpressions None (st_queryModel st)) p (st_range st) MAX_SUGGESTIONS = Found vs \<and>
    v \<in> set vs \<and> sg_value s = TAG_PREFIX @ v \<and> st_paused st' \<and>
    (\<exists>st1. addSeriesByTagFunc env v st1 = Some (Done st'))"
proof -
  have no_tag: "sg_type x \<noteq> Some (js ''tag'')"
    if "x \<in> set (take n (plainSegment [42]\<lparr>sg_expandable := True\<rparr> # variableSegments sv @
          (if i = 0 then referenceSegments st else []) @ foundSegments rs))" for x n rs
    using in_set_takeD [OF that]
    by (auto simp: plainSegment_def variableSegments_def referenceSegments_def foundSegments_def split: if_splits)
  have "s \<in> (\<lambda>s. s\<lparr>sg_value := TAG_PREFIX @ sg_value s\<rparr>) ` set (fst (getTagsAsSegments sv p st))"
    using assms(1,2) no_tag
    by (auto simp: getAltSegments_def Let_def addAltTagSegments_fst removeTaggedEntry_def
        split: response.splits if_splits)
  then obtain vs v where
    v: "sv_tags sv (renderTagExpressions None (st_queryModel st)) p (st_range st) MAX_SUGGESTIONS = Found vs"
      "v \<in> set vs" "sg_value s = TAG_PREFIX @ v"
    by (auto simp: plainSegment_def dest!: getTagsAsSegments_tag)
  let ?st = "st\<lparr>st_error := None, st_segments := arraySet (plainSegment []) (st_segments st) k s\<rparr>"
  from assms(3) obtain q where "updateSegmentValue s k (st_queryModel ?st) = Some q"
    by (cases "updateSegmentValue s k (st_queryModel ?st)") (simp_all add: segmentValueChanged_def Let_def)
  with assms(2,3) v(3) have "addSeriesByTagFunc env v (pause (?st\<lparr>st_queryModel := resetFake q\<rparr>)) = Some (Done st')"
    by (simp add: segmentValueChanged_def Let_def removeTagPrefix_added)
  moreover from addSeriesByTag_paused(2) [OF this] have "st_paused st'" by (simp add: pause_def)
  ultimately show ?thesis using v by blast
qed

lemma suggested_tag_starts_query_witness:
  "\<exists>(sv :: service) st'. segmentValueChanged demoEnv
       (SegSegment (plainSegment (TAG_PREFIX @ js ''env'')\<lparr>sg_type := Some (js ''tag'')\<rparr>)) 0 demoState = Some (Done st') \<and>
     sv_tags sv [] [] None MAX_SUGGESTIONS = Found [js ''env''] \<and> st_paused st'"
proof -
  let ?s = "plainSegment (TAG_PREFIX @ js ''env'')\<lparr>sg_type := Some (js ''tag'')\<rparr>"
  define sv where "sv = \<lparr>sv_metrics = (\<lambda>_ _. Found []), sv_tags = (\<lambda>_ _ _ _. Found [js ''env'']),
      sv_tagValues = (\<lambda>_ _ _ _. Found []), sv_variables = []\<rparr>"
  have s: "?s \<in> set (fst (getAltSegments sv 0 [] demoState))" "sg_type ?s = Some (js ''tag'')"
    by (simp_all add: getAltSegments_def sv_def demoState_def addAltTagSegments_fst getTagsAsSegments_def plainSegment_def)
  have "segmentsInSync demoState" by (simp add: segmentsInSync_def demoState_def)
  from reducer_endsWell [OF this, of "SegmentValueChanged (SegSegment ?s) 0" demoEnv]
  obtain st' where st': "segmentValueChanged demoEnv (SegSegment ?s) 0 demoState = Some (Done st')"
    by (auto simp: endsWell_def refused_def demoState_def reducer_def split: option.splits outcome.splits)
  from suggested_tag_starts_query [OF s st'] have "st_paused st'" by blast
  with st' show ?thesis by (intro exI [of _ sv] exI [of _ st']) (simp add: sv_def)
qed

subsection \<open>Sessions\<close>

text \<open>
  A session of the editor: actions that do not throw, and requests of the views, one after the other.
\<close>

inductive editorStep :: "environment \<Rightarrow> service \<Rightarrow> editorState \<Rightarrow> editorState \<Rightarrow> bool"
  for env sv where
  act: "reducer env a st = Some (Done st') \<Longrightarrow> editorStep env sv st st'"
| alternatives: "editorStep env sv st (snd (getAltSegmentsSelectables sv i p st))"
| tags: "editorStep env sv st (snd (getTagsSelectables sv i p st))"
| tagSegments: "editorStep env sv st (snd (getTagsAsSegmentsSelectables sv p st))"

inductive session :: "environment \<Rightarrow> service \<Rightarrow> editorState \<Rightarrow> editorState \<Rightarrow> bool"
  for env sv st where
  opened: "session env sv st st"
| step: "session env sv st st1 \<Longrightarrow> editorStep env sv st1 st2 \<Longrightarrow> session env sv st st2"

inductive_cases editorStepE: "editorStep env sv st st'"

definition isTagsNotice :: "jsstr \<Rightarrow> bool" where
  "isTagsNotice n \<longleftrightarrow> startsWith (js ''Fetching tags failed: '') n"

definition isMetricsNotice :: "jsstr \<Rightarrow> bool" where
  "isMetricsNotice n \<longleftrightarrow> startsWith (js ''Fetching metrics failed: '') n"

text \<open>The flags count the notifications of each kind, and there are no others.\<close>

definition noticesOk :: "editorState \<Rightarrow> bool" where
  "noticesOk st \<longleftrightarrow>
     length (filter isTagsNotice (st_notifications st)) = of_bool (st_tagsErrorShown st) \<and>
     length (filter isMetricsNotice (st_notifications st)) = of_bool (st_metricErrorShown st) \<and>
     length (st_notifications st) = of_bool (st_tagsErrorShown st) + of_bool (st_metricErrorShown st)"

definition sameNotices :: "editorState \<Rightarrow> editorState \<Rightarrow> bool" where
  "sameNotices st st' \<longleftrightarrow> st_notifications st' = st_notifications st \<and>
     st_tagsErrorShown st' = st_tagsErrorShown st \<and> st_metricErrorShown st' = st_metricErrorShown st"

lemma noticesOk_same: "sameNotices st st' \<Longrightarrow> noticesOk st' = noticesOk st"
  by (simp add: noticesOk_def sameNotices_def)

lemma noticesOk_tags: "noticesOk st \<Longrightarrow> noticesOk (handleTagsAutoCompleteError msg st)"
  by (simp add: noticesOk_def handleTagsAutoCompleteError_def isTagsNotice_def isMetricsNotice_def js_def startsWith_def)

lemma noticesOk_metrics: "noticesOk st \<Longrightarrow> noticesOk (handleMetricsAutoCompleteError msg st)"
  by (simp add: noticesOk_def handleMetricsAutoCompleteError_def isTagsNotice_def isMetricsNotice_def js_def startsWith_def)

lemma noticesOk_helpers [simp]:
  "noticesOk (handleTargetChanged env st) = noticesOk st" "noticesOk (onModel g st) = noticesOk st"
  "noticesOk (addSelectMetric st) = noticesOk st" "noticesOk (spliceSegments k st) = noticesOk st"
  "noticesOk (emptySegments st) = noticesOk st" "noticesOk (pushNewFunction f st) = noticesOk st"
  "noticesOk (updateFunction k h st) = noticesOk st" "noticesOk (setTarget s st) = noticesOk st"
  "noticesOk (pause st) = noticesOk st" "noticesOk (refresh st) = noticesOk st"
  "noticesOk (st\<lparr>st_paused := b\<rparr>) = noticesOk st" "noticesOk (st\<lparr>st_queryModel := q\<rparr>) = noticesOk st"
  "noticesOk (st\<lparr>st_segments := segs\<rparr>) = noticesOk st" "noticesOk (st\<lparr>st_error := e\<rparr>) = noticesOk st"
  "noticesOk (st\<lparr>st_range := r\<rparr>) = noticesOk st" "noticesOk (st\<lparr>st_queries := qs\<rparr>) = noticesOk st"
  by (rule noticesOk_same; simp add: sameNotices_def handleTargetChanged_def Let_def refresh_def onModel_def
      addSelectMetric_def spliceSegments_def emptySegments_def pushNewFunction_def updateFunction_def
      setTarget_def pause_def split: prod.splits)+

lemma noticesOk_search: "checkOtherSegments env k m st = Some st' \<Longrightarrow> noticesOk st \<Longrightarrow> noticesOk st'"
  using checkOtherSegments_cases [of env k m st st'] by (auto simp: searchResult_def noticesOk_metrics)

lemma noticesOk_build: "buildSegments env m st = Some st' \<Longrightarrow> noticesOk st \<Longrightarrow> noticesOk st'"
  unfolding buildSegments_def by (erule noticesOk_search) simp

lemma noticesOk_parse: "parseTargetState env st = Some (Done st') \<Longrightarrow> noticesOk st \<Longrightarrow> noticesOk st'"
  by (auto simp: parseTargetState_def split: option.splits dest!: noticesOk_build)

lemma noticesOk_andThen:
  "andThen r k = Some (Done st') \<Longrightarrow> (\<And>st. r = Some (Done st) \<Longrightarrow> noticesOk st) \<Longrightarrow>
   (\<And>st. noticesOk st \<Longrightarrow> k st = Some (Done st') \<Longrightarrow> noticesOk st') \<Longrightarrow> noticesOk st'"
  by (auto simp: andThen_def split: option.splits outcome.splits)

lemma noticesOk_segmentValue:
  "segmentValueChanged env s k st = Some (Done st') \<Longrightarrow> noticesOk st \<Longrightarrow> noticesOk st'"
  by (auto simp: segmentValueChanged_def Let_def addSeriesByTagFunc_def done'_def
      split: option.splits if_splits elim!: noticesOk_andThen noticesOk_parse noticesOk_search)

lemma noticesOk_tagChanged: "tagChanged env t k st = Some (Done st') \<Longrightarrow> noticesOk st \<Longrightarrow> noticesOk st'"
  by (auto simp: tagChanged_def Let_def done'_def
      split: option.splits if_splits elim!: noticesOk_andThen noticesOk_search)

lemma noticesOk_smartly [simp]: "noticesOk (smartlyHandleNewAliasByNode env f st) = noticesOk st"
  by (simp add: smartlyHandleNewAliasByNode_def split: option.split)

lemma noticesOk_addFunction: "addFunctionAction env n st = Some (Done st') \<Longrightarrow> noticesOk st \<Longrightarrow> noticesOk st'"
  by (auto simp: addFunctionAction_def Let_def done'_def elim!: noticesOk_parse split: if_splits option.splits)

lemma noticesOk_init:
  assumes "initState env target queries supportsTags defs st = Some (Done st')" "noticesOk st"
  shows "noticesOk st'"
proof -
  from assms(1) obtain q where b: "buildSegments env False
      (st\<lparr>st_queryModel := q, st_supportsTags := supportsTags, st_paused := False,
          st_removeTagValue := removeTagValue, st_funcDefs := defs, st_queries := queries\<rparr>) = Some st'"
    by (auto simp: initState_def split: option.splits)
  show ?thesis
    by (rule noticesOk_build [OF b]) (use assms(2) in \<open>simp add: noticesOk_def\<close>)
qed

lemma noticesOk_reducer: "reducer env a st = Some (Done st') \<Longrightarrow> noticesOk st \<Longrightarrow> noticesOk st'"
  by (cases a) (auto simp: reducer_def done'_def addNewTag_def noticesOk_init noticesOk_segmentValue
      noticesOk_tagChanged noticesOk_addFunction split: option.splits elim!: noticesOk_andThen noticesOk_parse)

text \<open>A request leaves the state alone, or reports an error.\<close>

definition asked :: "editorState \<Rightarrow> editorState \<Rightarrow> bool" where
  "asked st st' \<longleftrightarrow> st' = st \<or> (\<exists>m. st' = handleTagsAutoCompleteError m st) \<or>
     (\<exists>m. st' = handleMetricsAutoCompleteError m st)"

lemma provider_states:
  "asked st (snd (getTagsAsSegments sv p st))" "asked st (snd (getTags sv i p st))"
  "asked st (snd (getAltSegments sv i p st))"
  by (auto simp: asked_def getTagsAsSegments_def getTags_def addAltTagSegments_def getAltSegments_def Let_def
      split: response.splits prod.splits)

lemma errors_sync [simp]:
  "segmentsInSync (handleTagsAutoCompleteError m st) = segmentsInSync st"
  "segmentsInSync (handleMetricsAutoCompleteError m st) = segmentsInSync st"
  by (rule segmentsInSync_cong; simp add: handleTagsAutoCompleteError_def handleMetricsAutoCompleteError_def)+

lemma asked_inv: "asked st st' \<Longrightarrow> noticesOk st \<Longrightarrow> segmentsInSync st \<Longrightarrow> noticesOk st' \<and> segmentsInSync st'"
  by (auto simp: asked_def noticesOk_tags noticesOk_metrics)

lemma editorStep_inv:
  assumes "editorStep env sv st st'" and "noticesOk st" and "segmentsInSync st"
  shows "noticesOk st' \<and> segmentsInSync st'"
  using assms(1)
proof (rule editorStepE)
  fix a
  assume r: "reducer env a st = Some (Done st')"
  with reducer_endsWell [OF assms(3), of a env] assms(2) show ?thesis
    by (auto simp: endsWell_def intro: noticesOk_reducer)
qed (use assms(2,3) in \<open>simp_all add: getAltSegmentsSelectables_def getTagsSelectables_def
      getTagsAsSegmentsSelectables_def asked_inv [OF provider_states(1)] asked_inv [OF provider_states(2)]
      asked_inv [OF provider_states(3)]\<close>)



end
