(* ===== verification/Vectors.thy ===== *)
theory Vectors
  imports JsPrelude
begin

text \<open>
  The vectors of \<open>@grafana/data\<close> (\<open>packages/grafana-data/src/vector\<close>): the interface \<open>Vector\<close>, the
  functions written against it, and the classes that implement it.

  An element is \<open>'a option\<close>, with \<open>None\<close> for \<open>undefined\<close>, and so is what an index out of range gives.
  A vector that only reads others holds them as a \<open>view\<close>, their \<open>length\<close> and their \<open>get\<close>.
\<close>

subsection \<open>The interface\<close>

record 'a view =
  v_length :: nat
  v_get :: "nat \<Rightarrow> 'a option"

text \<open>\<open>vectorToArray\<close> and the functions of \<open>vectorator\<close>, loops over the indices.\<close>

definition vectorToArray :: "('v \<Rightarrow> nat) \<Rightarrow> ('v \<Rightarrow> nat \<Rightarrow> 'a option) \<Rightarrow> 'v \<Rightarrow> 'a option list" where
  "vectorToArray len get v = map (get v) [0..<len v]"

definition vectorForEach ::
  "('v \<Rightarrow> nat) \<Rightarrow> ('v \<Rightarrow> nat \<Rightarrow> 'a option) \<Rightarrow> ('a option \<Rightarrow> 's \<Rightarrow> 's) \<Rightarrow> 'v \<Rightarrow> 's \<Rightarrow> 's" where
  "vectorForEach len get iterator v = fold (\<lambda>i. iterator (get v i)) [0..<len v]"

definition vectorMap ::
  "('v \<Rightarrow> nat) \<Rightarrow> ('v \<Rightarrow> nat \<Rightarrow> 'a option) \<Rightarrow> ('a option \<Rightarrow> nat \<Rightarrow> 'b) \<Rightarrow> 'v \<Rightarrow> 'b list" where
  "vectorMap len get transform v = map (\<lambda>i. transform (get v i) i) [0..<len v]"

definition vectorFilter ::
  "('v \<Rightarrow> nat) \<Rightarrow> ('v \<Rightarrow> nat \<Rightarrow> 'a option) \<Rightarrow> ('a option \<Rightarrow> bool) \<Rightarrow> 'v \<Rightarrow> 'a option list" where
  "vectorFilter len get predicate v = filter predicate (map (get v) [0..<len v])"

text \<open>
  What every vector promises: its items are those \<open>get\<close> returns up to \<open>length\<close>, so that the loops see
  exactly them.
\<close>

locale vector =
  fixes len :: "'v \<Rightarrow> nat"
    and get :: "'v \<Rightarrow> nat \<Rightarrow> 'a option"
    and items :: "'v \<Rightarrow> 'a option list"
    and ok :: "'v \<Rightarrow> bool"
  assumes len_items: "ok v \<Longrightarrow> len v = length (items v)"
    and get_items: "ok v \<Longrightarrow> i < len v \<Longrightarrow> get v i = items v ! i"
begin

lemma toArray_items: "ok v \<Longrightarrow> vectorToArray len get v = items v"
  by (rule nth_equalityI) (simp_all add: vectorToArray_def len_items [symmetric] get_items)

lemma map_get_items: "ok v \<Longrightarrow> map (get v) [0..<len v] = items v"
  using toArray_items by (simp add: vectorToArray_def)

lemma forEach_items: "ok v \<Longrightarrow> vectorForEach len get g v s = fold g (items v) s"
  unfolding vectorForEach_def by (subst map_get_items [symmetric], assumption) (simp add: fold_map comp_def)

lemma filter_items: "ok v \<Longrightarrow> vectorFilter len get P v = filter P (items v)"
  by (simp add: vectorFilter_def map_get_items)

lemma map_items: "ok v \<Longrightarrow> vectorMap len get (\<lambda>x _. g x) v = map g (items v)"
  unfolding vectorMap_def by (subst map_get_items [symmetric], assumption) simp

end

subsection \<open>Array, constant, index, sorted and combined vectors\<close>

definition arrayGet :: "'a option list \<Rightarrow> nat \<Rightarrow> 'a option" where
  "arrayGet buffer i = (if i < length buffer then buffer ! i else None)"

definition arrayVectorAdd :: "'a option \<Rightarrow> 'a option list \<Rightarrow> 'a option list" where
  "arrayVectorAdd value buffer = buffer @ [value]"

definition arrayVectorSet :: "nat \<Rightarrow> 'a option \<Rightarrow> 'a option list \<Rightarrow> 'a option list" where
  "arrayVectorSet i value buffer = arraySet None buffer i value"

definition arrayVectorReverse :: "'a option list \<Rightarrow> 'a option list" where
  "arrayVectorReverse buffer = rev buffer"

definition constantVector :: "'a option \<Rightarrow> nat \<Rightarrow> 'a view" where
  "constantVector value n = \<lparr>v_length = n, v_get = (\<lambda>_. value)\<rparr>"

definition indexVector :: "nat \<Rightarrow> nat view" where
  "indexVector n = \<lparr>v_length = n, v_get = Some\<rparr>"

text \<open>\<open>order[index]\<close> may be \<open>undefined\<close>, and \<open>get(undefined)\<close> is \<open>undefined\<close>.\<close>

definition sortedVector :: "'a view \<Rightarrow> nat list \<Rightarrow> 'a view" where
  "sortedVector source order =
     \<lparr>v_length = v_length source,
      v_get = (\<lambda>i. if i < length order then v_get source (order ! i) else None)\<rparr>"

definition binaryOperationVector :: "'a view \<Rightarrow> 'a view \<Rightarrow> ('a option \<Rightarrow> 'a option \<Rightarrow> 'a option) \<Rightarrow> 'a view" where
  "binaryOperationVector left right operation =
     \<lparr>v_length = v_length left, v_get = (\<lambda>i. operation (v_get left i) (v_get right i))\<rparr>"

definition viewItems :: "'a view \<Rightarrow> 'a option list" where
  "viewItems v = map (v_get v) [0..<v_length v]"

definition anyVector :: "'v \<Rightarrow> bool" where
  "anyVector _ \<longleftrightarrow> True"

interpretation array: vector length arrayGet "\<lambda>b. b" anyVector
  by unfold_locales (simp_all add: arrayGet_def)

interpretation view: vector v_length v_get viewItems anyVector
  by unfold_locales (simp_all add: viewItems_def)

subsection \<open>Appended vectors\<close>

record 'a appendedInfo =
  ai_start :: nat
  ai_end :: nat
  ai_values :: "'a view"

record 'a appendedVectors =
  av_length :: nat
  av_source :: "'a appendedInfo list"

definition newAppendedVectors :: "nat \<Rightarrow> 'a appendedVectors" where
  "newAppendedVectors startAt = \<lparr>av_length = startAt, av_source = []\<rparr>"

fun shortenSources :: "nat \<Rightarrow> 'a appendedInfo list \<Rightarrow> 'a appendedInfo list" where
  "shortenSources n [] = []"
| "shortenSources n (src # srcs) =
     (if ai_end src > n then [src\<lparr>ai_end := n\<rparr>] else src # shortenSources n srcs)"

definition avSetLength :: "nat \<Rightarrow> 'a appendedVectors \<Rightarrow> 'a appendedVectors" where
  "avSetLength n v =
     (if n > av_length v then v\<lparr>av_length := n\<rparr>
      else if n < av_length v then v\<lparr>av_source := shortenSources n (av_source v), av_length := n\<rparr>
      else v)"

definition avAppend :: "'a view \<Rightarrow> 'a appendedVectors \<Rightarrow> 'a appendedVectors" where
  "avAppend values v =
     (let e = av_length v + v_length values
      in v\<lparr>av_length := e, av_source := av_source v @ [\<lparr>ai_start = av_length v, ai_end = e, ai_values = values\<rparr>]\<rparr>)"

fun sourceGet :: "'a appendedInfo list \<Rightarrow> nat \<Rightarrow> 'a option" where
  "sourceGet [] i = None"
| "sourceGet (src # srcs) i =
     (if ai_start src \<le> i \<and> i < ai_end src then v_get (ai_values src) (i - ai_start src) else sourceGet srcs i)"

definition avGet :: "'a appendedVectors \<Rightarrow> nat \<Rightarrow> 'a option" where
  "avGet v i = sourceGet (av_source v) i"

definition avToArray :: "'a appendedVectors \<Rightarrow> 'a option list" where
  "avToArray v = vectorToArray av_length avGet v"

end
