(* ===== verification/CircularVector.thy ===== *)
theory CircularVector
  imports Vectors
begin

text \<open>
  \<open>CircularVector\<close>: one buffer that takes a stream of values and, once full, overwrites the oldest.

  The field \<open>cv_add\<close> is the function the class stores in \<open>this.add\<close>, which it chooses anew where the
  source does.  The index is an integer: adding at the head of an empty buffer of no capacity makes it
  negative.  A buffer is never shared with the caller in the model.
\<close>

subsection \<open>The class\<close>

datatype addMode = PushTail | PushHead | OverwriteTail | OverwriteHead

record 'a circular =
  cv_buffer :: "'a option list"
  cv_index :: int
  cv_capacity :: nat
  cv_tail :: bool
  cv_add :: addMode

definition getAddFunction :: "'a circular \<Rightarrow> addMode" where
  "getAddFunction c =
     (if cv_capacity c > length (cv_buffer c)
      then (if cv_tail c then PushTail else PushHead)
      else if cv_tail c then OverwriteTail else OverwriteHead)"

definition chooseAdd :: "'a circular \<Rightarrow> 'a circular" where
  "chooseAdd c = c\<lparr>cv_add := getAddFunction c\<rparr>"

definition cvLength :: "'a circular \<Rightarrow> nat" where
  "cvLength c = length (cv_buffer c)"

text \<open>\<open>(index + this.index) % this.buffer.length\<close>; \<open>None\<close> is \<open>NaN\<close>.\<close>

definition cvPosition :: "'a circular \<Rightarrow> nat \<Rightarrow> nat option" where
  "cvPosition c i =
     (if cv_buffer c = [] then None
      else Some (nat ((int i + cv_index c) mod int (length (cv_buffer c)))))"

definition cvGet :: "'a circular \<Rightarrow> nat \<Rightarrow> 'a option" where
  "cvGet c i = (case cvPosition c i of None \<Rightarrow> None | Some k \<Rightarrow> arrayGet (cv_buffer c) k)"

definition cvSet :: "nat \<Rightarrow> 'a option \<Rightarrow> 'a circular \<Rightarrow> 'a circular" where
  "cvSet i value c =
     (case cvPosition c i of
        None \<Rightarrow> c
      | Some k \<Rightarrow> c\<lparr>cv_buffer := arraySet None (cv_buffer c) k value\<rparr>)"

definition cvToArray :: "'a circular \<Rightarrow> 'a option list" where
  "cvToArray c = vectorToArray cvLength cvGet c"

definition cvAdd :: "'a option \<Rightarrow> 'a circular \<Rightarrow> 'a circular" where
  "cvAdd value c =
     (case cv_add c of
        PushTail \<Rightarrow>
          (let c' = c\<lparr>cv_buffer := cv_buffer c @ [value]\<rparr>
           in if length (cv_buffer c') \<ge> cv_capacity c' then chooseAdd c' else c')
      | PushHead \<Rightarrow>
          (let c' = c\<lparr>cv_buffer := value # cv_buffer c\<rparr>
           in if length (cv_buffer c') \<ge> cv_capacity c' then chooseAdd c' else c')
      | OverwriteTail \<Rightarrow>
          (let c' = c\<lparr>cv_buffer := arraySet None (cv_buffer c) (nat (cv_index c)) value\<rparr>
           in c'\<lparr>cv_index := (cv_index c + 1) mod int (length (cv_buffer c'))\<rparr>)
      | OverwriteHead \<Rightarrow>
          (let idx = (if cv_index c - 1 < 0 then int (length (cv_buffer c)) - 1 else cv_index c - 1)
           in c\<lparr>cv_buffer := (if idx < 0 then cv_buffer c else arraySet None (cv_buffer c) (nat idx) value),
                cv_index := idx\<rparr>))"

definition setCapacity :: "nat \<Rightarrow> 'a circular \<Rightarrow> 'a circular" where
  "setCapacity v c =
     (if cv_capacity c = v then c
      else
        let copy = cvToArray c;
            delta = cvLength c - v;
            buffer = (if v > cvLength c then copy
                      else if v < cv_capacity c
                      then (if cv_tail c then drop delta copy else take (length copy - delta) copy)
                      else cv_buffer c)
        in chooseAdd (c\<lparr>cv_buffer := buffer, cv_capacity := v, cv_index := 0\<rparr>))"

definition newCircular :: "'a option list option \<Rightarrow> bool \<Rightarrow> nat option \<Rightarrow> 'a circular" where
  "newCircular buffer appendHead capacity =
     (let b = (case buffer of None \<Rightarrow> [] | Some b \<Rightarrow> b);
          c = chooseAdd \<lparr>cv_buffer = b, cv_index = 0, cv_capacity = length b, cv_tail = (\<not> appendHead),
                         cv_add = PushTail\<rparr>
      in case capacity of None \<Rightarrow> c | Some v \<Rightarrow> if v = 0 then c else setCapacity v c)"

definition setAppendMode :: "bool \<Rightarrow> 'a circular \<Rightarrow> 'a circular" where
  "setAppendMode head c =
     (if (\<not> head) \<noteq> cv_tail c
      then chooseAdd (c\<lparr>cv_buffer := rev (cvToArray c), cv_index := 0, cv_tail := (\<not> head)\<rparr>)
      else c)"

definition cvReverse :: "'a circular \<Rightarrow> 'a circular" where
  "cvReverse c = c\<lparr>cv_buffer := rev (cv_buffer c)\<rparr>"

subsection \<open>The invariant\<close>

text \<open>
  A vector of some capacity: the index is in the buffer, and at its start until the buffer is full; the
  stored function is the one the class would choose.
\<close>

definition cvOk :: "'a circular \<Rightarrow> bool" where
  "cvOk c \<longleftrightarrow> 0 < cv_capacity c \<and> length (cv_buffer c) \<le> cv_capacity c \<and> 0 \<le> cv_index c \<and>
     (if length (cv_buffer c) < cv_capacity c then cv_index c = 0 else cv_index c < int (cv_capacity c)) \<and>
     cv_add c = getAddFunction c"

definition cvItems :: "'a circular \<Rightarrow> 'a option list" where
  "cvItems c = rotate (nat (cv_index c)) (cv_buffer c)"

lemma cvGet_items:
  assumes "cvOk c" and "i < cvLength c"
  shows "cvGet c i = cvItems c ! i"
proof -
  have ne: "cv_buffer c \<noteq> []" using assms(2) by (auto simp: cvLength_def)
  have "nat ((int i + cv_index c) mod int (length (cv_buffer c))) = (nat (cv_index c) + i) mod length (cv_buffer c)"
    using assms(1) by (simp add: cvOk_def nat_mod_distrib nat_add_distrib add.commute)
  with assms(2) ne show ?thesis
    by (simp add: cvGet_def cvPosition_def cvItems_def arrayGet_def cvLength_def nth_rotate)
qed

interpretation circular: vector cvLength cvGet cvItems cvOk
  by unfold_locales (simp_all add: cvGet_items, simp add: cvLength_def cvItems_def)

lemma cvToArray_items: "cvOk c \<Longrightarrow> cvToArray c = cvItems c"
  unfolding cvToArray_def by (rule circular.toArray_items)

lemma length_cvItems [simp]: "length (cvItems c) = length (cv_buffer c)"
  by (simp add: cvItems_def)

lemma chooseAdd_simps [simp]:
  "cv_buffer (chooseAdd c) = cv_buffer c" "cv_index (chooseAdd c) = cv_index c"
  "cv_capacity (chooseAdd c) = cv_capacity c" "cv_tail (chooseAdd c) = cv_tail c"
  "cv_add (chooseAdd c) = getAddFunction c" "getAddFunction (chooseAdd c) = getAddFunction c"
  by (simp_all add: chooseAdd_def getAddFunction_def)

end
