(* ===== verification/VectorProps.thy ===== *)
theory VectorProps
  imports CircularVector
begin

text \<open>
  Vectors against lists: the circular vector implements a list of bounded length, whatever it takes a
  stream into holds its last values, and appended vectors implement the concatenation.
\<close>

subsection \<open>Bounded lists\<close>

definition lastN :: "nat \<Rightarrow> 'a list \<Rightarrow> 'a list" where
  "lastN n xs = drop (length xs - n) xs"

lemma lastN_short [simp]: "length xs \<le> n \<Longrightarrow> lastN n xs = xs"
  by (simp add: lastN_def)

lemma lastN_lastN_append [simp]: "lastN n (lastN n xs @ ys) = lastN n (xs @ ys)"
  by (cases "length xs \<le> n") (auto simp: lastN_def drop_append add.commute)

lemma rev_take: "rev (take n xs) = lastN n (rev xs)"
  by (simp add: lastN_def rev_drop) (metis length_rev rev_swap take_rev)

text \<open>What a client of a bounded log relies on, and the effect of a whole stream.\<close>

locale bounded_log =
  fixes add :: "'a \<Rightarrow> 'v \<Rightarrow> 'v"
    and items :: "'v \<Rightarrow> 'a list"
    and capacity :: "'v \<Rightarrow> nat"
    and ok :: "'v \<Rightarrow> bool"
  assumes add_ok: "ok v \<Longrightarrow> ok (add x v)"
    and add_items: "ok v \<Longrightarrow> items (add x v) = lastN (capacity v) (items v @ [x])"
    and add_capacity: "ok v \<Longrightarrow> capacity (add x v) = capacity v"
    and bounded: "ok v \<Longrightarrow> length (items v) \<le> capacity v"
begin

lemma stream_ok: "ok v \<Longrightarrow> ok (fold add xs v)"
  by (induction xs arbitrary: v) (simp_all add: add_ok)

lemma stream_items: "ok v \<Longrightarrow> items (fold add xs v) = lastN (capacity v) (items v @ xs)"
proof (induction xs arbitrary: v)
  case Nil
  then show ?case by (simp add: bounded)
next
  case (Cons x xs)
  then show ?case by (simp add: add_ok add_items add_capacity)
qed

end

subsection \<open>The circular vector\<close>

definition specAdd :: "'a option \<Rightarrow> nat \<Rightarrow> bool \<Rightarrow> 'a option list \<Rightarrow> 'a option list" where
  "specAdd x n tail xs = (if tail then lastN n (xs @ [x]) else take n (x # xs))"

definition specResize :: "nat \<Rightarrow> bool \<Rightarrow> 'a option list \<Rightarrow> 'a option list" where
  "specResize n tail xs = (if tail then lastN n xs else take n xs)"

lemma rotate_update_first: "k < length xs \<Longrightarrow> rotate k (xs[k := x]) = x # tl (rotate k xs)"
proof -
  assume k: "k < length xs"
  then have "rotate k (xs[k := x]) = drop k (xs[k := x]) @ take k (xs[k := x])"
    by (simp add: rotate_drop_take)
  also have "\<dots> = x # drop (Suc k) xs @ take k xs"
    using k by (simp add: drop_update_swap Cons_nth_drop_Suc [symmetric])
  finally show ?thesis using k by (simp add: rotate_drop_take Cons_nth_drop_Suc [symmetric])
qed

lemma rotate_Suc_mod: "xs \<noteq> [] \<Longrightarrow> rotate (Suc k mod length xs) xs = rotate1 (rotate k xs)"
  by (metis rotate_Suc rotate_conv_mod)

lemma add_refines:
  assumes "cvOk c"
  shows "cvItems (cvAdd x c) = specAdd x (cv_capacity c) (cv_tail c) (cvItems c) \<and> cvOk (cvAdd x c) \<and>
    cv_capacity (cvAdd x c) = cv_capacity c \<and> cv_tail (cvAdd x c) = cv_tail c"
proof (cases "length (cv_buffer c) < cv_capacity c")
  case True
  with assms have i: "cv_index c = 0" and a: "cv_add c = (if cv_tail c then PushTail else PushHead)"
    by (simp_all add: cvOk_def getAddFunction_def)
  from True assms i show ?thesis
    by (simp add: cvAdd_def a Let_def cvItems_def specAdd_def cvOk_def getAddFunction_def)
next
  case False
  define k where "k = nat (cv_index c)"
  define b where "b = cv_buffer c"
  from False assms have L: "length b = cv_capacity c" "cv_index c = int k" "k < length b" "0 < length b"
    and a: "cv_add c = (if cv_tail c then OverwriteTail else OverwriteHead)"
    by (auto simp: cvOk_def getAddFunction_def k_def b_def)
  then have ne: "b \<noteq> []" by auto
  show ?thesis
  proof (cases "cv_tail c")
    case True
    have "rotate (Suc k mod length b) (b[k := x]) = tl (rotate k b) @ [x]"
      using rotate_Suc_mod [of "b[k := x]" k] ne L(3) by (simp add: rotate_update_first)
    moreover have "lastN (length b) (rotate k b @ [x]) = tl (rotate k b) @ [x]"
    proof -
      obtain y ys where r: "rotate k b = y # ys" using ne by (cases "rotate k b") simp_all
      then have "length b = Suc (length ys)" by (metis length_rotate length_Cons)
      with r show ?thesis by (simp add: lastN_def)
    qed
    moreover have "nat ((int k + 1) mod int (length b)) = Suc k mod length b"
      by (simp add: nat_mod_distrib nat_add_distrib)
    ultimately show ?thesis
      using True a L assms
      by (simp add: cvAdd_def cvItems_def specAdd_def arraySet_def b_def [symmetric] cvOk_def getAddFunction_def
          nat_less_iff)
  next
    case False
    define j where "j = (if k = 0 then length b - 1 else k - 1)"
    have j: "j < length b" "Suc j mod length b = k" using L by (auto simp: j_def)
    have idx: "(if cv_index c - 1 < 0 then int (length b) - 1 else cv_index c - 1) = int j"
      using L by (auto simp: j_def)
    have "rotate k b = rotate1 (rotate j b)" using rotate_Suc_mod [OF ne, of j] j(2) by simp
    then have "rotate k b = tl (rotate j b) @ [hd (rotate j b)]"
      using ne by (cases "rotate j b") simp_all
    then have "take (length b) (x # rotate k b) = x # tl (rotate j b)"
      using L(4) by (cases b) simp_all
    moreover have "cvAdd x c = c\<lparr>cv_buffer := b[j := x], cv_index := int j\<rparr>"
      using False j(1) unfolding cvAdd_def a Let_def b_def [symmetric] idx by (simp add: arraySet_def)
    ultimately show ?thesis
      using j(1) False a L assms
      by (simp add: cvItems_def specAdd_def b_def [symmetric] rotate_update_first cvOk_def getAddFunction_def)
  qed
qed

interpretation tail_log: bounded_log cvAdd cvItems cv_capacity "\<lambda>c. cvOk c \<and> cv_tail c"
  by unfold_locales (simp_all add: add_refines specAdd_def, simp add: cvOk_def)

interpretation head_log: bounded_log cvAdd "\<lambda>c. rev (cvItems c)" cv_capacity "\<lambda>c. cvOk c \<and> \<not> cv_tail c"
  by unfold_locales (simp_all add: add_refines specAdd_def rev_take, simp add: cvOk_def)

text \<open>
  A circular vector that takes a stream of values holds the last of them, as many as its
  capacity, in the order of the stream when it appends to the tail and in reverse when to the head.
\<close>

theorem circular_stream:
  assumes "cvOk c"
  shows "cvToArray (fold cvAdd xs c) =
      (if cv_tail c then lastN (cv_capacity c) (cvToArray c @ xs) else take (cv_capacity c) (rev xs @ cvToArray c))
    \<and> cvOk (fold cvAdd xs c)"
proof (cases "cv_tail c")
  case True
  with assms tail_log.stream_items [of c xs] tail_log.stream_ok [of c xs] show ?thesis
    by (simp add: cvToArray_items)
next
  case False
  from False assms head_log.stream_items [of c xs]
  have "cvItems (fold cvAdd xs c) = rev (lastN (cv_capacity c) (rev (cvItems c) @ xs))"
    by (metis rev_rev_ident)
  also have "\<dots> = take (cv_capacity c) (rev xs @ cvItems c)"
    by (metis rev_append rev_rev_ident rev_take)
  finally show ?thesis
    using False assms head_log.stream_ok [of c xs] by (simp add: cvToArray_items)
qed

lemma resize_ok:
  assumes "cvOk c" and "0 < n"
  shows "cvItems (setCapacity n c) = specResize n (cv_tail c) (cvItems c)" "cvOk (setCapacity n c)"
    "cv_capacity (setCapacity n c) = n" "cv_tail (setCapacity n c) = cv_tail c"
proof -
  note s = setCapacity_def Let_def cvToArray_items [OF assms(1)] cvLength_def
  have len: "length (cv_buffer c) \<le> cv_capacity c" using assms(1) by (simp add: cvOk_def)
  show "cvItems (setCapacity n c) = specResize n (cv_tail c) (cvItems c)"
    using len by (auto simp: s cvItems_def specResize_def lastN_def)
  show "cvOk (setCapacity n c)"
    using assms len by (auto simp: s cvOk_def getAddFunction_def)
  show "cv_capacity (setCapacity n c) = n" "cv_tail (setCapacity n c) = cv_tail c"
    by (simp_all add: s)
qed

lemma mode_ok:
  assumes "cvOk c"
  shows "cvItems (setAppendMode head c) = (if cv_tail c = (\<not> head) then cvItems c else rev (cvItems c))"
    "cvOk (setAppendMode head c)" "cv_capacity (setAppendMode head c) = cv_capacity c"
    "cv_tail (setAppendMode head c) = (\<not> head)"
proof -
  note s = setAppendMode_def cvToArray_items [OF assms]
  show "cvItems (setAppendMode head c) = (if cv_tail c = (\<not> head) then cvItems c else rev (cvItems c))"
    by (auto simp: s) (simp_all add: cvItems_def)
  show "cvOk (setAppendMode head c)"
    using assms by (auto simp: s cvOk_def getAddFunction_def)
  show "cv_capacity (setAppendMode head c) = cv_capacity c" "cv_tail (setAppendMode head c) = (\<not> head)"
    by (auto simp: s)
qed

text \<open>Writing an element: the position of the index is the one \<open>get\<close> reads.\<close>

lemma mod_add_inj:
  assumes "(m + i) mod n = (m + k) mod n" and "i < n" and "k < n"
  shows "i = (k :: nat)"
proof (cases "i \<le> k")
  case True
  then have "n dvd k - i" using assms(1) mod_eq_dvd_iff_nat [of "m + i" "m + k" n] by simp
  with assms(3) True show ?thesis by (auto dest: dvd_imp_le)
next
  case False
  then have "n dvd i - k" using assms(1) mod_eq_dvd_iff_nat [of "m + k" "m + i" n] by simp
  with assms(2) False show ?thesis by (auto dest: dvd_imp_le)
qed

lemma rotate_list_update:
  assumes "k < length xs"
  shows "rotate m (xs[(m + k) mod length xs := x]) = (rotate m xs)[k := x]"
proof (rule nth_equalityI)
  fix i
  assume "i < length (rotate m (xs[(m + k) mod length xs := x]))"
  then have i: "i < length xs" by simp
  have pos: "(m + k) mod length xs < length xs" using assms by (intro mod_less_divisor) linarith
  have "(m + i) mod length xs = (m + k) mod length xs \<longleftrightarrow> i = k"
    using i assms mod_add_inj by blast
  with i assms show "rotate m (xs[(m + k) mod length xs := x]) ! i = (rotate m xs)[k := x] ! i"
    using pos by (auto simp: nth_rotate nth_list_update)
qed simp

lemma set_items:
  assumes "cvOk c" and "i < cvLength c"
  shows "cvItems (cvSet i x c) = (cvItems c)[i := x]" "cvOk (cvSet i x c)"
proof -
  have ne: "cv_buffer c \<noteq> []" using assms(2) by (auto simp: cvLength_def)
  have p: "cvPosition c i = Some ((nat (cv_index c) + i) mod length (cv_buffer c))"
    using assms(1) ne by (simp add: cvPosition_def cvOk_def nat_mod_distrib nat_add_distrib add.commute)
  have "(nat (cv_index c) + i) mod length (cv_buffer c) < length (cv_buffer c)" using ne by simp
  with p assms(2) show "cvItems (cvSet i x c) = (cvItems c)[i := x]"
    by (simp add: cvSet_def cvItems_def arraySet_def rotate_list_update cvLength_def)
  from p \<open>_ < length (cv_buffer c)\<close> assms(1) show "cvOk (cvSet i x c)"
    by (simp add: cvSet_def cvOk_def arraySet_def getAddFunction_def)
qed

text \<open>
  Claim C17. The circular vector implements a list of at most its capacity: adding appends at the end
  of the mode and drops the oldest, resizing keeps the newest values, changing the mode reverses the
  list, and \<open>set\<close> writes what \<open>get\<close> reads.
\<close>

theorem circular_refines_list:
  assumes "cvOk c"
  shows "cvToArray (cvAdd x c) = specAdd x (cv_capacity c) (cv_tail c) (cvToArray c)
    \<and> (0 < n \<longrightarrow> cvToArray (setCapacity n c) = specResize n (cv_tail c) (cvToArray c))
    \<and> cvToArray (setAppendMode head c) = (if cv_tail c = (\<not> head) then cvToArray c else rev (cvToArray c))
    \<and> (i < cvLength c \<longrightarrow> cvToArray (cvSet i x c) = (cvToArray c)[i := x])
    \<and> cvOk (cvAdd x c) \<and> (0 < n \<longrightarrow> cvOk (setCapacity n c)) \<and> cvOk (setAppendMode head c)"
  using assms add_refines [OF assms, of x] resize_ok [OF assms, of n] mode_ok [OF assms, of head]
    set_items [OF assms, of i x]
  by (auto simp: cvToArray_items)

text \<open>A vector of capacity three that has taken four values.\<close>

lemma newCircular_ok: "cvOk (newCircular None head (Some (Suc n)))"
  by (simp add: newCircular_def setCapacity_def cvToArray_def vectorToArray_def cvLength_def cvOk_def
      getAddFunction_def)

lemma newCircular_simps:
  "cv_capacity (newCircular None head (Some (Suc n))) = Suc n"
  "cv_tail (newCircular None head (Some (Suc n))) = (\<not> head)"
  "cvToArray (newCircular None head (Some (Suc n))) = []"
  by (simp_all add: newCircular_def setCapacity_def cvToArray_def vectorToArray_def cvLength_def)

lemma circular_stream_witness:
  "cvToArray (fold cvAdd [Some 1, Some 2, Some 3, Some (4 :: nat)] (newCircular None False (Some 3)))
     = [Some 2, Some 3, Some 4]
   \<and> cvToArray (fold cvAdd [Some 1, Some 2, Some 3, Some (4 :: nat)] (newCircular None True (Some 3)))
     = [Some 4, Some 3, Some 2]"
  using circular_stream [OF newCircular_ok, of "[Some 1, Some 2, Some 3, Some (4 :: nat)]" False 2]
    circular_stream [OF newCircular_ok, of "[Some 1, Some 2, Some 3, Some (4 :: nat)]" True 2]
  unfolding newCircular_simps by (simp add: lastN_def numeral_3_eq_3)

lemma circular_refines_list_witness:
  "cvToArray (cvAdd (Some 7) (newCircular None False (Some 3))) = [Some (7 :: nat)]"
  using circular_refines_list [OF newCircular_ok, of "Some (7 :: nat)" False 2]
  unfolding newCircular_simps by (simp add: specAdd_def numeral_3_eq_3)

text \<open>
  Two corners.  \<open>reverse\<close> turns the buffer around and leaves the index, so that a vector that has
  wrapped is not reversed; and a vector without a capacity loses what is added to its head.
\<close>

lemma reverse_after_wrapping:
  "cvToArray (fold cvAdd [Some 1, Some 2, Some 3, Some (4 :: nat)] (newCircular None False (Some 3)))
     = [Some 2, Some 3, Some 4]"
  "cvToArray (cvReverse (fold cvAdd [Some 1, Some 2, Some 3, Some (4 :: nat)] (newCircular None False (Some 3))))
     = [Some 2, Some 4, Some 3]"
  by (simp_all add: newCircular_def setCapacity_def cvToArray_def vectorToArray_def cvLength_def chooseAdd_def
      getAddFunction_def cvAdd_def cvReverse_def cvGet_def cvPosition_def arrayGet_def arraySet_def Let_def
      numeral_3_eq_3 upt_rec)

lemma head_without_capacity:
  "cvToArray (cvAdd (Some (1 :: nat)) (newCircular None True None)) = []"
  "cv_index (cvAdd (Some (1 :: nat)) (newCircular None True None)) = -1"
  by (simp_all add: newCircular_def cvToArray_def vectorToArray_def cvLength_def chooseAdd_def
      getAddFunction_def cvAdd_def Let_def)

subsection \<open>Appended vectors\<close>

definition covers :: "nat \<Rightarrow> 'a appendedInfo \<Rightarrow> bool" where
  "covers i src \<longleftrightarrow> ai_start src \<le> i \<and> i < ai_end src"

text \<open>The sources are in order, and none reaches past the length of the whole.\<close>

definition avOk :: "'a appendedVectors \<Rightarrow> bool" where
  "avOk v \<longleftrightarrow> sorted_wrt (\<lambda>a b. ai_end a \<le> ai_start b \<and> ai_end a \<le> ai_end b) (av_source v) \<and>
     (\<forall>src \<in> set (av_source v). ai_end src \<le> av_length v)"

lemma sourceGet_append:
  "sourceGet (as @ bs) i = (if \<exists>a \<in> set as. covers i a then sourceGet as i else sourceGet bs i)"
  by (induction as) (auto simp: covers_def)

lemma sourceGet_uncovered: "\<not> (\<exists>a \<in> set as. covers i a) \<Longrightarrow> sourceGet as i = None"
  by (induction as) (auto simp: covers_def)

lemma sourceGet_shorten:
  "sorted_wrt (\<lambda>a b. ai_end a \<le> ai_start b \<and> ai_end a \<le> ai_end b) srcs \<Longrightarrow> i < n \<Longrightarrow>
   sourceGet (shortenSources n srcs) i = sourceGet srcs i"
proof (induction srcs)
  case (Cons a srcs)
  show ?case
  proof (cases "ai_end a > n \<and> i < ai_start a")
    case True
    with Cons.prems have "\<not> covers i b" if "b \<in> set srcs" for b using that by (auto simp: covers_def)
    with True Cons.prems show ?thesis by (simp add: sourceGet_uncovered)
  next
    case False
    with Cons show ?thesis by auto
  qed
qed simp

lemma shortenSources_end: "src \<in> set (shortenSources n srcs) \<Longrightarrow> ai_end src \<le> n"
  by (induction srcs) (auto split: if_splits)

lemma shortenSources_from:
  "src \<in> set (shortenSources n srcs) \<Longrightarrow>
   \<exists>s \<in> set srcs. ai_start src = ai_start s \<and> (ai_end src = ai_end s \<or> ai_end src = n)"
  by (induction srcs) (auto split: if_splits)

lemma shortenSources_sorted:
  "sorted_wrt (\<lambda>a b. ai_end a \<le> ai_start b \<and> ai_end a \<le> ai_end b) srcs \<Longrightarrow>
   sorted_wrt (\<lambda>a b. ai_end a \<le> ai_start b \<and> ai_end a \<le> ai_end b) (shortenSources n srcs)"
proof (induction srcs)
  case (Cons a srcs)
  have "ai_end a \<le> ai_start b \<and> ai_end a \<le> ai_end b" if "ai_end a \<le> n" "b \<in> set (shortenSources n srcs)" for b
    using Cons.prems that(1) shortenSources_from [OF that(2)] by fastforce
  with Cons show ?case by simp
qed simp

text \<open>
  Appended vectors read as one list: appending puts the items of the vector at the end, and
  setting the length cuts the list off or fills it with \<open>undefined\<close>, in any order of the two.
\<close>

theorem appended_refines_list:
  assumes "avOk v"
  shows "avToArray (avAppend w v) = avToArray v @ viewItems w \<and> avOk (avAppend w v) \<and>
    avToArray (avSetLength n v) = take n (avToArray v) @ replicate (n - av_length v) None \<and> avOk (avSetLength n v)"
proof -
  have sorted: "sorted_wrt (\<lambda>a b. ai_end a \<le> ai_start b \<and> ai_end a \<le> ai_end b) (av_source v)"
    and ends: "\<And>src. src \<in> set (av_source v) \<Longrightarrow> ai_end src \<le> av_length v"
    using assms by (auto simp: avOk_def)
  have past: "avGet v i = None" if "av_length v \<le> i" for i
    using that ends by (force simp: avGet_def covers_def intro: sourceGet_uncovered)
  have new: "avGet (avAppend w v) i =
      (if i < av_length v then avGet v i else if i < av_length v + v_length w then v_get w (i - av_length v) else None)" for i
  proof (cases "\<exists>a \<in> set (av_source v). covers i a")
    case True
    then have "i < av_length v" using ends by (force simp: covers_def)
    with True show ?thesis by (simp add: avGet_def avAppend_def Let_def sourceGet_append)
  next
    case False
    then show ?thesis
      by (simp add: avGet_def avAppend_def Let_def sourceGet_append sourceGet_uncovered)
  qed
  have "avToArray (avAppend w v) = avToArray v @ viewItems w"
    by (rule nth_equalityI)
      (simp_all add: avToArray_def vectorToArray_def viewItems_def new nth_append, simp_all add: avAppend_def Let_def)
  moreover have "avOk (avAppend w v)"
    using sorted ends by (force simp: avOk_def avAppend_def Let_def sorted_wrt_append)
  moreover have "avToArray (avSetLength n v) = take n (avToArray v) @ replicate (n - av_length v) None"
  proof (rule nth_equalityI)
    fix i
    assume "i < length (avToArray (avSetLength n v))"
    then have "i < n" by (auto simp: avToArray_def vectorToArray_def avSetLength_def split: if_splits)
    moreover have "avGet (avSetLength n v) i = avGet v i"
      using \<open>i < n\<close> by (auto simp: avGet_def avSetLength_def sourceGet_shorten [OF sorted])
    ultimately show "avToArray (avSetLength n v) ! i = (take n (avToArray v) @ replicate (n - av_length v) None) ! i"
      using past by (auto simp: avToArray_def vectorToArray_def nth_append avSetLength_def)
  qed (auto simp: avToArray_def vectorToArray_def avSetLength_def)
  moreover have "avOk (avSetLength n v)"
    using sorted shortenSources_sorted [OF sorted, of n] shortenSources_end [of _ n "av_source v"] ends
    by (force simp: avOk_def avSetLength_def intro: le_trans less_imp_le)
  ultimately show ?thesis by blast
qed

lemma appended_refines_list_witness:
  "avToArray (avAppend (constantVector (Some 5) 2) (newAppendedVectors 1)) = [None, Some (5 :: nat), Some 5]"
proof -
  have "avOk (newAppendedVectors 1 :: nat appendedVectors)" by (simp add: avOk_def newAppendedVectors_def)
  from appended_refines_list [OF this, of "constantVector (Some 5) 2"] show ?thesis
    by (simp add: avToArray_def vectorToArray_def newAppendedVectors_def avGet_def viewItems_def constantVector_def
        numeral_2_eq_2)
qed

end
