(* ===== verification/Dag.thy ===== *)
theory Dag
  imports JsPrelude
begin

text \<open>
  The directed graphs of \<open>core/utils/dag.ts\<close>, with which the dashboard orders the updates of its
  variables.

  Nodes and edges are objects that refer to each other, so the model keeps them in a store: a node or
  an edge is its index in \<open>dg_nodeStore\<close> or \<open>dg_edgeStore\<close>, and creating one appends to the store.  A
  \<open>Set\<close> is a list without duplicates, in the order of insertion.  An operation that throws is \<open>None\<close>.
\<close>

subsection \<open>The store\<close>

record dagNode =
  dn_name :: jsstr
  dn_edges :: "nat list"
  dn_inputEdges :: "nat list"
  dn_outputEdges :: "nat list"

record dagEdge =
  de_inputNode :: "nat option"
  de_outputNode :: "nat option"

record dag =
  dg_nodes :: "(jsstr, nat) obj"
  dg_nodeStore :: "dagNode list"
  dg_edgeStore :: "dagEdge list"

definition emptyDag :: dag where
  "emptyDag = \<lparr>dg_nodes = [], dg_nodeStore = [], dg_edgeStore = []\<rparr>"

definition onNode :: "nat \<Rightarrow> (dagNode \<Rightarrow> dagNode) \<Rightarrow> dag \<Rightarrow> dag" where
  "onNode n h g = g\<lparr>dg_nodeStore := (dg_nodeStore g)[n := h (dg_nodeStore g ! n)]\<rparr>"

subsection \<open>Edges\<close>

text \<open>\<open>_linkTo\<close> for the two directions it is called with, 1 and -1.\<close>

definition linkTo :: "nat \<Rightarrow> nat \<Rightarrow> int \<Rightarrow> dag \<Rightarrow> dag" where
  "linkTo e n direction =
     onNode n (\<lambda>nd. nd\<lparr>dn_inputEdges := dn_inputEdges nd @ (if direction \<le> 0 then [e] else []),
                       dn_outputEdges := dn_outputEdges nd @ (if direction \<ge> 0 then [e] else []),
                       dn_edges := dn_edges nd @ [e]\<rparr>)"

text \<open>Removing the first occurrence, if there is one, is \<open>remove1\<close>.\<close>

definition unlink :: "nat \<Rightarrow> dag \<Rightarrow> dag" where
  "unlink e g =
     (case (de_inputNode (dg_edgeStore g ! e), de_outputNode (dg_edgeStore g ! e)) of
        (Some i, Some out) \<Rightarrow>
          onNode out (\<lambda>nd. nd\<lparr>dn_inputEdges := remove1 e (dn_inputEdges nd)\<rparr>)
            (onNode i (\<lambda>nd. nd\<lparr>dn_outputEdges := remove1 e (dn_outputEdges nd)\<rparr>)
              (onNode out (\<lambda>nd. nd\<lparr>dn_edges := remove1 e (dn_edges nd)\<rparr>)
                (onNode i (\<lambda>nd. nd\<lparr>dn_edges := remove1 e (dn_edges nd)\<rparr>) g)))
      | _ \<Rightarrow> g)"

definition edgeLink :: "nat \<Rightarrow> nat \<Rightarrow> nat \<Rightarrow> dag \<Rightarrow> dag" where
  "edgeLink e i out g =
     (let g1 = unlink e g;
          g2 = g1\<lparr>dg_edgeStore := (dg_edgeStore g1)[e := \<lparr>de_inputNode = Some i, de_outputNode = Some out\<rparr>]\<rparr>
      in linkTo e out (-1) (linkTo e i 1 g2))"

subsection \<open>Nodes\<close>

definition nodeName :: "dag \<Rightarrow> nat option \<Rightarrow> jsstr option" where
  "nodeName g n = map_option (\<lambda>n. dn_name (dg_nodeStore g ! n)) n"

definition getEdgeFrom :: "dag \<Rightarrow> nat \<Rightarrow> jsstr \<Rightarrow> nat option" where
  "getEdgeFrom g n from =
     (if from = [] then None
      else find (\<lambda>e. nodeName g (de_inputNode (dg_edgeStore g ! e)) = Some from) (dn_inputEdges (dg_nodeStore g ! n)))"

definition getEdgeTo :: "dag \<Rightarrow> nat \<Rightarrow> jsstr \<Rightarrow> nat option" where
  "getEdgeTo g n to =
     (if to = [] then None
      else find (\<lambda>e. nodeName g (de_outputNode (dg_edgeStore g ! e)) = Some to) (dn_outputEdges (dg_nodeStore g ! n)))"

text \<open>The nodes at the other end of the input edges of a node.\<close>

definition inputNodes :: "dag \<Rightarrow> nat \<Rightarrow> nat list" where
  "inputNodes g n =
     List.map_filter (\<lambda>e. if e < length (dg_edgeStore g) then de_inputNode (dg_edgeStore g ! e) else None)
       (dn_inputEdges (dg_nodeStore g ! n))"

definition getOptimizedInputEdges :: "dag \<Rightarrow> nat \<Rightarrow> nat list" where
  "getOptimizedInputEdges g n =
     (let name = dn_name (dg_nodeStore g ! n);
          toBeRemoved = List.map_filter (\<lambda>m. getEdgeTo g m name) (concat (map (inputNodes g) (inputNodes g n)))
      in filter (\<lambda>e. e \<notin> set toBeRemoved) (dn_inputEdges (dg_nodeStore g ! n)))"

subsection \<open>Graphs\<close>

definition createNode :: "jsstr \<Rightarrow> dag \<Rightarrow> nat \<times> dag" where
  "createNode name g =
     (let n = length (dg_nodeStore g)
      in (n, g\<lparr>dg_nodes := objSet name n (dg_nodes g),
               dg_nodeStore := dg_nodeStore g @ [\<lparr>dn_name = name, dn_edges = [], dn_inputEdges = [], dn_outputEdges = []\<rparr>]\<rparr>))"

fun createNodes :: "jsstr list \<Rightarrow> dag \<Rightarrow> nat list \<times> dag" where
  "createNodes [] g = ([], g)"
| "createNodes (name # names) g =
     (case createNode name g of
        (n, g1) \<Rightarrow> (case createNodes names g1 of (ns, g2) \<Rightarrow> (n # ns, g2)))"

definition createEdge :: "dag \<Rightarrow> nat \<times> dag" where
  "createEdge g =
     (length (dg_edgeStore g),
      g\<lparr>dg_edgeStore := dg_edgeStore g @ [\<lparr>de_inputNode = None, de_outputNode = None\<rparr>]\<rparr>)"

definition getNode :: "dag \<Rightarrow> jsstr \<Rightarrow> nat option" where
  "getNode g name = objGet (dg_nodes g) name"

text \<open>An end of \<open>link\<close>; a single one is a list with one element.  A name that is not there throws.\<close>

datatype nodeRef = NodeNamed jsstr | NodeObject nat

fun resolveNodes :: "dag \<Rightarrow> nodeRef list \<Rightarrow> nat list option" where
  "resolveNodes g [] = Some []"
| "resolveNodes g (NodeObject n # rs) = map_option ((#) n) (resolveNodes g rs)"
| "resolveNodes g (NodeNamed name # rs) =
     (case getNode g name of
        None \<Rightarrow> None
      | Some n \<Rightarrow> map_option ((#) n) (resolveNodes g rs))"

definition linkPair :: "nat \<times> nat \<Rightarrow> nat list \<times> dag \<Rightarrow> nat list \<times> dag" where
  "linkPair p r =
     (case (p, r) of
        ((i, out), (edges, g)) \<Rightarrow>
          (case createEdge g of (e, g1) \<Rightarrow> (edges @ [e], edgeLink e i out g1)))"

definition dagLink :: "nodeRef list \<Rightarrow> nodeRef list \<Rightarrow> dag \<Rightarrow> (nat list \<times> dag) option" where
  "dagLink inputs outputs g =
     (case resolveNodes g inputs of
        None \<Rightarrow> None
      | Some is \<Rightarrow>
          (case resolveNodes g outputs of
             None \<Rightarrow> None
           | Some os \<Rightarrow> Some (fold linkPair (concat (map (\<lambda>i. map (\<lambda>out. (i, out)) os) is)) ([], g))))"

subsection \<open>Descendants\<close>

text \<open>The loop over the input edges: the nodes not seen before, each once.\<close>

definition newDescendants :: "dag \<Rightarrow> nat \<Rightarrow> nat list \<Rightarrow> nat list" where
  "newDescendants g n descendants =
     fold (\<lambda>m new. if m \<in> set descendants \<or> m \<in> set new then new else new @ [m]) (inputNodes g n) []"

lemma set_newDescendants: "set (newDescendants g n ds) = set (inputNodes g n) - set ds"
proof -
  have "set (fold (\<lambda>m new. if m \<in> set ds \<or> m \<in> set new then new else new @ [m]) ms new) = set new \<union> (set ms - set ds)"
    for ms new by (induction ms arbitrary: new) auto
  then show ?thesis by (simp add: newDescendants_def)
qed

text \<open>Every input node is the end of an edge of the store, of which there are finitely many.\<close>

definition edgeSources :: "dag \<Rightarrow> nat set" where
  "edgeSources g = {m. \<exists>e. e < length (dg_edgeStore g) \<and> de_inputNode (dg_edgeStore g ! e) = Some m}"

lemma finite_edgeSources: "finite (edgeSources g)"
proof -
  have "edgeSources g \<subseteq> (\<lambda>e. the (de_inputNode (dg_edgeStore g ! e))) ` {..<length (dg_edgeStore g)}"
    by (force simp: edgeSources_def)
  then show ?thesis by (rule finite_subset) simp
qed

lemma inputNodes_sources: "set (inputNodes g n) \<subseteq> edgeSources g"
  by (auto simp: inputNodes_def edgeSources_def List.map_filter_def split: if_splits)

function descendantsRecursive :: "dag \<Rightarrow> nat list \<Rightarrow> nat list \<Rightarrow> nat list" where
  "descendantsRecursive g [] ds = ds"
| "descendantsRecursive g (n # ns) ds =
     (let new = newDescendants g n ds
      in descendantsRecursive g ns (descendantsRecursive g new (ds @ new)))"
  by pat_completeness auto

termination
proof (relation "inv_image (finite_psubset <*lex*> less_than) (\<lambda>(g, ns, ds). (edgeSources g - set ds, length ns))",
    goal_cases)
  case 1
  show ?case by auto
next
  case (2 g n ns ds new)
  have new: "set new = set (inputNodes g n) - set ds" using 2 by (simp add: set_newDescendants)
  show ?case
  proof (cases "new = []")
    case False
    then have "edgeSources g - set (ds @ new) \<subset> edgeSources g - set ds"
      using new inputNodes_sources [of g n] by (cases new) auto
    then show ?thesis by (simp add: finite_psubset_def finite_edgeSources)
  qed simp
next
  case (3 g n ns ds new)
  have "set ds \<subseteq> set (descendantsRecursive g ns ds)" if "descendantsRecursive_dom (g, ns, ds)" for g ns ds
    using that by (induction g ns ds rule: descendantsRecursive.pinduct)
      (auto simp: descendantsRecursive.psimps Let_def)
  from this [OF 3(2)] have "set ds \<subseteq> set (descendantsRecursive g new (ds @ new))" by auto
  then have "edgeSources g - set (descendantsRecursive g new (ds @ new)) \<subset> edgeSources g - set ds \<or>
      edgeSources g - set (descendantsRecursive g new (ds @ new)) = edgeSources g - set ds" by auto
  then show ?case by (auto simp: finite_psubset_def finite_edgeSources)
qed

text \<open>\<open>descendants\<close>: names that are not in the graph are left out; \<open>new Set\<close> drops duplicates.\<close>

datatype nodeArray = NodeNames "jsstr list" | NodeObjects "nat list"

definition descendants :: "dag \<Rightarrow> nodeArray \<Rightarrow> nat list" where
  "descendants g nodes =
     (case nodes of
        NodeNames names \<Rightarrow>
          descendantsRecursive g (rev (remdups (rev (List.map_filter (getNode g) names)))) []
      | NodeObjects ns \<Rightarrow> descendantsRecursive g (rev (remdups (rev ns))) [])"

end
