(* ===== verification/DagProps.thy ===== *)
theory DagProps
  imports Dag "HOL-Library.Multiset"
begin

text \<open>
  The graph operations keep the two ends of every edge in agreement, and \<open>descendants\<close> is the set of
  nodes reachable over input edges, in graphs with cycles too.
\<close>

subsection \<open>Descendants\<close>

text \<open>One step against the direction of an edge.\<close>

inductive inputOf :: "dag \<Rightarrow> nat \<Rightarrow> nat \<Rightarrow> bool" for g where
  edge: "m \<in> set (inputNodes g n) \<Longrightarrow> inputOf g n m"

inductive_simps inputOf_iff: "inputOf g n m"

lemma descendantsRecursive_mono: "set ds \<subseteq> set (descendantsRecursive g ns ds)"
  by (induction g ns ds rule: descendantsRecursive.induct) (auto simp: Let_def)

lemma descendantsRecursive_roots:
  "n \<in> set ns \<Longrightarrow> set (inputNodes g n) \<subseteq> set (descendantsRecursive g ns ds)"
proof (induction g ns ds rule: descendantsRecursive.induct)
  case (2 g n' ns ds)
  let ?new = "newDescendants g n' ds"
  have "set (inputNodes g n') \<subseteq> set (ds @ ?new)" by (auto simp: set_newDescendants)
  also have "\<dots> \<subseteq> set (descendantsRecursive g ns (descendantsRecursive g ?new (ds @ ?new)))"
    using descendantsRecursive_mono by (meson order.trans)
  finally show ?case using 2 by (auto simp: Let_def)
qed simp

lemma descendantsRecursive_closed:
  "n \<in> set (descendantsRecursive g ns ds) - set ds \<Longrightarrow> set (inputNodes g n) \<subseteq> set (descendantsRecursive g ns ds)"
proof (induction g ns ds rule: descendantsRecursive.induct)
  case (2 g n' ns ds)
  let ?new = "newDescendants g n' ds"
  let ?ds = "descendantsRecursive g ?new (ds @ ?new)"
  have mono: "set ?ds \<subseteq> set (descendantsRecursive g ns ?ds)" by (rule descendantsRecursive_mono)
  show ?case
  proof (cases "n \<in> set ?ds")
    case True
    then have "set (inputNodes g n) \<subseteq> set ?ds"
      using "2.prems" "2.IH"(1) [OF refl] descendantsRecursive_roots [of n ?new g "ds @ ?new"] by auto
    with mono show ?thesis by (simp add: Let_def)
  next
    case False
    with "2.IH"(2) [OF refl] "2.prems" show ?thesis by (simp add: Let_def)
  qed
qed simp

lemma descendantsRecursive_reachable:
  "m \<in> set (descendantsRecursive g ns ds) \<Longrightarrow> m \<in> set ds \<or> (\<exists>n \<in> set ns. (inputOf g)\<^sup>+\<^sup>+ n m)"
proof (induction g ns ds rule: descendantsRecursive.induct)
  case (2 g n ns ds)
  let ?new = "newDescendants g n ds"
  have step: "inputOf g n k" if "k \<in> set ?new" for k
    using that by (simp add: set_newDescendants inputOf_iff)
  from "2.prems" "2.IH"(2) [OF refl]
  consider "\<exists>n' \<in> set ns. (inputOf g)\<^sup>+\<^sup>+ n' m" | "m \<in> set (descendantsRecursive g ?new (ds @ ?new))"
    by (auto simp: Let_def)
  then show ?case
  proof cases
    case 2
    with "2.IH"(1) [OF refl] show ?thesis
      using step by (auto intro: tranclp_into_tranclp2)
  qed auto
qed simp

lemma descendantsRecursive_distinct: "distinct ds \<Longrightarrow> distinct (descendantsRecursive g ns ds)"
proof (induction g ns ds rule: descendantsRecursive.induct)
  case (2 g n ns ds)
  have "distinct (fold (\<lambda>m new. if m \<in> set ds \<or> m \<in> set new then new else new @ [m]) ms new)"
    if "distinct new" for ms new using that by (induction ms arbitrary: new) auto
  then have "distinct (newDescendants g n ds)" by (simp add: newDescendants_def)
  with 2 show ?case by (auto simp: Let_def set_newDescendants)
qed simp

lemma set_descendantsRecursive:
  "set (descendantsRecursive g ns []) = {m. \<exists>n \<in> set ns. (inputOf g)\<^sup>+\<^sup>+ n m}"
proof (intro equalityI subsetI CollectI)
  fix m
  assume "m \<in> set (descendantsRecursive g ns [])"
  from descendantsRecursive_reachable [OF this] show "\<exists>n \<in> set ns. (inputOf g)\<^sup>+\<^sup>+ n m" by simp
next
  fix m
  assume "m \<in> {m. \<exists>n \<in> set ns. (inputOf g)\<^sup>+\<^sup>+ n m}"
  then obtain n where n: "n \<in> set ns" and r: "(inputOf g)\<^sup>+\<^sup>+ n m" by blast
  from r show "m \<in> set (descendantsRecursive g ns [])"
  proof (induction rule: tranclp_induct)
    case (base k)
    with n descendantsRecursive_roots show ?case by (force simp: inputOf_iff)
  next
    case (step k k')
    with descendantsRecursive_closed [of k g ns "[]"] show ?case by (auto simp: inputOf_iff)
  qed
qed

text \<open>The nodes an argument of \<open>descendants\<close> names.\<close>

definition startNodes :: "dag \<Rightarrow> nodeArray \<Rightarrow> nat set" where
  "startNodes g nodes =
     (case nodes of
        NodeNames names \<Rightarrow> {n. \<exists>name \<in> set names. getNode g name = Some n}
      | NodeObjects ns \<Rightarrow> set ns)"

lemma descendants_set: "set (descendants g nodes) = {m. \<exists>n \<in> startNodes g nodes. (inputOf g)\<^sup>+\<^sup>+ n m}"
proof -
  have "set (List.map_filter (getNode g) names) = {n. \<exists>name \<in> set names. getNode g name = Some n}" for names
    by (force simp: List.map_filter_def)
  then show ?thesis
    by (auto simp: descendants_def startNodes_def set_descendantsRecursive split: nodeArray.split)
qed

text \<open>
  Claim C18. \<open>descendants\<close> returns on every graph, cyclic ones included, and gives each node that can
  be reached from one of the given nodes over one or more input edges, once; a given node itself only
  if it lies on a cycle or behind another one.
\<close>

theorem descendants_reachable:
  "set (descendants g nodes) = {m. \<exists>n \<in> startNodes g nodes. (inputOf g)\<^sup>+\<^sup>+ n m} \<and> distinct (descendants g nodes)"
proof -
  have "distinct (descendants g nodes)"
    by (simp add: descendants_def descendantsRecursive_distinct split: nodeArray.split)
  with descendants_set show ?thesis by blast
qed

subsection \<open>The two ends of an edge\<close>

abbreviation inE :: "dag \<Rightarrow> nat \<Rightarrow> nat list" where
  "inE g n \<equiv> dn_inputEdges (dg_nodeStore g ! n)"

abbreviation outE :: "dag \<Rightarrow> nat \<Rightarrow> nat list" where
  "outE g n \<equiv> dn_outputEdges (dg_nodeStore g ! n)"

abbreviation allE :: "dag \<Rightarrow> nat \<Rightarrow> nat list" where
  "allE g n \<equiv> dn_edges (dg_nodeStore g ! n)"

abbreviation nodeCount :: "dag \<Rightarrow> nat" where
  "nodeCount g \<equiv> length (dg_nodeStore g)"

abbreviation edgeCount :: "dag \<Rightarrow> nat" where
  "edgeCount g \<equiv> length (dg_edgeStore g)"

text \<open>
  An edge is in the list of one end exactly when it is in the list of the other, at most once, and the
  edges of a node are its input and its output edges; the names stand for nodes of the store.
\<close>

definition edgeOk :: "dag \<Rightarrow> nat \<Rightarrow> bool" where
  "edgeOk g e \<longleftrightarrow>
     (case (de_inputNode (dg_edgeStore g ! e), de_outputNode (dg_edgeStore g ! e)) of
        (None, None) \<Rightarrow> True
      | (Some i, Some out) \<Rightarrow>
          i < nodeCount g \<and> out < nodeCount g \<and> (e \<in> set (inE g out) \<longleftrightarrow> e \<in> set (outE g i))
      | _ \<Rightarrow> False)"

definition nodeOk :: "dag \<Rightarrow> nat \<Rightarrow> bool" where
  "nodeOk g n \<longleftrightarrow>
     distinct (inE g n) \<and> distinct (outE g n) \<and> mset (allE g n) = mset (inE g n) + mset (outE g n) \<and>
     (\<forall>e \<in> set (inE g n). e < edgeCount g \<and> de_outputNode (dg_edgeStore g ! e) = Some n) \<and>
     (\<forall>e \<in> set (outE g n). e < edgeCount g \<and> de_inputNode (dg_edgeStore g ! e) = Some n)"

definition dagOk :: "dag \<Rightarrow> bool" where
  "dagOk g \<longleftrightarrow>
     (\<forall>e < edgeCount g. edgeOk g e) \<and> (\<forall>n < nodeCount g. nodeOk g n) \<and>
     (\<forall>name n. getNode g name = Some n \<longrightarrow> n < nodeCount g)"

lemma onNode_simps [simp]:
  "nodeCount (onNode n h g) = nodeCount g" "dg_edgeStore (onNode n h g) = dg_edgeStore g"
  "dg_nodes (onNode n h g) = dg_nodes g" "getNode (onNode n h g) = getNode g"
  by (simp_all add: onNode_def getNode_def fun_eq_iff)

lemma nth_onNode:
  "k < nodeCount g \<Longrightarrow> dg_nodeStore (onNode n h g) ! k = (if k = n then h (dg_nodeStore g ! k) else dg_nodeStore g ! k)"
  by (simp add: onNode_def nth_list_update)

lemma createNode_simps:
  "fst (createNode name g) = nodeCount g" "nodeCount (snd (createNode name g)) = Suc (nodeCount g)"
  "getNode (snd (createNode name g)) name' = (if name' = name then Some (nodeCount g) else getNode g name')"
  "dg_edgeStore (snd (createNode name g)) = dg_edgeStore g"
  "n < nodeCount g \<Longrightarrow> dg_nodeStore (snd (createNode name g)) ! n = dg_nodeStore g ! n"
  by (simp_all add: createNode_def Let_def getNode_def obj.get_set nth_append)

lemma createNode_ok:
  assumes "dagOk g"
  shows "dagOk (snd (createNode name g))"
proof -
  let ?g = "snd (createNode name g)"
  have "nodeOk ?g (nodeCount g)" by (simp add: nodeOk_def createNode_def Let_def)
  moreover have "nodeOk ?g n" if "n < nodeCount g" for n
    using assms that by (simp add: dagOk_def nodeOk_def createNode_simps)
  moreover have "edgeOk ?g e" if "e < edgeCount g" for e
    using assms that by (auto simp: dagOk_def edgeOk_def createNode_simps split: option.splits)
  ultimately show ?thesis
    using assms by (auto simp: dagOk_def createNode_simps less_Suc_eq)
qed

lemma createEdge_simps:
  "fst (createEdge g) = edgeCount g" "edgeCount (snd (createEdge g)) = Suc (edgeCount g)"
  "dg_nodeStore (snd (createEdge g)) = dg_nodeStore g" "getNode (snd (createEdge g)) = getNode g"
  "e < edgeCount g \<Longrightarrow> dg_edgeStore (snd (createEdge g)) ! e = dg_edgeStore g ! e"
  "dg_edgeStore (snd (createEdge g)) ! edgeCount g = \<lparr>de_inputNode = None, de_outputNode = None\<rparr>"
  by (simp_all add: createEdge_def getNode_def nth_append fun_eq_iff)

lemma createEdge_ok:
  assumes "dagOk g"
  shows "dagOk (snd (createEdge g))"
proof -
  let ?g = "snd (createEdge g)"
  have "edgeOk ?g (edgeCount g)" by (simp add: edgeOk_def createEdge_simps)
  moreover have "edgeOk ?g e" if "e < edgeCount g" for e
    using assms that by (auto simp: dagOk_def edgeOk_def createEdge_simps split: option.splits)
  moreover have "nodeOk ?g n" if "n < nodeCount g" for n
  proof -
    from assms that have "nodeOk g n" by (simp add: dagOk_def)
    then show ?thesis by (auto simp: nodeOk_def createEdge_simps less_SucI)
  qed
  ultimately show ?thesis
    using assms by (auto simp: dagOk_def createEdge_simps less_Suc_eq)
qed

definition detached :: "dag \<Rightarrow> nat \<Rightarrow> bool" where
  "detached g e \<longleftrightarrow> (\<forall>n < nodeCount g. e \<notin> set (inE g n) \<and> e \<notin> set (outE g n))"

lemma unlink_simps:
  assumes "dg_edgeStore g ! e = \<lparr>de_inputNode = Some i, de_outputNode = Some out\<rparr>"
  shows "nodeCount (unlink e g) = nodeCount g" "dg_edgeStore (unlink e g) = dg_edgeStore g"
    "getNode (unlink e g) = getNode g"
    "k < nodeCount g \<Longrightarrow> inE (unlink e g) k = (if k = out then remove1 e (inE g k) else inE g k)"
    "k < nodeCount g \<Longrightarrow> outE (unlink e g) k = (if k = i then remove1 e (outE g k) else outE g k)"
    "k < nodeCount g \<Longrightarrow> allE (unlink e g) k =
       (if k = i then if k = out then remove1 e (remove1 e (allE g k)) else remove1 e (allE g k)
        else if k = out then remove1 e (allE g k) else allE g k)"
proof -
  let ?cut = "\<lambda>nd. nd\<lparr>dn_edges := remove1 e (dn_edges nd)\<rparr>"
  have u: "unlink e g =
      onNode out (\<lambda>nd. nd\<lparr>dn_inputEdges := remove1 e (dn_inputEdges nd)\<rparr>)
        (onNode i (\<lambda>nd. nd\<lparr>dn_outputEdges := remove1 e (dn_outputEdges nd)\<rparr>) (onNode out ?cut (onNode i ?cut g)))"
    using assms by (simp add: unlink_def)
  show "nodeCount (unlink e g) = nodeCount g" "dg_edgeStore (unlink e g) = dg_edgeStore g"
    "getNode (unlink e g) = getNode g" by (simp_all add: u)
  assume "k < nodeCount g"
  then show "inE (unlink e g) k = (if k = out then remove1 e (inE g k) else inE g k)"
    "outE (unlink e g) k = (if k = i then remove1 e (outE g k) else outE g k)"
    "allE (unlink e g) k =
       (if k = i then if k = out then remove1 e (remove1 e (allE g k)) else remove1 e (allE g k)
        else if k = out then remove1 e (allE g k) else allE g k)"
    unfolding u by (cases "k = i"; cases "k = out"; simp add: nth_onNode)+
qed

lemma minus_plus_left: "e \<notin># A \<Longrightarrow> A + B - {#e#} = A + (B - {#e#})"
  by (rule multiset_eqI) (auto simp: not_in_iff)

lemma minus_plus_both:
  "(e \<in># A \<longleftrightarrow> e \<in># B) \<Longrightarrow> A + B - {#e#} - {#e#} = (A - {#e#}) + (B - {#e#})"
  by (rule multiset_eqI) (auto simp: count_greater_zero_iff [symmetric] simp del: count_greater_zero_iff)

lemma edgeOk_cases:
  assumes "edgeOk g e"
  obtains "dg_edgeStore g ! e = \<lparr>de_inputNode = None, de_outputNode = None\<rparr>"
  | i out where "dg_edgeStore g ! e = \<lparr>de_inputNode = Some i, de_outputNode = Some out\<rparr>"
      "i < nodeCount g" "out < nodeCount g" "e \<in> set (inE g out) \<longleftrightarrow> e \<in> set (outE g i)"
  using assms by (cases "dg_edgeStore g ! e") (auto simp: edgeOk_def split: option.splits)

lemma unlink_ok:
  assumes "dagOk g" and "e < edgeCount g"
  shows "dagOk (unlink e g) \<and> detached (unlink e g) e \<and> nodeCount (unlink e g) = nodeCount g \<and>
    dg_edgeStore (unlink e g) = dg_edgeStore g \<and> getNode (unlink e g) = getNode g"
proof -
  have nodes: "nodeOk g n" if "n < nodeCount g" for n using assms(1) that by (simp add: dagOk_def)
  have edges: "edgeOk g k" if "k < edgeCount g" for k using assms(1) that by (simp add: dagOk_def)
  from edges [OF assms(2)] show ?thesis
  proof (cases rule: edgeOk_cases)
    case 1
    then have "unlink e g = g" by (simp add: unlink_def)
    moreover have "detached g e" using 1 nodes by (fastforce simp: detached_def nodeOk_def)
    ultimately show ?thesis using assms(1) by simp
  next
    case (2 i out)
    note s = unlink_simps [OF 2(1)]
    have other: "e \<notin> set (inE g n)" if "n < nodeCount g" "n \<noteq> out" for n
      using nodes [OF that(1)] that(2) 2(1) by (auto simp: nodeOk_def)
    have other': "e \<notin> set (outE g n)" if "n < nodeCount g" "n \<noteq> i" for n
      using nodes [OF that(1)] that(2) 2(1) by (auto simp: nodeOk_def)
    have "nodeOk (unlink e g) n" if n: "n < nodeCount g" for n
    proof -
      have "mset (allE (unlink e g) n) = mset (inE (unlink e g) n) + mset (outE (unlink e g) n)"
        using nodes [OF n] other [OF n] other' [OF n] 2(4) minus_plus_both [of e "mset (inE g n)" "mset (outE g n)"]
          minus_plus_left [of e "mset (inE g n)" "mset (outE g n)"] minus_plus_left [of e "mset (outE g n)" "mset (inE g n)"]
        by (auto simp: s n nodeOk_def add.commute)
      then show ?thesis
        using nodes [OF n] by (auto simp: nodeOk_def s n dest: notin_set_remove1 [rotated])
    qed
    moreover have "detached (unlink e g) e"
      using nodes other other' by (auto simp: detached_def s nodeOk_def)
    moreover have "edgeOk (unlink e g) k" if "k < edgeCount g" for k
      using edges [OF that]
    proof (cases rule: edgeOk_cases)
      case (2 i' out')
      then show ?thesis
        using nodes [OF 2(2)] nodes [OF 2(3)] \<open>detached (unlink e g) e\<close>
        by (cases "k = e") (auto simp: edgeOk_def s detached_def nodeOk_def)
    qed (simp add: edgeOk_def s)
    ultimately show ?thesis using assms(1) by (auto simp: dagOk_def s)
  qed
qed

lemma linkTo_simps:
  "nodeCount (linkTo e n d g) = nodeCount g" "dg_edgeStore (linkTo e n d g) = dg_edgeStore g"
  "getNode (linkTo e n d g) = getNode g"
  "k < nodeCount g \<Longrightarrow> inE (linkTo e n d g) k = inE g k @ (if k = n \<and> d \<le> 0 then [e] else [])"
  "k < nodeCount g \<Longrightarrow> outE (linkTo e n d g) k = outE g k @ (if k = n \<and> d \<ge> 0 then [e] else [])"
  "k < nodeCount g \<Longrightarrow> allE (linkTo e n d g) k = allE g k @ (if k = n then [e] else [])"
  by (simp_all add: linkTo_def nth_onNode)

lemma edgeLink_simps:
  assumes "dagOk g" and "e < edgeCount g"
  shows "nodeCount (edgeLink e i out g) = nodeCount g"
    "dg_edgeStore (edgeLink e i out g) = (dg_edgeStore g)[e := \<lparr>de_inputNode = Some i, de_outputNode = Some out\<rparr>]"
    "getNode (edgeLink e i out g) = getNode g"
    "k < nodeCount g \<Longrightarrow> inE (edgeLink e i out g) k = inE (unlink e g) k @ (if k = out then [e] else [])"
    "k < nodeCount g \<Longrightarrow> outE (edgeLink e i out g) k = outE (unlink e g) k @ (if k = i then [e] else [])"
    "k < nodeCount g \<Longrightarrow> allE (edgeLink e i out g) k =
       allE (unlink e g) k @ (if k = i then [e] else []) @ (if k = out then [e] else [])"
proof -
  have u: "nodeCount (unlink e g) = nodeCount g" "dg_edgeStore (unlink e g) = dg_edgeStore g"
    "getNode (unlink e g) = getNode g"
    using unlink_ok [OF assms] by simp_all
  have n: "getNode (unlink e g\<lparr>dg_edgeStore := es\<rparr>) = getNode (unlink e g)" for es
    by (simp add: getNode_def fun_eq_iff)
  show "nodeCount (edgeLink e i out g) = nodeCount g"
    "dg_edgeStore (edgeLink e i out g) = (dg_edgeStore g)[e := \<lparr>de_inputNode = Some i, de_outputNode = Some out\<rparr>]"
    "getNode (edgeLink e i out g) = getNode g"
    by (simp_all add: edgeLink_def Let_def linkTo_simps u n)
  assume "k < nodeCount g"
  then show "inE (edgeLink e i out g) k = inE (unlink e g) k @ (if k = out then [e] else [])"
    "outE (edgeLink e i out g) k = outE (unlink e g) k @ (if k = i then [e] else [])"
    "allE (edgeLink e i out g) k =
       allE (unlink e g) k @ (if k = i then [e] else []) @ (if k = out then [e] else [])"
    by (simp_all add: edgeLink_def Let_def linkTo_simps u)
qed

lemma edgeLink_ok:
  assumes "dagOk g" and "e < edgeCount g" and "i < nodeCount g" and "out < nodeCount g"
  shows "dagOk (edgeLink e i out g)"
proof -
  note s = edgeLink_simps [OF assms(1,2), where i = i and out = out]
  from unlink_ok [OF assms(1,2)] have ok: "dagOk (unlink e g)" and det: "detached (unlink e g) e"
    and c: "nodeCount (unlink e g) = nodeCount g" "dg_edgeStore (unlink e g) = dg_edgeStore g"
      "getNode (unlink e g) = getNode g" by simp_all
  have free: "e \<notin> set (inE (unlink e g) n)" "e \<notin> set (outE (unlink e g) n)" if "n < nodeCount g" for n
    using det that c by (simp_all add: detached_def)
  have "nodeOk (edgeLink e i out g) n" if n: "n < nodeCount g" for n
  proof -
    have "nodeOk (unlink e g) n" using ok n c by (simp add: dagOk_def)
    then show ?thesis
      using free [OF n] assms(2) by (auto simp: nodeOk_def s n c nth_list_update)
  qed
  moreover have "edgeOk (edgeLink e i out g) k" if k: "k < edgeCount g" for k
  proof (cases "k = e")
    case True
    then show ?thesis using assms by (simp add: edgeOk_def s)
  next
    case False
    have "edgeOk (unlink e g) k" using ok k c by (simp add: dagOk_def)
    then show ?thesis
      using False k c by (cases rule: edgeOk_cases) (auto simp: edgeOk_def s)
  qed
  ultimately show ?thesis using assms(1) by (auto simp: dagOk_def s)
qed

text \<open>What one step of \<open>link\<close> adds to the input nodes.\<close>

lemma set_inputNodes:
  assumes "dagOk g" and "n < nodeCount g"
  shows "set (inputNodes g n) = {i. \<exists>e \<in> set (inE g n). de_inputNode (dg_edgeStore g ! e) = Some i}"
proof -
  have m: "set (List.map_filter h xs) = {y. \<exists>x \<in> set xs. h x = Some y}" for h :: "nat \<Rightarrow> nat option" and xs
    by (force simp: List.map_filter_def)
  have "\<forall>e \<in> set (inE g n). e < edgeCount g" using assms by (simp add: dagOk_def nodeOk_def)
  then show ?thesis unfolding inputNodes_def m by (intro Collect_cong bex_cong refl) simp
qed

lemma linkPair_ok:
  assumes "dagOk g" and "i < nodeCount g" and "out < nodeCount g"
  shows "dagOk (snd (linkPair (i, out) (es, g)))" "nodeCount (snd (linkPair (i, out) (es, g))) = nodeCount g"
    "getNode (snd (linkPair (i, out) (es, g))) = getNode g"
    "n < nodeCount g \<Longrightarrow> set (inputNodes (snd (linkPair (i, out) (es, g))) n) =
       set (inputNodes g n) \<union> (if n = out then {i} else {})"
proof -
  let ?g = "snd (createEdge g)"
  have ok: "dagOk ?g" by (rule createEdge_ok [OF assms(1)])
  have e: "edgeCount g < edgeCount ?g" by (simp add: createEdge_simps)
  have l: "snd (linkPair (i, out) (es, g)) = edgeLink (edgeCount g) i out ?g"
    by (simp add: linkPair_def createEdge_def)
  note s = edgeLink_simps [OF ok e, where i = i and out = out]
  have u: "unlink (edgeCount g) ?g = ?g" by (simp add: unlink_def createEdge_simps)
  show ok': "dagOk (snd (linkPair (i, out) (es, g)))"
    unfolding l using assms by (intro edgeLink_ok ok e) (simp_all add: createEdge_simps)
  show cnt: "nodeCount (snd (linkPair (i, out) (es, g))) = nodeCount g"
    "getNode (snd (linkPair (i, out) (es, g))) = getNode g"
    by (simp_all add: l s createEdge_simps)
  assume n: "n < nodeCount g"
  have "e < edgeCount g" if "e \<in> set (inE g n)" for e
    using assms(1) n that by (simp add: dagOk_def nodeOk_def)
  then have old: "de_inputNode (dg_edgeStore (edgeLink (edgeCount g) i out ?g) ! e) = de_inputNode (dg_edgeStore g ! e)"
    if "e \<in> set (inE g n)" for e
    using that by (fastforce simp: s createEdge_simps)
  have new: "de_inputNode (dg_edgeStore (edgeLink (edgeCount g) i out ?g) ! edgeCount g) = Some i"
    by (simp add: s createEdge_simps)
  have "inE (edgeLink (edgeCount g) i out ?g) n = inE g n @ (if n = out then [edgeCount g] else [])"
    using n by (simp add: s u createEdge_simps)
  then show "set (inputNodes (snd (linkPair (i, out) (es, g))) n) = set (inputNodes g n) \<union> (if n = out then {i} else {})"
    using n set_inputNodes [OF ok', of n] unfolding cnt set_inputNodes [OF assms(1) n]
    by (auto simp: l old new)
qed

lemma fold_linkPair_ok:
  assumes "dagOk g" and "\<forall>(i, out) \<in> set ps. i < nodeCount g \<and> out < nodeCount g"
  shows "dagOk (snd (fold linkPair ps (es, g))) \<and> nodeCount (snd (fold linkPair ps (es, g))) = nodeCount g \<and>
    (\<forall>n < nodeCount g. set (inputNodes (snd (fold linkPair ps (es, g))) n) = set (inputNodes g n) \<union> {i. (i, n) \<in> set ps})"
  using assms
proof (induction ps arbitrary: es g)
  case (Cons p ps)
  obtain i out where p: "p = (i, out)" by (cases p)
  obtain es' g' where l: "linkPair (i, out) (es, g) = (es', g')" by (cases "linkPair (i, out) (es, g)")
  have r: "dagOk g" "i < nodeCount g" "out < nodeCount g" using Cons.prems by (auto simp: p)
  have ok: "dagOk g'" "nodeCount g' = nodeCount g"
    and inputs: "set (inputNodes g' n) = set (inputNodes g n) \<union> (if n = out then {i} else {})" if "n < nodeCount g" for n
    using linkPair_ok [OF r, where es = es] l that by (simp_all add: p)
  have ok': "dagOk g'" "nodeCount g' = nodeCount g" using linkPair_ok [OF r, where es = es] l by (simp_all add: p)
  from Cons.IH [OF ok'(1), of es'] Cons.prems ok' inputs show ?case
    by (auto simp: l p)
qed simp

lemma resolveNodes_ok:
  "resolveNodes g rs = Some ns \<Longrightarrow> dagOk g \<Longrightarrow> \<forall>n. NodeObject n \<in> set rs \<longrightarrow> n < nodeCount g \<Longrightarrow> n \<in> set ns \<Longrightarrow> n < nodeCount g"
  by (induction g rs arbitrary: ns rule: resolveNodes.induct) (auto simp: dagOk_def split: option.splits)

text \<open>
  The operations on nodes and edges keep every edge in the lists of both of its nodes or of
  neither: creating a node, moving an edge to other ends, and removing one, after which it is in no list.
\<close>

theorem dag_operations_keep_links:
  assumes "dagOk g"
  shows "dagOk (snd (createNode name g))
    \<and> (e < edgeCount g \<longrightarrow> dagOk (unlink e g) \<and> detached (unlink e g) e)
    \<and> (e < edgeCount g \<and> i < nodeCount g \<and> out < nodeCount g \<longrightarrow>
         dagOk (edgeLink e i out g) \<and> i \<in> set (inputNodes (edgeLink e i out g) out))"
proof -
  have "i \<in> set (inputNodes (edgeLink e i out g) out)"
    if "e < edgeCount g" "i < nodeCount g" "out < nodeCount g"
  proof -
    note s = edgeLink_simps [OF assms that(1), where i = i and out = out]
    have "dagOk (edgeLink e i out g)" "out < nodeCount (edgeLink e i out g)"
      using edgeLink_ok [OF assms that] that by (simp_all add: s)
    from set_inputNodes [OF this] that show ?thesis by (auto simp: s)
  qed
  then show ?thesis using assms by (simp add: createNode_ok unlink_ok edgeLink_ok)
qed

text \<open>
  Linking makes each of the first nodes an input node of each of the second ones and changes
  nothing else; it is refused, before anything is linked, if a name is not in the graph.
\<close>

theorem dagLink_links:
  assumes "dagOk g" and "\<forall>n. NodeObject n \<in> set inputs \<union> set outputs \<longrightarrow> n < nodeCount g"
  shows "case dagLink inputs outputs g of
      None \<Rightarrow> resolveNodes g inputs = None \<or> resolveNodes g outputs = None
    | Some (edges, g') \<Rightarrow>
        (\<exists>is os. resolveNodes g inputs = Some is \<and> resolveNodes g outputs = Some os \<and> dagOk g' \<and>
           (\<forall>n < nodeCount g. set (inputNodes g' n) = set (inputNodes g n) \<union> (if n \<in> set os then set is else {})))"
proof (cases "resolveNodes g inputs = None \<or> resolveNodes g outputs = None")
  case True
  then show ?thesis by (auto simp: dagLink_def split: option.split)
next
  case False
  then obtain "is" os where r: "resolveNodes g inputs = Some is" "resolveNodes g outputs = Some os" by auto
  let ?ps = "concat (map (\<lambda>i. map (\<lambda>out. (i, out)) os) is)"
  have "\<forall>(i, out) \<in> set ?ps. i < nodeCount g \<and> out < nodeCount g"
    using resolveNodes_ok [OF r(1) assms(1)] resolveNodes_ok [OF r(2) assms(1)] assms(2) by auto
  from fold_linkPair_ok [OF assms(1) this, of "[]"] show ?thesis
    by (cases "fold linkPair ?ps ([], g)") (auto simp: dagLink_def r)
qed

text \<open>Two nodes, the first of which is linked to the second.\<close>

definition twoNodes :: dag where
  "twoNodes = snd (createNodes [js ''a'', js ''b''] emptyDag)"

lemma twoNodes_ok: "dagOk twoNodes" "nodeCount twoNodes = 2"
proof -
  have "dagOk emptyDag" by (simp add: dagOk_def emptyDag_def getNode_def)
  then show "dagOk twoNodes"
    by (simp add: twoNodes_def createNode_ok split: prod.splits) (metis createNode_ok snd_conv)
  show "nodeCount twoNodes = 2"
    by (simp add: twoNodes_def createNode_def emptyDag_def Let_def)
qed

lemma dagLink_links_witness:
  "\<exists>g'. dagLink [NodeNamed (js ''a'')] [NodeNamed (js ''b'')] twoNodes = Some ([0], g') \<and> dagOk g' \<and>
     set (inputNodes g' 1) = {0}"
proof -
  have "getNode twoNodes (js ''a'') = Some 0" "getNode twoNodes (js ''b'') = Some 1"
    by (simp_all add: twoNodes_def createNode_def emptyDag_def Let_def getNode_def objGet_def)
  then have l: "\<exists>g'. dagLink [NodeNamed (js ''a'')] [NodeNamed (js ''b'')] twoNodes = Some ([0], g')"
    by (simp add: dagLink_def linkPair_def createEdge_def twoNodes_def createNode_def emptyDag_def)
  have i: "set (inputNodes twoNodes 1) = {}"
    by (simp add: inputNodes_def List.map_filter_def twoNodes_def createNode_def emptyDag_def)
  from dagLink_links [OF twoNodes_ok(1), of "[NodeNamed (js ''a'')]" "[NodeNamed (js ''b'')]"] l i
    \<open>getNode twoNodes (js ''a'') = Some 0\<close> \<open>getNode twoNodes (js ''b'') = Some 1\<close>
  show ?thesis by (auto simp: twoNodes_ok(2))
qed

lemma dag_operations_keep_links_witness:
  "dagOk (edgeLink 0 1 0 (snd (createEdge twoNodes))) \<and> 1 \<in> set (inputNodes (edgeLink 0 1 0 (snd (createEdge twoNodes))) 0)"
  using dag_operations_keep_links [OF createEdge_ok [OF twoNodes_ok(1)], of "[]" 0 1 0] twoNodes_ok(2)
  by (simp add: createEdge_simps)

end
