(* ===== verification/JsObject.thy ===== *)
theory JsObject
  imports JsNumber "HOL-Library.Multiset"
begin

text \<open>
  Values and objects whose shape the source does not fix: \<open>jsval\<close>, with objects as dictionaries, and
  what the source does with such objects as a whole.  The entries of an object come in the order of
  the language: keys that are array indices first, by number, then the others as inserted.
\<close>

subsection \<open>Values\<close>

datatype jsval =
    JUndef
  | JNull
  | JBool bool
  | JNum jsnum
  | JStr jsstr
  | JArr "jsval list"
  | JObj "(jsstr \<times> jsval) list"

type_synonym jsobj = "(jsstr, jsval) obj"

abbreviation JInt :: "int \<Rightarrow> jsval" where
  "JInt n \<equiv> JNum (Dec n 0)"

definition field :: "jsobj \<Rightarrow> jsstr \<Rightarrow> jsval" where
  "field m k = (case objGet m k of None \<Rightarrow> JUndef | Some v \<Rightarrow> v)"

lemma field_objSet: "field (objSet k v m) k' = (if k' = k then v else field m k')"
  by (simp add: field_def obj.get_set)

text \<open>\<open>String(v)\<close>: an array joins its elements with commas, \<open>null\<close> and \<open>undefined\<close> as nothing.\<close>

fun jsString :: "jsval \<Rightarrow> jsstr" and jsElements :: "jsval list \<Rightarrow> jsstr list" where
  "jsString JUndef = js ''undefined''"
| "jsString JNull = js ''null''"
| "jsString (JBool b) = (if b then js ''true'' else js ''false'')"
| "jsString (JNum n) = numToStr n"
| "jsString (JStr s) = s"
| "jsString (JArr vs) = joinWith [44] (jsElements vs)"
| "jsString (JObj _) = js ''[object Object]''"
| "jsElements [] = []"
| "jsElements (v # vs) = (case v of JUndef \<Rightarrow> [] | JNull \<Rightarrow> [] | _ \<Rightarrow> jsString v) # jsElements vs"

subsection \<open>Objects\<close>

text \<open>\<open>{ ...a, ...b }\<close>, and one source of lodash's \<open>defaults\<close>.\<close>

definition objSpread :: "('k, 'v) obj \<Rightarrow> ('k, 'v) obj \<Rightarrow> ('k, 'v) obj" where
  "objSpread a b = fold (\<lambda>(k, v). objSet k v) b a"

definition addDefaults :: "jsobj \<Rightarrow> jsobj \<Rightarrow> jsobj" where
  "addDefaults dest src = fold (\<lambda>(k, v) d. if field d k = JUndef then objSet k v d else d) src dest"

lemma field_objSpread_single: "field (objSpread a [(k, v)]) k' = (if k' = k then v else field a k')"
  by (simp add: objSpread_def field_objSet)

lemma objGet_objSpread:
  "objGet (objSpread a b) k = (case map_of (rev b) k of Some v \<Rightarrow> Some v | None \<Rightarrow> objGet a k)"
  unfolding objSpread_def by (rule obj.get_fold_set)

text \<open>A key that is an array index: a number below $2^{32} - 1$ in its only spelling.\<close>

definition arrayIndex :: "jsstr \<Rightarrow> nat option" where
  "arrayIndex s =
     (if s \<noteq> [] \<and> list_all isDigit s \<and> (hd s \<noteq> 48 \<or> s = [48]) \<and> digitsVal s < 4294967295
      then Some (digitsVal s) else None)"

definition objectEntries :: "(jsstr, 'v) obj \<Rightarrow> (jsstr \<times> 'v) list" where
  "objectEntries m =
     sort_key (\<lambda>p. the (arrayIndex (fst p))) (filter (\<lambda>p. arrayIndex (fst p) \<noteq> None) m)
       @ filter (\<lambda>p. arrayIndex (fst p) = None) m"

definition objectValues :: "(jsstr, 'v) obj \<Rightarrow> 'v list" where
  "objectValues m = map snd (objectEntries m)"

lemma mset_objectEntries: "mset (objectEntries m) = mset m"
proof -
  have "mset (filter P m) + mset (filter (\<lambda>p. \<not> P p) m) = mset m" for P
    by (induction m) auto
  from this [of "\<lambda>p. arrayIndex (fst p) \<noteq> None"] show ?thesis
    by (simp add: objectEntries_def)
qed

lemma mset_objectValues: "mset (objectValues m) = mset (map snd m)"
  by (simp add: objectValues_def mset_objectEntries)

lemma set_objectEntries [simp]: "set (objectEntries m) = set m"
  using mset_objectEntries by (metis set_mset_mset)

lemma set_objectValues: "set (objectValues m) = snd ` set m"
  by (simp add: objectValues_def)

lemma set_objSet_subset: "set (objSet k v m) \<subseteq> insert (k, v) (set m)"
  by (induction k v m rule: objSet.induct) auto

lemma objGet_None: "objGet m k = None \<longleftrightarrow> k \<notin> fst ` set m"
  by (simp add: objGet_def map_of_eq_None_iff)

lemma objGet_in_set: "objKeysOk m \<Longrightarrow> objGet m k = Some v \<longleftrightarrow> (k, v) \<in> set m"
  by (simp add: objGet_def objKeysOk_def)

end
