(* ===== verification/VariableConstants.thy ===== *)
theory VariableConstants
  imports JsObject
begin

text \<open>The values and texts of the options \<open>All\<close> and \<open>None\<close>: \<open>features/variables/constants.ts\<close>.\<close>

definition ALL_VARIABLE_TEXT :: jsstr where
  "ALL_VARIABLE_TEXT = js ''All''"

definition ALL_VARIABLE_VALUE :: jsstr where
  "ALL_VARIABLE_VALUE = js ''$__all''"

definition NONE_VARIABLE_TEXT :: jsstr where
  "NONE_VARIABLE_TEXT = js ''None''"

definition NONE_VARIABLE_VALUE :: jsstr where
  "NONE_VARIABLE_VALUE = []"

end
