(* ===== verification/OptionsPicker.thy ===== *)
theory OptionsPicker
  imports VariableConstants
begin

text \<open>
  The drop-down of a dashboard variable: the reducer of
  \<open>features/variables/pickers/OptionsPicker/reducer.ts\<close>.

  The state of the reducer and the payload of an action are different objects, so that \<open>===\<close> on the
  values of two options is equality of strings and never true of arrays (\<open>sameText\<close>).  Lower case is an argument, as is the test of a query for the
  search filter.
\<close>

subsection \<open>Options\<close>

datatype stringOrList = Single jsstr | Several "jsstr list"

record variableOption =
  vo_text :: stringOrList
  vo_value :: stringOrList
  vo_selected :: bool

fun sameText :: "stringOrList \<Rightarrow> stringOrList \<Rightarrow> bool" where
  "sameText (Single a) (Single b) \<longleftrightarrow> a = b"
| "sameText _ _ \<longleftrightarrow> False"

definition isAll :: "variableOption \<Rightarrow> bool" where
  "isAll o' \<longleftrightarrow> vo_value o' = Single ALL_VARIABLE_VALUE"

subsection \<open>The state\<close>

record optionsPickerState =
  op_id :: jsstr
  op_selectedValues :: "variableOption list"
  op_queryValue :: jsstr
  op_highlightIndex :: int
  op_options :: "variableOption list"
  op_multi :: bool

definition initialOptionPickerState :: optionsPickerState where
  "initialOptionPickerState =
     \<lparr>op_id = [], op_selectedValues = [], op_queryValue = [], op_highlightIndex = -1, op_options = [],
      op_multi = False\<rparr>"

definition OPTIONS_LIMIT :: nat where
  "OPTIONS_LIMIT = 1000"

definition addToRecord :: "variableOption \<Rightarrow> (jsstr, variableOption) obj \<Rightarrow> (jsstr, variableOption) obj" where
  "addToRecord o' all = (case vo_value o' of Single v \<Rightarrow> objSet v o' all | Several _ \<Rightarrow> all)"

definition optionsToRecord :: "variableOption list \<Rightarrow> (jsstr, variableOption) obj" where
  "optionsToRecord options = fold addToRecord options []"

definition applyLimit :: "variableOption list \<Rightarrow> variableOption list" where
  "applyLimit options = (if length options \<le> OPTIONS_LIMIT then options else take OPTIONS_LIMIT options)"

definition markOption :: "(jsstr, variableOption) obj \<Rightarrow> variableOption \<Rightarrow> variableOption" where
  "markOption selectedOptions o' =
     (case vo_value o' of
        Single v \<Rightarrow> o'\<lparr>vo_selected := (objGet selectedOptions v \<noteq> None)\<rparr>
      | Several _ \<Rightarrow> o')"

definition updateOptions :: "optionsPickerState \<Rightarrow> optionsPickerState" where
  "updateOptions st =
     (let selectedOptions = optionsToRecord (op_selectedValues st)
      in st\<lparr>op_selectedValues := objectValues selectedOptions,
            op_options := applyLimit (map (markOption selectedOptions) (op_options st))\<rparr>)"

definition updateDefaultSelection :: "optionsPickerState \<Rightarrow> optionsPickerState" where
  "updateDefaultSelection st =
     (case op_options st of
        [] \<Rightarrow> st
      | o' # _ \<Rightarrow>
          if op_selectedValues st \<noteq> [] \<or> \<not> isAll o' then st
          else st\<lparr>op_selectedValues := [o'\<lparr>vo_selected := True\<rparr>]\<rparr>)"

definition updateAllSelection :: "optionsPickerState \<Rightarrow> optionsPickerState" where
  "updateAllSelection st =
     (if length (op_selectedValues st) > 1
      then st\<lparr>op_selectedValues := filter (\<lambda>o'. \<not> isAll o') (op_selectedValues st)\<rparr> else st)"

definition applyStateChanges :: "optionsPickerState \<Rightarrow> (optionsPickerState \<Rightarrow> optionsPickerState) list \<Rightarrow> optionsPickerState" where
  "applyStateChanges st changes = fold (\<lambda>cur all. cur all) changes st"

subsection \<open>Actions\<close>

text \<open>The variable whose options are shown; \<open>vm_query\<close> is \<open>None\<close> if the query is not a string.\<close>

record variableModel =
  vm_id :: jsstr
  vm_options :: "variableOption list"
  vm_multi :: "bool option"
  vm_isQuery :: bool
  vm_query :: "jsstr option"
  vm_queryValue :: "jsstr option"

definition containsSearchFilter :: "jsstr option \<Rightarrow> bool" where
  "containsSearchFilter query =
     (case query of None \<Rightarrow> False | Some q \<Rightarrow> q \<noteq> [] \<and> strIndexOf (js ''__searchFilter'') q \<noteq> None)"

datatype pickerAction =
    ShowOptions variableModel
  | HideOptions
  | ToggleOption "variableOption option" bool bool
  | MoveOptionsHighlight int
  | ToggleAllOptions
  | UpdateSearchQuery jsstr
  | UpdateOptionsAndFilter "variableOption list"
  | UpdateOptionsFromSearch "variableOption list"
  | CleanPickerState

definition showOptions :: "variableModel \<Rightarrow> optionsPickerState \<Rightarrow> optionsPickerState" where
  "showOptions m st =
     (let queryValue = (if vm_isQuery m
                        then (if containsSearchFilter (vm_query m)
                              then (case vm_queryValue m of None \<Rightarrow> [] | Some q \<Rightarrow> q) else [])
                        else [])
      in applyStateChanges
           (st\<lparr>op_highlightIndex := -1, op_options := vm_options m, op_id := vm_id m, op_queryValue := queryValue,
               op_multi := (case vm_multi m of None \<Rightarrow> False | Some b \<Rightarrow> b),
               op_selectedValues := filter vo_selected (vm_options m)\<rparr>)
           [updateDefaultSelection, updateOptions])"

definition isSelected :: "variableOption \<Rightarrow> optionsPickerState \<Rightarrow> bool" where
  "isSelected o' st \<longleftrightarrow>
     (\<exists>p \<in> set (op_selectedValues st). sameText (vo_value p) (vo_value o') \<and> sameText (vo_text p) (vo_text o'))"

definition toggleOption :: "variableOption option \<Rightarrow> bool \<Rightarrow> bool \<Rightarrow> optionsPickerState \<Rightarrow> optionsPickerState" where
  "toggleOption option forceSelect clearOthers st =
     (let finish = (\<lambda>vs. applyStateChanges (st\<lparr>op_selectedValues := vs\<rparr>)
                           [updateDefaultSelection, updateAllSelection, updateOptions])
      in case option of
           None \<Rightarrow> finish []
         | Some o' \<Rightarrow>
             let selected = (\<not> isSelected o' st)
             in if isAll o' \<or> \<not> op_multi st \<or> clearOthers
                then finish (if selected \<or> forceSelect then [o'\<lparr>vo_selected := True\<rparr>] else [])
                else if forceSelect \<or> selected
                then finish (op_selectedValues st @ [o'\<lparr>vo_selected := True\<rparr>])
                else finish (filter (\<lambda>p. \<not> sameText (vo_value p) (vo_value o') \<and> \<not> sameText (vo_text p) (vo_text o'))
                               (op_selectedValues st)))"

definition moveOptionsHighlight :: "int \<Rightarrow> optionsPickerState \<Rightarrow> optionsPickerState" where
  "moveOptionsHighlight n st =
     (let nextIndex = op_highlightIndex st + n
      in st\<lparr>op_highlightIndex :=
              (if nextIndex < 0 then 0
               else if nextIndex \<ge> int (length (op_options st)) then int (length (op_options st)) - 1
               else nextIndex)\<rparr>)"

definition toggleAllOptions :: "optionsPickerState \<Rightarrow> optionsPickerState" where
  "toggleAllOptions st =
     (if length (op_selectedValues st) > 0 then applyStateChanges (st\<lparr>op_selectedValues := []\<rparr>) [updateOptions]
      else applyStateChanges
             (st\<lparr>op_selectedValues := map (\<lambda>o'. o'\<lparr>vo_selected := True\<rparr>) (filter (\<lambda>o'. \<not> isAll o') (op_options st))\<rparr>)
             [updateOptions])"

text \<open>The text an option is searched by: \<open>toString\<close> of an array joins with commas.\<close>

definition searchText :: "variableOption \<Rightarrow> jsstr" where
  "searchText o' = (case vo_text o' of Single t \<Rightarrow> t | Several ts \<Rightarrow> joinWith [44] ts)"

definition updateOptionsAndFilter ::
  "(jsstr \<Rightarrow> jsstr) \<Rightarrow> variableOption list \<Rightarrow> optionsPickerState \<Rightarrow> optionsPickerState" where
  "updateOptionsAndFilter toLowerCase options st =
     (let searchQuery = trim (toLowerCase (op_queryValue st))
      in applyStateChanges
           (st\<lparr>op_options := filter (\<lambda>o'. strIndexOf searchQuery (toLowerCase (searchText o')) \<noteq> None) options,
               op_highlightIndex := 0\<rparr>)
           [updateDefaultSelection, updateOptions])"

definition updateOptionsFromSearch :: "variableOption list \<Rightarrow> optionsPickerState \<Rightarrow> optionsPickerState" where
  "updateOptionsFromSearch options st =
     applyStateChanges (st\<lparr>op_options := options, op_highlightIndex := 0\<rparr>) [updateDefaultSelection, updateOptions]"

definition pickerReducer :: "(jsstr \<Rightarrow> jsstr) \<Rightarrow> pickerAction \<Rightarrow> optionsPickerState \<Rightarrow> optionsPickerState" where
  "pickerReducer toLowerCase a st =
     (case a of
        ShowOptions m \<Rightarrow> showOptions m st
      | HideOptions \<Rightarrow> initialOptionPickerState
      | ToggleOption o' forceSelect clearOthers \<Rightarrow> toggleOption o' forceSelect clearOthers st
      | MoveOptionsHighlight n \<Rightarrow> moveOptionsHighlight n st
      | ToggleAllOptions \<Rightarrow> toggleAllOptions st
      | UpdateSearchQuery q \<Rightarrow> st\<lparr>op_queryValue := q\<rparr>
      | UpdateOptionsAndFilter options \<Rightarrow> updateOptionsAndFilter toLowerCase options st
      | UpdateOptionsFromSearch options \<Rightarrow> updateOptionsFromSearch options st
      | CleanPickerState \<Rightarrow> initialOptionPickerState)"

end
