(* ===== verification/OptionsPickerProps.thy ===== *)
theory OptionsPickerProps
  imports OptionsPicker
begin

text \<open>
  The drop-down of a variable: what it marks as selected is what is selected, after any actions; and
  toggling an option selects or deselects it, alone if texts tell options apart.
\<close>

subsection \<open>Selected values\<close>

definition selectedKeys :: "optionsPickerState \<Rightarrow> jsstr set" where
  "selectedKeys st = {v. \<exists>p \<in> set (op_selectedValues st). vo_value p = Single v}"

text \<open>
  The values selected are distinct strings, an option with a string for its value is marked exactly if
  that is selected, and there are not too many options.
\<close>

definition pickerOk :: "optionsPickerState \<Rightarrow> bool" where
  "pickerOk st \<longleftrightarrow>
     length (op_options st) \<le> OPTIONS_LIMIT \<and>
     (\<forall>p \<in> set (op_options st). \<forall>v. vo_value p = Single v \<longrightarrow> vo_selected p = (v \<in> selectedKeys st)) \<and>
     distinct (map vo_value (op_selectedValues st)) \<and>
     (\<forall>p \<in> set (op_selectedValues st). \<exists>v. vo_value p = Single v)"

definition highlightOk :: "optionsPickerState \<Rightarrow> bool" where
  "highlightOk st \<longleftrightarrow> -1 \<le> op_highlightIndex st \<and>
     (op_highlightIndex st \<le> 0 \<or> op_highlightIndex st < int (length (op_options st)))"

definition recordOk :: "(jsstr, variableOption) obj \<Rightarrow> bool" where
  "recordOk m \<longleftrightarrow> objKeysOk m \<and> (\<forall>(k, p) \<in> set m. vo_value p = Single k)"

lemma recordOk_add: "recordOk m \<Longrightarrow> recordOk (addToRecord p m)"
  using set_objSet_subset
  by (fastforce simp: recordOk_def addToRecord_def objKeysOk_objSet split: stringOrList.split)

lemma recordOk_options: "recordOk (optionsToRecord ps)"
proof -
  have "recordOk m \<Longrightarrow> recordOk (fold addToRecord ps m)" for m
    by (induction ps arbitrary: m) (simp_all add: recordOk_add)
  moreover have "recordOk []" by (simp add: recordOk_def objKeysOk_def)
  ultimately show ?thesis by (simp add: optionsToRecord_def)
qed

lemma keys_optionsToRecord: "fst ` set (optionsToRecord ps) = {v. \<exists>p \<in> set ps. vo_value p = Single v}"
proof -
  have "fst ` set (fold addToRecord ps m) = fst ` set m \<union> {v. \<exists>p \<in> set ps. vo_value p = Single v}" for m
    by (induction ps arbitrary: m) (auto simp: addToRecord_def fst_set_objSet split: stringOrList.splits)
  then show ?thesis by (simp add: optionsToRecord_def)
qed

lemma record_keys: "recordOk m \<Longrightarrow> {v. \<exists>p \<in> set (objectValues m). vo_value p = Single v} = fst ` set m"
  by (force simp: recordOk_def set_objectValues)

lemma updateOptions_keys: "selectedKeys (updateOptions st) = selectedKeys st"
  using record_keys [OF recordOk_options, of "op_selectedValues st"]
  by (simp add: selectedKeys_def updateOptions_def Let_def keys_optionsToRecord)

lemma updateOptions_ok: "pickerOk (updateOptions st)"
proof -
  let ?m = "optionsToRecord (op_selectedValues st)"
  have m: "recordOk ?m" by (rule recordOk_options)
  have "mset (map vo_value (objectValues ?m)) = mset (map (Single \<circ> fst) ?m)"
  proof -
    have "map vo_value (map snd ?m) = map (Single \<circ> fst) ?m" using m by (auto simp: recordOk_def)
    then show ?thesis by (metis mset_map mset_objectValues)
  qed
  moreover have "distinct (map (Single \<circ> fst) ?m)"
    using m by (simp add: recordOk_def objKeysOk_def distinct_map comp_inj_on inj_on_def)
  ultimately have "distinct (map vo_value (objectValues ?m))"
    by (metis mset_eq_imp_distinct_iff)
  moreover have "\<exists>v. vo_value p = Single v" if "p \<in> set (objectValues ?m)" for p
    using m that by (auto simp: recordOk_def set_objectValues)
  moreover have "vo_selected p = (v \<in> selectedKeys st)"
    if "p \<in> set (applyLimit (map (markOption ?m) (op_options st)))" "vo_value p = Single v" for p v
  proof -
    from that(1) have "p \<in> markOption ?m ` set (op_options st)"
      by (auto simp: applyLimit_def split: if_splits dest: in_set_takeD)
    with that(2) show ?thesis
      by (auto simp: markOption_def objGet_None keys_optionsToRecord selectedKeys_def split: stringOrList.splits)
  qed
  ultimately show ?thesis
    unfolding pickerOk_def updateOptions_keys
    by (auto simp: updateOptions_def Let_def applyLimit_def OPTIONS_LIMIT_def)
qed

lemma updateOptions_length:
  "length (op_options (updateOptions st)) = min (length (op_options st)) OPTIONS_LIMIT"
  "op_highlightIndex (updateOptions st) = op_highlightIndex st"
  by (auto simp: updateOptions_def Let_def applyLimit_def)

lemma selection_updates_simps:
  "op_options (updateDefaultSelection st) = op_options st"
  "op_highlightIndex (updateDefaultSelection st) = op_highlightIndex st"
  "op_options (updateAllSelection st) = op_options st"
  "op_highlightIndex (updateAllSelection st) = op_highlightIndex st"
  by (auto simp: updateDefaultSelection_def updateAllSelection_def split: list.split)

lemma pickerOk_cong:
  "op_options st' = op_options st \<Longrightarrow> op_selectedValues st' = op_selectedValues st \<Longrightarrow> pickerOk st' = pickerOk st"
  by (simp add: pickerOk_def selectedKeys_def)

lemmas picker_actions = pickerReducer_def showOptions_def toggleOption_def moveOptionsHighlight_def
  toggleAllOptions_def updateOptionsAndFilter_def updateOptionsFromSearch_def applyStateChanges_def Let_def

lemma initial_ok: "pickerOk initialOptionPickerState" "highlightOk initialOptionPickerState"
  by (simp_all add: pickerOk_def highlightOk_def initialOptionPickerState_def)

lemma pickerReducer_pickerOk:
  assumes "pickerOk st"
  shows "pickerOk (pickerReducer lc a st)"
proof -
  have same: "pickerOk (pickerReducer lc a st)"
    if "op_options (pickerReducer lc a st) = op_options st"
      "op_selectedValues (pickerReducer lc a st) = op_selectedValues st"
    using pickerOk_cong [OF that] assms by simp
  show ?thesis
  proof (cases a)
    case (MoveOptionsHighlight n)
    show ?thesis by (rule same) (simp_all add: MoveOptionsHighlight picker_actions)
  next
    case (UpdateSearchQuery q)
    show ?thesis by (rule same) (simp_all add: UpdateSearchQuery picker_actions)
  qed (simp_all add: picker_actions updateOptions_ok initial_ok split: option.split)
qed

lemma pickerReducer_highlightOk:
  "pickerOk st \<Longrightarrow> highlightOk st \<Longrightarrow> highlightOk (pickerReducer lc a st)"
proof (cases a)
  case (MoveOptionsHighlight n)
  then show ?thesis by (simp add: picker_actions highlightOk_def)
qed (simp_all add: picker_actions updateOptions_length selection_updates_simps initialOptionPickerState_def pickerOk_def highlightOk_def
    min_absorb1 split: option.split)

text \<open>
  Claim C25. After any actions an option is marked as selected exactly if its value is among the selected
  ones, no value is selected twice, at most \<open>OPTIONS_LIMIT\<close> options are offered, and the highlighted one
  is among them or is the first or none.
\<close>

theorem picker_invariant:
  "pickerOk (fold (pickerReducer lc) actions initialOptionPickerState) \<and>
   highlightOk (fold (pickerReducer lc) actions initialOptionPickerState)"
proof -
  have "pickerOk st \<Longrightarrow> highlightOk st \<Longrightarrow>
      pickerOk (fold (pickerReducer lc) actions st) \<and> highlightOk (fold (pickerReducer lc) actions st)" for st
    by (induction actions arbitrary: st) (simp_all add: pickerReducer_pickerOk pickerReducer_highlightOk)
  then show ?thesis using initial_ok by blast
qed


subsection \<open>Toggling\<close>

definition allExclusive :: "optionsPickerState \<Rightarrow> bool" where
  "allExclusive st \<longleftrightarrow> (ALL_VARIABLE_VALUE \<in> selectedKeys st \<longrightarrow> selectedKeys st = {ALL_VARIABLE_VALUE})"

text \<open>What is selected when nothing else is.\<close>

definition defaultKeys :: "optionsPickerState \<Rightarrow> jsstr set" where
  "defaultKeys st =
     (case op_options st of [] \<Rightarrow> {} | p # _ \<Rightarrow> if isAll p then {ALL_VARIABLE_VALUE} else {})"

lemma sameText_Single [simp]: "sameText x (Single v) \<longleftrightarrow> x = Single v"
  by (cases x) auto

definition keysOf :: "variableOption list \<Rightarrow> jsstr set" where
  "keysOf ps = {v. \<exists>p \<in> set ps. vo_value p = Single v}"

lemma selectedKeys_keysOf: "selectedKeys st = keysOf (op_selectedValues st)"
  by (simp add: selectedKeys_def keysOf_def)

lemma keysOf_simps [simp]:
  "keysOf [] = {}" "keysOf (p # ps) = (case vo_value p of Single v \<Rightarrow> {v} | Several _ \<Rightarrow> {}) \<union> keysOf ps"
  "keysOf (ps @ qs) = keysOf ps \<union> keysOf qs"
  by (auto simp: keysOf_def split: stringOrList.splits)

lemma isAll_value: "isAll p \<Longrightarrow> vo_value p = Single ALL_VARIABLE_VALUE"
  by (simp add: isAll_def)

lemma keysOf_not_all: "keysOf (filter (\<lambda>p. \<not> isAll p) ps) = keysOf ps - {ALL_VARIABLE_VALUE}"
  by (auto simp: keysOf_def isAll_def)

text \<open>The end of every toggle: the default, the exclusion of \<open>All\<close>, the marks.\<close>

lemma finish_keys:
  "selectedKeys (applyStateChanges (st\<lparr>op_selectedValues := vs\<rparr>) [updateDefaultSelection, updateAllSelection, updateOptions])
     = (if vs = [] then defaultKeys st
        else if length vs > 1 then keysOf vs - {ALL_VARIABLE_VALUE} else keysOf vs)"
proof -
  let ?st = "st\<lparr>op_selectedValues := vs\<rparr>"
  have "op_selectedValues (updateDefaultSelection ?st) =
      (if vs = [] \<and> op_options st \<noteq> [] \<and> isAll (hd (op_options st))
       then [hd (op_options st)\<lparr>vo_selected := True\<rparr>] else vs)"
    by (auto simp: updateDefaultSelection_def split: list.split)
  then have "keysOf (op_selectedValues (updateAllSelection (updateDefaultSelection ?st))) =
      (if vs = [] then defaultKeys st
       else if length vs > 1 then keysOf vs - {ALL_VARIABLE_VALUE} else keysOf vs)"
    by (cases "op_options st") (auto simp: updateAllSelection_def keysOf_not_all defaultKeys_def isAll_value)
  then show ?thesis
    by (simp add: applyStateChanges_def updateOptions_keys selectedKeys_keysOf [of "updateAllSelection _"])
qed

text \<open>
  In a variable of several values, toggling an option other than \<open>All\<close> selects it, or deselects
  it if it was selected, and leaves the others; selecting it ends the selection of \<open>All\<close>, and when
  nothing is left the first option is selected if that is \<open>All\<close>.  The texts of the options have to tell
  them apart.
\<close>

theorem toggle_option:
  assumes "pickerOk st" and "allExclusive st" and "op_multi st"
    and "vo_value p = Single v" and "v \<noteq> ALL_VARIABLE_VALUE"
    and "\<forall>q \<in> set (op_selectedValues st). sameText (vo_text q) (vo_text p) \<longleftrightarrow> vo_value q = Single v"
  shows "selectedKeys (toggleOption (Some p) False False st) =
      (if v \<notin> selectedKeys st then insert v (selectedKeys st - {ALL_VARIABLE_VALUE})
       else if selectedKeys st = {v} then defaultKeys st else selectedKeys st - {v})
    \<and> allExclusive (toggleOption (Some p) False False st)"
proof -
  let ?vs = "op_selectedValues st"
  have strings: "\<forall>q \<in> set ?vs. \<exists>w. vo_value q = Single w" using assms(1) by (simp add: pickerOk_def)
  have sel: "isSelected p st \<longleftrightarrow> v \<in> selectedKeys st"
    using assms(4,6) by (auto simp: isSelected_def selectedKeys_def)
  have not_all: "\<not> isAll p" using assms(4,5) by (simp add: isAll_def)
  have eq: "selectedKeys (toggleOption (Some p) False False st) =
      (if v \<notin> selectedKeys st then insert v (selectedKeys st - {ALL_VARIABLE_VALUE})
       else if selectedKeys st = {v} then defaultKeys st else selectedKeys st - {v})"
  proof (cases "v \<in> selectedKeys st")
    case False
    then have "selectedKeys (toggleOption (Some p) False False st) =
        (if length (?vs @ [p]) > 1 then keysOf (?vs @ [p]) - {ALL_VARIABLE_VALUE} else keysOf (?vs @ [p]))"
      using sel not_all assms(3,4) by (simp add: toggleOption_def Let_def finish_keys)
    with False assms(4,5) show ?thesis
      by (cases ?vs) (auto simp: selectedKeys_keysOf)
  next
    case True
    let ?rest = "filter (\<lambda>q. vo_value q \<noteq> Single v) ?vs"
    have rest: "filter (\<lambda>q. \<not> sameText (vo_value q) (vo_value p) \<and> \<not> sameText (vo_text q) (vo_text p)) ?vs = ?rest"
      using assms(4,6) by (intro filter_cong) auto
    have keys: "keysOf ?rest = selectedKeys st - {v}" by (auto simp: keysOf_def selectedKeys_def)
    have "ALL_VARIABLE_VALUE \<notin> selectedKeys st" using True assms(2,5) by (auto simp: allExclusive_def)
    moreover have "?rest = [] \<longleftrightarrow> selectedKeys st = {v}"
    proof
      assume "?rest = []"
      then have "\<forall>q \<in> set ?vs. vo_value q = Single v" by (simp add: filter_empty_conv)
      with True show "selectedKeys st = {v}" by (auto simp: selectedKeys_def)
    next
      assume one: "selectedKeys st = {v}"
      have "vo_value q = Single v" if "q \<in> set ?vs" for q
      proof -
        from strings that obtain w where w: "vo_value q = Single w" by blast
        with that have "w \<in> selectedKeys st" by (auto simp: selectedKeys_def)
        with one w show ?thesis by simp
      qed
      then show "?rest = []" by (simp add: filter_empty_conv)
    qed
    moreover have "selectedKeys (toggleOption (Some p) False False st) =
        (if ?rest = [] then defaultKeys st
         else if length ?rest > 1 then keysOf ?rest - {ALL_VARIABLE_VALUE} else keysOf ?rest)"
      using True sel not_all assms(3) unfolding toggleOption_def Let_def
      by (simp only: option.case rest finish_keys if_True if_False simp_thms)
    ultimately show ?thesis using True keys by auto
  qed
  moreover have "allExclusive (toggleOption (Some p) False False st)"
    unfolding allExclusive_def eq using assms(2,5)
    by (auto simp: allExclusive_def defaultKeys_def split: list.splits if_splits)
  ultimately show ?thesis by blast
qed

definition plainOption :: "string \<Rightarrow> string \<Rightarrow> bool \<Rightarrow> variableOption" where
  "plainOption text value sel = \<lparr>vo_text = Single (js text), vo_value = Single (js value), vo_selected = sel\<rparr>"

text \<open>A variable of several values with two options, of which the given ones are selected.\<close>

definition twoOptions :: "string \<Rightarrow> string \<Rightarrow> variableOption list \<Rightarrow> optionsPickerState" where
  "twoOptions t1 t2 vs =
     initialOptionPickerState
       \<lparr>op_multi := True, op_selectedValues := vs,
        op_options := [plainOption t1 ''a'' (\<exists>p \<in> set vs. vo_value p = Single (js ''a'')),
                       plainOption t2 ''b'' (\<exists>p \<in> set vs. vo_value p = Single (js ''b''))]\<rparr>"

lemma toggle_option_witness:
  "selectedKeys (toggleOption (Some (plainOption ''B'' ''b'' False)) False False
      (twoOptions ''A'' ''B'' [plainOption ''A'' ''a'' True])) = {js ''a'', js ''b''}"
proof -
  let ?st = "twoOptions ''A'' ''B'' [plainOption ''A'' ''a'' True]"
  have k: "selectedKeys ?st = {js ''a''}" by (auto simp: selectedKeys_def twoOptions_def plainOption_def)
  have ok: "pickerOk ?st"
    unfolding pickerOk_def k by (auto simp: twoOptions_def plainOption_def initialOptionPickerState_def OPTIONS_LIMIT_def)
  have ex: "allExclusive ?st" by (simp add: allExclusive_def k ALL_VARIABLE_VALUE_def)
  have p: "op_multi ?st" "vo_value (plainOption ''B'' ''b'' False) = Single (js ''b'')" "js ''b'' \<noteq> ALL_VARIABLE_VALUE"
    "\<forall>q \<in> set (op_selectedValues ?st). sameText (vo_text q) (vo_text (plainOption ''B'' ''b'' False)) \<longleftrightarrow> vo_value q = Single (js ''b'')"
    by (simp_all add: twoOptions_def plainOption_def ALL_VARIABLE_VALUE_def)
  from toggle_option [OF ok ex p] show ?thesis by (auto simp: k ALL_VARIABLE_VALUE_def)
qed

text \<open>
  Two options may share a text, as those of a query with named groups do; deselecting one of
  them deselects both.
\<close>

theorem deselecting_same_text:
  "selectedKeys (toggleOption (Some (plainOption ''host'' ''b'' True)) False False
      (twoOptions ''host'' ''host'' [plainOption ''host'' ''a'' True, plainOption ''host'' ''b'' True])) = {}"
proof -
  let ?st = "twoOptions ''host'' ''host'' [plainOption ''host'' ''a'' True, plainOption ''host'' ''b'' True]"
  have "isSelected (plainOption ''host'' ''b'' True) ?st" "op_multi ?st"
    by (simp_all add: isSelected_def twoOptions_def plainOption_def)
  moreover have "\<not> isAll (plainOption ''host'' ''b'' True)"
    by (simp add: isAll_def plainOption_def ALL_VARIABLE_VALUE_def)
  moreover have "filter (\<lambda>q. \<not> sameText (vo_value q) (vo_value (plainOption ''host'' ''b'' True))
      \<and> \<not> sameText (vo_text q) (vo_text (plainOption ''host'' ''b'' True))) (op_selectedValues ?st) = []"
    by (simp add: twoOptions_def plainOption_def)
  ultimately have "selectedKeys (toggleOption (Some (plainOption ''host'' ''b'' True)) False False ?st) = defaultKeys ?st"
    unfolding toggleOption_def Let_def
    by (simp only: option.case finish_keys if_True if_False simp_thms)
  also have "\<dots> = {}" by (simp add: defaultKeys_def twoOptions_def isAll_def plainOption_def ALL_VARIABLE_VALUE_def)
  finally show ?thesis .
qed

end
