(* ===== verification/Variables.thy ===== *)
theory Variables
  imports JsObject
begin

text \<open>
  The variables of a dashboard: \<open>features/variables/state/sharedReducer.ts\<close>, with the selectors it uses.

  A variable is an object whose fields depend on its type, so it is a \<open>jsobj\<close>; the state maps
  identifiers to variables.  Immer's drafts are updated copies.  What \<open>variableAdapters\<close> knows of a type
  is an argument, \<open>None\<close> where it throws.  A reducer that throws a \<open>TypeError\<close> is \<open>None\<close>.  The index of a
  variable is an integer, as its type says; of anything else \<open>indexOf\<close> is 0.
\<close>

type_synonym variablesState = "(jsstr, jsobj) obj"

record adapter =
  ad_initialState :: jsobj
  ad_beforeAdding :: "(jsobj \<Rightarrow> jsobj) option"

type_synonym adapters = "jsstr \<Rightarrow> adapter option"

subsection \<open>Selectors\<close>

definition indexOf :: "jsobj \<Rightarrow> int" where
  "indexOf m = (case field m (js ''index'') of JNum (Dec n 0) \<Rightarrow> n | _ \<Rightarrow> 0)"

definition getInstanceState :: "variablesState \<Rightarrow> jsstr \<Rightarrow> jsobj option" where
  "getInstanceState st i = objGet st i"

definition defaultVariablesFilter :: "jsobj \<Rightarrow> bool" where
  "defaultVariablesFilter m \<longleftrightarrow> field m (js ''type'') \<noteq> JStr (js ''system'')"

definition getNextVariableIndex :: "jsobj list \<Rightarrow> int" where
  "getNextVariableIndex variables =
     (let sorted = sort_key indexOf (filter defaultVariablesFilter variables)
      in if length sorted > 0 then indexOf (last sorted) + 1 else 0)"

definition ensureStringValues :: "jsval \<Rightarrow> jsval" where
  "ensureStringValues v =
     (case v of
        JArr vs \<Rightarrow> JArr (map (JStr \<circ> jsString) vs)
      | JNull \<Rightarrow> JStr []
      | JUndef \<Rightarrow> JStr []
      | JNum n \<Rightarrow> JStr (numToStr n)
      | JStr s \<Rightarrow> JStr s
      | JBool b \<Rightarrow> JStr (jsString (JBool b))
      | JObj _ \<Rightarrow> JStr [])"

subsection \<open>Actions\<close>

record addVariablePayload =
  av_id :: "jsstr option"
  av_type :: jsstr
  av_model :: jsobj
  av_index :: int
  av_global :: bool

definition addVariable :: "adapters \<Rightarrow> addVariablePayload \<Rightarrow> variablesState \<Rightarrow> variablesState option" where
  "addVariable adapters p st =
     (case adapters (av_type p) of
        None \<Rightarrow> None
      | Some ad \<Rightarrow>
          (let ident = (case av_id p of Some i \<Rightarrow> i | None \<Rightarrow> jsString (field (av_model p) (js ''name'')));
               model = (case ad_beforeAdding ad of Some g \<Rightarrow> g (av_model p) | None \<Rightarrow> av_model p);
               variable = objSpread (addDefaults (addDefaults [] model) (ad_initialState ad))
                            [(js ''id'', JStr ident), (js ''index'', JInt (av_index p)), (js ''global'', JBool (av_global p))]
           in Some (objSet ident variable st)))"

text \<open>A write to the variable of an identifier; without one it throws.\<close>

definition onVariable :: "jsstr \<Rightarrow> (jsobj \<Rightarrow> jsobj) \<Rightarrow> variablesState \<Rightarrow> variablesState option" where
  "onVariable i g st = map_option (\<lambda>m. objSet i (g m) st) (getInstanceState st i)"

definition setLoading :: "jsstr \<Rightarrow> jsval \<Rightarrow> jsobj \<Rightarrow> jsobj" where
  "setLoading loadingState error m = objSet (js ''error'') error (objSet (js ''state'') (JStr loadingState) m)"

definition variableStateNotStarted :: "jsstr \<Rightarrow> variablesState \<Rightarrow> variablesState option" where
  "variableStateNotStarted i = onVariable i (setLoading (js ''NotStarted'') JNull)"

definition variableStateFetching :: "jsstr \<Rightarrow> variablesState \<Rightarrow> variablesState option" where
  "variableStateFetching i = onVariable i (setLoading (js ''Loading'') JNull)"

definition variableStateCompleted :: "jsstr \<Rightarrow> variablesState \<Rightarrow> variablesState option" where
  "variableStateCompleted i st =
     (if getInstanceState st i = None then Some st else onVariable i (setLoading (js ''Done'') JNull) st)"

definition variableStateFailed :: "jsstr \<Rightarrow> jsval \<Rightarrow> variablesState \<Rightarrow> variablesState option" where
  "variableStateFailed i error st =
     (if getInstanceState st i = None then Some st else onVariable i (setLoading (js ''Error'') error) st)"

text \<open>The loop over the sorted variables: each gets its position.\<close>

fun reIndexLoop :: "int \<Rightarrow> (jsstr \<times> jsobj) list \<Rightarrow> variablesState \<Rightarrow> variablesState" where
  "reIndexLoop i [] st = st"
| "reIndexLoop i ((k, m) # ms) st = reIndexLoop (i + 1) ms (objSet k (objSet (js ''index'') (JInt i) m) st)"

definition removeVariable :: "jsstr \<Rightarrow> bool \<Rightarrow> variablesState \<Rightarrow> variablesState" where
  "removeVariable i reIndex st =
     (let st1 = objDelete i st
      in if \<not> reIndex then st1
         else reIndexLoop 0 (sort_key (\<lambda>(_, m). indexOf m) (objectEntries st1)) st1)"

definition duplicateVariable :: "adapters \<Rightarrow> jsstr \<Rightarrow> jsstr \<Rightarrow> jsstr option \<Rightarrow> variablesState \<Rightarrow> variablesState option" where
  "duplicateVariable adapters i type newId st =
     (case (getInstanceState st i, adapters type) of
        (Some original, Some ad) \<Rightarrow>
          (let name = js ''copy_of_'' @ jsString (field original (js ''name''));
               ident = (case newId of Some n \<Rightarrow> n | None \<Rightarrow> name);
               index = getNextVariableIndex (objectValues st)
           in Some (objSet ident
                      (objSpread (objSpread (ad_initialState ad) original)
                         [(js ''id'', JStr ident), (js ''name'', JStr name), (js ''index'', JInt index)]) st))
      | _ \<Rightarrow> None)"

definition movedIndex :: "int \<Rightarrow> int \<Rightarrow> int \<Rightarrow> int" where
  "movedIndex fromIndex toIndex index =
     (if index = fromIndex then toIndex
      else if index > fromIndex \<and> index \<le> toIndex then index - 1
      else if index < fromIndex \<and> index \<ge> toIndex then index + 1
      else index)"

definition changeVariableOrder :: "int \<Rightarrow> int \<Rightarrow> variablesState \<Rightarrow> variablesState" where
  "changeVariableOrder fromIndex toIndex st =
     map (\<lambda>(k, m).
            (k, if movedIndex fromIndex toIndex (indexOf m) = indexOf m then m
                else objSet (js ''index'') (JInt (movedIndex fromIndex toIndex (indexOf m))) m)) st"

definition changeVariableType :: "adapters \<Rightarrow> jsstr \<Rightarrow> jsstr \<Rightarrow> variablesState \<Rightarrow> variablesState option" where
  "changeVariableType adapters i newType st =
     (case (getInstanceState st i, adapters newType) of
        (Some m, Some ad) \<Rightarrow>
          Some (objSet i
                  (objSpread (ad_initialState ad)
                     ((js ''id'', JStr i)
                      # map (\<lambda>k. (js k, field m (js k))) [''rootStateKey'', ''label'', ''name'', ''index'', ''description'']))
                  st)
      | _ \<Rightarrow> None)"

text \<open>
  \<open>setCurrentVariableValue\<close>.  An option is selected if its value, a string by then, is the current
  one or among the current ones; arrays are different objects.
\<close>

definition isCurrent :: "jsval \<Rightarrow> jsval \<Rightarrow> bool" where
  "isCurrent current value =
     (case value of
        JStr s \<Rightarrow> (case current of JArr vs \<Rightarrow> JStr s \<in> set vs | _ \<Rightarrow> current = JStr s)
      | _ \<Rightarrow> False)"

definition selectCurrent :: "jsval \<Rightarrow> jsobj \<Rightarrow> jsobj" where
  "selectCurrent current o' =
     (let o1 = objSet (js ''value'') (ensureStringValues (field o' (js ''value''))) o';
          o2 = objSet (js ''text'') (ensureStringValues (field o1 (js ''text''))) o1
      in objSet (js ''selected'') (JBool (isCurrent current (field o2 (js ''value'')))) o2)"

definition mapOptions :: "(jsobj \<Rightarrow> jsobj) \<Rightarrow> jsval \<Rightarrow> jsval" where
  "mapOptions g v =
     (case v of JArr vs \<Rightarrow> JArr (map (\<lambda>o'. case o' of JObj m \<Rightarrow> JObj (g m) | _ \<Rightarrow> o') vs) | _ \<Rightarrow> v)"

definition setCurrentVariableValue :: "jsstr \<Rightarrow> jsobj option \<Rightarrow> variablesState \<Rightarrow> variablesState option" where
  "setCurrentVariableValue i option st =
     (case option of
        None \<Rightarrow> Some st
      | Some o' \<Rightarrow>
          (case getInstanceState st i of
             None \<Rightarrow> None
           | Some m \<Rightarrow>
               if objGet m (js ''options'') = None then Some st
               else
                 let current = objSpread o'
                       [(js ''text'', ensureStringValues (field o' (js ''text''))),
                        (js ''value'', ensureStringValues (field o' (js ''value'')))];
                     m1 = objSet (js ''current'') (JObj current) m
                 in Some (objSet i
                      (objSet (js ''options'')
                         (mapOptions (selectCurrent (field current (js ''value''))) (field m1 (js ''options''))) m1) st)))"

definition changeVariableProp :: "jsstr \<Rightarrow> jsstr \<Rightarrow> jsval \<Rightarrow> variablesState \<Rightarrow> variablesState option" where
  "changeVariableProp i propName propValue = onVariable i (objSet propName propValue)"

definition changeVariableName :: "jsstr \<Rightarrow> jsstr \<Rightarrow> variablesState \<Rightarrow> variablesState option" where
  "changeVariableName i newName = onVariable i (objSet (js ''name'') (JStr newName))"

datatype variableAction =
    AddVariable addVariablePayload
  | VariableStateNotStarted jsstr
  | VariableStateFetching jsstr
  | VariableStateCompleted jsstr
  | VariableStateFailed jsstr jsval
  | RemoveVariable jsstr bool
  | DuplicateVariable jsstr jsstr "jsstr option"
  | ChangeVariableOrder int int
  | ChangeVariableType jsstr jsstr
  | SetCurrentVariableValue jsstr "jsobj option"
  | ChangeVariableProp jsstr jsstr jsval
  | ChangeVariableNameSucceeded jsstr jsstr

definition sharedReducer :: "adapters \<Rightarrow> variableAction \<Rightarrow> variablesState \<Rightarrow> variablesState option" where
  "sharedReducer adapters a st =
     (case a of
        AddVariable p \<Rightarrow> addVariable adapters p st
      | VariableStateNotStarted i \<Rightarrow> variableStateNotStarted i st
      | VariableStateFetching i \<Rightarrow> variableStateFetching i st
      | VariableStateCompleted i \<Rightarrow> variableStateCompleted i st
      | VariableStateFailed i e \<Rightarrow> variableStateFailed i e st
      | RemoveVariable i reIndex \<Rightarrow> Some (removeVariable i reIndex st)
      | DuplicateVariable i t n \<Rightarrow> duplicateVariable adapters i t n st
      | ChangeVariableOrder f t \<Rightarrow> Some (changeVariableOrder f t st)
      | ChangeVariableType i t \<Rightarrow> changeVariableType adapters i t st
      | SetCurrentVariableValue i o' \<Rightarrow> setCurrentVariableValue i o' st
      | ChangeVariableProp i p v \<Rightarrow> changeVariableProp i p v st
      | ChangeVariableNameSucceeded i n \<Rightarrow> changeVariableName i n st)"

end
