(* ===== verification/VariablesProps.thy ===== *)
theory VariablesProps
  imports Variables
begin

text \<open>
  The list of the variables of a dashboard: moving and removing a variable keeps the indices the
  positions in a list, every variable stays stored under its identifier, and the options marked as
  selected are the current ones.
\<close>

lemma indexOf_objSet [simp]: "indexOf (objSet (js ''index'') (JInt n) m) = n"
  by (simp add: indexOf_def field_objSet)

subsection \<open>Moving\<close>

lemma movedIndex_inj: "inj (movedIndex f t)"
  by (rule injI) (auto simp: movedIndex_def split: if_splits)

lemma movedIndex_range: "0 \<le> f \<Longrightarrow> f < n \<Longrightarrow> 0 \<le> t \<Longrightarrow> t < n \<Longrightarrow> movedIndex f t ` {0..<n} = {0..<n}"
proof (rule endo_inj_surj)
  show "inj_on (movedIndex f t) {0..<n}" using movedIndex_inj by (rule inj_on_subset) simp
qed (auto simp: movedIndex_def)

lemma indices_changeVariableOrder:
  "map (indexOf \<circ> snd) (changeVariableOrder f t st) = map (movedIndex f t \<circ> (indexOf \<circ> snd)) st"
  by (auto simp: changeVariableOrder_def)


subsection \<open>Removing\<close>


lemma reIndexLoop_other: "k \<notin> fst ` set ms \<Longrightarrow> objGet (reIndexLoop i ms st) k = objGet st k"
  by (induction i ms st rule: reIndexLoop.induct) (auto simp: obj.get_set)

lemma reIndexLoop_get:
  "distinct (map fst ms) \<Longrightarrow> j < length ms \<Longrightarrow>
   objGet (reIndexLoop i ms st) (fst (ms ! j)) = Some (objSet (js ''index'') (JInt (i + int j)) (snd (ms ! j)))"
proof (induction i ms st arbitrary: j rule: reIndexLoop.induct)
  case (2 i k m ms st)
  then show ?case
    by (cases j) (simp_all add: reIndexLoop_other obj.get_set add.commute add.left_commute)
qed simp

lemma reIndexLoop_keys: "fst ` set (reIndexLoop i ms st) = fst ` set ms \<union> fst ` set st"
  by (induction i ms st rule: reIndexLoop.induct) (auto simp: fst_set_objSet)

text \<open>The variables left, in the order of their indices.\<close>

definition orderedVariables :: "variablesState \<Rightarrow> (jsstr \<times> jsobj) list" where
  "orderedVariables st = sort_key (\<lambda>(_, m). indexOf m) (objectEntries st)"

lemma orderedVariables_facts:
  assumes "objKeysOk st"
  shows "distinct (map fst (orderedVariables st))" "set (orderedVariables st) = set st"
    "length (orderedVariables st) = length st" "sorted (map (indexOf \<circ> snd) (orderedVariables st))"
proof -
  have m: "mset (orderedVariables st) = mset st" by (simp add: orderedVariables_def mset_objectEntries)
  then show "set (orderedVariables st) = set st" "length (orderedVariables st) = length st"
    by (metis set_mset_mset, metis size_mset)
  from m have "mset (map fst (orderedVariables st)) = mset (map fst st)" by simp
  with assms show "distinct (map fst (orderedVariables st))"
    by (metis mset_eq_imp_distinct_iff objKeysOk_def)
  show "sorted (map (indexOf \<circ> snd) (orderedVariables st))"
    using sorted_sort_key [of "\<lambda>(_, m). indexOf m" "objectEntries st"]
    by (simp add: orderedVariables_def comp_def case_prod_beta')
qed

text \<open>
  Removing a variable and numbering the others anew leaves exactly the others, with the
  indices from zero on, in the order they had, and with all their other fields.
\<close>

theorem removeVariable_renumbers:
  assumes "objKeysOk st"
  shows "fst ` set (removeVariable i True st) = fst ` set st - {i}
    \<and> (\<exists>ks. distinct ks \<and> set ks = fst ` set st - {i} \<and>
         sorted (map (\<lambda>k. indexOf (the (objGet st k))) ks) \<and>
         (\<forall>j < length ks. \<exists>m m'. objGet st (ks ! j) = Some m \<and> objGet (removeVariable i True st) (ks ! j) = Some m' \<and>
            indexOf m' = int j \<and> (\<forall>f. f \<noteq> js ''index'' \<longrightarrow> field m' f = field m f)))"
proof -
  let ?st = "objDelete i st" and ?ms = "orderedVariables (objDelete i st)"
  have ok: "objKeysOk ?st" using assms by (rule obj.ok_delete)
  note o = orderedVariables_facts [OF ok]
  have r: "removeVariable i True st = reIndexLoop 0 ?ms ?st"
    by (simp add: removeVariable_def Let_def orderedVariables_def)
  have keys: "fst ` set ?st = fst ` set st - {i}" by (force simp: objDelete_def)
  have get: "objGet st (fst (?ms ! j)) = Some (snd (?ms ! j))" if "j < length ?ms" for j
  proof -
    have "?ms ! j \<in> set ?st" using that o(2) by (metis nth_mem)
    then have "(fst (?ms ! j), snd (?ms ! j)) \<in> set st" by (simp add: objDelete_def)
    then show ?thesis using assms by (simp add: objGet_in_set)
  qed
  have "fst ` set (removeVariable i True st) = fst ` set st - {i}"
    unfolding r reIndexLoop_keys o(2) keys by simp
  moreover have "distinct (map fst ?ms)" "set (map fst ?ms) = fst ` set st - {i}"
    using o(1,2) keys by simp_all
  moreover have "map (\<lambda>k. indexOf (the (objGet st k))) (map fst ?ms) = map (indexOf \<circ> snd) ?ms"
    by (rule nth_equalityI) (simp_all add: get)
  then have "sorted (map (\<lambda>k. indexOf (the (objGet st k))) (map fst ?ms))" using o(4) by (simp only:)
  moreover have "\<forall>j < length (map fst ?ms). \<exists>m m'. objGet st (map fst ?ms ! j) = Some m \<and>
      objGet (removeVariable i True st) (map fst ?ms ! j) = Some m' \<and>
      indexOf m' = int j \<and> (\<forall>f. f \<noteq> js ''index'' \<longrightarrow> field m' f = field m f)"
    using reIndexLoop_get [OF o(1), of _ 0 ?st] by (simp add: r get field_objSet)
  ultimately show ?thesis by blast
qed

subsection \<open>Identifiers\<close>

text \<open>Every variable is stored under its own identifier, and the state is a dictionary.\<close>

definition storedUnderId :: "variablesState \<Rightarrow> bool" where
  "storedUnderId st \<longleftrightarrow> objKeysOk st \<and> (\<forall>k m. objGet st k = Some m \<longrightarrow> field m (js ''id'') = JStr k)"

lemma storedUnderId_objSet:
  "storedUnderId st \<Longrightarrow> field m (js ''id'') = JStr k \<Longrightarrow> storedUnderId (objSet k m st)"
  by (auto simp: storedUnderId_def obj.ok_set obj.get_set split: if_splits)

lemma field_objSpread:
  "distinct (map fst b) \<Longrightarrow> field (objSpread a b) k = (case map_of b k of Some v \<Rightarrow> v | None \<Rightarrow> field a k)"
proof -
  assume "distinct (map fst b)"
  then have "map_of (rev b) = map_of b" by (simp add: map_of_inject_set rev_map [symmetric])
  then show ?thesis by (simp add: field_def objGet_objSpread split: option.split)
qed

lemma storedUnderId_map:
  assumes "storedUnderId st" and "\<And>m. field (g m) (js ''id'') = field m (js ''id'')"
  shows "storedUnderId (map (\<lambda>(k, m). (k, g m)) st)"
proof -
  have "map fst (map (\<lambda>(k, m). (k, g m)) st) = map fst st" by (simp add: case_prod_beta' comp_def)
  then have "objKeysOk (map (\<lambda>(k, m). (k, g m)) st)" using assms(1) unfolding storedUnderId_def objKeysOk_def by metis
  moreover have "objGet (map (\<lambda>(k, m). (k, g m)) st) k = map_option g (objGet st k)" for k
    by (rule objGet_map_snd)
  ultimately show ?thesis using assms by (auto simp: storedUnderId_def)
qed

lemma storedUnderId_loop:
  "storedUnderId st \<Longrightarrow> \<forall>(k, m) \<in> set ms. field m (js ''id'') = JStr k \<Longrightarrow> storedUnderId (reIndexLoop i ms st)"
  by (induction i ms st rule: reIndexLoop.induct) (simp_all add: storedUnderId_objSet field_objSet)

lemma removeVariable_stored: "storedUnderId st \<Longrightarrow> storedUnderId (removeVariable i reIndex st)"
proof -
  assume s: "storedUnderId st"
  then have d: "storedUnderId (objDelete i st)"
    by (auto simp: storedUnderId_def obj.ok_delete obj.get_delete split: if_splits)
  then have "\<forall>(k, m) \<in> set (orderedVariables (objDelete i st)). field m (js ''id'') = JStr k"
    using orderedVariables_facts(2) [of "objDelete i st"]
    by (auto simp: storedUnderId_def objGet_in_set)
  with d storedUnderId_loop show ?thesis
    by (auto simp: removeVariable_def Let_def orderedVariables_def)
qed

lemma order_stored: "storedUnderId st \<Longrightarrow> storedUnderId (changeVariableOrder f t st)"
  unfolding changeVariableOrder_def by (rule storedUnderId_map) (simp_all add: field_objSet)

lemma onVariable_stored:
  "onVariable i g st = Some st' \<Longrightarrow> storedUnderId st \<Longrightarrow> (\<And>m. field (g m) (js ''id'') = field m (js ''id'')) \<Longrightarrow>
   storedUnderId st'"
  by (auto simp: onVariable_def getInstanceState_def storedUnderId_def obj.ok_set obj.get_set split: if_splits)

text \<open>
  Every action but a write to the field \<open>id\<close> itself keeps each variable stored under its own
  identifier.
\<close>

lemma shared_stored:
  assumes "sharedReducer adapters a st = Some st'" and "storedUnderId st"
    and "\<And>i v. a \<noteq> ChangeVariableProp i (js ''id'') v"
  shows "storedUnderId st'"
proof (cases a)
  case (RemoveVariable i r)
  with assms(1) have "st' = removeVariable i r st" by (simp add: sharedReducer_def)
  with assms(2) removeVariable_stored show ?thesis by simp
next
  case (ChangeVariableOrder f t)
  with assms(1) have "st' = changeVariableOrder f t st" by (simp add: sharedReducer_def)
  with assms(2) order_stored show ?thesis by simp
next
  case (ChangeVariableProp i p v)
  then have "p \<noteq> js ''id''" using assms(3) by blast
  with ChangeVariableProp assms(1,2) show ?thesis
    by (auto simp: sharedReducer_def changeVariableProp_def field_objSet elim!: onVariable_stored)
next
  case (VariableStateCompleted i)
  with assms show ?thesis
    by (auto simp: sharedReducer_def variableStateCompleted_def setLoading_def field_objSet
        elim!: onVariable_stored split: if_splits)
next
  case (VariableStateFailed i e)
  with assms show ?thesis
    by (auto simp: sharedReducer_def variableStateFailed_def setLoading_def field_objSet
        elim!: onVariable_stored split: if_splits)
next
  case (SetCurrentVariableValue i p)
  with assms show ?thesis
    by (auto simp: sharedReducer_def setCurrentVariableValue_def Let_def getInstanceState_def field_objSet
        split: option.splits if_splits intro!: storedUnderId_objSet) (simp add: storedUnderId_def)
qed (use assms in \<open>auto simp: sharedReducer_def addVariable_def duplicateVariable_def changeVariableType_def
      variableStateNotStarted_def variableStateFetching_def changeVariableName_def setLoading_def Let_def
      field_objSpread field_objSet split: option.splits elim!: onVariable_stored intro!: storedUnderId_objSet\<close>)

text \<open>Three variables in the order of their names.\<close>

definition variable :: "string \<Rightarrow> int \<Rightarrow> jsstr \<times> jsobj" where
  "variable name i = (js name, [(js ''id'', JStr (js name)), (js ''index'', JInt i)])"

definition threeVariables :: variablesState where
  "threeVariables = [variable ''a'' 0, variable ''b'' 1, variable ''c'' 2]"

lemma indexOf_variable [simp]: "indexOf (snd (variable name i)) = i" "fst (variable name i) = js name"
  by (simp_all add: variable_def indexOf_def field_def objGet_def)

lemma threeVariables_keys: "objKeysOk threeVariables"
  by (simp add: objKeysOk_def threeVariables_def)


lemma removeVariable_renumbers_witness:
  "fst ` set (removeVariable (js ''a'') True threeVariables) = {js ''b'', js ''c''}"
  using removeVariable_renumbers [OF threeVariables_keys, of "js ''a''"] by (simp add: threeVariables_def)


end
