(* ===== verification/AdHocFilters.thy ===== *)
theory AdHocFilters
  imports Variables VariableConstants
begin

text \<open>
  The ad hoc filters of a dashboard: how they are written into the URL and read back
  (\<open>features/variables/adhoc/urlParser.ts\<close>), the reducer that changes them (\<open>adhoc/reducer.ts\<close>), and
  the value of a variable of any type in the URL (\<open>getValueForUrl\<close> of the adapters).

  A filter is an object; its fields are strings, or \<open>undefined\<close> where the text it was read from has no
  such part.
\<close>

subsection \<open>Filters in the URL\<close>

definition isDelimiter :: "codeUnit \<Rightarrow> bool" where
  "isDelimiter c \<longleftrightarrow> c = 124"

definition gfp :: jsstr where
  "gfp = js ''__gfp__''"

definition escapeDelimiter :: "jsval \<Rightarrow> jsstr" where
  "escapeDelimiter v =
     (case v of
        JUndef \<Rightarrow> [] | JNull \<Rightarrow> []
      | _ \<Rightarrow> concat (map (\<lambda>c. if isDelimiter c then gfp else [c]) (jsString v)))"

text \<open>\<open>value.replace(/__gfp__/g, '|')\<close>\<close>

function unescapeGfp :: "jsstr \<Rightarrow> jsstr" where
  "unescapeGfp [] = []"
| "unescapeGfp (c # s) =
     (if startsWith gfp (c # s) then 124 # unescapeGfp (drop 7 (c # s)) else c # unescapeGfp s)"
  by pat_completeness auto
termination
  by (relation "measure length") auto

declare unescapeGfp.simps(2) [simp del]

definition filterFields :: "jsobj \<Rightarrow> jsval list" where
  "filterFields f = [field f (js ''key''), field f (js ''operator''), field f (js ''value'')]"

definition toUrl :: "jsobj list \<Rightarrow> jsstr list" where
  "toUrl filters = map (\<lambda>f. joinWith [124] (map escapeDelimiter (filterFields f))) filters"

definition nthPart :: "jsstr list \<Rightarrow> nat \<Rightarrow> jsval" where
  "nthPart parts i = (if i < length parts then JStr (parts ! i) else JUndef)"

definition adHocFilter :: "jsval \<Rightarrow> jsval \<Rightarrow> jsval \<Rightarrow> jsobj" where
  "adHocFilter key operator value =
     [(js ''key'', key), (js ''operator'', operator), (js ''value'', value), (js ''condition'', JStr [])]"

definition toFilter :: "jsval \<Rightarrow> jsobj option" where
  "toFilter v =
     (case v of
        JStr s \<Rightarrow>
          if s = [] then None
          else (let parts = map unescapeGfp (splitOn 124 s)
                in Some (adHocFilter (nthPart parts 0) (nthPart parts 1) (nthPart parts 2)))
      | _ \<Rightarrow> None)"

definition isFilter :: "jsobj option \<Rightarrow> bool" where
  "isFilter f =
     (case f of
        None \<Rightarrow> False
      | Some m \<Rightarrow> (case field m (js ''value'') of JStr _ \<Rightarrow> True | _ \<Rightarrow> False))"

definition toFilters :: "jsval \<Rightarrow> jsobj list" where
  "toFilters v =
     (case v of
        JArr vs \<Rightarrow> map the (filter isFilter (map toFilter vs))
      | _ \<Rightarrow> (case toFilter v of None \<Rightarrow> [] | Some f \<Rightarrow> [f]))"

subsection \<open>The reducer\<close>

definition typeOf :: "jsobj \<Rightarrow> jsval" where
  "typeOf m = field m (js ''type'')"

text \<open>An action on the filters of a variable, \<open>None\<close> if it throws.\<close>

definition onFilters :: "jsstr \<Rightarrow> (jsval \<Rightarrow> jsval option) \<Rightarrow> variablesState \<Rightarrow> variablesState option" where
  "onFilters i g st =
     (case getInstanceState st i of
        None \<Rightarrow> None
      | Some m \<Rightarrow>
          if typeOf m \<noteq> JStr (js ''adhoc'') then Some st
          else map_option (\<lambda>fs. objSet i (objSet (js ''filters'') fs m) st) (g (field m (js ''filters''))))"

definition onArray :: "(jsval list \<Rightarrow> jsval list) \<Rightarrow> jsval \<Rightarrow> jsval option" where
  "onArray g v = (case v of JArr vs \<Rightarrow> Some (JArr (g vs)) | _ \<Rightarrow> None)"

definition filterAdded :: "jsstr \<Rightarrow> jsobj \<Rightarrow> variablesState \<Rightarrow> variablesState option" where
  "filterAdded i f = onFilters i (onArray (\<lambda>fs. fs @ [JObj f]))"

definition filterRemoved :: "jsstr \<Rightarrow> int \<Rightarrow> variablesState \<Rightarrow> variablesState option" where
  "filterRemoved i index = onFilters i (onArray (\<lambda>fs. snd (splice fs index 1 [])))"

definition filterUpdated :: "jsstr \<Rightarrow> nat \<Rightarrow> jsobj \<Rightarrow> variablesState \<Rightarrow> variablesState option" where
  "filterUpdated i index f = onFilters i (onArray (\<lambda>fs. arraySet JUndef fs index (JObj f)))"

definition filtersRestored :: "jsstr \<Rightarrow> jsobj list \<Rightarrow> variablesState \<Rightarrow> variablesState option" where
  "filtersRestored i fs = onFilters i (\<lambda>_. Some (JArr (map JObj fs)))"

subsection \<open>The value of a variable in the URL\<close>

definition valField :: "jsval \<Rightarrow> jsstr \<Rightarrow> jsval" where
  "valField v k = (case v of JObj m \<Rightarrow> field m k | _ \<Rightarrow> JUndef)"

text \<open>One half of \<open>isAllVariable\<close>: a value or a text that is the one of \<open>All\<close>, alone or first.\<close>

definition isAllText :: "jsstr \<Rightarrow> jsval \<Rightarrow> bool" where
  "isAllText all v = (case v of JArr (w # _) \<Rightarrow> w = JStr all | JArr [] \<Rightarrow> False | _ \<Rightarrow> v = JStr all)"

definition isAllVariable :: "jsobj \<Rightarrow> bool" where
  "isAllVariable m \<longleftrightarrow>
     (let current = field m (js ''current'')
      in isAllText ALL_VARIABLE_VALUE (valField current (js ''value'')) \<or>
         isAllText ALL_VARIABLE_TEXT (valField current (js ''text'')))"

text \<open>\<open>variable.current.value\<close>; \<open>None\<close> is a \<open>TypeError\<close>.\<close>

definition currentProp :: "jsstr \<Rightarrow> jsobj \<Rightarrow> jsval option" where
  "currentProp k m =
     (case field m (js ''current'') of JUndef \<Rightarrow> None | JNull \<Rightarrow> None | v \<Rightarrow> Some (valField v k))"

definition objectsOf :: "jsval \<Rightarrow> jsobj list" where
  "objectsOf v = (case v of JArr vs \<Rightarrow> List.map_filter (\<lambda>v. case v of JObj m \<Rightarrow> Some m | _ \<Rightarrow> None) vs | _ \<Rightarrow> [])"

text \<open>A type without an adapter throws.\<close>

definition getValueForUrl :: "jsobj \<Rightarrow> jsval option" where
  "getValueForUrl m =
     (if typeOf m = JStr (js ''adhoc'')
      then Some (JArr (map JStr (toUrl (objectsOf (field m (js ''filters''))))))
      else if typeOf m \<in> {JStr (js ''query''), JStr (js ''custom''), JStr (js ''datasource'')}
      then (if isAllVariable m then Some (JStr ALL_VARIABLE_TEXT) else currentProp (js ''value'') m)
      else if typeOf m \<in> {JStr (js ''constant''), JStr (js ''interval''), JStr (js ''textbox'')}
      then currentProp (js ''value'') m
      else if typeOf m = JStr (js ''system'') then Some (JStr [])
      else None)"

end
