(* ===== verification/AdHocFiltersProps.thy ===== *)
theory AdHocFiltersProps
  imports AdHocFilters
begin

text \<open>Ad hoc filters survive the way through the URL, and where they do not.\<close>

definition escaped :: "jsstr \<Rightarrow> jsstr" where
  "escaped s = concat (map (\<lambda>c. if isDelimiter c then gfp else [c]) s)"

lemma escaped_simps [simp]:
  "escaped [] = []" "escaped (c # s) = (if c = 124 then gfp else [c]) @ escaped s"
  by (simp_all add: escaped_def isDelimiter_def)

lemma escapeDelimiter_text [simp]: "escapeDelimiter (JStr s) = escaped s"
  by (simp add: escapeDelimiter_def escaped_def)

lemma gfp_chars: "gfp = [95, 95, 103, 102, 112, 95, 95]"
  by (simp add: gfp_def js_def)

lemma escaped_no_delimiter: "124 \<notin> set (escaped s)"
  by (induction s) (auto simp: gfp_chars)

text \<open>A text that has nothing the mark could begin with; what follows a character is then no mark.\<close>

definition unmarked :: "jsstr \<Rightarrow> bool" where
  "unmarked s \<longleftrightarrow> strIndexOf (js ''__gfp'') s = None"

lemma unmarked_Cons: "unmarked (c # s) \<Longrightarrow> \<not> startsWith (js ''__gfp'') (c # s) \<and> unmarked s"
  by (auto simp: unmarked_def strIndexOf.simps [of _ "c # s"] split: if_splits)

lemma startsWith_Cons: "startsWith (c # p) s \<longleftrightarrow> (\<exists>t. s = c # t \<and> startsWith p t)"
  by (cases s) (auto simp: startsWith_def)

lemma startsWith_escaped:
  "c \<noteq> 95 \<Longrightarrow> startsWith (c # p) (escaped s) \<Longrightarrow> \<exists>t. s = c # t \<and> startsWith p (escaped t)"
  "startsWith (95 # 103 # p) (escaped s) \<Longrightarrow> \<exists>t. s = 95 # t \<and> startsWith (103 # p) (escaped t)"
  by (cases s; force simp: startsWith_Cons gfp_chars split: if_splits)+

lemma no_mark_after:
  assumes "unmarked (c # s)" and "c \<noteq> 124"
  shows "\<not> startsWith gfp (c # escaped s)"
proof
  assume "startsWith gfp (c # escaped s)"
  then have "c = 95" and s: "startsWith (95 # 103 # 102 # 112 # [95, 95]) (escaped s)"
    by (simp_all add: gfp_chars startsWith_Cons)
  obtain a where a: "s = 95 # a" "startsWith (103 # 102 # 112 # [95, 95]) (escaped a)"
    using startsWith_escaped(2) [OF s] by blast
  obtain b where b: "a = 103 # b" "startsWith (102 # 112 # [95, 95]) (escaped b)"
    using startsWith_escaped(1) [OF _ a(2)] by auto
  obtain d where d: "b = 102 # d" "startsWith (112 # [95, 95]) (escaped d)"
    using startsWith_escaped(1) [OF _ b(2)] by auto
  obtain e where e: "d = 112 # e"
    using startsWith_escaped(1) [OF _ d(2)] by auto
  have "startsWith (js ''__gfp'') (c # s)"
    by (simp add: \<open>c = 95\<close> a(1) b(1) d(1) e js_def startsWith_def)
  with unmarked_Cons [OF assms(1)] show False by blast
qed

lemma unescape_escaped: "unmarked s \<Longrightarrow> unescapeGfp (escaped s) = s"
proof (induction s)
  case (Cons c s)
  show ?case
  proof (cases "c = 124")
    case True
    have "unescapeGfp (gfp @ escaped s) = 124 # unescapeGfp (escaped s)"
      by (simp add: gfp_chars unescapeGfp.simps(2) startsWith_def)
    with True Cons unmarked_Cons show ?thesis by auto
  next
    case False
    with no_mark_after [OF Cons.prems] Cons unmarked_Cons show ?thesis
      by (auto simp: unescapeGfp.simps(2))
  qed
qed simp

definition urlFilter :: "jsstr \<times> jsstr \<times> jsstr \<Rightarrow> jsobj" where
  "urlFilter f = (case f of (key, operator, value) \<Rightarrow> adHocFilter (JStr key) (JStr operator) (JStr value))"

lemma filterFields_adHocFilter: "filterFields (adHocFilter k op v) = [k, op, v]"
  by (simp add: filterFields_def adHocFilter_def field_def objGet_def js_def)

lemma toFilter_escaped:
  assumes "unmarked k" and "unmarked op" and "unmarked v"
  shows "toFilter (JStr (joinWith [124] (map escaped [k, op, v]))) = Some (urlFilter (k, op, v))"
proof -
  let ?s = "joinWith [124] (map escaped [k, op, v])"
  have "splitOn 124 ?s = map escaped [k, op, v]"
    by (rule splitOn_joinWith) (simp_all add: escaped_no_delimiter)
  then have "map unescapeGfp (splitOn 124 ?s) = [k, op, v]"
    using assms by (simp add: unescape_escaped)
  moreover have "?s \<noteq> []" by simp
  ultimately show ?thesis by (simp add: toFilter_def Let_def nthPart_def urlFilter_def)
qed

lemma isFilter_urlFilter: "isFilter (Some (urlFilter f))"
  by (cases f) (simp add: isFilter_def urlFilter_def adHocFilter_def field_def objGet_def js_def)

text \<open>
  Claim C33. Writing ad hoc filters into the URL and reading them back gives the same filters, with
  delimiters in their texts, if no text has a part \<open>__gfp\<close>, which the escape for the delimiter begins with.
\<close>

theorem filters_roundtrip:
  assumes "\<forall>(k, op, v) \<in> set fs. unmarked k \<and> unmarked op \<and> unmarked v"
  shows "toFilters (JArr (map JStr (toUrl (map urlFilter fs)))) = map urlFilter fs"
proof -
  have "toFilter (JStr (joinWith [124] (map escapeDelimiter (filterFields (urlFilter f))))) = Some (urlFilter f)"
    if "f \<in> set fs" for f
  proof -
    obtain k op v where f: "f = (k, op, v)" by (cases f)
    have "filterFields (urlFilter f) = [JStr k, JStr op, JStr v]"
      by (simp add: f urlFilter_def filterFields_adHocFilter)
    with assms that f toFilter_escaped [of k op v] show ?thesis by auto
  qed
  then have "map toFilter (map JStr (toUrl (map urlFilter fs))) = map (\<lambda>f. Some (urlFilter f)) fs"
    by (simp add: toUrl_def)
  then show ?thesis by (simp add: toFilters_def isFilter_urlFilter filter_map comp_def)
qed

lemma filters_roundtrip_witness:
  "toFilters (JArr (map JStr (toUrl [urlFilter (js ''a|b'', js ''='', js ''|'')]))) = [urlFilter (js ''a|b'', js ''='', js ''|'')]"
proof -
  have "unmarked (js ''a|b'')" "unmarked (js ''='')" "unmarked (js ''|'')" by code_simp+
  then show ?thesis using filters_roundtrip [of "[(js ''a|b'', js ''='', js ''|'')]"] by simp
qed

text \<open>
  A filter that was not given all its parts is dropped where the URL has several filters, but
  kept without an operator and a value where it has one; and a text with the escape in it comes back
  with a delimiter instead.
\<close>

theorem malformed_filters:
  "(\<forall>s. s \<noteq> [] \<longrightarrow> 124 \<notin> set s \<longrightarrow>
      toFilters (JArr [JStr s]) = [] \<and> toFilters (JStr s) = [adHocFilter (JStr (unescapeGfp s)) JUndef JUndef]) \<and>
   toFilters (JArr (map JStr (toUrl [urlFilter (js ''k'', js ''='', js ''__gfp__'')])))
     = [urlFilter (js ''k'', js ''='', js ''|'')]"
proof -
  have "toFilters (JArr (map JStr (toUrl [urlFilter (js ''k'', js ''='', js ''__gfp__'')])))
      = [urlFilter (js ''k'', js ''='', js ''|'')]"
    by code_simp
  moreover have "toFilter (JStr s) = Some (adHocFilter (JStr (unescapeGfp s)) JUndef JUndef)"
    if "s \<noteq> []" "124 \<notin> set s" for s
    using that by (simp add: toFilter_def splitOn_no_sep nthPart_def Let_def)
  moreover have "\<not> isFilter (Some (adHocFilter k JUndef JUndef))" for k
    by (simp add: isFilter_def adHocFilter_def field_def objGet_def js_def)
  ultimately show ?thesis by (simp add: toFilters_def)
qed

lemma malformed_filters_witness:
  "toFilters (JArr [JStr (js ''key'')]) = [] \<and>
   toFilters (JStr (js ''key'')) = [adHocFilter (JStr (unescapeGfp (js ''key''))) JUndef JUndef]"
  using malformed_filters by (simp add: js_def)

end
