(* ===== verification/Json.thy ===== *)
theory Json
  imports JsObject
begin

text \<open>
  What the language makes of values as text: \<open>JSON.stringify\<close> without indentation, with the helper
  \<open>safeStringifyValue\<close> of \<open>core/utils/explore.ts\<close>, and \<open>encodeURIComponent\<close>.
\<close>

subsection \<open>JSON\<close>

definition hexDigit :: "nat \<Rightarrow> codeUnit" where
  "hexDigit n = (if n < 10 then 48 + n else 87 + n)"

definition unicodeEscape :: "codeUnit \<Rightarrow> jsstr" where
  "unicodeEscape c = [92, 117] @ map hexDigit [c div 4096 mod 16, c div 256 mod 16, c div 16 mod 16, c mod 16]"

definition isHighSurrogate :: "codeUnit \<Rightarrow> bool" where
  "isHighSurrogate c \<longleftrightarrow> 55296 \<le> c \<and> c \<le> 56319"

definition isLowSurrogate :: "codeUnit \<Rightarrow> bool" where
  "isLowSurrogate c \<longleftrightarrow> 56320 \<le> c \<and> c \<le> 57343"

definition jsonChar :: "codeUnit \<Rightarrow> jsstr" where
  "jsonChar c =
     (if c = 8 then [92, 98] else if c = 9 then [92, 116] else if c = 10 then [92, 110]
      else if c = 12 then [92, 102] else if c = 13 then [92, 114]
      else if c = 34 \<or> c = 92 then [92, c]
      else if c < 32 \<or> isHighSurrogate c \<or> isLowSurrogate c then unicodeEscape c
      else [c])"

fun jsonChars :: "jsstr \<Rightarrow> jsstr" where
  "jsonChars (c # d # s) =
     (if isHighSurrogate c \<and> isLowSurrogate d then c # d # jsonChars s else jsonChar c @ jsonChars (d # s))"
| "jsonChars [c] = jsonChar c"
| "jsonChars [] = []"

definition jsonQuote :: "jsstr \<Rightarrow> jsstr" where
  "jsonQuote s = [34] @ jsonChars s @ [34]"

text \<open>\<open>None\<close> is \<open>undefined\<close>, which an array writes as \<open>null\<close> and an object leaves out.\<close>

fun jsonStringify :: "jsval \<Rightarrow> jsstr option" where
  "jsonStringify JUndef = None"
| "jsonStringify JNull = Some (js ''null'')"
| "jsonStringify (JBool b) = Some (if b then js ''true'' else js ''false'')"
| "jsonStringify (JNum n) = Some (if isFinite n then numToStr n else js ''null'')"
| "jsonStringify (JStr s) = Some (jsonQuote s)"
| "jsonStringify (JArr vs) =
     Some ([91] @ joinWith [44] (map (\<lambda>v. case jsonStringify v of Some t \<Rightarrow> t | None \<Rightarrow> js ''null'') vs) @ [93])"
| "jsonStringify (JObj m) =
     Some ([123] @ joinWith [44]
       (List.map_filter id
          (map (\<lambda>(k, v). map_option (\<lambda>t. jsonQuote k @ [58] @ t) (jsonStringify v)) (objectEntries m))) @ [125])"

definition isTruthy :: "jsval \<Rightarrow> bool" where
  "isTruthy v =
     (case v of
        JUndef \<Rightarrow> False | JNull \<Rightarrow> False | JBool b \<Rightarrow> b | JNum n \<Rightarrow> n \<noteq> NaN \<and> n \<noteq> Dec 0 0
      | JStr s \<Rightarrow> s \<noteq> [] | JArr _ \<Rightarrow> True | JObj _ \<Rightarrow> True)"

definition safeStringifyValue :: "jsval \<Rightarrow> jsstr" where
  "safeStringifyValue v =
     (if \<not> isTruthy v then [] else (case jsonStringify v of Some t \<Rightarrow> t | None \<Rightarrow> []))"

subsection \<open>Percent encoding\<close>

text \<open>\<open>\w\<close>\<close>

definition isWordChar :: "codeUnit \<Rightarrow> bool" where
  "isWordChar c \<longleftrightarrow> isDigit c \<or> (65 \<le> c \<and> c \<le> 90) \<or> (97 \<le> c \<and> c \<le> 122) \<or> c = 95"

text \<open>The code points of a text; \<open>None\<close> if a surrogate has no partner.\<close>

fun codePoints :: "jsstr \<Rightarrow> nat list option" where
  "codePoints (c # d # s) =
     (if isHighSurrogate c
      then (if isLowSurrogate d
            then map_option ((#) (65536 + (c - 55296) * 1024 + (d - 56320))) (codePoints s) else None)
      else if isLowSurrogate c then None
      else map_option ((#) c) (codePoints (d # s)))"
| "codePoints [c] = (if isHighSurrogate c \<or> isLowSurrogate c then None else Some [c])"
| "codePoints [] = Some []"

definition utf8 :: "nat \<Rightarrow> nat list" where
  "utf8 p =
     (if p < 128 then [p]
      else if p < 2048 then [192 + p div 64, 128 + p mod 64]
      else if p < 65536 then [224 + p div 4096, 128 + p div 64 mod 64, 128 + p mod 64]
      else [240 + p div 262144, 128 + p div 4096 mod 64, 128 + p div 64 mod 64, 128 + p mod 64])"

definition upperHexDigit :: "nat \<Rightarrow> codeUnit" where
  "upperHexDigit n = (if n < 10 then 48 + n else 55 + n)"

definition percent :: "nat \<Rightarrow> jsstr" where
  "percent b = [37, upperHexDigit (b div 16), upperHexDigit (b mod 16)]"

definition isUriMark :: "codeUnit \<Rightarrow> bool" where
  "isUriMark c \<longleftrightarrow> c \<in> {45, 46, 126, 33, 42, 39, 40, 41}"

text \<open>\<open>None\<close> is the \<open>URIError\<close>.\<close>

definition encodePoint :: "nat \<Rightarrow> jsstr" where
  "encodePoint p = (if isWordChar p \<or> isUriMark p then [p] else concat (map percent (utf8 p)))"

definition encodeURIComponent :: "jsstr \<Rightarrow> jsstr option" where
  "encodeURIComponent s = map_option (\<lambda>ps. concat (map encodePoint ps)) (codePoints s)"

end
