(* ===== verification/VariableOptions.thy ===== *)
theory VariableOptions
  imports AdHocFilters Json "HOL-Library.List_Lexorder" "HOL-Library.Product_Lexorder"
begin

text \<open>
  The options of a variable: the reducers of the types of variables
  (\<open>features/variables/{query,custom,interval,datasource,constant,textbox}/reducer.ts\<close>).

  The patterns of the source are read off as scanners.  A regular expression the user typed is an
  argument: \<open>rx_exec\<close> searches a text from \<open>lastIndex\<close> and gives the match and where it ended.  Lower
  case is an argument as well.  A reducer that throws is \<open>None\<close>.
\<close>

subsection \<open>Options\<close>

definition mkOption :: "jsval \<Rightarrow> jsval \<Rightarrow> jsobj" where
  "mkOption text value = [(js ''text'', text), (js ''value'', value), (js ''selected'', JBool False)]"

definition allOption :: jsobj where
  "allOption = mkOption (JStr ALL_VARIABLE_TEXT) (JStr ALL_VARIABLE_VALUE)"

definition noneOption :: jsobj where
  "noneOption =
     [(js ''text'', JStr NONE_VARIABLE_TEXT), (js ''value'', JStr NONE_VARIABLE_VALUE),
      (js ''isNone'', JBool True), (js ''selected'', JBool False)]"

text \<open>An action on a variable of a type; \<open>None\<close> without the variable.\<close>

definition onType :: "jsstr \<Rightarrow> jsstr \<Rightarrow> (jsobj \<Rightarrow> jsobj option) \<Rightarrow> variablesState \<Rightarrow> variablesState option" where
  "onType type i g st =
     (case getInstanceState st i of
        None \<Rightarrow> None
      | Some m \<Rightarrow> if typeOf m \<noteq> JStr type then Some st else map_option (\<lambda>m. objSet i m st) (g m))"

definition setOptions :: "jsobj list \<Rightarrow> jsobj \<Rightarrow> jsobj" where
  "setOptions os m = objSet (js ''options'') (JArr (map JObj os)) m"

text \<open>The query of a variable, which has to be a text.\<close>

definition onQuery :: "(jsstr \<Rightarrow> jsobj \<Rightarrow> jsobj) \<Rightarrow> jsobj \<Rightarrow> jsobj option" where
  "onQuery g m = (case field m (js ''query'') of JStr q \<Rightarrow> Some (g q m) | _ \<Rightarrow> None)"

definition withAll :: "jsobj \<Rightarrow> jsobj list \<Rightarrow> jsobj list" where
  "withAll m os = (if isTruthy (field m (js ''includeAll'')) then allOption # os else os)"

subsection \<open>Constant and text box\<close>

definition trimmedOption :: "jsstr \<Rightarrow> jsobj" where
  "trimmedOption s = mkOption (JStr (trim s)) (JStr (trim s))"

definition createConstantOptionsFromQuery :: "jsstr \<Rightarrow> variablesState \<Rightarrow> variablesState option" where
  "createConstantOptionsFromQuery i = onType (js ''constant'') i (onQuery (\<lambda>q. setOptions [trimmedOption q]))"

definition createTextBoxOptions :: "jsstr \<Rightarrow> variablesState \<Rightarrow> variablesState option" where
  "createTextBoxOptions i =
     onType (js ''textbox'') i
       (onQuery (\<lambda>q m. objSet (js ''current'') (JObj (trimmedOption q)) (setOptions [trimmedOption q] m)))"

subsection \<open>Custom options\<close>

text \<open>\<open>/(?:\\,|[^,])+/g\<close>: the parts between commas without a backslash, those that are not empty.\<close>

definition onHead :: "('a list \<Rightarrow> 'a list) \<Rightarrow> 'a list list \<Rightarrow> 'a list list" where
  "onHead g xss = (case xss of [] \<Rightarrow> [] | xs # yss \<Rightarrow> g xs # yss)"

fun customSplit :: "jsstr \<Rightarrow> jsstr list" where
  "customSplit [] = [[]]"
| "customSplit [c] = (if c = 44 then [[], []] else [[c]])"
| "customSplit (c # d # s) =
     (if c = 92 \<and> d = 44 then onHead (\<lambda>t. 92 # 44 # t) (customSplit s)
      else if c = 44 then [] # customSplit (d # s)
      else onHead ((#) c) (customSplit (d # s)))"

definition customMatches :: "jsstr \<Rightarrow> jsstr list" where
  "customMatches s = filter (\<lambda>t. t \<noteq> []) (customSplit s)"

fun unescapeCommas :: "jsstr \<Rightarrow> jsstr" where
  "unescapeCommas (c # d # s) =
     (if c = 92 \<and> d = 44 then 44 # unescapeCommas s else c # unescapeCommas (d # s))"
| "unescapeCommas s = s"

text \<open>\<open>/^(.+)\s:\s(.+)$/\<close>: the last place where the two parts can be told apart.\<close>

definition isLineTerminator :: "codeUnit \<Rightarrow> bool" where
  "isLineTerminator c \<longleftrightarrow> c \<in> {10, 13, 8232, 8233}"

definition dotText :: "jsstr \<Rightarrow> bool" where
  "dotText s \<longleftrightarrow> s \<noteq> [] \<and> list_all (\<lambda>c. \<not> isLineTerminator c) s"

definition separates :: "jsstr \<Rightarrow> nat \<Rightarrow> bool" where
  "separates s i \<longleftrightarrow>
     (case drop i s of
        a # b # c # value \<Rightarrow> isSpace a \<and> b = 58 \<and> isSpace c \<and> dotText (take i s) \<and> dotText value
      | _ \<Rightarrow> False)"

definition keyValue :: "jsstr \<Rightarrow> (jsstr \<times> jsstr) option" where
  "keyValue s = map_option (\<lambda>i. (take i s, drop (i + 3) s)) (find (separates s) (rev [0..<length s]))"

definition customOption :: "jsstr \<Rightarrow> jsobj" where
  "customOption match =
     (let text = unescapeCommas match
      in case keyValue text of
           Some (key, value) \<Rightarrow> mkOption (JStr (trim key)) (JStr (trim value))
         | None \<Rightarrow> trimmedOption text)"

definition createCustomOptionsFromQuery :: "jsstr \<Rightarrow> variablesState \<Rightarrow> variablesState option" where
  "createCustomOptionsFromQuery i =
     onType (js ''custom'') i (onQuery (\<lambda>q m. setOptions (withAll m (map customOption (customMatches q))) m))"

subsection \<open>Intervals\<close>

text \<open>\<open>/(["'])(.*?)\1|\w+/g\<close>\<close>

definition isQuote :: "codeUnit \<Rightarrow> bool" where
  "isQuote c \<longleftrightarrow> c = 34 \<or> c = 39"

definition quotedText :: "codeUnit \<Rightarrow> jsstr \<Rightarrow> (jsstr \<times> jsstr) option" where
  "quotedText q s =
     (let inner = takeWhile (\<lambda>c. c \<noteq> q \<and> \<not> isLineTerminator c) s
      in case drop (length inner) s of
           c # rest \<Rightarrow> if c = q then Some (inner, rest) else None
         | [] \<Rightarrow> None)"

lemma quotedText_shorter: "quotedText q s = Some (inner, rest) \<Longrightarrow> length rest < length s"
proof -
  assume "quotedText q s = Some (inner, rest)"
  then have "drop (length inner) s = q # rest"
    by (auto simp: quotedText_def Let_def split: list.splits if_splits)
  from arg_cong [OF this, of length] show ?thesis by simp
qed

function intervalMatches :: "jsstr \<Rightarrow> jsstr list" where
  "intervalMatches [] = []"
| "intervalMatches (c # s) =
     (if isQuote c
      then (case quotedText c s of
              Some (inner, rest) \<Rightarrow> (c # inner @ [c]) # intervalMatches rest
            | None \<Rightarrow> intervalMatches s)
      else if isWordChar c then (c # takeWhile isWordChar s) # intervalMatches (dropWhile isWordChar s)
      else intervalMatches s)"
  by pat_completeness auto
termination
  by (relation "measure length") (auto dest: quotedText_shorter simp: le_imp_less_Suc length_dropWhile_le)

declare intervalMatches.simps(2) [simp del]

definition intervalOption :: "jsstr \<Rightarrow> jsobj" where
  "intervalOption match = trimmedOption (filter (\<lambda>c. \<not> isQuote c) match)"

definition withAuto :: "jsobj \<Rightarrow> jsobj list \<Rightarrow> jsobj list" where
  "withAuto m os =
     (if isTruthy (field m (js ''auto''))
      then (case os of
              [] \<Rightarrow> []
            | o' # _ \<Rightarrow>
                if field o' (js ''text'') \<noteq> JStr (js ''auto'')
                then mkOption (JStr (js ''auto''))
                       (JStr (js ''$__auto_interval_'' @ jsString (field m (js ''name'')))) # os
                else os)
      else os)"

definition createIntervalOptions :: "jsstr \<Rightarrow> variablesState \<Rightarrow> variablesState option" where
  "createIntervalOptions i =
     onType (js ''interval'') i (onQuery (\<lambda>q m. setOptions (withAuto m (map intervalOption (intervalMatches q))) m))"

subsection \<open>Regular expressions\<close>

record execMatch =
  em_groups :: "jsval list"
  em_named :: "jsobj option"

record jsRegex =
  rx_global :: bool
  rx_sticky :: bool
  rx_exec :: "jsstr \<Rightarrow> nat \<Rightarrow> (execMatch \<times> nat) option"

text \<open>\<open>stringToJsRegex\<close>: a pattern between slashes with its flags, or a text; the constructor of the
  language is the argument \<open>newRegExp\<close>.\<close>

definition dropFlag :: "codeUnit \<Rightarrow> jsstr \<Rightarrow> jsstr" where
  "dropFlag c s = (case s of d # t \<Rightarrow> if d = c then t else s | [] \<Rightarrow> [])"

definition isFlags :: "jsstr \<Rightarrow> bool" where
  "isFlags s \<longleftrightarrow> fold dropFlag (js ''gimys'') s = []"

fun splitRegex :: "jsstr \<Rightarrow> jsstr \<Rightarrow> (jsstr \<times> jsstr) option" where
  "splitRegex pattern [] = None"
| "splitRegex pattern (c # s) =
     (if c = 47 \<and> isFlags s then Some (pattern, s)
      else if isLineTerminator c then None
      else splitRegex (pattern @ [c]) s)"

definition stringToJsRegex :: "(jsstr \<Rightarrow> jsstr \<Rightarrow> jsRegex option) \<Rightarrow> jsstr \<Rightarrow> jsRegex option" where
  "stringToJsRegex newRegExp s =
     (if \<not> startsWith [47] s then newRegExp ([94] @ s @ [36]) []
      else (case splitRegex [] (tl s) of
              None \<Rightarrow> None
            | Some (pattern, flags) \<Rightarrow> newRegExp pattern flags))"

subsection \<open>Query results\<close>

text \<open>\<open>getAllMatches\<close>; \<open>None\<close> if the loop does not end.\<close>

definition matchText :: "execMatch \<Rightarrow> jsval" where
  "matchText m = (case em_groups m of g # _ \<Rightarrow> g | [] \<Rightarrow> JUndef)"

partial_function (option) matchesFrom :: "jsRegex \<Rightarrow> jsstr \<Rightarrow> nat \<Rightarrow> execMatch list option" where
  "matchesFrom rx s k =
     (case rx_exec rx s k of
        None \<Rightarrow> Some []
      | Some (m, k') \<Rightarrow>
          if rx_global rx \<and> matchText m \<noteq> JStr [] \<and> matchText m \<noteq> JUndef
          then Option.bind (matchesFrom rx s k') (\<lambda>ms. Some (m # ms))
          else Some [m])"

definition getAllMatches :: "jsstr \<Rightarrow> jsRegex \<Rightarrow> execMatch list option" where
  "getAllMatches s rx = matchesFrom rx s 0"

definition namedGroup :: "jsstr \<Rightarrow> execMatch \<Rightarrow> jsval" where
  "namedGroup name m = (case em_named m of None \<Rightarrow> JUndef | Some gs \<Rightarrow> field gs name)"

definition firstNamed :: "jsstr \<Rightarrow> execMatch list \<Rightarrow> jsval option" where
  "firstNamed name ms = map_option (namedGroup name) (find (\<lambda>m. isTruthy (namedGroup name m)) ms)"

definition secondGroup :: "execMatch \<Rightarrow> jsval" where
  "secondGroup m = (if length (em_groups m) > 1 then em_groups m ! 1 else JUndef)"

definition orElseVal :: "jsval option \<Rightarrow> jsval option \<Rightarrow> jsval" where
  "orElseVal a b = (case a of Some v \<Rightarrow> v | None \<Rightarrow> (case b of Some v \<Rightarrow> v | None \<Rightarrow> JUndef))"

text \<open>The options that the matches of one item give.\<close>

definition matchOptions :: "jsval \<Rightarrow> jsval \<Rightarrow> execMatch list \<Rightarrow> jsobj list" where
  "matchOptions text value ms =
     (if ms = [] then []
      else
        let valueGroup = firstNamed (js ''value'') ms;
            textGroup = firstNamed (js ''text'') ms;
            firstMatch = find (\<lambda>m. length (em_groups m) > 1) ms
        in if valueGroup \<noteq> None \<or> textGroup \<noteq> None
           then [mkOption (orElseVal textGroup valueGroup) (orElseVal valueGroup textGroup)]
           else (case firstMatch of
                   None \<Rightarrow> [mkOption text value]
                 | Some m \<Rightarrow>
                     if length ms > 1 then map (\<lambda>m. mkOption (secondGroup m) (secondGroup m)) ms
                     else [mkOption (secondGroup m) (secondGroup m)]))"

definition numberText :: "jsval \<Rightarrow> jsval" where
  "numberText v = (case v of JNum n \<Rightarrow> JStr (numToStr n) | _ \<Rightarrow> v)"

definition isNullish :: "jsval \<Rightarrow> bool" where
  "isNullish v \<longleftrightarrow> v = JUndef \<or> v = JNull"

definition itemOptions :: "jsRegex option \<Rightarrow> jsobj \<Rightarrow> jsobj list option" where
  "itemOptions regex item =
     (let t = field item (js ''text''); v = field item (js ''value'');
          text = numberText (if isNullish t then v else t);
          value = numberText (if isNullish v then t else v)
      in case regex of
           None \<Rightarrow> Some [mkOption text value]
         | Some rx \<Rightarrow> map_option (matchOptions text value) (getAllMatches (jsString value) rx))"

fun collect :: "'a list option list \<Rightarrow> 'a list option" where
  "collect [] = Some []"
| "collect (x # xs) =
     (case x of None \<Rightarrow> None | Some ys \<Rightarrow> map_option ((@) ys) (collect xs))"

text \<open>\<open>uniqBy(options, 'value')\<close>: the first option of each value.\<close>

fun uniqByValue :: "jsval list \<Rightarrow> jsobj list \<Rightarrow> jsobj list" where
  "uniqByValue seen [] = []"
| "uniqByValue seen (o' # os) =
     (let v = field o' (js ''value'')
      in if v \<in> set seen then uniqByValue seen os else o' # uniqByValue (v # seen) os)"

text \<open>The keys of the three ways to sort; a text that is not a string comes last.\<close>

definition textKey :: "(jsstr \<Rightarrow> jsstr) \<Rightarrow> jsobj \<Rightarrow> nat \<times> jsstr" where
  "textKey g o' = (case field o' (js ''text'') of JStr s \<Rightarrow> (0, g s) | _ \<Rightarrow> (1, []))"

definition firstDigits :: "jsstr \<Rightarrow> jsstr" where
  "firstDigits s = takeWhile isDigit (dropWhile (\<lambda>c. \<not> isDigit c) s)"

definition numberKey :: "jsobj \<Rightarrow> int" where
  "numberKey o' =
     (case field o' (js ''text'') of
        JStr s \<Rightarrow> if firstDigits s = [] then -1 else int (digitsVal (firstDigits s))
      | _ \<Rightarrow> -1)"

definition sortVariableValues :: "(jsstr \<Rightarrow> jsstr) \<Rightarrow> jsobj list \<Rightarrow> nat option \<Rightarrow> jsobj list" where
  "sortVariableValues toLower options sortOrder =
     (case sortOrder of
        None \<Rightarrow> options
      | Some n \<Rightarrow>
          if n = 0 then options
          else
            let sorted =
                  (if (n + 1) div 2 = 1 then sort_key (textKey id) options
                   else if (n + 1) div 2 = 2 then sort_key numberKey options
                   else if (n + 1) div 2 = 3 then sort_key (textKey toLower) options
                   else options)
            in if n mod 2 = 0 then rev sorted else sorted)"

definition metricNamesToVariableValues ::
  "(jsstr \<Rightarrow> jsstr) \<Rightarrow> (jsstr \<Rightarrow> jsstr \<Rightarrow> jsRegex option) \<Rightarrow> jsstr \<Rightarrow> nat option \<Rightarrow> jsobj list \<Rightarrow>
   jsobj list option" where
  "metricNamesToVariableValues toLower newRegExp variableRegEx sortOrder metricNames =
     (case (if variableRegEx = [] then Some None
            else map_option Some (stringToJsRegex newRegExp variableRegEx)) of
        None \<Rightarrow> None
      | Some regex \<Rightarrow>
          map_option (\<lambda>os. sortVariableValues toLower (uniqByValue [] os) sortOrder)
            (collect (map (itemOptions regex) metricNames)))"

definition sortOrderOf :: "jsval \<Rightarrow> nat option" where
  "sortOrderOf v = (case v of JNum (Dec n 0) \<Rightarrow> if n < 0 then None else Some (nat n) | _ \<Rightarrow> None)"

definition updateVariableOptions ::
  "(jsstr \<Rightarrow> jsstr) \<Rightarrow> (jsstr \<Rightarrow> jsstr \<Rightarrow> jsRegex option) \<Rightarrow> jsstr \<Rightarrow> jsstr \<Rightarrow> jsobj list \<Rightarrow> variablesState \<Rightarrow>
   variablesState option" where
  "updateVariableOptions toLower newRegExp i templatedRegex results =
     onType (js ''query'') i
       (\<lambda>m. map_option
              (\<lambda>os. let os1 = withAll m os
                    in setOptions (if os1 = [] then [noneOption] else os1) m)
              (metricNamesToVariableValues toLower newRegExp templatedRegex
                 (sortOrderOf (field m (js ''sort''))) results))"

subsection \<open>Data sources\<close>

record dataSource =
  src_name :: jsstr
  src_metaId :: jsstr
  src_isDefault :: bool

text \<open>
  \<open>regex.exec\<close> as a test.  With the flag \<open>g\<close> or \<open>y\<close> a search begins where the one before it ended, and
  at the beginning after one that failed.
\<close>

definition execTest :: "jsRegex option \<Rightarrow> jsstr \<Rightarrow> nat \<Rightarrow> bool \<times> nat" where
  "execTest regex s lastIndex =
     (case regex of
        None \<Rightarrow> (True, lastIndex)
      | Some rx \<Rightarrow>
          if rx_global rx \<or> rx_sticky rx
          then (case rx_exec rx s lastIndex of None \<Rightarrow> (False, 0) | Some (_, k) \<Rightarrow> (True, k))
          else (rx_exec rx s 0 \<noteq> None, lastIndex))"

definition isValid :: "dataSource \<Rightarrow> jsRegex option \<Rightarrow> nat \<Rightarrow> bool \<times> nat" where
  "isValid source regex = execTest regex (src_name source)"

definition isDefault :: "dataSource \<Rightarrow> jsRegex option \<Rightarrow> nat \<Rightarrow> bool \<times> nat" where
  "isDefault source regex lastIndex =
     (if \<not> src_isDefault source then (False, lastIndex) else execTest regex (js ''default'') lastIndex)"

fun dataSourceOptions :: "jsval \<Rightarrow> jsRegex option \<Rightarrow> dataSource list \<Rightarrow> nat \<Rightarrow> jsobj list" where
  "dataSourceOptions query regex [] lastIndex = []"
| "dataSourceOptions query regex (source # sources) lastIndex =
     (if JStr (src_metaId source) \<noteq> query then dataSourceOptions query regex sources lastIndex
      else (case isValid source regex lastIndex of
              (valid, k) \<Rightarrow>
                (case isDefault source regex k of
                   (isDef, k') \<Rightarrow>
                     (if valid then [mkOption (JStr (src_name source)) (JStr (src_name source))] else [])
                     @ (if isDef then [mkOption (JStr (js ''default'')) (JStr (js ''default''))] else [])
                     @ dataSourceOptions query regex sources k')))"

definition createDataSourceOptions ::
  "jsstr \<Rightarrow> dataSource list \<Rightarrow> jsRegex option \<Rightarrow> nat \<Rightarrow> variablesState \<Rightarrow> variablesState option" where
  "createDataSourceOptions i sources regex lastIndex =
     onType (js ''datasource'') i
       (\<lambda>m. let os = dataSourceOptions (field m (js ''query'')) regex sources lastIndex;
                os1 = (if os = [] then [mkOption (JStr (js ''No data sources found'')) (JStr [])] else os)
            in Some (setOptions (withAll m os1) m))"

end
