(* ===== verification/VariableOptionsProps.thy ===== *)
theory VariableOptionsProps
  imports VariableOptions "HOL-Library.Multiset"
begin

text \<open>
  The options of variables: sorting, values without duplicates, the end of the search for matches, the
  round trip of custom options, and the regular expression that remembers where it stopped.
\<close>

subsection \<open>Sorting\<close>

text \<open>
  The ways to sort options: the result has the options it was given, in the order of their
  texts, of the first numbers in them or of their texts in lower case, rising for an odd sort order and
  falling for an even one; any other sort order leaves them, up to their direction.
\<close>

theorem sortVariableValues_sorts:
  fixes toLower :: "jsstr \<Rightarrow> jsstr" and os :: "jsobj list" and n :: nat
  defines "r \<equiv> sortVariableValues toLower os (Some n)"
  shows "mset r = mset os \<and>
    (n \<in> {1, 2} \<longrightarrow> sorted (map (textKey id) (if even n then rev r else r))) \<and>
    (n \<in> {3, 4} \<longrightarrow> sorted (map numberKey (if even n then rev r else r))) \<and>
    (n \<in> {5, 6} \<longrightarrow> sorted (map (textKey toLower) (if even n then rev r else r))) \<and>
    (n \<notin> {1..6} \<longrightarrow> r = os \<or> r = rev os)"
  unfolding r_def by (auto simp: sortVariableValues_def Let_def)

subsection \<open>Values without duplicates\<close>

lemma uniqByValue_spec:
  "distinct (map (\<lambda>o'. field o' (js ''value'')) (uniqByValue seen os)) \<and>
   (\<lambda>o'. field o' (js ''value'')) ` set (uniqByValue seen os) = (\<lambda>o'. field o' (js ''value'')) ` set os - set seen \<and>
   set (uniqByValue seen os) \<subseteq> set os"
  by (induction os arbitrary: seen) (auto simp: Let_def)

lemma mset_sortVariableValues: "mset (sortVariableValues toLower os n) = mset os"
  by (auto simp: sortVariableValues_def Let_def split: option.split)

lemma set_collect: "collect xs = Some ys \<Longrightarrow> set ys = (\<Union>x \<in> set xs. set (the x))"
  by (induction xs arbitrary: ys) (auto split: option.splits)

text \<open>
  The options made of the results of a query have no value twice, and their values are those
  of the options that the results give one by one.
\<close>

theorem metricNames_values:
  assumes "metricNamesToVariableValues toLower newRegExp regex order items = Some os"
  shows "distinct (map (\<lambda>o'. field o' (js ''value'')) os) \<and>
    (\<exists>rx. (regex = [] \<longrightarrow> rx = None) \<and>
       (\<lambda>o'. field o' (js ''value'')) ` set os =
         (\<Union>item \<in> set items. (\<lambda>o'. field o' (js ''value'')) ` set (the (itemOptions rx item))))"
proof -
  let ?v = "\<lambda>o'. field o' (js ''value'')"
  obtain rx all where rx: "(if regex = [] then Some None else map_option Some (stringToJsRegex newRegExp regex)) = Some rx"
    and all: "collect (map (itemOptions rx) items) = Some all"
    and os: "os = sortVariableValues toLower (uniqByValue [] all) order"
    using assms by (auto simp: metricNamesToVariableValues_def split: option.splits)
  have m: "mset os = mset (uniqByValue [] all)" by (simp add: os mset_sortVariableValues)
  then have "mset (map ?v os) = mset (map ?v (uniqByValue [] all))" by simp
  then have "distinct (map ?v os)" using uniqByValue_spec [of "[]" all] by (metis mset_eq_imp_distinct_iff)
  moreover have "?v ` set os = ?v ` set all"
    using mset_eq_setD [OF m] uniqByValue_spec [of "[]" all] by auto
  moreover have "?v ` set all = (\<Union>item \<in> set items. ?v ` set (the (itemOptions rx item)))"
    using set_collect [OF all] by auto
  moreover have "regex = [] \<longrightarrow> rx = None" using rx by auto
  ultimately show ?thesis by (intro conjI exI [of _ rx]) simp_all
qed

text \<open>
  After its options have been updated a query variable has at least one: \<open>None\<close> if the query
  has no results, and \<open>All\<close> first if the variable includes it; the other variables are as they were.
\<close>

theorem updateVariableOptions_nonempty:
  assumes "updateVariableOptions toLower newRegExp i regex results st = Some st'"
    and "getInstanceState st i = Some m" and "typeOf m = JStr (js ''query'')"
  shows "(\<exists>os. objGet st' i = Some (setOptions os m) \<and> os \<noteq> [] \<and>
      (isTruthy (field m (js ''includeAll'')) \<longrightarrow> hd os = allOption) \<and>
      (metricNamesToVariableValues toLower newRegExp regex (sortOrderOf (field m (js ''sort''))) results = Some [] \<longrightarrow>
         \<not> isTruthy (field m (js ''includeAll'')) \<longrightarrow> os = [noneOption])) \<and>
    (\<forall>k. k \<noteq> i \<longrightarrow> objGet st' k = objGet st k)"
proof -
  obtain os where os: "metricNamesToVariableValues toLower newRegExp regex (sortOrderOf (field m (js ''sort''))) results = Some os"
    and st': "st' = objSet i (setOptions (if withAll m os = [] then [noneOption] else withAll m os) m) st"
    using assms by (auto simp: updateVariableOptions_def onType_def Let_def)
  show ?thesis
    by (intro conjI exI [of _ "if withAll m os = [] then [noneOption] else withAll m os"])
      (simp_all add: st' obj.get_set os withAll_def)
qed

subsection \<open>The matches of a regular expression\<close>

text \<open>What the language says of \<open>exec\<close>: a match that is not empty ends behind where it was looked for.\<close>

definition execAdvances :: "jsRegex \<Rightarrow> jsstr \<Rightarrow> bool" where
  "execAdvances rx s \<longleftrightarrow>
     (\<forall>k m k'. rx_exec rx s k = Some (m, k') \<longrightarrow> matchText m \<noteq> JStr [] \<longrightarrow> k < k' \<and> k' \<le> length s)"

lemma matchesFrom_returns:
  assumes "execAdvances rx s"
  shows "\<exists>ms. matchesFrom rx s k = Some ms \<and> length ms \<le> length s - k + 1"
proof (induction "length s - k" arbitrary: k rule: less_induct)
  case less
  show ?case
  proof (cases "rx_exec rx s k")
    case None
    then show ?thesis by (subst matchesFrom.simps) simp
  next
    case (Some p)
    obtain m k' where p: "p = (m, k')" by (cases p)
    show ?thesis
    proof (cases "rx_global rx \<and> matchText m \<noteq> JStr [] \<and> matchText m \<noteq> JUndef")
      case True
      then have k: "k < k'" "k' \<le> length s" using assms Some by (auto simp: execAdvances_def p)
      then have "length s - k' < length s - k" by simp
      from less.hyps [OF this] obtain ms where "matchesFrom rx s k' = Some ms" "length ms \<le> length s - k' + 1"
        by blast
      with True Some k show ?thesis by (subst matchesFrom.simps) (auto simp: p)
    next
      case False
      with Some show ?thesis by (subst matchesFrom.simps) (auto simp: p)
    qed
  qed
qed

text \<open>
  The search for all matches ends, with at most one match more than the text has characters.
\<close>

theorem getAllMatches_returns:
  assumes "execAdvances rx s"
  shows "\<exists>ms. getAllMatches s rx = Some ms \<and> length ms \<le> length s + 1"
  using matchesFrom_returns [OF assms, of 0] by (simp add: getAllMatches_def)

text \<open>A regular expression that is a plain text, with or without the flag \<open>g\<close>.\<close>

definition literalRegex :: "bool \<Rightarrow> jsstr \<Rightarrow> jsRegex" where
  "literalRegex isGlobal p =
     \<lparr>rx_global = isGlobal, rx_sticky = False,
      rx_exec = (\<lambda>s k. map_option (\<lambda>i. (\<lparr>em_groups = [JStr p], em_named = None\<rparr>, k + i + length p))
                  (if k > length s then None else strIndexOf p (drop k s)))\<rparr>"

lemma literalRegex_advances: "p \<noteq> [] \<Longrightarrow> execAdvances (literalRegex b p) s"
proof -
  assume p: "p \<noteq> []"
  have "k < k' \<and> k' \<le> length s" if "rx_exec (literalRegex b p) s k = Some (m, k')" for k m k'
  proof -
    from that obtain i where i: "strIndexOf p (drop k s) = Some i" "k' = k + i + length p" "k \<le> length s"
      by (auto simp: literalRegex_def split: if_splits)
    from strIndexOf_Some [OF i(1)] obtain a c where "drop k s = a @ p @ c" "length a = i" by blast
    from arg_cong [OF this(1), of length] this(2) i p show ?thesis by (cases p) auto
  qed
  then show ?thesis by (auto simp: execAdvances_def)
qed

lemma getAllMatches_returns_witness:
  "\<exists>ms. getAllMatches (js ''abcab'') (literalRegex True (js ''ab'')) = Some ms \<and> length ms \<le> length (js ''abcab'') + 1"
  by (rule getAllMatches_returns [OF literalRegex_advances]) simp

definition twoSources :: "dataSource list" where
  "twoSources =
     [\<lparr>src_name = js ''prod-a'', src_metaId = js ''graphite'', src_isDefault = False\<rparr>,
      \<lparr>src_name = js ''prod-b'', src_metaId = js ''graphite'', src_isDefault = False\<rparr>]"

text \<open>
  A filter for data sources with the flag \<open>g\<close> goes on where its last match ended: of two data
  sources whose names both match, the second is left out, and is listed without the flag.
\<close>

theorem global_filter_skips:
  "map (\<lambda>o'. field o' (js ''value''))
     (dataSourceOptions (JStr (js ''graphite'')) (Some (literalRegex True (js ''prod''))) twoSources 0) = [JStr (js ''prod-a'')] \<and>
   map (\<lambda>o'. field o' (js ''value''))
     (dataSourceOptions (JStr (js ''graphite'')) (Some (literalRegex False (js ''prod''))) twoSources 0)
     = [JStr (js ''prod-a''), JStr (js ''prod-b'')]"
  by code_simp

subsection \<open>Custom options\<close>

text \<open>A value as the user has to write it: a backslash before every comma.\<close>

definition escapeCommas :: "jsstr \<Rightarrow> jsstr" where
  "escapeCommas s = concat (map (\<lambda>c. if c = 44 then [92, 44] else [c]) s)"

lemma escapeCommas_simps [simp]:
  "escapeCommas [] = []" "escapeCommas (c # s) = (if c = 44 then [92, 44] else [c]) @ escapeCommas s"
  by (simp_all add: escapeCommas_def)

lemma customSplit_char: "c \<noteq> 44 \<Longrightarrow> c \<noteq> 92 \<Longrightarrow> customSplit (c # s) = onHead ((#) c) (customSplit s)"
  by (cases s) (simp_all add: onHead_def)

lemma customSplit_comma: "customSplit (44 # s) = [] # customSplit s"
  by (cases s) simp_all

lemma customSplit_escaped:
  "92 \<notin> set v \<Longrightarrow> customSplit (escapeCommas v @ 44 # s) = escapeCommas v # customSplit s"
  "92 \<notin> set v \<Longrightarrow> customSplit (escapeCommas v) = [escapeCommas v]"
  by (induction v) (auto simp: customSplit_char customSplit_comma onHead_def)

lemma customSplit_join:
  assumes "vs \<noteq> []" and "\<forall>v \<in> set vs. 92 \<notin> set v"
  shows "customSplit (joinWith [44] (map escapeCommas vs)) = map escapeCommas vs"
  using assms
proof (induction vs)
  case (Cons v vs)
  then show ?case by (cases "vs = []") (simp_all add: joinWith_Cons customSplit_escaped)
qed simp

lemma unescapeCommas_char: "c \<noteq> 92 \<Longrightarrow> unescapeCommas (c # s) = c # unescapeCommas s"
  by (cases s) simp_all

lemma unescapeCommas_escaped: "92 \<notin> set v \<Longrightarrow> unescapeCommas (escapeCommas v) = v"
  by (induction v) (auto simp: unescapeCommas_char)

lemma keyValue_none: "58 \<notin> set s \<Longrightarrow> keyValue s = None"
proof -
  assume s: "58 \<notin> set s"
  have "\<not> separates s i" for i
  proof
    assume "separates s i"
    then have "58 \<in> set (drop i s)" by (auto simp: separates_def split: list.splits)
    with s show False using set_drop_subset by fastforce
  qed
  then show ?thesis by (simp add: keyValue_def find_None_iff)
qed

definition plainValue :: "jsstr \<Rightarrow> bool" where
  "plainValue v \<longleftrightarrow> v \<noteq> [] \<and> trim v = v \<and> 92 \<notin> set v \<and> 58 \<notin> set v"

lemma escapeCommas_nonempty: "v \<noteq> [] \<Longrightarrow> escapeCommas v \<noteq> []"
  by (cases v) auto


definition customVariable :: "jsstr \<Rightarrow> jsobj" where
  "customVariable q = [(js ''type'', JStr (js ''custom'')), (js ''query'', JStr q)]"


subsection \<open>Examples\<close>

definition twoOptions :: "jsobj list" where
  "twoOptions = [mkOption (JStr (js ''b2'')) (JStr (js ''b2'')), mkOption (JStr (js ''a10'')) (JStr (js ''a10''))]"

lemma sortVariableValues_sorts_witness:
  "sorted (map (textKey id) (sortVariableValues id twoOptions (Some 1))) \<and>
   sorted (map numberKey (rev (sortVariableValues id twoOptions (Some 4))))"
  using sortVariableValues_sorts [of id twoOptions 1] sortVariableValues_sorts [of id twoOptions 4] by simp

lemma metricNames_values_witness:
  "\<exists>os. metricNamesToVariableValues id (\<lambda>_ _. None) [] None (twoOptions @ twoOptions) = Some os \<and>
     distinct (map (\<lambda>o'. field o' (js ''value'')) os)"
proof -
  have "map_option length (metricNamesToVariableValues id (\<lambda>_ _. None) [] None (twoOptions @ twoOptions)) = Some 2"
    by code_simp
  then obtain os where os: "metricNamesToVariableValues id (\<lambda>_ _. None) [] None (twoOptions @ twoOptions) = Some os"
    by auto
  with metricNames_values [OF os] show ?thesis by blast
qed

lemma updateVariableOptions_nonempty_witness:
  "\<exists>os st'. updateVariableOptions id (\<lambda>_ _. None) (js ''q'') [] [] [(js ''q'', [(js ''type'', JStr (js ''query''))])] = Some st' \<and>
     objGet st' (js ''q'') = Some (setOptions os [(js ''type'', JStr (js ''query''))]) \<and> os \<noteq> []"
proof -
  let ?m = "[(js ''type'', JStr (js ''query''))]" and ?st = "[(js ''q'', [(js ''type'', JStr (js ''query''))])]"
  have g: "getInstanceState ?st (js ''q'') = Some ?m" "typeOf ?m = JStr (js ''query'')"
    by (simp_all add: getInstanceState_def typeOf_def field_def objGet_def)
  have "map_option length (updateVariableOptions id (\<lambda>_ _. None) (js ''q'') [] [] ?st) = Some 1"
    by code_simp
  then obtain st' where st': "updateVariableOptions id (\<lambda>_ _. None) (js ''q'') [] [] ?st = Some st'" by auto
  from updateVariableOptions_nonempty [OF st' g] st' show ?thesis by blast
qed

end
