(* ===== verification/VariableRegex.thy ===== *)
theory VariableRegex
  imports Json
begin

text \<open>
  References to variables in texts: the pattern \<open>variableRegex\<close> of \<open>features/variables/utils.ts\<close> and
  the functions that search a text for it.

  The pattern has three alternatives, \<open>$name\<close>, \<open>[[name:format]]\<close> and \<open>${name.path:format}\<close>; each
  matches in one way at most, so a match is the pattern read from left to right.  A match has the six
  groups of the pattern.
\<close>

subsection \<open>The pattern\<close>

record varMatch =
  vm_text :: jsstr
  vm_var1 :: "jsstr option"
  vm_var2 :: "jsstr option"
  vm_fmt2 :: "jsstr option"
  vm_var3 :: "jsstr option"
  vm_fieldPath :: "jsstr option"
  vm_fmt3 :: "jsstr option"

definition noGroups :: "jsstr \<Rightarrow> varMatch" where
  "noGroups s = \<lparr>vm_text = s, vm_var1 = None, vm_var2 = None, vm_fmt2 = None, vm_var3 = None,
                 vm_fieldPath = None, vm_fmt3 = None\<rparr>"

text \<open>An optional group: a character and the longest run of others that is not empty.\<close>

definition optionalGroup :: "codeUnit \<Rightarrow> (codeUnit \<Rightarrow> bool) \<Rightarrow> jsstr \<Rightarrow> jsstr option \<times> jsstr" where
  "optionalGroup sep P s =
     (case s of
        c # t \<Rightarrow> if c = sep \<and> takeWhile P t \<noteq> [] then (Some (takeWhile P t), dropWhile P t) else (None, s)
      | [] \<Rightarrow> (None, s))"

definition matchDollar :: "jsstr \<Rightarrow> (varMatch \<times> jsstr) option" where
  "matchDollar s =
     (case s of
        c # t \<Rightarrow>
          if c = 36 \<and> takeWhile isWordChar t \<noteq> []
          then Some (noGroups (36 # takeWhile isWordChar t)\<lparr>vm_var1 := Some (takeWhile isWordChar t)\<rparr>,
                     dropWhile isWordChar t)
          else None
      | [] \<Rightarrow> None)"

definition matchBrackets :: "jsstr \<Rightarrow> (varMatch \<times> jsstr) option" where
  "matchBrackets s =
     (if startsWith [91, 91] s \<and> takeWhile isWordChar (drop 2 s) \<noteq> []
      then (case optionalGroup 58 isWordChar (dropWhile isWordChar (drop 2 s)) of
              (fmt, r) \<Rightarrow>
                if startsWith [93, 93] r
                then Some (noGroups (take (length s - length r + 2) s)
                             \<lparr>vm_var2 := Some (takeWhile isWordChar (drop 2 s)), vm_fmt2 := fmt\<rparr>,
                           drop 2 r)
                else None)
      else None)"

definition isPathChar :: "codeUnit \<Rightarrow> bool" where
  "isPathChar c \<longleftrightarrow> c \<noteq> 58 \<and> c \<noteq> 94 \<and> c \<noteq> 125"

definition matchBraces :: "jsstr \<Rightarrow> (varMatch \<times> jsstr) option" where
  "matchBraces s =
     (if startsWith [36, 123] s \<and> takeWhile isWordChar (drop 2 s) \<noteq> []
      then (case optionalGroup 46 isPathChar (dropWhile isWordChar (drop 2 s)) of
              (path, r1) \<Rightarrow>
                (case optionalGroup 58 (\<lambda>c. c \<noteq> 125) r1 of
                   (fmt, r2) \<Rightarrow>
                     if startsWith [125] r2
                     then Some (noGroups (take (length s - length r2 + 1) s)
                                  \<lparr>vm_var3 := Some (takeWhile isWordChar (drop 2 s)), vm_fieldPath := path,
                                   vm_fmt3 := fmt\<rparr>,
                                drop 1 r2)
                     else None))
      else None)"

definition orMatch :: "'a option \<Rightarrow> 'a option \<Rightarrow> 'a option" where
  "orMatch a b = (case a of Some x \<Rightarrow> Some x | None \<Rightarrow> b)"

definition matchVar :: "jsstr \<Rightarrow> (varMatch \<times> jsstr) option" where
  "matchVar s = orMatch (matchDollar s) (orMatch (matchBrackets s) (matchBraces s))"

text \<open>A match is not empty and is the beginning of the text.\<close>

lemma optionalGroup_split:
  "optionalGroup sep P s = (g, r) \<Longrightarrow> s = (case g of Some w \<Rightarrow> sep # w | None \<Rightarrow> []) @ r"
  by (cases s) (auto simp: optionalGroup_def split: if_splits)

lemma takeWhile_drop_split: "startsWith p s \<Longrightarrow> length p = 2 \<Longrightarrow>
    s = p @ takeWhile P (drop 2 s) @ dropWhile P (drop 2 s)"
  by (simp add: startsWith_def) (metis append_take_drop_id)

lemma startsWith_drop: "startsWith p s \<longleftrightarrow> (\<exists>r. s = p @ r)"
  by (auto simp: startsWith_def) (metis append_take_drop_id)

lemma match_text: "s = a @ p @ b \<Longrightarrow> take (length s - length (p @ b) + length p) s = a @ p"
  by simp

lemma matchDollar_split: "matchDollar s = Some (m, r) \<Longrightarrow> s = vm_text m @ r \<and> vm_text m \<noteq> []"
  by (auto simp: matchDollar_def noGroups_def split: list.splits if_splits)

lemma matchBrackets_split:
  assumes "matchBrackets s = Some (m, r)"
  shows "s = vm_text m @ r \<and> vm_text m \<noteq> []"
proof -
  obtain fmt r' where s: "startsWith [91, 91] s"
    and g: "optionalGroup 58 isWordChar (dropWhile isWordChar (drop 2 s)) = (fmt, r')"
    and e: "startsWith [93, 93] r'" "r = drop 2 r'" "vm_text m = take (length s - length r' + 2) s"
    using assms by (auto simp: matchBrackets_def noGroups_def split: if_splits prod.splits)
  have a: "s = ([91, 91] @ takeWhile isWordChar (drop 2 s) @ (case fmt of Some w \<Rightarrow> 58 # w | None \<Rightarrow> [])) @ r'"
    (is "s = ?a @ r'")
    using takeWhile_drop_split [OF s, of isWordChar] optionalGroup_split [OF g] by simp
  obtain b where b: "r' = [93, 93] @ b" using e(1) unfolding startsWith_drop by blast
  show ?thesis using match_text [of s ?a "[93, 93]" b] a b e by auto
qed

lemma matchBraces_split:
  assumes "matchBraces s = Some (m, r)"
  shows "s = vm_text m @ r \<and> vm_text m \<noteq> []"
proof -
  obtain path r1 fmt r2 where s: "startsWith [36, 123] s"
    and g1: "optionalGroup 46 isPathChar (dropWhile isWordChar (drop 2 s)) = (path, r1)"
    and g2: "optionalGroup 58 (\<lambda>c. c \<noteq> 125) r1 = (fmt, r2)"
    and e: "startsWith [125] r2" "r = drop 1 r2" "vm_text m = take (length s - length r2 + 1) s"
    using assms by (auto simp: matchBraces_def noGroups_def split: if_splits prod.splits)
  have a: "s = ([36, 123] @ takeWhile isWordChar (drop 2 s) @ (case path of Some w \<Rightarrow> 46 # w | None \<Rightarrow> [])
      @ (case fmt of Some w \<Rightarrow> 58 # w | None \<Rightarrow> [])) @ r2" (is "s = ?a @ r2")
    using takeWhile_drop_split [OF s, of isWordChar] optionalGroup_split [OF g1] optionalGroup_split [OF g2]
    by simp
  obtain b where b: "r2 = [125] @ b" using e(1) unfolding startsWith_drop by blast
  show ?thesis using match_text [of s ?a "[125]" b] a b e by auto
qed

lemma matchVar_split: "matchVar s = Some (m, r) \<Longrightarrow> s = vm_text m @ r \<and> vm_text m \<noteq> []"
  using matchDollar_split matchBrackets_split matchBraces_split
  by (auto simp: matchVar_def orMatch_def split: option.splits)

lemma matchVar_shorter: "matchVar s = Some (m, r) \<Longrightarrow> length r < length s"
  by (drule matchVar_split) (metis length_append length_greater_0_conv less_add_same_cancel2)

subsection \<open>Searching a text\<close>

text \<open>What a global search makes of a text: its matches from left to right and the characters between.\<close>

datatype textPart = Plain codeUnit | Ref varMatch

function textParts :: "jsstr \<Rightarrow> textPart list" where
  "textParts [] = []"
| "textParts (c # s) =
     (case matchVar (c # s) of
        Some (m, r) \<Rightarrow> Ref m # textParts r
      | None \<Rightarrow> Plain c # textParts s)"
  by pat_completeness auto
termination
  by (relation "measure length") (auto dest: matchVar_shorter)

declare textParts.simps(2) [simp del]

definition allMatches :: "jsstr \<Rightarrow> varMatch list" where
  "allMatches s = List.map_filter (\<lambda>p. case p of Ref m \<Rightarrow> Some m | Plain _ \<Rightarrow> None) (textParts s)"

definition variableRegexExec :: "jsstr \<Rightarrow> varMatch option" where
  "variableRegexExec s = (case allMatches s of [] \<Rightarrow> None | m # _ \<Rightarrow> Some m)"

definition groups :: "varMatch \<Rightarrow> jsstr option list" where
  "groups m = [vm_var1 m, vm_var2 m, vm_fmt2 m, vm_var3 m, vm_fieldPath m, vm_fmt3 m]"

text \<open>The first group that took part in the match.\<close>

definition groupName :: "varMatch \<Rightarrow> jsstr option" where
  "groupName m = (case List.map_filter id (groups m) of [] \<Rightarrow> None | n # _ \<Rightarrow> Some n)"

definition getVariableName :: "jsstr \<Rightarrow> jsstr option" where
  "getVariableName expression = Option.bind (variableRegexExec expression) groupName"

text \<open>\<open>containsVariable\<close>: the arguments but the last, and the last, the name looked for.\<close>

definition variableString :: "jsval list \<Rightarrow> jsstr" where
  "variableString args =
     (case args of
        [] \<Rightarrow> []
      | a # as \<Rightarrow>
          joinWith [32] (jsElements ((case a of JStr s \<Rightarrow> JStr s | _ \<Rightarrow> JStr (safeStringifyValue a)) # as)))"

definition containsVariable :: "jsval list \<Rightarrow> jsstr \<Rightarrow> bool" where
  "containsVariable args name =
     list_ex (\<lambda>m. case variableRegexExec (vm_text m) of
                     None \<Rightarrow> False
                   | Some v \<Rightarrow> vm_text v = name \<or> Some name \<in> set (groups v))
       (allMatches (variableString args))"

text \<open>\<open>text.replace(variableRegex, f)\<close>\<close>

definition replaceMatches :: "(varMatch \<Rightarrow> jsstr) \<Rightarrow> jsstr \<Rightarrow> jsstr" where
  "replaceMatches f s = concat (map (\<lambda>p. case p of Plain c \<Rightarrow> [c] | Ref m \<Rightarrow> f m) (textParts s))"

end
