(* ===== verification/VariableGraph.thy ===== *)
theory VariableGraph
  imports VariableRegex AdHocFilters Dag
begin

text \<open>
  Which variables depend on which, and which panels a change of a variable affects:
  \<open>createGraph\<close>, \<open>isDependencyGraphCircular\<close> and their helpers of \<open>features/variables/state/actions.ts\<close>,
  \<open>dependsOn\<close> of the adapters, and the panels of \<open>features/variables/inspect/utils.ts\<close>.

  Two variables of the state are the same object if they have the same identifier.  A panel is its
  number and its text as JSON.
\<close>

subsection \<open>Dependencies\<close>

definition nameOf :: "jsobj \<Rightarrow> jsstr" where
  "nameOf m = jsString (field m (js ''name''))"

definition idOf :: "jsobj \<Rightarrow> jsstr" where
  "idOf m = jsString (field m (js ''id''))"

definition adapterTypes :: "jsval list" where
  "adapterTypes =
     map (\<lambda>s. JStr (js s))
       [''query'', ''custom'', ''textbox'', ''constant'', ''datasource'', ''interval'', ''adhoc'', ''system'']"

definition dependsOn :: "jsobj \<Rightarrow> jsobj \<Rightarrow> bool" where
  "dependsOn m other =
     (if typeOf m = JStr (js ''query'')
      then containsVariable
             [field m (js ''query''), valField (field m (js ''datasource'')) (js ''uid''), field m (js ''regex'')]
             (nameOf other)
      else if typeOf m = JStr (js ''datasource'') \<and> isTruthy (field m (js ''regex''))
      then containsVariable [field m (js ''regex'')] (nameOf other)
      else False)"

text \<open>The loops over pairs of variables: every ordered pair of two different positions.\<close>

definition orderedPairs :: "'a list \<Rightarrow> ('a \<times> 'a) list" where
  "orderedPairs xs =
     concat (map (\<lambda>(i, x). map (\<lambda>(j, y). (x, y)) (filter (\<lambda>(j, y). i \<noteq> j) (enumerate 0 xs))) (enumerate 0 xs))"

definition linkDependency :: "jsobj \<times> jsobj \<Rightarrow> dag option \<Rightarrow> dag option" where
  "linkDependency p g =
     (case (p, g) of
        ((m, other), Some g) \<Rightarrow>
          if typeOf m \<notin> set adapterTypes then None
          else if dependsOn m other
          then map_option snd (dagLink [NodeNamed (nameOf m)] [NodeNamed (nameOf other)] g)
          else Some g
      | (_, None) \<Rightarrow> None)"

definition createGraph :: "jsobj list \<Rightarrow> dag option" where
  "createGraph variables =
     fold linkDependency (orderedPairs variables) (Some (snd (createNodes (map nameOf variables) emptyDag)))"

subsection \<open>Circular dependencies\<close>

definition getDirectDependencies :: "jsobj list \<Rightarrow> jsobj \<Rightarrow> jsobj list" where
  "getDirectDependencies variables m =
     filter (\<lambda>other. idOf other \<noteq> idOf m \<and> typeOf m \<in> set adapterTypes \<and> dependsOn m other) variables"

function isDependencyGraphCircular :: "jsobj list \<Rightarrow> jsobj \<Rightarrow> jsstr list \<Rightarrow> bool" where
  "isDependencyGraphCircular variables m encountered =
     (if idOf m \<in> set encountered then True
      else list_ex (\<lambda>d. isDependencyGraphCircular variables d (encountered @ [idOf m]))
             (getDirectDependencies variables m))"
  by pat_completeness auto
termination
proof (relation "measure (\<lambda>(vs, m, enc). card (insert (idOf m) (idOf ` set vs) - set enc))", goal_cases)
  case (2 vs m enc d)
  then have "idOf d \<in> idOf ` set vs" by (auto simp: getDirectDependencies_def)
  then have "insert (idOf d) (idOf ` set vs) - set (enc @ [idOf m]) \<subset> insert (idOf m) (idOf ` set vs) - set enc"
    using 2(1) by auto
  then show ?case by (simp add: psubset_card_mono)
qed simp

declare isDependencyGraphCircular.simps [simp del]

text \<open>Whether a variable has to wait for others that are not loaded yet.\<close>

definition isPending :: "jsobj \<Rightarrow> bool" where
  "isPending m \<longleftrightarrow> field m (js ''state'') \<in> {JStr (js ''NotStarted''), JStr (js ''Loading'')}"

definition isWaitingForDependencies :: "jsobj list \<Rightarrow> jsobj list \<Rightarrow> bool" where
  "isWaitingForDependencies variables dependencies \<longleftrightarrow>
     dependencies \<noteq> [] \<and>
     filter (\<lambda>d. list_ex (\<lambda>v. idOf v = idOf d \<and> isPending v) variables) dependencies \<noteq> []"

datatype dependencyCheck = NoRootStateKey | Circular | Waiting | Ready

definition processVariableDependencies :: "jsobj list \<Rightarrow> jsobj \<Rightarrow> dependencyCheck" where
  "processVariableDependencies variables m =
     (if \<not> isTruthy (field m (js ''rootStateKey'')) then NoRootStateKey
      else if isDependencyGraphCircular variables m [] then Circular
      else if isWaitingForDependencies variables (getDirectDependencies variables m) then Waiting
      else Ready)"

subsection \<open>Panels\<close>

definition newSet :: "'a list \<Rightarrow> 'a list" where
  "newSet xs = fold (\<lambda>x acc. if x \<in> set acc then acc else acc @ [x]) xs []"

text \<open>\<open>/"repeat":"([^"]+)"/g\<close>\<close>

definition repeatMark :: jsstr where
  "repeatMark = [34] @ js ''repeat'' @ [34, 58, 34]"

definition matchRepeat :: "jsstr \<Rightarrow> (jsstr \<times> jsstr) option" where
  "matchRepeat s =
     (if startsWith repeatMark s
      then (let t = drop (length repeatMark) s; name = takeWhile (\<lambda>c. c \<noteq> 34) t
            in if name \<noteq> [] \<and> dropWhile (\<lambda>c. c \<noteq> 34) t \<noteq> []
               then Some (name, tl (dropWhile (\<lambda>c. c \<noteq> 34) t)) else None)
      else None)"

lemma matchRepeat_shorter: "matchRepeat s = Some (name, r) \<Longrightarrow> length r < length s"
proof -
  assume "matchRepeat s = Some (name, r)"
  then have r: "r = tl (dropWhile (\<lambda>c. c \<noteq> 34) (drop (length repeatMark) s))" and s: "startsWith repeatMark s"
    by (auto simp: matchRepeat_def Let_def split: if_splits)
  have "s \<noteq> []" using s by (auto simp: startsWith_def repeatMark_def)
  have "length r \<le> length (dropWhile (\<lambda>c. c \<noteq> 34) (drop (length repeatMark) s))" using r by simp
  also have "\<dots> \<le> length s - length repeatMark" using length_dropWhile_le by (metis length_drop)
  also have "\<dots> < length s" using \<open>s \<noteq> []\<close> by (simp add: repeatMark_def)
  finally show ?thesis .
qed

function repeats :: "jsstr \<Rightarrow> jsstr list" where
  "repeats [] = []"
| "repeats (c # s) =
     (case matchRepeat (c # s) of Some (name, r) \<Rightarrow> name # repeats r | None \<Rightarrow> repeats s)"
  by pat_completeness auto
termination
  by (relation "measure length") (auto dest: matchRepeat_shorter)

declare repeats.simps(2) [simp del]

definition panelVarNames :: "jsstr \<Rightarrow> jsstr list" where
  "panelVarNames json =
     repeats json @ List.map_filter (\<lambda>m. getVariableName (vm_text m)) (allMatches json)"

definition addPanelVar :: "nat \<Rightarrow> jsstr \<Rightarrow> (jsstr, nat list) obj \<Rightarrow> (jsstr, nat list) obj" where
  "addPanelVar panel name panelsByVar =
     objSet name
       (case objGet panelsByVar name of
          None \<Rightarrow> [panel]
        | Some ps \<Rightarrow> if panel \<in> set ps then ps else ps @ [panel]) panelsByVar"

definition getPanelVars :: "(nat \<times> jsstr) list \<Rightarrow> (jsstr, nat list) obj" where
  "getPanelVars panels = fold (\<lambda>(p, json). fold (addPanelVar p) (panelVarNames json)) panels []"

definition getDependentPanels :: "jsstr list \<Rightarrow> (jsstr, nat list) obj \<Rightarrow> nat list" where
  "getDependentPanels variables panelsByVar =
     newSet (concat (map (\<lambda>v. case objGet panelsByVar v of Some ps \<Rightarrow> ps | None \<Rightarrow> []) variables))"

definition includeVars :: jsstr where
  "includeVars = js ''__all_variables''"

definition getAllAffectedPanelIdsForVariableChange ::
  "jsstr list \<Rightarrow> dag \<Rightarrow> (jsstr, nat list) obj \<Rightarrow> nat list" where
  "getAllAffectedPanelIdsForVariableChange variableIds g panelsByVar =
     (let allDependencies =
            newSet (map (\<lambda>n. dn_name (dg_nodeStore g ! n)) (descendants g (NodeNames variableIds))
                    @ [includeVars] @ variableIds)
      in getDependentPanels allDependencies panelsByVar)"

subsection \<open>What a change sets off\<close>

record changedEvent =
  ce_refreshAll :: bool
  ce_panelIds :: "nat list"

text \<open>
  \<open>variableUpdated\<close> outside of a transaction that is fetching: the event it publishes and the variables
  it updates; \<open>None\<close> if it throws.
\<close>

definition variableUpdated ::
  "jsobj list \<Rightarrow> (nat \<times> jsstr) list \<Rightarrow> jsobj \<Rightarrow> (changedEvent \<times> jsobj list) option" where
  "variableUpdated variables panels m =
     (case createGraph variables of
        None \<Rightarrow> None
      | Some g \<Rightarrow>
          let event =
                (if typeOf m = JStr (js ''adhoc'') then \<lparr>ce_refreshAll = True, ce_panelIds = []\<rparr>
                 else \<lparr>ce_refreshAll = False,
                       ce_panelIds =
                         getAllAffectedPanelIdsForVariableChange [idOf m] g (getPanelVars panels)\<rparr>);
              updated =
                (case getNode g (nameOf m) of
                   None \<Rightarrow> []
                 | Some n \<Rightarrow>
                     List.map_filter
                       (\<lambda>e. find (\<lambda>v. Some (nameOf v) = nodeName g (de_inputNode (dg_edgeStore g ! e))) variables)
                       (getOptimizedInputEdges g n))
          in Some (event, updated))"

subsection \<open>The network of dependencies\<close>

record graphNode =
  gn_id :: jsstr
  gn_label :: jsstr

record graphEdge =
  ge_from :: jsstr
  ge_to :: jsstr

definition createDependencyNodes :: "jsobj list \<Rightarrow> graphNode list" where
  "createDependencyNodes variables = map (\<lambda>m. \<lparr>gn_id = idOf m, gn_label = idOf m\<rparr>) variables"

definition filterNodesWithDependencies :: "graphNode list \<Rightarrow> graphEdge list \<Rightarrow> graphNode list" where
  "filterNodesWithDependencies nodes edges =
     filter (\<lambda>n. list_ex (\<lambda>e. ge_from e = gn_id n \<or> ge_to e = gn_id n) edges) nodes"

text \<open>A type without an adapter throws.\<close>

definition createDependencyEdges :: "jsobj list \<Rightarrow> graphEdge list option" where
  "createDependencyEdges variables =
     (if list_ex (\<lambda>(m, other). typeOf m \<notin> set adapterTypes) (orderedPairs variables) then None
      else Some (map (\<lambda>(m, other). \<lparr>ge_from = idOf m, ge_to = idOf other\<rparr>)
                   (filter (\<lambda>(m, other). dependsOn m other) (orderedPairs variables))))"

subsection \<open>Where a variable is used\<close>

text \<open>The keys and values of an object or an array.\<close>

definition entriesOf :: "jsval \<Rightarrow> (jsstr \<times> jsval) list" where
  "entriesOf v =
     (case v of
        JObj m \<Rightarrow> objectEntries m
      | JArr vs \<Rightarrow> map (\<lambda>(i, v). (natToStr i, v)) (enumerate 0 vs)
      | _ \<Rightarrow> [])"

text \<open>\<open>/^tag_(\w+|\d+)$/\<close> and the other names that are not references in a field of its key.\<close>

definition isValidName :: "jsstr \<Rightarrow> jsstr \<Rightarrow> bool" where
  "isValidName key name =
     (if key = js ''alias''
      then name \<in> {js ''m'', js ''measurement'', js ''col''} \<or>
           (startsWith (js ''tag_'') name \<and> drop 4 name \<noteq> [] \<and> list_all isWordChar (drop 4 name))
      else key = js ''query'' \<and> name = js ''timeFilter'')"

definition usesVariable :: "jsstr \<Rightarrow> jsstr \<Rightarrow> jsstr \<Rightarrow> bool" where
  "usesVariable name key s \<longleftrightarrow>
     s \<noteq> [] \<and> \<not> isValidName key name \<and>
     (containsVariable [JStr s] name \<or> key = js ''repeat'' \<and> s = name)"

definition usageKey :: "bool \<Rightarrow> jsstr \<Rightarrow> jsval \<Rightarrow> jsstr" where
  "usageKey inPanels key v =
     (let name = (if isTruthy (valField v (js ''title'')) then valField v (js ''title'')
                  else if isTruthy (valField v (js ''name'')) then valField v (js ''name'')
                  else if isTruthy (valField v (js ''id'')) then valField v (js ''id'')
                  else JStr key)
      in if inPanels then jsString name @ [91] @ jsString (valField v (js ''id'')) @ [93] else jsString name)"

lemma entriesOf_smaller: "(k, w) \<in> set (entriesOf v) \<Longrightarrow> size w < size v"
proof (cases v)
  case (JArr vs)
  assume "(k, w) \<in> set (entriesOf v)"
  then have "w \<in> set vs" using JArr by (auto simp: entriesOf_def dest!: in_set_enumerate_eq [THEN iffD1])
  then show ?thesis using JArr by (simp add: size_list_estimation' less_Suc_eq_le)
next
  case (JObj m)
  assume "(k, w) \<in> set (entriesOf v)"
  then have "(k, w) \<in> set m" using JObj by (simp add: entriesOf_def)
  then have "size w < Suc (size_list (size_prod (\<lambda>_. 0) size) m)" by (induction m) auto
  then show ?thesis using JObj by simp
qed (auto simp: entriesOf_def)

function getPropsWithVariable :: "jsstr \<Rightarrow> jsstr \<Rightarrow> jsval \<Rightarrow> jsobj" where
  "getPropsWithVariable name parentKey v =
     (let isArray = (case v of JArr _ \<Rightarrow> True | _ \<Rightarrow> False);
          stringValues =
            fold (\<lambda>(k, w) all. case w of JStr s \<Rightarrow> if usesVariable name k s then objSet k w all else all | _ \<Rightarrow> all)
              (entriesOf v) [];
          objectValues =
            fold (\<lambda>(k, w) all.
                    let new = getPropsWithVariable name k w
                    in if new = [] then all
                       else objSet (usageKey (isArray \<and> parentKey = js ''panels'') k w) (JObj new) all)
              (filter (\<lambda>(k, w). entriesOf w \<noteq> []) (entriesOf v)) []
      in objSpread (objSpread [] stringValues) objectValues)"
  by pat_completeness auto
termination
  by (relation "measure (\<lambda>(_, _, v). size v)") (auto dest: entriesOf_smaller)

declare getPropsWithVariable.simps [simp del]

text \<open>The number of places where a variable is used.\<close>

function countLeaves :: "jsval \<Rightarrow> nat" where
  "countLeaves v =
     sum_list (map (\<lambda>(k, w). case w of JObj _ \<Rightarrow> countLeaves w | JArr _ \<Rightarrow> countLeaves w | _ \<Rightarrow> 1) (entriesOf v))"
  by pat_completeness auto
termination
  by (relation "measure size") (auto dest: entriesOf_smaller)

declare countLeaves.simps [simp del]

record variableUsage =
  vu_variable :: jsobj
  vu_tree :: jsobj

definition createUsagesNetwork :: "jsobj list \<Rightarrow> jsval option \<Rightarrow> jsobj list \<times> variableUsage list" where
  "createUsagesNetwork variables dashboard =
     (case dashboard of
        None \<Rightarrow> ([], [])
      | Some model \<Rightarrow>
          let props = (\<lambda>m. getPropsWithVariable (idOf m) (js ''model'') model)
          in (filter (\<lambda>m. props m = [] \<and> typeOf m \<noteq> JStr (js ''adhoc'')) variables,
              map (\<lambda>m. \<lparr>vu_variable = m, vu_tree = props m\<rparr>) (filter (\<lambda>m. props m \<noteq> []) variables)))"

definition getVariableUsages :: "jsstr \<Rightarrow> variableUsage list \<Rightarrow> nat" where
  "getVariableUsages variableId usages =
     (case find (\<lambda>u. idOf (vu_variable u) = variableId) usages of
        None \<Rightarrow> 0
      | Some u \<Rightarrow> countLeaves (JObj (vu_tree u)))"

text \<open>The names of the references that are neither built in nor variables, each once.\<close>

definition isBuiltIn :: "jsstr \<Rightarrow> bool" where
  "isBuiltIn s \<longleftrightarrow>
     strIndexOf (js ''$__'') s \<noteq> None \<or> strIndexOf (js ''${__'') s \<noteq> None \<or> strIndexOf (js ''$hashKey'') s \<noteq> None"

definition getUnknownVariableStrings :: "jsobj list \<Rightarrow> jsstr \<Rightarrow> jsstr list" where
  "getUnknownVariableStrings variables modelAsString =
     newSet (List.map_filter
       (\<lambda>m. if isBuiltIn (vm_text m) then None
            else (case getVariableName (vm_text m) of
                    None \<Rightarrow> None
                  | Some name \<Rightarrow> if list_ex (\<lambda>v. idOf v = name) variables then None else Some name))
       (allMatches modelAsString))"

definition unknownVariable :: "jsstr \<Rightarrow> jsobj" where
  "unknownVariable name = [(js ''id'', JStr name), (js ''name'', JStr name)]"

definition createUnknownsNetwork :: "jsobj list \<Rightarrow> (jsval \<times> jsstr) option \<Rightarrow> variableUsage list" where
  "createUnknownsNetwork variables dashboard =
     (case dashboard of
        None \<Rightarrow> []
      | Some (model, modelAsString) \<Rightarrow>
          let props = (\<lambda>name. getPropsWithVariable name (js ''model'') model)
          in map (\<lambda>name. \<lparr>vu_variable = unknownVariable name, vu_tree = props name\<rparr>)
               (filter (\<lambda>name. props name \<noteq> []) (getUnknownVariableStrings variables modelAsString)))"

text \<open>\<open>traverseTree\<close>: a node for every key and every text of a usage tree, with an edge to its parent.\<close>

definition leafNode :: "jsstr \<Rightarrow> jsstr \<Rightarrow> graphNode list \<times> graphEdge list \<Rightarrow> graphNode list \<times> graphEdge list" where
  "leafNode parent label u =
     (let leafId = parent @ [45] @ label
      in (fst u @ [\<lparr>gn_id = leafId, gn_label = label\<rparr>], snd u @ [\<lparr>ge_from = leafId, ge_to = parent\<rparr>]))"

function traverseTree :: "jsstr \<Rightarrow> jsval \<Rightarrow> graphNode list \<times> graphEdge list \<Rightarrow> graphNode list \<times> graphEdge list" where
  "traverseTree parent v u =
     (case v of
        JStr s \<Rightarrow> if s = [] then u else leafNode parent s u
      | _ \<Rightarrow> fold (\<lambda>(k, w) u. traverseTree (parent @ [45] @ k) w (leafNode parent k u)) (entriesOf v) u)"
  by pat_completeness auto
termination
  by (relation "measure (\<lambda>(_, v, _). size v)") (auto dest: entriesOf_smaller)

declare traverseTree.simps [simp del]

definition transformUsagesToNetwork :: "variableUsage list \<Rightarrow> (jsobj \<times> graphNode list \<times> graphEdge list) list" where
  "transformUsagesToNetwork usages =
     map (\<lambda>u. (vu_variable u,
                traverseTree (js ''dashboard'') (JObj (vu_tree u))
                  ([\<lparr>gn_id = js ''dashboard'', gn_label = js ''dashboard''\<rparr>], []))) usages"

end
