(* ===== verification/VariableGraphProps.thy ===== *)
theory VariableGraphProps
  imports VariableGraph DagProps
begin

text \<open>
  The graph of the variables has the edges of their dependencies; so the panels a change affects are
  those that use the variable or one that depends on it, however indirectly, and the check for
  circular dependencies finds the cycles there are.
\<close>

subsection \<open>The graph of the variables\<close>

abbreviation nodeNames :: "dag \<Rightarrow> jsstr list" where
  "nodeNames g \<equiv> map dn_name (dg_nodeStore g)"

lemma names_onNode: "(\<And>nd. dn_name (h nd) = dn_name nd) \<Longrightarrow> nodeNames (onNode n h g) = nodeNames g"
  by (cases "n < nodeCount g") (simp_all add: onNode_def map_update list_update_same_conv list_update_beyond)

lemma names_linkPair: "nodeNames (snd (linkPair p (es, g))) = nodeNames g"
  by (cases p) (simp add: linkPair_def createEdge_def edgeLink_def linkTo_def unlink_def Let_def names_onNode
      split: option.split)

text \<open>A graph with these names, each the name of one node, whose edges are this relation on names.\<close>

definition graphOf :: "jsstr list \<Rightarrow> (jsstr \<times> jsstr) set \<Rightarrow> dag \<Rightarrow> bool" where
  "graphOf names R g \<longleftrightarrow>
     dagOk g \<and> distinct names \<and> nodeNames g = names \<and>
     (\<forall>name k. getNode g name = Some k \<longleftrightarrow> k < length names \<and> names ! k = name) \<and>
     (\<forall>k < length names. set (inputNodes g k) = {j. j < length names \<and> (names ! j, names ! k) \<in> R})"

lemma graphOf_facts:
  assumes "graphOf names R g"
  shows "dagOk g" "distinct names" "nodeNames g = names"
  using assms unfolding graphOf_def by blast+

lemma graphOf_get:
  assumes "graphOf names R g"
  shows "getNode g name = Some k \<longleftrightarrow> k < length names \<and> names ! k = name"
  using assms unfolding graphOf_def by blast

lemma graphOf_count: "graphOf names R g \<Longrightarrow> nodeCount g = length names"
  using graphOf_facts(3) [of names R g] by (metis length_map)

lemma graphOf_nth:
  assumes "graphOf names R g" and "j < length names"
  shows "dn_name (dg_nodeStore g ! j) = names ! j"
  using graphOf_facts(3) [OF assms(1)] graphOf_count [OF assms(1)] assms(2) by (metis nth_map)

lemma graphOf_empty: "graphOf [] {} emptyDag"
  by (simp add: graphOf_def emptyDag_def dagOk_def getNode_def)

lemma graphOf_createNode:
  assumes "graphOf names {} g" and "name \<notin> set names"
  shows "graphOf (names @ [name]) {} (snd (createNode name g))"
proof -
  note c = graphOf_count [OF assms(1)]
  have inputs: "set (inputNodes (snd (createNode name g)) k) = {}" if "k < Suc (length names)" for k
  proof (cases "k < length names")
    case True
    then have "inputNodes (snd (createNode name g)) k = inputNodes g k"
      using c by (simp add: inputNodes_def createNode_simps cong: if_cong)
    with True assms(1) show ?thesis by (simp add: graphOf_def)
  next
    case False
    with that c have "k = nodeCount g" by simp
    then show ?thesis by (simp add: inputNodes_def createNode_def Let_def List.map_filter_def)
  qed
  have names: "nodeNames (snd (createNode name g)) = names @ [name]"
    using assms(1) by (simp add: createNode_def Let_def graphOf_def)
  have get: "getNode (snd (createNode name g)) name' = Some k \<longleftrightarrow>
      k < Suc (length names) \<and> (names @ [name]) ! k = name'" for name' k
  proof (cases "name' = name")
    case True
    have "names ! k \<noteq> name" if "k < length names" using assms(2) nth_mem [OF that] by auto
    with True c show ?thesis by (auto simp: createNode_simps nth_append less_Suc_eq)
  next
    case False
    with c show ?thesis by (auto simp: createNode_simps graphOf_get [OF assms(1)] nth_append less_Suc_eq)
  qed
  have "dagOk (snd (createNode name g))"
    by (rule createNode_ok [OF graphOf_facts(1) [OF assms(1)]])
  moreover have "distinct (names @ [name])" using graphOf_facts(2) [OF assms(1)] assms(2) by simp
  moreover have "getNode (snd (createNode name g)) name' = Some k \<longleftrightarrow>
      k < length (names @ [name]) \<and> (names @ [name]) ! k = name'" for name' k
    using get by simp
  moreover have "set (inputNodes (snd (createNode name g)) k) =
      {j. j < length (names @ [name]) \<and> ((names @ [name]) ! j, (names @ [name]) ! k) \<in> {}}"
    if "k < length (names @ [name])" for k
    using inputs [of k] that by simp
  ultimately show ?thesis unfolding graphOf_def using names by blast
qed

lemma graphOf_createNodes:
  "graphOf names {} g \<Longrightarrow> distinct (names @ ns) \<Longrightarrow> graphOf (names @ ns) {} (snd (createNodes ns g))"
proof (induction ns arbitrary: names g)
  case (Cons name ns)
  obtain n g1 where c: "createNode name g = (n, g1)" by (cases "createNode name g")
  have "graphOf (names @ [name]) {} g1"
    using graphOf_createNode [of names g name] Cons.prems c by simp
  from Cons.IH [OF this] Cons.prems show ?case by (cases "createNodes ns g1") (simp add: c)
qed simp

lemma graphOf_link:
  assumes "graphOf names R g" and "a \<in> set names" and "b \<in> set names"
  shows "\<exists>es g'. dagLink [NodeNamed a] [NodeNamed b] g = Some (es, g') \<and> graphOf names (insert (a, b) R) g'"
proof -
  obtain i k where ik: "i < length names" "names ! i = a" "k < length names" "names ! k = b"
    using assms(2,3) by (auto simp: in_set_conv_nth)
  note c = graphOf_count [OF assms(1)]
  have get: "getNode g a = Some i" "getNode g b = Some k" using assms(1) ik by (auto simp: graphOf_def)
  have ok: "dagOk g" "i < nodeCount g" "k < nodeCount g" using assms(1) ik c by (simp_all add: graphOf_def)
  note l = linkPair_ok [OF ok, where es = "[]"]
  have g': "dagLink [NodeNamed a] [NodeNamed b] g = Some (linkPair (i, k) ([], g))"
    by (simp add: dagLink_def get)
  have "set (inputNodes (snd (linkPair (i, k) ([], g))) n) =
      {j. j < length names \<and> (names ! j, names ! n) \<in> insert (a, b) R}" if "n < length names" for n
  proof -
    have d: "names ! j = names ! j' \<longleftrightarrow> j = j'" if "j < length names" "j' < length names" for j j'
      using assms(1) that by (simp add: graphOf_def nth_eq_iff_index_eq)
    have "set (inputNodes g n) = {j. j < length names \<and> (names ! j, names ! n) \<in> R}"
      using assms(1) that by (simp add: graphOf_def)
    moreover have "(names ! j, names ! n) = (a, b) \<longleftrightarrow> j = i \<and> n = k" if "j < length names" for j
      using d [OF that ik(1)] d [OF \<open>n < length names\<close> ik(3)] ik by simp
    ultimately show ?thesis using l(4) [of n] that ik(1) c by auto
  qed
  moreover have "nodeNames (snd (linkPair (i, k) ([], g))) = names"
    using names_linkPair [of "(i, k)" "[]" g] assms(1) by (simp add: graphOf_def)
  ultimately have "graphOf names (insert (a, b) R) (snd (linkPair (i, k) ([], g)))"
    using assms(1) l(1,3) unfolding graphOf_def by simp
  then show ?thesis unfolding g' by (cases "linkPair (i, k) ([], g)") simp
qed

text \<open>The dependencies of variables, by name.\<close>

definition dependencies :: "jsobj list \<Rightarrow> (jsstr \<times> jsstr) set" where
  "dependencies variables = {(nameOf m, nameOf other) | m other. (m, other) \<in> set (orderedPairs variables) \<and> dependsOn m other}"

lemma linkDependency_simps:
  "linkDependency (m, other) None = None"
  "linkDependency (m, other) (Some g) =
     (if typeOf m \<notin> set adapterTypes then None
      else if dependsOn m other then map_option snd (dagLink [NodeNamed (nameOf m)] [NodeNamed (nameOf other)] g)
      else Some g)"
  by (simp_all add: linkDependency_def)

lemma graphOf_fold:
  assumes "fold linkDependency ps (Some g) = Some g'" and "graphOf names R g"
    and "\<forall>(m, other) \<in> set ps. nameOf m \<in> set names \<and> nameOf other \<in> set names"
  shows "graphOf names (R \<union> {(nameOf m, nameOf other) | m other. (m, other) \<in> set ps \<and> dependsOn m other}) g'"
  using assms
proof (induction ps arbitrary: g R)
  case (Cons p ps)
  have none: "fold linkDependency qs None = None" for qs
    by (induction qs) (auto simp: linkDependency_simps)
  obtain m other where p: "p = (m, other)" by (cases p)
  have names: "nameOf m \<in> set names" "nameOf other \<in> set names" using Cons.prems(3) by (auto simp: p)
  have t: "typeOf m \<in> set adapterTypes"
    using Cons.prems(1) none by (simp add: p linkDependency_simps split: if_splits)
  show ?case
  proof (cases "dependsOn m other")
    case True
    obtain es g1 where g1: "dagLink [NodeNamed (nameOf m)] [NodeNamed (nameOf other)] g = Some (es, g1)"
      "graphOf names (insert (nameOf m, nameOf other) R) g1"
      using graphOf_link [OF Cons.prems(2) names] by blast
    have "fold linkDependency ps (Some g1) = Some g'"
      using Cons.prems(1) t True g1(1) by (simp add: p linkDependency_simps)
    from Cons.IH [OF this g1(2)] Cons.prems(3) have
      "graphOf names (insert (nameOf m, nameOf other) R \<union>
         {(nameOf m, nameOf other) | m other. (m, other) \<in> set ps \<and> dependsOn m other}) g'"
      by simp
    also have "insert (nameOf m, nameOf other) R \<union>
         {(nameOf m, nameOf other) | m other. (m, other) \<in> set ps \<and> dependsOn m other} =
       R \<union> {(nameOf m, nameOf other) | m other. (m, other) \<in> set (p # ps) \<and> dependsOn m other}"
      using True by (auto simp: p)
    finally show ?thesis .
  next
    case False
    have "fold linkDependency ps (Some g) = Some g'"
      using Cons.prems(1) t False by (simp add: p linkDependency_simps)
    from Cons.IH [OF this Cons.prems(2)] Cons.prems(3) have
      "graphOf names (R \<union> {(nameOf m, nameOf other) | m other. (m, other) \<in> set ps \<and> dependsOn m other}) g'"
      by simp
    also have "{(nameOf m, nameOf other) | m other. (m, other) \<in> set ps \<and> dependsOn m other} =
        {(nameOf m, nameOf other) | m other. (m, other) \<in> set (p # ps) \<and> dependsOn m other}"
      using False by (auto simp: p)
    finally show ?thesis .
  qed
qed simp

lemma set_orderedPairs: "(x, y) \<in> set (orderedPairs xs) \<Longrightarrow> x \<in> set xs \<and> y \<in> set xs"
  by (auto simp: orderedPairs_def in_set_enumerate_eq)

lemma createGraph_dependencies:
  assumes "createGraph variables = Some g" and "distinct (map nameOf variables)"
  shows "graphOf (map nameOf variables) (dependencies variables) g"
proof -
  have "graphOf (map nameOf variables) {} (snd (createNodes (map nameOf variables) emptyDag))"
    using graphOf_createNodes [OF graphOf_empty, of "map nameOf variables"] assms(2) by simp
  from graphOf_fold [OF assms(1) [unfolded createGraph_def] this] show ?thesis
    by (force simp: dependencies_def dest: set_orderedPairs)
qed

subsection \<open>Affected panels\<close>

lemma graphOf_inputOf:
  assumes "graphOf names R g" and "k < length names"
  shows "inputOf g k j \<longleftrightarrow> j < length names \<and> (names ! j, names ! k) \<in> R"
  using assms by (simp add: inputOf_iff graphOf_def)

lemma graphOf_reachable:
  assumes "graphOf names R g" and "R \<subseteq> set names \<times> set names" and "k < length names"
  shows "(\<exists>j. (inputOf g)\<^sup>+\<^sup>+ k j \<and> dn_name (dg_nodeStore g ! j) = a) \<longleftrightarrow> (a, names ! k) \<in> R\<^sup>+"
proof
  note nm = graphOf_nth [OF assms(1)]
  assume "\<exists>j. (inputOf g)\<^sup>+\<^sup>+ k j \<and> dn_name (dg_nodeStore g ! j) = a"
  then obtain j where j: "(inputOf g)\<^sup>+\<^sup>+ k j" "dn_name (dg_nodeStore g ! j) = a" by blast
  from j(1) have "j < length names \<and> (names ! j, names ! k) \<in> R\<^sup>+"
  proof (induction rule: tranclp_induct)
    case (base j)
    with graphOf_inputOf [OF assms(1,3)] show ?case by auto
  next
    case (step j l)
    with graphOf_inputOf [OF assms(1), of j l] show ?case by (meson trancl_into_trancl2)
  qed
  with nm j(2) show "(a, names ! k) \<in> R\<^sup>+" by auto
next
  note nm = graphOf_nth [OF assms(1)]
  have input: "inputOf g j l" if "l < length names" "j < length names" "(names ! l, names ! j) \<in> R" for j l
    using graphOf_inputOf [OF assms(1) that(2)] that by simp
  assume "(a, names ! k) \<in> R\<^sup>+"
  then have "\<exists>j < length names. (inputOf g)\<^sup>+\<^sup>+ k j \<and> names ! j = a"
  proof (induction rule: converse_trancl_induct)
    case (base a)
    then have "a \<in> set names" using assms(2) by blast
    then obtain j where "j < length names" "names ! j = a" by (auto simp: in_set_conv_nth)
    with base input [of j k] assms(3) show ?case by blast
  next
    case (step a b)
    then obtain l where l: "l < length names" "(inputOf g)\<^sup>+\<^sup>+ k l" "names ! l = b" by blast
    have "a \<in> set names" using step(1) assms(2) by blast
    then obtain j where j: "j < length names" "names ! j = a" by (auto simp: in_set_conv_nth)
    have "inputOf g l j" using input [of j l] l j step(1) by simp
    with l(2) have "(inputOf g)\<^sup>+\<^sup>+ k j" by (rule tranclp.trancl_into_trancl)
    with j show ?case by blast
  qed
  with nm show "\<exists>j. (inputOf g)\<^sup>+\<^sup>+ k j \<and> dn_name (dg_nodeStore g ! j) = a" by metis
qed

lemma dependencies_names: "dependencies variables \<subseteq> set (map nameOf variables) \<times> set (map nameOf variables)"
  by (force simp: dependencies_def dest: set_orderedPairs)

text \<open>The variables that depend on a variable.\<close>

lemma names_descendants:
  assumes "createGraph variables = Some g" and "distinct (map nameOf variables)"
  shows "(\<lambda>n. dn_name (dg_nodeStore g ! n)) ` set (descendants g (NodeNames ids)) =
    {a. \<exists>i \<in> set ids. (a, i) \<in> (dependencies variables)\<^sup>+}"
proof -
  let ?names = "map nameOf variables"
  have g: "graphOf ?names (dependencies variables) g" by (rule createGraph_dependencies [OF assms])
  have start: "startNodes g (NodeNames ids) = {k. k < length ?names \<and> ?names ! k \<in> set ids}"
    using g by (auto simp: startNodes_def graphOf_def)
  have "(\<lambda>n. dn_name (dg_nodeStore g ! n)) ` set (descendants g (NodeNames ids)) =
      {a. \<exists>k. k < length ?names \<and> ?names ! k \<in> set ids \<and>
            (\<exists>j. (inputOf g)\<^sup>+\<^sup>+ k j \<and> dn_name (dg_nodeStore g ! j) = a)}"
    unfolding descendants_set start by blast
  also have "\<dots> = {a. \<exists>k. k < length ?names \<and> ?names ! k \<in> set ids \<and> (a, ?names ! k) \<in> (dependencies variables)\<^sup>+}"
    using graphOf_reachable [OF g dependencies_names] by blast
  also have "\<dots> = {a. \<exists>i \<in> set ids. (a, i) \<in> (dependencies variables)\<^sup>+}"
  proof (intro Collect_cong iffI)
    fix a
    assume "\<exists>i \<in> set ids. (a, i) \<in> (dependencies variables)\<^sup>+"
    then obtain i where i: "i \<in> set ids" "(a, i) \<in> (dependencies variables)\<^sup>+" by blast
    from trancl_subset_Sigma [OF dependencies_names] i(2) have "i \<in> set ?names" by blast
    then obtain k where "k < length ?names" "?names ! k = i" by (auto simp: in_set_conv_nth)
    with i show "\<exists>k. k < length ?names \<and> ?names ! k \<in> set ids \<and> (a, ?names ! k) \<in> (dependencies variables)\<^sup>+"
      by blast
  qed blast
  finally show ?thesis .
qed

lemma set_newSet [simp]: "set (newSet xs) = set xs"
proof -
  have "set (fold (\<lambda>x acc. if x \<in> set acc then acc else acc @ [x]) xs acc) = set acc \<union> set xs" for acc
    by (induction xs arbitrary: acc) auto
  then show ?thesis by (simp add: newSet_def)
qed

lemma distinct_newSet: "distinct (newSet xs)"
proof -
  have "distinct acc \<Longrightarrow> distinct (fold (\<lambda>x acc. if x \<in> set acc then acc else acc @ [x]) xs acc)" for acc
    by (induction xs arbitrary: acc) auto
  then show ?thesis by (simp add: newSet_def)
qed

text \<open>The panels of a variable are those whose text names it.\<close>

definition panelsOf :: "(jsstr, nat list) obj \<Rightarrow> jsstr \<Rightarrow> nat set" where
  "panelsOf panelsByVar name = (case objGet panelsByVar name of Some ps \<Rightarrow> set ps | None \<Rightarrow> {})"

lemma panelsOf_addPanelVar:
  "panelsOf (addPanelVar p name m) name' = panelsOf m name' \<union> (if name' = name then {p} else {})"
  by (auto simp: panelsOf_def addPanelVar_def obj.get_set split: option.splits)

lemma panelsOf_addPanelVars:
  "panelsOf (fold (addPanelVar p) names m) name = panelsOf m name \<union> (if name \<in> set names then {p} else {})"
  by (induction names arbitrary: m) (auto simp: panelsOf_addPanelVar)

lemma panelsOf_getPanelVars:
  "panelsOf (getPanelVars panels) name = {p. \<exists>json. (p, json) \<in> set panels \<and> name \<in> set (panelVarNames json)}"
proof -
  have "panelsOf (fold (\<lambda>(p, json). fold (addPanelVar p) (panelVarNames json)) panels m) name =
      panelsOf m name \<union> {p. \<exists>json. (p, json) \<in> set panels \<and> name \<in> set (panelVarNames json)}" for m
    by (induction panels arbitrary: m) (auto simp: panelsOf_addPanelVars split: if_splits)
  from this [of "[]"] show ?thesis by (simp add: getPanelVars_def panelsOf_def)
qed

lemma set_getDependentPanels: "set (getDependentPanels vs panelsByVar) = (\<Union>v \<in> set vs. panelsOf panelsByVar v)"
proof -
  have "set (case objGet panelsByVar v of Some ps \<Rightarrow> ps | None \<Rightarrow> []) = panelsOf panelsByVar v" for v
    by (simp add: panelsOf_def split: option.split)
  then show ?thesis by (simp add: getDependentPanels_def)
qed

text \<open>
  Claim C9. Changing a variable refreshes exactly the panels whose text names the variable, one that
  depends on it directly or through others, or all variables; each of them once.  An ad hoc variable
  refreshes everything.
\<close>

theorem variableUpdated_affects:
  assumes "variableUpdated variables panels m = Some (event, updated)"
    and "distinct (map nameOf variables)"
  shows "ce_refreshAll event = (typeOf m = JStr (js ''adhoc'')) \<and> distinct (ce_panelIds event) \<and>
    (\<not> ce_refreshAll event \<longrightarrow>
       set (ce_panelIds event) =
         {p. \<exists>json name. (p, json) \<in> set panels \<and> name \<in> set (panelVarNames json) \<and>
               (name = idOf m \<or> name = includeVars \<or> (name, idOf m) \<in> (dependencies variables)\<^sup>+)})"
proof -
  obtain g where g: "createGraph variables = Some g"
    and e: "event = (if typeOf m = JStr (js ''adhoc'') then \<lparr>ce_refreshAll = True, ce_panelIds = []\<rparr>
      else \<lparr>ce_refreshAll = False,
            ce_panelIds = getAllAffectedPanelIdsForVariableChange [idOf m] g (getPanelVars panels)\<rparr>)"
    using assms(1) by (auto simp: variableUpdated_def Let_def split: option.splits)
  have "set (getAllAffectedPanelIdsForVariableChange [idOf m] g (getPanelVars panels)) =
      {p. \<exists>json name. (p, json) \<in> set panels \<and> name \<in> set (panelVarNames json) \<and>
            (name = idOf m \<or> name = includeVars \<or> (name, idOf m) \<in> (dependencies variables)\<^sup>+)}"
    using names_descendants [OF g assms(2), of "[idOf m]"]
    by (auto simp: getAllAffectedPanelIdsForVariableChange_def Let_def set_getDependentPanels panelsOf_getPanelVars)
  moreover have "distinct (getAllAffectedPanelIdsForVariableChange [idOf m] g (getPanelVars panels))"
    by (simp add: getAllAffectedPanelIdsForVariableChange_def getDependentPanels_def Let_def distinct_newSet)
  ultimately show ?thesis by (simp add: e)
qed

subsection \<open>Updates spread to every dependent variable\<close>

text \<open>A step that a shorter way makes superfluous.\<close>

lemma shortcut_trancl:
  assumes "finite R" and "acyclic R"
    and "\<And>a b. (a, b) \<in> R \<Longrightarrow> (a, b) \<in> S \<or> (\<exists>c. (a, c) \<in> R \<and> (c, b) \<in> R)"
  shows "R \<subseteq> S\<^sup>+"
proof -
  let ?between = "\<lambda>a b. {c. (a, c) \<in> R\<^sup>+ \<and> (c, b) \<in> R\<^sup>+}"
  have fin: "finite (?between a b)" for a b
  proof (rule finite_subset)
    show "?between a b \<subseteq> Range R" using trancl_range [of R] by blast
  qed (rule finite_Range [OF assms(1)])
  have irr: "(c, c) \<notin> R\<^sup>+" for c using assms(2) by (simp add: acyclic_def)
  have "(a, b) \<in> S\<^sup>+" if "(a, b) \<in> R" for a b
    using that
  proof (induction "card (?between a b)" arbitrary: a b rule: less_induct)
    case less
    show ?case
    proof (cases "(a, b) \<in> S")
      case False
      with assms(3) [OF less.prems] obtain c where c: "(a, c) \<in> R" "(c, b) \<in> R" by blast
      have "?between a c \<subset> ?between a b" "?between c b \<subset> ?between a b"
        using c irr by (auto intro: trancl_trans)
      from this [THEN psubset_card_mono [OF fin]] less.hyps c have "(a, c) \<in> S\<^sup>+" "(c, b) \<in> S\<^sup>+" by blast+
      then show ?thesis by (rule trancl_trans)
    qed auto
  qed
  then show ?thesis by auto
qed

lemma optimized_or_shortcut:
  assumes "dagOk g" and "n < nodeCount g" and "j \<in> set (inputNodes g n)"
  shows "(\<exists>e \<in> set (getOptimizedInputEdges g n). de_inputNode (dg_edgeStore g ! e) = Some j) \<or>
    (\<exists>w \<in> set (inputNodes g n). j \<in> set (inputNodes g w))"
proof -
  obtain e where e: "e \<in> set (inE g n)" "de_inputNode (dg_edgeStore g ! e) = Some j"
    using assms(3) set_inputNodes [OF assms(1,2)] by blast
  show ?thesis
  proof (cases "e \<in> set (getOptimizedInputEdges g n)")
    case False
    with e(1) obtain w x where w: "w \<in> set (inputNodes g n)" "x \<in> set (inputNodes g w)"
      and x: "getEdgeTo g x (dn_name (dg_nodeStore g ! n)) = Some e"
      by (auto simp: getOptimizedInputEdges_def Let_def List.map_filter_def)
    have edge: "i < nodeCount g" if k: "k < nodeCount g" and i: "i \<in> set (inputNodes g k)" for k i
    proof -
      obtain e' where e': "e' \<in> set (inE g k)" "de_inputNode (dg_edgeStore g ! e') = Some i"
        using i set_inputNodes [OF assms(1) k] by blast
      have "nodeOk g k" using assms(1) k by (simp add: dagOk_def)
      with e'(1) have "e' < edgeCount g" "de_outputNode (dg_edgeStore g ! e') = Some k" by (auto simp: nodeOk_def)
      moreover from this(1) have "edgeOk g e'" using assms(1) by (simp add: dagOk_def)
      ultimately show ?thesis using e'(2) by (simp add: edgeOk_def)
    qed
    have "x < nodeCount g" using edge [OF edge [OF assms(2) w(1)] w(2)] .
    then have "nodeOk g x" using assms(1) by (simp add: dagOk_def)
    moreover have "e \<in> set (outE g x)" using x by (auto simp: getEdgeTo_def find_Some_iff split: if_splits)
    ultimately have "de_inputNode (dg_edgeStore g ! e) = Some x" by (auto simp: nodeOk_def)
    with e(2) w show ?thesis by auto
  qed (use e in blast)
qed

lemma optimized_input:
  assumes "dagOk g" and "n < nodeCount g" and "e \<in> set (getOptimizedInputEdges g n)"
    and "de_inputNode (dg_edgeStore g ! e) = Some j"
  shows "j \<in> set (inputNodes g n)"
proof -
  have "e \<in> set (inE g n)" using assms(3) by (simp add: getOptimizedInputEdges_def Let_def)
  with assms(4) show ?thesis unfolding set_inputNodes [OF assms(1,2)] by blast
qed

text \<open>What a change of one variable updates directly, by name.\<close>

definition triggers :: "jsobj list \<Rightarrow> (nat \<times> jsstr) list \<Rightarrow> (jsstr \<times> jsstr) set" where
  "triggers variables panels =
     {(nameOf v, nameOf m) | v m. m \<in> set variables \<and>
        (\<exists>event updated. variableUpdated variables panels m = Some (event, updated) \<and> v \<in> set updated)}"

lemma updated_names:
  assumes "createGraph variables = Some g" and "distinct (map nameOf variables)" and "k < length variables"
    and "variableUpdated variables panels (variables ! k) = Some (event, updated)"
  shows "nameOf ` set updated =
    {map nameOf variables ! j | j e. j < length variables \<and> e \<in> set (getOptimizedInputEdges g k) \<and>
       de_inputNode (dg_edgeStore g ! e) = Some j}"
proof -
  let ?names = "map nameOf variables"
  have g: "graphOf ?names (dependencies variables) g" by (rule createGraph_dependencies [OF assms(1,2)])
  have ok: "dagOk g" "k < nodeCount g" using graphOf_facts(1) [OF g] graphOf_count [OF g] assms(3) by simp_all
  have node: "getNode g (nameOf (variables ! k)) = Some k" using graphOf_get [OF g] assms(3) by simp
  let ?h = "\<lambda>e. find (\<lambda>v. Some (nameOf v) = nodeName g (de_inputNode (dg_edgeStore g ! e))) variables"
  have u: "updated = List.map_filter ?h (getOptimizedInputEdges g k)"
    using assms(4) by (simp add: variableUpdated_def assms(1) node Let_def)
  have found: "(\<exists>v. ?h e = Some v \<and> nameOf v = a) \<longleftrightarrow>
      (\<exists>j < length variables. de_inputNode (dg_edgeStore g ! e) = Some j \<and> a = ?names ! j)"
    if e: "e \<in> set (getOptimizedInputEdges g k)" for e a
  proof -
    have "e \<in> set (inE g k)" using e by (simp add: getOptimizedInputEdges_def Let_def)
    then have "de_outputNode (dg_edgeStore g ! e) = Some k" "edgeOk g e"
      using ok by (auto simp: dagOk_def nodeOk_def)
    then obtain j where j: "de_inputNode (dg_edgeStore g ! e) = Some j" "j < length variables"
      using graphOf_count [OF g] by (auto simp: edgeOk_def split: option.splits)
    then have name: "nodeName g (de_inputNode (dg_edgeStore g ! e)) = Some (?names ! j)"
      using graphOf_nth [OF g] by (simp add: nodeName_def)
    have "?h e \<noteq> None"
      unfolding name find_None_iff using j(2) by (auto simp: in_set_conv_nth)
    then obtain v where "?h e = Some v" by blast
    moreover from this have "nameOf v = ?names ! j" unfolding name by (auto simp: find_Some_iff)
    ultimately show ?thesis using j by auto
  qed
  have "nameOf ` set updated = {a. \<exists>e \<in> set (getOptimizedInputEdges g k). \<exists>v. ?h e = Some v \<and> nameOf v = a}"
    unfolding u by (force simp: List.map_filter_def)
  also have "\<dots> = {a. \<exists>e \<in> set (getOptimizedInputEdges g k).
      \<exists>j < length variables. de_inputNode (dg_edgeStore g ! e) = Some j \<and> a = ?names ! j}"
    using found by blast
  finally show ?thesis by blast
qed

lemma updated_variables:
  "variableUpdated variables panels m = Some (event, updated) \<Longrightarrow> set updated \<subseteq> set variables"
  by (auto simp: variableUpdated_def Let_def set_map_filter find_Some_iff split: option.splits)

lemma variableUpdated_returns: "createGraph variables = Some g \<Longrightarrow> variableUpdated variables panels m \<noteq> None"
  by (simp add: variableUpdated_def Let_def)

text \<open>
  Claim C10. The updates spread to every dependent variable: although a change updates only the
  variables that are not reached through another one, following the updates reaches exactly the
  variables that depend on the one changed, as long as no variable depends on itself through others.
\<close>

theorem updates_cascade:
  assumes "createGraph variables \<noteq> None" and "distinct (map nameOf variables)"
    and "acyclic (dependencies variables)"
  shows "(triggers variables panels)\<^sup>+ = (dependencies variables)\<^sup>+"
proof -
  let ?names = "map nameOf variables" and ?R = "dependencies variables" and ?S = "triggers variables panels"
  obtain g where g: "createGraph variables = Some g" using assms(1) by blast
  have og: "graphOf ?names ?R g" by (rule createGraph_dependencies [OF g assms(2)])
  have inputs: "j \<in> set (inputNodes g k) \<longleftrightarrow> j < length variables \<and> (?names ! j, ?names ! k) \<in> ?R"
    if "k < length variables" for j k
    using og that unfolding graphOf_def by simp
  have count: "nodeCount g = length variables" using graphOf_count [OF og] by simp
  have trigger: "(?names ! j, ?names ! k) \<in> ?S \<longleftrightarrow>
      (\<exists>e \<in> set (getOptimizedInputEdges g k). de_inputNode (dg_edgeStore g ! e) = Some j)"
    if jk: "j < length variables" "k < length variables" for j k
  proof -
    obtain event updated where u: "variableUpdated variables panels (variables ! k) = Some (event, updated)"
      using variableUpdated_returns [OF g, of panels "variables ! k"] by auto
    have same: "m = variables ! k" if "m \<in> set variables" "nameOf m = ?names ! k" for m
      using assms(2) that jk(2) by (simp add: distinct_map inj_on_def)
    have inj: "?names ! i = ?names ! j \<longleftrightarrow> i = j" if "i < length variables" for i
      using assms(2) that jk(1) by (metis length_map nth_eq_iff_index_eq)
    have "(?names ! j, ?names ! k) \<in> ?S \<longleftrightarrow> ?names ! j \<in> nameOf ` set updated"
      using u same jk by (auto simp: triggers_def) (metis nth_mem)
    then show ?thesis
      unfolding updated_names [OF g assms(2) jk(2) u] using inj jk(1) by auto
  qed
  have names: "a \<in> set ?names" "b \<in> set ?names" if "(a, b) \<in> ?R \<or> (a, b) \<in> ?S" for a b
  proof -
    have "?S \<subseteq> set ?names \<times> set ?names"
      using updated_variables by (fastforce simp: triggers_def)
    with that dependencies_names show "a \<in> set ?names" "b \<in> set ?names" by blast+
  qed
  show ?thesis
  proof (rule equalityI)
    have "?S \<subseteq> ?R"
    proof
      fix p
      assume p: "p \<in> ?S"
      obtain a b where ab: "p = (a, b)" by (cases p)
      with p names [of a b] obtain j k where jk: "j < length variables" "?names ! j = a" "k < length variables" "?names ! k = b"
        by (auto simp: in_set_conv_nth)
      with p ab trigger [of j k] obtain e where "e \<in> set (getOptimizedInputEdges g k)" "de_inputNode (dg_edgeStore g ! e) = Some j"
        by auto
      from optimized_input [OF graphOf_facts(1) [OF og] _ this] jk count have "j \<in> set (inputNodes g k)" by simp
      with inputs [OF jk(3)] jk ab show "p \<in> ?R" by simp
    qed
    then show "?S\<^sup>+ \<subseteq> ?R\<^sup>+" by (auto intro: trancl_mono)
    have "?R \<subseteq> ?S\<^sup>+"
    proof (rule shortcut_trancl [OF _ assms(3)])
      show "finite ?R" by (rule finite_subset [OF dependencies_names]) simp
      fix a b
      assume ab: "(a, b) \<in> ?R"
      with names [of a b] obtain j k where jk: "j < length variables" "?names ! j = a" "k < length variables" "?names ! k = b"
        by (auto simp: in_set_conv_nth)
      with ab inputs have "j \<in> set (inputNodes g k)" by simp
      from optimized_or_shortcut [OF graphOf_facts(1) [OF og] _ this] jk count
      consider "(\<exists>e \<in> set (getOptimizedInputEdges g k). de_inputNode (dg_edgeStore g ! e) = Some j)"
        | w where "w \<in> set (inputNodes g k)" "j \<in> set (inputNodes g w)" by auto
      then show "(a, b) \<in> ?S \<or> (\<exists>c. (a, c) \<in> ?R \<and> (c, b) \<in> ?R)"
      proof cases
        case 1
        with trigger [of j k] jk show ?thesis by simp
      next
        case 2
        with inputs [of k w] inputs [of w j] jk show ?thesis by auto
      qed
    qed
    then have "p \<in> (?S\<^sup>+)\<^sup>+" if "p \<in> ?R\<^sup>+" for p using trancl_mono [OF that] by blast
    then show "?R\<^sup>+ \<subseteq> ?S\<^sup>+" by (auto simp: trancl_id [OF trans_trancl])
  qed
qed

subsection \<open>Circular dependencies\<close>

definition direct :: "jsobj list \<Rightarrow> (jsobj \<times> jsobj) set" where
  "direct variables = {(m, d). d \<in> set (getDirectDependencies variables m)}"

lemma direct_variables: "(m, d) \<in> direct variables \<Longrightarrow> d \<in> set variables"
  by (auto simp: direct_def getDirectDependencies_def)

lemma direct_rtrancl_variables: "(m, d) \<in> (direct variables)\<^sup>* \<Longrightarrow> m \<in> set variables \<Longrightarrow> d \<in> set variables"
  by (induction rule: rtrancl_induct) (auto dest: direct_variables)

text \<open>Along the way the search looks for the variables it has met as well as for cycles.\<close>

lemma circular_encountered:
  assumes "distinct (map idOf variables)" and "m \<in> set variables"
  shows "isDependencyGraphCircular variables m encountered \<longleftrightarrow>
    (\<exists>d. (m, d) \<in> (direct variables)\<^sup>* \<and> (idOf d \<in> set encountered \<or> (d, d) \<in> (direct variables)\<^sup>+))"
  using assms
proof (induction variables m encountered rule: isDependencyGraphCircular.induct)
  case (1 variables m encountered)
  let ?R = "direct variables"
  show ?case
  proof (cases "idOf m \<in> set encountered")
    case True
    then show ?thesis by (subst isDependencyGraphCircular.simps) auto
  next
    case False
    have ids: "d = m" if "d \<in> set variables" "idOf d = idOf m" for d
      using "1.prems" that by (simp add: distinct_map inj_on_def)
    have "isDependencyGraphCircular variables m encountered \<longleftrightarrow>
        (\<exists>x. (m, x) \<in> ?R \<and> isDependencyGraphCircular variables x (encountered @ [idOf m]))"
      using False by (subst isDependencyGraphCircular.simps) (auto simp: list_ex_iff direct_def)
    also have "\<dots> \<longleftrightarrow> (\<exists>x d. (m, x) \<in> ?R \<and> (x, d) \<in> ?R\<^sup>* \<and>
        (idOf d \<in> set encountered \<or> idOf d = idOf m \<or> (d, d) \<in> ?R\<^sup>+))"
    proof -
      have "isDependencyGraphCircular variables x (encountered @ [idOf m]) \<longleftrightarrow>
          (\<exists>d. (x, d) \<in> ?R\<^sup>* \<and> (idOf d \<in> set encountered \<or> idOf d = idOf m \<or> (d, d) \<in> ?R\<^sup>+))"
        if "(m, x) \<in> ?R" for x
        using "1.IH" [OF False _ "1.prems"(1) direct_variables [OF that]] that by (auto simp: direct_def)
      then show ?thesis by blast
    qed
    also have "\<dots> \<longleftrightarrow> (\<exists>x d. (m, x) \<in> ?R \<and> (x, d) \<in> ?R\<^sup>* \<and>
        (idOf d \<in> set encountered \<or> d = m \<or> (d, d) \<in> ?R\<^sup>+))"
      using ids direct_rtrancl_variables direct_variables by blast
    also have "\<dots> \<longleftrightarrow> (\<exists>d. (m, d) \<in> ?R\<^sup>+ \<and> (idOf d \<in> set encountered \<or> d = m \<or> (d, d) \<in> ?R\<^sup>+))"
      by (metis rtrancl_into_trancl2 tranclD)
    also have "\<dots> \<longleftrightarrow> (\<exists>d. (m, d) \<in> ?R\<^sup>* \<and> (idOf d \<in> set encountered \<or> (d, d) \<in> ?R\<^sup>+))"
      using False by (metis rtrancl_eq_or_trancl)
    finally show ?thesis .
  qed
qed

text \<open>
  Claim C20. The check before a variable is loaded finds a circular dependency exactly if the variable
  depends, directly or through others, on one that depends on itself through others; it always ends.
\<close>

theorem circular_dependency_found:
  assumes "distinct (map idOf variables)" and "m \<in> set variables" and "isTruthy (field m (js ''rootStateKey''))"
  shows "processVariableDependencies variables m = Circular \<longleftrightarrow>
    (\<exists>d. (m, d) \<in> (direct variables)\<^sup>* \<and> (d, d) \<in> (direct variables)\<^sup>+)"
  using circular_encountered [OF assms(1,2), of "[]"] assms(3) by (auto simp: processVariableDependencies_def)

subsection \<open>Examples\<close>

text \<open>Variables of type \<open>query\<close> with a query.\<close>

definition queryVariable :: "string \<Rightarrow> string \<Rightarrow> jsobj" where
  "queryVariable name query =
     [(js ''id'', JStr (js name)), (js ''name'', JStr (js name)), (js ''type'', JStr (js ''query'')),
      (js ''rootStateKey'', JStr (js ''key'')), (js ''query'', JStr (js query)), (js ''regex'', JStr [])]"

lemma queryVariable_fields:
  "idOf (queryVariable name query) = js name" "nameOf (queryVariable name query) = js name"
  "typeOf (queryVariable name query) = JStr (js ''query'')"
  "field (queryVariable name query) (js ''query'') = JStr (js query)"
  "field (queryVariable name query) (js ''regex'') = JStr []"
  "field (queryVariable name query) (js ''datasource'') = JUndef"
  "field (queryVariable name query) (js ''rootStateKey'') = JStr (js ''key'')"
  by (simp_all add: queryVariable_def idOf_def nameOf_def typeOf_def field_def objGet_def js_def)

lemma dependsOn_queryVariable:
  "dependsOn (queryVariable name query) other \<longleftrightarrow>
     containsVariable [JStr (js query), JUndef, JStr []] (nameOf other)"
  by (simp add: dependsOn_def queryVariable_fields valField_def)

lemma references:
  "containsVariable [JStr (js ''f($a)''), JUndef, JStr []] (js ''a'')"
  "\<not> containsVariable [JStr (js ''f($a)''), JUndef, JStr []] (js ''b'')"
  by code_simp+

definition chain :: "jsobj list" where
  "chain = [queryVariable ''a'' ''x'', queryVariable ''b'' ''f($a)'', queryVariable ''c'' ''g(${b:csv})'']"

definition chainPanels :: "(nat \<times> jsstr) list" where
  "chainPanels = [(1, js ''x $c''), (2, js ''$d'')]"

lemma dependencies_code:
  "dependencies variables =
     set (map (\<lambda>(m, d). (nameOf m, nameOf d)) (filter (\<lambda>(m, d). dependsOn m d) (orderedPairs variables)))"
  by (auto simp: dependencies_def)

lemma chain_dependencies: "dependencies chain = {(js ''b'', js ''a''), (js ''c'', js ''b'')}"
proof -
  have "map (\<lambda>(m, d). (nameOf m, nameOf d)) (filter (\<lambda>(m, d). dependsOn m d) (orderedPairs chain)) =
      [(js ''b'', js ''a''), (js ''c'', js ''b'')]" by code_simp
  then show ?thesis unfolding dependencies_code by simp
qed

lemma chain_names: "map nameOf chain = [js ''a'', js ''b'', js ''c'']" "idOf (hd chain) = js ''a''"
  by (simp_all add: chain_def queryVariable_fields)

lemma variableUpdated_affects_witness:
  "\<exists>event updated. variableUpdated chain chainPanels (hd chain) = Some (event, updated) \<and> \<not> ce_refreshAll event \<and>
     set (ce_panelIds event) =
       {p. \<exists>json name. (p, json) \<in> set chainPanels \<and> name \<in> set (panelVarNames json) \<and>
             (name = js ''a'' \<or> name = includeVars \<or> (name, js ''a'') \<in> {(js ''b'', js ''a''), (js ''c'', js ''b'')}\<^sup>+)}"
proof -
  have "map_option (\<lambda>(e, u). map nameOf u) (variableUpdated chain chainPanels (hd chain)) = Some [js ''b'']"
    by code_simp
  then obtain event updated where u: "variableUpdated chain chainPanels (hd chain) = Some (event, updated)" by auto
  have "typeOf (hd chain) \<noteq> JStr (js ''adhoc'')" by (simp add: chain_def queryVariable_fields)
  moreover have "distinct (map nameOf chain)" by (simp add: chain_names)
  ultimately show ?thesis
    using variableUpdated_affects [OF u] u by (simp add: chain_dependencies chain_names)
qed

lemma updates_cascade_witness:
  "(triggers chain chainPanels)\<^sup>+ = {(js ''b'', js ''a''), (js ''c'', js ''b'')}\<^sup>+"
proof -
  have "{(js ''b'', js ''a''), (js ''c'', js ''b'')} \<subseteq> (measure hd)\<inverse>" by (simp add: js_def)
  then have "acyclic (dependencies chain)"
    unfolding chain_dependencies by (rule acyclic_subset [rotated]) (simp add: acyclic_converse wf_acyclic)
  moreover have "map_option (\<lambda>_. True) (createGraph chain) = Some True" by code_simp
  ultimately show ?thesis
    using updates_cascade [of chain chainPanels] by (auto simp: chain_names chain_dependencies)
qed

definition circle :: "jsobj list" where
  "circle = [queryVariable ''p'' ''f($q)'', queryVariable ''q'' ''g([[p]])'']"

lemma circular_dependency_found_witness:
  "\<exists>d. (hd circle, d) \<in> (direct circle)\<^sup>* \<and> (d, d) \<in> (direct circle)\<^sup>+"
proof -
  have "processVariableDependencies circle (hd circle) = Circular" by code_simp
  with circular_dependency_found [of circle "hd circle"] show ?thesis
    by (simp add: circle_def queryVariable_fields isTruthy_def)
qed

text \<open>
  The format of a reference is taken for a variable: a query that refers to \<open>b\<close> in the format
  \<open>csv\<close> counts as depending on a variable called \<open>csv\<close>, so two variables that are not circular are
  refused as circular.
\<close>

theorem format_taken_for_variable:
  "getVariableName (js ''${b:csv}'') = Some (js ''b'') \<and>
   dependsOn (queryVariable ''c'' ''${b:csv}'') (queryVariable ''csv'' ''f($c)'') \<and>
   processVariableDependencies [queryVariable ''c'' ''${b:csv}'', queryVariable ''csv'' ''f($c)'']
     (queryVariable ''c'' ''${b:csv}'') = Circular"
  by code_simp

end
