(* ===== verification/VariableActions.thy ===== *)
theory VariableActions
  imports VariableGraph
begin

text \<open>
  What the actions on variables decide: the option a value from the URL or the saved state selects,
  which variables a change of the URL updates (\<open>features/variables/state/actions.ts\<close>,
  \<open>features/variables/utils.ts\<close>, \<open>shared/multiOptions.ts\<close>).

  The dispatching of the actions and the waiting for promises are not modelled: a definition gives the
  option or the variables that the source hands on.
\<close>

subsection \<open>Single and several values\<close>

text \<open>\<open>===\<close>\<close>

definition strictEq :: "jsval \<Rightarrow> jsval \<Rightarrow> bool" where
  "strictEq a b \<longleftrightarrow> (case a of JArr _ \<Rightarrow> False | JObj _ \<Rightarrow> False | JNum n \<Rightarrow> n \<noteq> NaN \<and> a = b | _ \<Rightarrow> a = b)"

definition isArray :: "jsval \<Rightarrow> bool" where
  "isArray v = (case v of JArr _ \<Rightarrow> True | _ \<Rightarrow> False)"

definition castArray :: "jsval \<Rightarrow> jsval list" where
  "castArray v = (case v of JArr vs \<Rightarrow> vs | _ \<Rightarrow> [v])"

definition convertToSingle :: "jsval \<Rightarrow> jsval" where
  "convertToSingle v = (case v of JArr [] \<Rightarrow> JStr [] | JArr (w # _) \<Rightarrow> w | _ \<Rightarrow> v)"

definition convertToMulti :: "jsval \<Rightarrow> jsval" where
  "convertToMulti v = (case v of JArr _ \<Rightarrow> v | _ \<Rightarrow> JArr [v])"

definition withTexts :: "(jsval \<Rightarrow> jsval) \<Rightarrow> jsobj \<Rightarrow> jsobj" where
  "withTexts g current =
     objSpread current
       [(js ''value'', g (field current (js ''value''))), (js ''text'', g (field current (js ''text'')))]"

definition alignCurrentWithMulti :: "jsobj \<Rightarrow> bool \<Rightarrow> jsobj" where
  "alignCurrentWithMulti current multi =
     (if multi \<and> \<not> isArray (field current (js ''value'')) then withTexts convertToMulti current
      else if \<not> multi \<and> isArray (field current (js ''value'')) then withTexts convertToSingle current
      else current)"

definition isMulti :: "jsobj \<Rightarrow> bool" where
  "isMulti m \<longleftrightarrow> objGet m (js ''multi'') \<noteq> None"

definition hasOptions :: "jsobj \<Rightarrow> bool" where
  "hasOptions m \<longleftrightarrow> objGet m (js ''options'') \<noteq> None"

definition hasCurrent :: "jsobj \<Rightarrow> bool" where
  "hasCurrent m \<longleftrightarrow> objGet m (js ''current'') \<noteq> None"

text \<open>\<open>changeVariableMultiValue\<close>: the two writes, if the variable can have several values.\<close>

definition changeVariableMultiValue :: "jsstr \<Rightarrow> bool \<Rightarrow> variablesState \<Rightarrow> variablesState option" where
  "changeVariableMultiValue i multi st =
     (case getInstanceState st i of
        None \<Rightarrow> None
      | Some m \<Rightarrow>
          if \<not> isMulti m then Some st
          else
            let current = (case field m (js ''current'') of
                             JObj c \<Rightarrow> JObj (alignCurrentWithMulti c multi) | v \<Rightarrow> v)
            in Option.bind (changeVariableProp i (js ''multi'') (JBool multi) st)
                 (changeVariableProp i (js ''current'') current))"

subsection \<open>The option of a value\<close>

definition optionsOf :: "jsobj \<Rightarrow> jsobj list" where
  "optionsOf m = objectsOf (field m (js ''options''))"

definition urlOption :: "jsval \<Rightarrow> jsval \<Rightarrow> jsobj" where
  "urlOption text value = [(js ''text'', text), (js ''value'', value), (js ''selected'', JBool False)]"

text \<open>The texts of several values: those of their options, or the values themselves.\<close>

definition textOfValue :: "jsobj list \<Rightarrow> jsval \<Rightarrow> jsval" where
  "textOfValue os item =
     (case find (\<lambda>o'. strictEq (field o' (js ''value'')) item) os of
        None \<Rightarrow> item | Some o' \<Rightarrow> field o' (js ''text''))"

text \<open>\<open>setOptionFromUrl\<close>, once the options are up to date: the option it sets.\<close>

definition setOptionFromUrl :: "jsobj \<Rightarrow> jsval \<Rightarrow> jsobj option" where
  "setOptionFromUrl m urlValue =
     (if \<not> hasOptions m then None
      else
        let v = ensureStringValues urlValue;
            os = optionsOf m;
            found = find (\<lambda>o'. strictEq (field o' (js ''text'')) v \<or> strictEq (field o' (js ''value'')) v) os;
            chosen =
              (case found of
                 Some o' \<Rightarrow> o'
               | None \<Rightarrow>
                   if isMulti m \<and> isTruthy (field m (js ''allValue'')) \<and> strictEq v (field m (js ''allValue''))
                   then urlOption (JStr ALL_VARIABLE_TEXT) (JStr ALL_VARIABLE_VALUE)
                   else urlOption (case v of JArr items \<Rightarrow> JArr (map (textOfValue os) items) | _ \<Rightarrow> v) v)
        in Some (if isMulti m
                 then alignCurrentWithMulti
                        (urlOption (JArr (castArray (field chosen (js ''text''))))
                           (JArr (castArray (field chosen (js ''value'')))))
                        (isTruthy (field m (js ''multi'')))
                 else chosen))"

definition isSelectedBy :: "jsval \<Rightarrow> jsobj \<Rightarrow> bool" where
  "isSelectedBy value o' \<longleftrightarrow>
     (case value of
        JArr vs \<Rightarrow> list_ex (\<lambda>v. strictEq (field o' (js ''value'')) v) vs
      | _ \<Rightarrow> strictEq (field o' (js ''value'')) value)"

text \<open>\<open>selectOptionsForCurrentValue\<close>: an option is pushed once for every value equal to its own.\<close>

definition timesSelected :: "jsval \<Rightarrow> jsobj \<Rightarrow> nat" where
  "timesSelected value o' =
     (case value of
        JArr vs \<Rightarrow> length (filter (\<lambda>v. strictEq (field o' (js ''value'')) v) vs)
      | _ \<Rightarrow> if strictEq (field o' (js ''value'')) value then 1 else 0)"

definition selectOptionsForCurrentValue :: "jsobj \<Rightarrow> jsobj list" where
  "selectOptionsForCurrentValue m =
     (let value = valField (field m (js ''current'')) (js ''value'')
      in concat (map (\<lambda>o'. replicate (timesSelected value o') (objSet (js ''selected'') (JBool True) o'))
                   (optionsOf m)))"

text \<open>\<open>getCurrentText\<close> and \<open>getCurrentValue\<close>\<close>

definition getCurrentText :: "jsobj \<Rightarrow> jsstr" where
  "getCurrentText m =
     (let text = valField (field m (js ''current'')) (js ''text'')
      in if \<not> isTruthy text then []
         else (case text of JArr _ \<Rightarrow> jsString text | JStr s \<Rightarrow> s | _ \<Rightarrow> []))"

definition getCurrentValue :: "jsobj \<Rightarrow> jsstr option" where
  "getCurrentValue m =
     (case valField (field m (js ''current'')) (js ''value'') of
        JArr vs \<Rightarrow> Some (jsString (JArr vs)) | JStr s \<Rightarrow> Some s | _ \<Rightarrow> None)"

text \<open>\<open>validateVariableSelectionState\<close>: what it sets, \<open>undefined\<close> included; \<open>None\<close> if nothing.\<close>

definition firstOption :: "jsobj \<Rightarrow> jsval" where
  "firstOption m = (case optionsOf m of [] \<Rightarrow> JUndef | o' # _ \<Rightarrow> JObj o')"

definition optionWithText :: "jsstr \<Rightarrow> jsobj \<Rightarrow> jsobj option" where
  "optionWithText text m = find (\<lambda>o'. field o' (js ''text'') = JStr text) (optionsOf m)"

definition validateVariableSelectionState :: "jsobj \<Rightarrow> jsstr option \<Rightarrow> jsval option" where
  "validateVariableSelectionState m defaultValue =
     (if \<not> hasOptions m then None
      else if isArray (valField (field m (js ''current'')) (js ''value''))
      then
        let selected = selectOptionsForCurrentValue m
        in if selected = [] then Some (firstOption m)
           else Some (JObj [(js ''value'', JArr (map (\<lambda>o'. field o' (js ''value'')) selected)),
                            (js ''text'', JArr (map (\<lambda>o'. field o' (js ''text'')) selected)),
                            (js ''selected'', JBool True)])
      else (case optionWithText (getCurrentText m) m of
              Some o' \<Rightarrow> Some (JObj o')
            | None \<Rightarrow>
                (case (case defaultValue of
                         Some d \<Rightarrow> if d = [] then None else optionWithText d m | None \<Rightarrow> None) of
                   Some o' \<Rightarrow> Some (JObj o')
                 | None \<Rightarrow> if optionsOf m = [] then None else Some (firstOption m))))"

text \<open>\<open>fixSelectedInconsistency\<close>\<close>

definition fixSelectedInconsistency :: "jsobj \<Rightarrow> jsobj" where
  "fixSelectedInconsistency m =
     (if \<not> hasOptions m then m
      else
        let value = valField (field m (js ''current'')) (js ''value'');
            os = map (\<lambda>o'. objSet (js ''selected'') (JBool (isSelectedBy value o')) o') (optionsOf m);
            os1 = (if list_ex (isSelectedBy value) (optionsOf m) then os
                   else (case os of [] \<Rightarrow> [] | o' # rest \<Rightarrow> objSet (js ''selected'') (JBool True) o' # rest))
        in objSet (js ''options'') (JArr (map JObj os1)) m)"

subsection \<open>Changes of the URL\<close>

definition isVariableUrlValueDifferentFromCurrent :: "jsobj \<Rightarrow> jsval \<Rightarrow> bool option" where
  "isVariableUrlValueDifferentFromCurrent m urlValue =
     map_option
       (\<lambda>v. let s = ensureStringValues urlValue
             in v \<noteq> (if isArray v \<and> \<not> isArray s then JArr [s] else s))
       (getValueForUrl m)"

definition getUrlValueForComparison :: "jsval \<Rightarrow> jsval" where
  "getUrlValueForComparison v = (case v of JArr [] \<Rightarrow> JUndef | JArr [w] \<Rightarrow> w | _ \<Rightarrow> v)"

record urlQueryType =
  uq_value :: jsval
  uq_removed :: bool

type_synonym urlChanges = "(jsstr, urlQueryType) obj"

definition varPrefix :: jsstr where
  "varPrefix = js ''var-''"

definition noteChange :: "jsobj \<Rightarrow> jsstr \<times> jsval \<Rightarrow> urlChanges \<Rightarrow> urlChanges" where
  "noteChange old p changes =
     (if startsWith varPrefix (fst p) \<and>
         getUrlValueForComparison (snd p) \<noteq> getUrlValueForComparison (field old (fst p))
      then objSet (fst p) \<lparr>uq_value = snd p, uq_removed = False\<rparr> changes else changes)"

definition noteRemoved :: "jsobj \<Rightarrow> jsstr \<times> jsval \<Rightarrow> urlChanges \<Rightarrow> urlChanges" where
  "noteRemoved query p changes =
     (if startsWith varPrefix (fst p) \<and> snd p \<noteq> JArr [] \<and> objGet query (fst p) = None
      then objSet (fst p) \<lparr>uq_value = JStr [], uq_removed = True\<rparr> changes else changes)"

definition findTemplateVarChanges :: "jsobj \<Rightarrow> jsobj \<Rightarrow> urlChanges option" where
  "findTemplateVarChanges query old =
     (let changes = fold (noteRemoved query) (objectEntries old) (fold (noteChange old) (objectEntries query) [])
      in if changes = [] then None else Some changes)"

text \<open>
  \<open>templateVarsChangedInUrl\<close>: the variables it updates with their values, and the event it publishes
  after them; \<open>None\<close> if it throws.
\<close>

definition urlKey :: "jsobj \<Rightarrow> jsstr" where
  "urlKey m = varPrefix @ nameOf m"

definition urlChange :: "urlChanges \<Rightarrow> jsobj \<Rightarrow> urlQueryType option option" where
  "urlChange vars m =
     (case objGet vars (urlKey m) of
        None \<Rightarrow> Some None
      | Some c \<Rightarrow>
          map_option (\<lambda>differs. if differs then Some c else None)
            (isVariableUrlValueDifferentFromCurrent m (uq_value c)))"

definition valueInModel :: "jsobj list \<Rightarrow> jsobj \<Rightarrow> jsval \<Rightarrow> jsval" where
  "valueInModel templating m value =
     (case find (\<lambda>v. nameOf v = nameOf m) templating of
        None \<Rightarrow> value
      | Some v \<Rightarrow>
          if typeOf v = JStr (js ''constant'') then field v (js ''query'')
          else if hasCurrent v then valField (field v (js ''current'')) (js ''value'')
          else value)"

definition templateVarsChangedInUrl ::
  "jsobj list \<Rightarrow> (nat \<times> jsstr) list \<Rightarrow> jsobj list \<Rightarrow> urlChanges \<Rightarrow>
   ((jsobj \<times> jsval) list \<times> changedEvent option) option" where
  "templateVarsChangedInUrl variables panels templating vars =
     (if list_ex (\<lambda>m. urlChange vars m = None) variables then None
      else
        let changed = List.map_filter (\<lambda>m. map_option (Pair m) (the (urlChange vars m))) variables;
            updates = map (\<lambda>(m, c). (m, if uq_removed c then valueInModel templating m (uq_value c) else uq_value c))
                        changed;
            ids = map (\<lambda>(m, c). idOf m) (filter (\<lambda>(m, c). typeOf m \<noteq> JStr (js ''adhoc'')) changed)
        in (case createGraph variables of
              None \<Rightarrow> None
            | Some g \<Rightarrow>
                let affected = getAllAffectedPanelIdsForVariableChange ids g (getPanelVars panels)
                in Some (updates,
                         if updates = [] then None
                         else Some \<lparr>ce_refreshAll = (affected = []), ce_panelIds = affected\<rparr>)))"

text \<open>\<open>getQueryWithVariables\<close>: the query of the URL with the values of the variables.\<close>

definition putUrlValue :: "jsobj \<Rightarrow> jsobj option \<Rightarrow> jsobj option" where
  "putUrlValue m params =
     (case params of
        None \<Rightarrow> None
      | Some ps \<Rightarrow>
          if isTruthy (field m (js ''skipUrlSync'')) then Some ps
          else map_option (\<lambda>v. objSet (urlKey m) v ps) (getValueForUrl m))"

definition getQueryWithVariables :: "jsobj \<Rightarrow> jsobj list \<Rightarrow> jsobj option" where
  "getQueryWithVariables queryParams variables =
     fold putUrlValue variables
       (Some (fold (\<lambda>(k, v). objSet k v)
                (filter (\<lambda>(k, v). strIndexOf varPrefix k = None) (objectEntries queryParams)) []))"

end
