(* ===== verification/VariableActionsProps.thy ===== *)
theory VariableActionsProps
  imports VariableActions
begin

text \<open>
  What is set from the URL is what was written to it; the changes of the URL are those of the
  \<open>var-\<close> parameters.
\<close>

subsection \<open>Changes of the URL\<close>

lemma objGet_fold_notes:
  assumes "\<And>p c k. objGet (note p c) k = (if k = fst p then (case g p of None \<Rightarrow> objGet c k | Some u \<Rightarrow> Some u) else objGet c k)"
    and "distinct (map fst ps)"
  shows "objGet (fold note ps c) k =
    (case map_of ps k of None \<Rightarrow> objGet c k
     | Some v \<Rightarrow> (case g (k, v) of None \<Rightarrow> objGet c k | Some u \<Rightarrow> Some u))"
  using assms(2)
proof (induction ps arbitrary: c)
  case Nil
  show ?case by simp
next
  case (Cons p ps)
  then have new: "map_of ps (fst p) = None" and d: "distinct (map fst ps)" by (auto simp: map_of_eq_None_iff)
  note ih = Cons.IH [OF d, of "note p c"]
  show ?case
    unfolding list.simps fold.simps comp_apply ih
    using assms(1) [of p c k] new by (cases p) (auto split: option.splits)
qed

lemma map_of_objectEntries:
  assumes "objKeysOk m"
  shows "map_of (objectEntries m) k = objGet m k" "distinct (map fst (objectEntries m))"
proof -
  have "mset (map fst (objectEntries m)) = mset (map fst m)" by (simp add: mset_objectEntries)
  then show d: "distinct (map fst (objectEntries m))"
    using assms unfolding objKeysOk_def by (metis mset_eq_imp_distinct_iff)
  have "map_of (objectEntries m) = map_of m"
    using assms d unfolding objKeysOk_def by (intro iffD2 [OF map_of_inject_set]) simp_all
  then show "map_of (objectEntries m) k = objGet m k" by (simp add: objGet_def)
qed

definition changeOf :: "jsobj \<Rightarrow> jsobj \<Rightarrow> jsstr \<Rightarrow> urlQueryType option" where
  "changeOf query old k =
     (if \<not> startsWith varPrefix k then None
      else case objGet query k of
        Some v \<Rightarrow>
          if getUrlValueForComparison v = getUrlValueForComparison (field old k) then None
          else Some \<lparr>uq_value = v, uq_removed = False\<rparr>
      | None \<Rightarrow>
          if objGet old k = None \<or> objGet old k = Some (JArr []) then None
          else Some \<lparr>uq_value = JStr [], uq_removed = True\<rparr>)"

lemma findTemplateVarChanges_changeOf:
  assumes "objKeysOk query" "objKeysOk old"
  shows "objGet (fold (noteRemoved query) (objectEntries old) (fold (noteChange old) (objectEntries query) [])) k
    = changeOf query old k"
proof -
  let ?g = "\<lambda>p. if startsWith varPrefix (fst p) \<and>
      getUrlValueForComparison (snd p) \<noteq> getUrlValueForComparison (field old (fst p))
    then Some \<lparr>uq_value = snd p, uq_removed = False\<rparr> else None"
  let ?r = "\<lambda>p. if startsWith varPrefix (fst p) \<and> snd p \<noteq> JArr [] \<and> objGet query (fst p) = None
    then Some \<lparr>uq_value = JStr [], uq_removed = True\<rparr> else None"
  have "objGet (fold (noteChange old) (objectEntries query) []) k =
      (case objGet query k of None \<Rightarrow> None | Some v \<Rightarrow> ?g (k, v))"
    by (subst objGet_fold_notes [where g = ?g])
      (auto simp: noteChange_def objGet_objSet map_of_objectEntries assms split: option.splits)
  moreover have "objGet (fold (noteRemoved query) (objectEntries old) c) k =
      (case objGet old k of None \<Rightarrow> objGet c k
       | Some v \<Rightarrow> (case ?r (k, v) of None \<Rightarrow> objGet c k | Some u \<Rightarrow> Some u))" for c
    by (subst objGet_fold_notes [where g = ?r])
      (auto simp: noteRemoved_def objGet_objSet map_of_objectEntries assms split: option.splits)
  ultimately show ?thesis
    by (auto simp: changeOf_def split: option.splits)
qed

text \<open>
  Claim C35. The changes found between two queries of the URL are, for every parameter of a variable, its
  new value if that differs from the old one (a single value alone or in an array being the same), a
  removal if it is gone and was not an empty array, and nothing else; \<open>undefined\<close> if nothing changed.
\<close>

theorem findTemplateVarChanges_exact:
  assumes "objKeysOk query" "objKeysOk old"
  shows "(\<forall>k. (case findTemplateVarChanges query old of None \<Rightarrow> None | Some c \<Rightarrow> objGet c k) = changeOf query old k)
    \<and> (findTemplateVarChanges query old = None \<longleftrightarrow> (\<forall>k. changeOf query old k = None))"
proof -
  let ?c = "fold (noteRemoved query) (objectEntries old) (fold (noteChange old) (objectEntries query) [])"
  have get: "objGet ?c k = changeOf query old k" for k
    by (rule findTemplateVarChanges_changeOf [OF assms])
  have f: "findTemplateVarChanges query old = (if ?c = [] then None else Some ?c)"
    by (simp add: findTemplateVarChanges_def Let_def)
  have "?c = [] \<longleftrightarrow> (\<forall>k. objGet ?c k = None)"
    by (cases ?c) (auto simp: objGet_None)
  then show ?thesis
    using get f by (auto split: option.split)
qed

lemma findTemplateVarChanges_exact_witness:
  "let q = [(js ''orgId'', JStr (js ''2'')), (js ''var-host'', JArr [JStr (js ''a'')]), (js ''var-dc'', JStr (js ''x''))];
       old = [(js ''var-host'', JStr (js ''a'')), (js ''var-dc'', JStr (js ''y'')), (js ''var-env'', JStr (js ''z''))];
       c = the (findTemplateVarChanges q old)
   in objGet c (js ''var-host'') = None \<and> objGet c (js ''orgId'') = None \<and>
      objGet c (js ''var-dc'') = Some \<lparr>uq_value = JStr (js ''x''), uq_removed = False\<rparr> \<and>
      objGet c (js ''var-env'') = Some \<lparr>uq_value = JStr [], uq_removed = True\<rparr>"
proof -
  let ?q = "[(js ''orgId'', JStr (js ''2'')), (js ''var-host'', JArr [JStr (js ''a'')]), (js ''var-dc'', JStr (js ''x''))]"
  let ?old = "[(js ''var-host'', JStr (js ''a'')), (js ''var-dc'', JStr (js ''y'')), (js ''var-env'', JStr (js ''z''))]"
  have ok: "objKeysOk ?q" "objKeysOk ?old" by (simp_all add: objKeysOk_def)
  note t = findTemplateVarChanges_exact [OF ok]
  have "changeOf ?q ?old (js ''var-dc'') = Some \<lparr>uq_value = JStr (js ''x''), uq_removed = False\<rparr>"
    "changeOf ?q ?old (js ''var-env'') = Some \<lparr>uq_value = JStr [], uq_removed = True\<rparr>"
    "changeOf ?q ?old (js ''var-host'') = None" "changeOf ?q ?old (js ''orgId'') = None"
    by code_simp+
  then show ?thesis
    using t by (auto simp: Let_def split: option.splits)
qed
text \<open>
  The query that the variables write has, under the name of each, the value it writes.
\<close>

lemma urlKey_eq: "urlKey m = urlKey m' \<longleftrightarrow> nameOf m = nameOf m'"
  by (simp add: urlKey_def)

lemma ok_fold_objSet: "objKeysOk c \<Longrightarrow> objKeysOk (fold (\<lambda>(k, v). objSet k v) ps c)"
  by (rule obj.ok_fold_set)

lemma putUrlValue_simps [simp]:
  "putUrlValue m None = None"
  "putUrlValue m (Some ps) =
     (if isTruthy (field m (js ''skipUrlSync'')) then Some ps
      else map_option (\<lambda>v. objSet (urlKey m) v ps) (getValueForUrl m))"
  by (simp_all add: putUrlValue_def)

lemma fold_putUrlValue_None [simp]: "fold putUrlValue ms None = None"
  by (induction ms) simp_all

lemma fold_putUrlValue:
  assumes "fold putUrlValue ms (Some ps) = Some qs" and "objKeysOk ps" and "distinct (map nameOf ms)"
    and "\<forall>m \<in> set ms. \<not> isTruthy (field m (js ''skipUrlSync''))"
  shows "objKeysOk qs \<and> (\<forall>m \<in> set ms. objGet qs (urlKey m) = getValueForUrl m) \<and>
    (\<forall>k. k \<notin> urlKey ` set ms \<longrightarrow> objGet qs k = objGet ps k)"
  using assms
proof (induction ms arbitrary: ps)
  case Nil
  then show ?case by simp
next
  case (Cons m ms)
  then obtain v where v: "getValueForUrl m = Some v"
    by (cases "getValueForUrl m") auto
  have "fold putUrlValue ms (Some (objSet (urlKey m) v ps)) = Some qs"
    using Cons.prems v by simp
  from Cons.IH [OF this] have ih: "objKeysOk qs" "\<forall>m \<in> set ms. objGet qs (urlKey m) = getValueForUrl m"
    "\<forall>k. k \<notin> urlKey ` set ms \<longrightarrow> objGet qs k = objGet (objSet (urlKey m) v ps) k"
    using Cons.prems by (auto simp: objKeysOk_objSet)
  have "urlKey m \<notin> urlKey ` set ms" using Cons.prems(3) by (auto simp: urlKey_eq)
  then show ?case using ih v by (auto simp: objGet_objSet)
qed

lemma getQueryWithVariables_get:
  assumes "getQueryWithVariables q ms = Some p" and "distinct (map nameOf ms)"
    and "\<forall>m \<in> set ms. \<not> isTruthy (field m (js ''skipUrlSync''))"
  shows "objKeysOk p" "m \<in> set ms \<Longrightarrow> objGet p (urlKey m) = getValueForUrl m"
proof -
  let ?ps = "fold (\<lambda>(k, v). objSet k v) (filter (\<lambda>(k, v). strIndexOf varPrefix k = None) (objectEntries q)) ([] :: jsobj)"
  have "objKeysOk ?ps" by (rule ok_fold_objSet) (simp add: objKeysOk_def)
  then show "objKeysOk p" "m \<in> set ms \<Longrightarrow> objGet p (urlKey m) = getValueForUrl m"
    using fold_putUrlValue [of ms ?ps p] assms unfolding getQueryWithVariables_def by auto
qed

lemma urlChange_same:
  assumes "getValueForUrl m = Some u" and "ensureStringValues u = u"
    and "\<And>c. objGet vars (urlKey m) = Some c \<Longrightarrow> uq_value c = u"
  shows "urlChange vars m = Some None"
  using assms by (auto simp: urlChange_def isVariableUrlValueDifferentFromCurrent_def Let_def split: option.split)



subsection \<open>The selection in the URL\<close>

lemma find_witness: "x \<in> set xs \<Longrightarrow> P x \<Longrightarrow> \<exists>y \<in> set xs. find P xs = Some y \<and> P y"
  by (induction xs) auto

lemma objectsOf_map [simp]: "objectsOf (JArr (map JObj os)) = os"
  by (induction os) (auto simp: objectsOf_def List.map_filter_simps)

lemma field_urlOption [simp]:
  "field (urlOption t v) (js ''value'') = v" "field (urlOption t v) (js ''text'') = t"
  by (simp_all add: urlOption_def field_def objGet_def)

lemma field_withTexts [simp]: "field (withTexts g c) (js ''value'') = g (field c (js ''value''))"
  by (simp add: withTexts_def field_def objGet_objSpread)

text \<open>What a variable that can have several values, or one, makes of an option that was found.\<close>

lemma setOptionFromUrl_found:
  assumes "field m (js ''options'') = JArr (map JObj os)" and "field m (js ''multi'') = JBool b"
    and "find (\<lambda>o'. strictEq (field o' (js ''text'')) (JStr s) \<or> strictEq (field o' (js ''value'')) (JStr s)) os = Some o1"
    and "field o1 (js ''value'') = JStr v"
  shows "\<exists>o'. setOptionFromUrl m (JStr s) = Some o' \<and>
    field o' (js ''value'') = (if b then JArr [JStr v] else JStr v)"
proof -
  have "hasOptions m" "isMulti m"
    using assms(1,2) by (auto simp: hasOptions_def isMulti_def field_def split: option.splits)
  then show ?thesis
    using assms by (simp add: setOptionFromUrl_def Let_def optionsOf_def ensureStringValues_def
        alignCurrentWithMulti_def castArray_def isArray_def isTruthy_def convertToSingle_def)
qed

lemma setOptionFromUrl_array:
  assumes "field m (js ''options'') = JArr (map JObj os)" and "field m (js ''multi'') = JBool True"
  shows "\<exists>o'. setOptionFromUrl m (JArr (map JStr vs)) = Some o' \<and> field o' (js ''value'') = JArr (map JStr vs)"
proof -
  have "hasOptions m" "isMulti m"
    using assms by (auto simp: hasOptions_def isMulti_def field_def split: option.splits)
  moreover have "ensureStringValues (JArr (map JStr vs)) = JArr (map JStr vs)"
    by (simp add: ensureStringValues_def)
  moreover have array: "\<not> strictEq a (JArr ws)" for a ws
    by (auto simp: strictEq_def split: jsval.split)
  then have "find (\<lambda>o'. strictEq (field o' (js ''text'')) (JArr ws) \<or> strictEq (field o' (js ''value'')) (JArr ws)) os = None" for ws
    by (simp add: find_None_iff)
  moreover have "\<not> strictEq (JArr ws) a" for a ws by (simp add: strictEq_def)
  ultimately show ?thesis
    using assms by (simp add: setOptionFromUrl_def Let_def optionsOf_def alignCurrentWithMulti_def castArray_def
        isArray_def isTruthy_def)
qed

lemma strictEq_JStr [simp]: "strictEq a (JStr s) \<longleftrightarrow> a = JStr s"
  by (auto simp: strictEq_def split: jsval.split)


definition optionNamed :: "jsstr \<Rightarrow> jsstr \<Rightarrow> jsobj" where
  "optionNamed t v = [(js ''text'', JStr t), (js ''value'', JStr v)]"

definition customVariable :: "bool \<Rightarrow> jsval \<Rightarrow> jsval \<Rightarrow> jsobj list \<Rightarrow> jsobj" where
  "customVariable b t v os =
     [(js ''type'', JStr (js ''custom'')), (js ''name'', JStr (js ''x'')), (js ''multi'', JBool b),
      (js ''current'', JObj [(js ''text'', t), (js ''value'', v)]), (js ''options'', JArr (map JObj os))]"


text \<open>
  Without that proviso it selects another: with the options \<open>2\<close> of text 1 and \<open>1\<close> of text 2,
  the value \<open>1\<close> in the URL selects the option whose text is 1, which is \<open>2\<close>.
\<close>

theorem url_selects_other_option:
  "let m = customVariable False (JStr (js ''2'')) (JStr (js ''1''))
             [optionNamed (js ''1'') (js ''2''), optionNamed (js ''2'') (js ''1'')]
   in getValueForUrl m = Some (JStr (js ''1'')) \<and>
      map_option (\<lambda>o'. field o' (js ''value'')) (setOptionFromUrl m (JStr (js ''1''))) = Some (JStr (js ''2''))"
  by code_simp

subsection \<open>A valid selection\<close>

lemma find_set: "find P xs = Some x \<Longrightarrow> x \<in> set xs \<and> P x"
  by (induction xs) (auto split: if_splits)

lemma field_set_selected [simp]:
  "field (objSet (js ''selected'') v o') (js ''value'') = field o' (js ''value'')"
  "field (objSet (js ''selected'') v o') (js ''text'') = field o' (js ''text'')"
  by (simp_all add: field_objSet)

text \<open>A value made of the values of options, with the texts of those same options.\<close>

definition selectionOf :: "jsobj list \<Rightarrow> jsval \<Rightarrow> bool" where
  "selectionOf os v \<longleftrightarrow>
     (\<exists>o' \<in> set os. v = JObj o') \<or>
     (\<exists>ps. ps \<noteq> [] \<and> set ps \<subseteq> set os \<and>
        valField v (js ''value'') = JArr (map (\<lambda>o'. field o' (js ''value'')) ps) \<and>
        valField v (js ''text'') = JArr (map (\<lambda>o'. field o' (js ''text'')) ps))"

lemma selected_options:
  "\<exists>ps. set ps \<subseteq> set (optionsOf m) \<and> length ps = length (selectOptionsForCurrentValue m) \<and>
     map (\<lambda>o'. field o' (js ''value'')) (selectOptionsForCurrentValue m) = map (\<lambda>o'. field o' (js ''value'')) ps \<and>
     map (\<lambda>o'. field o' (js ''text'')) (selectOptionsForCurrentValue m) = map (\<lambda>o'. field o' (js ''text'')) ps"
proof -
  let ?v = "valField (field m (js ''current'')) (js ''value'')"
  let ?ps = "concat (map (\<lambda>o'. replicate (timesSelected ?v o') o') (optionsOf m))"
  have "selectOptionsForCurrentValue m = map (objSet (js ''selected'') (JBool True)) ?ps"
    by (simp add: selectOptionsForCurrentValue_def Let_def map_concat comp_def map_replicate)
  then show ?thesis
    by (intro exI [of _ ?ps]) (auto simp: comp_def)
qed

text \<open>
  Claim C36. Once the options of a variable are updated and there are any, what is set as its current value
  is one of the options, or several of them; it keeps the current text if an option has it.
\<close>

theorem validation_selects_options:
  assumes "hasOptions m" and "optionsOf m \<noteq> []"
  shows "\<exists>v. validateVariableSelectionState m d = Some v \<and> selectionOf (optionsOf m) v \<and>
    (isArray (valField (field m (js ''current'')) (js ''value'')) \<or>
     optionWithText (getCurrentText m) m = None \<or> valField v (js ''text'') = JStr (getCurrentText m))"
proof -
  let ?array = "isArray (valField (field m (js ''current'')) (js ''value''))"
  have one: "selectionOf (optionsOf m) (firstOption m)"
    using assms(2) by (auto simp: selectionOf_def firstOption_def split: list.split)
  have named: "o' \<in> set (optionsOf m) \<and> field o' (js ''text'') = JStr t" if "optionWithText t m = Some o'" for t o'
    using find_set [OF that [unfolded optionWithText_def]] .
  show ?thesis
  proof (cases ?array)
    case True
    obtain ps where ps: "set ps \<subseteq> set (optionsOf m)" "length ps = length (selectOptionsForCurrentValue m)"
      "map (\<lambda>o'. field o' (js ''value'')) (selectOptionsForCurrentValue m) = map (\<lambda>o'. field o' (js ''value'')) ps"
      "map (\<lambda>o'. field o' (js ''text'')) (selectOptionsForCurrentValue m) = map (\<lambda>o'. field o' (js ''text'')) ps"
      using selected_options [of m] by blast
    have "selectionOf (optionsOf m)
        (JObj [(js ''value'', JArr (map (\<lambda>o'. field o' (js ''value'')) ps)),
               (js ''text'', JArr (map (\<lambda>o'. field o' (js ''text'')) ps)), (js ''selected'', JBool True)])"
      if "selectOptionsForCurrentValue m \<noteq> []"
      unfolding selectionOf_def using ps(1,2) that
      by (intro disjI2 exI [of _ ps]) (auto simp: valField_def field_def objGet_def)
    then show ?thesis
      using True one assms(1) by (auto simp: validateVariableSelectionState_def Let_def ps(3,4))
  next
    case False
    have "selectionOf (optionsOf m) (JObj o')" if "o' \<in> set (optionsOf m)" for o'
      using that by (auto simp: selectionOf_def)
    then show ?thesis
      using False one assms named
      by (auto simp: validateVariableSelectionState_def valField_def split: option.splits)
  qed
qed

lemma validation_selects_options_witness:
  "let m = customVariable False (JStr (js ''three'')) (JStr (js ''3'')) [optionNamed (js ''one'') (js ''1'')]
   in \<exists>v. validateVariableSelectionState m None = Some v \<and> selectionOf (optionsOf m) v \<and>
    (isArray (valField (field m (js ''current'')) (js ''value'')) \<or>
     optionWithText (getCurrentText m) m = None \<or> valField v (js ''text'') = JStr (getCurrentText m))"
proof -
  let ?m = "customVariable False (JStr (js ''three'')) (JStr (js ''3'')) [optionNamed (js ''one'') (js ''1'')]"
  have "hasOptions ?m" "optionsOf ?m \<noteq> []"
    by (simp_all add: hasOptions_def optionsOf_def customVariable_def field_def objGet_def objectsOf_def List.map_filter_simps)
  then show ?thesis unfolding Let_def by (rule validation_selects_options)
qed

end
