(* ===== verification/TemplateFormats.thy ===== *)
theory TemplateFormats
  imports VariableRegex AdHocFilters
begin

text \<open>
  The formats of interpolated values: \<open>features/templating/formatRegistry.ts\<close>, with the escapes of
  \<open>kbn.ts\<close> and of \<open>text/sanitize.ts\<close> it uses.

  A formatter gives a value, which \<open>String.replace\<close> turns into text; \<open>None\<close> is an exception (a
  \<open>TypeError\<close>, or the \<open>URIError\<close> of a text that is not well-formed UTF-16).  Dates other than in
  milliseconds and seconds are written by a library, an argument of the model.
\<close>

subsection \<open>Escapes\<close>

text \<open>\<open>+v\<close>\<close>

definition toNum :: "jsval \<Rightarrow> jsnum" where
  "toNum v =
     (case v of
        JUndef \<Rightarrow> NaN | JNull \<Rightarrow> Dec 0 0 | JBool b \<Rightarrow> Dec (if b then 1 else 0) 0
      | JNum n \<Rightarrow> n | JStr s \<Rightarrow> toNumber s | _ \<Rightarrow> toNumber (jsString v))"

text \<open>A backslash before each character of a class.\<close>

definition backslashed :: "(codeUnit \<Rightarrow> bool) \<Rightarrow> jsstr \<Rightarrow> jsstr" where
  "backslashed P s = concat (map (\<lambda>c. if P c then [92, c] else [c]) s)"

definition isLuceneSpecial :: "codeUnit \<Rightarrow> bool" where
  "isLuceneSpecial c \<longleftrightarrow> c \<in> {33, 42, 43, 45, 61, 60, 62, 38, 124, 40, 41, 91, 93, 123, 125, 94, 126, 63, 58, 92, 47, 34} \<or> isSpace c"

definition luceneEscape :: "jsval \<Rightarrow> jsval option" where
  "luceneEscape v =
     (if toNum v \<noteq> NaN then Some v
      else (case v of JStr s \<Rightarrow> Some (JStr (backslashed isLuceneSpecial s)) | _ \<Rightarrow> None))"

definition isRegexSpecial :: "codeUnit \<Rightarrow> bool" where
  "isRegexSpecial c \<longleftrightarrow> c \<in> {92, 94, 36, 42, 43, 63, 46, 40, 41, 124, 91, 93, 123, 125, 47}"

definition regexEscape :: "jsval \<Rightarrow> jsstr option" where
  "regexEscape v = (case v of JStr s \<Rightarrow> Some (backslashed isRegexSpecial s) | _ \<Rightarrow> None)"

text \<open>\<open>escapeHtml\<close>: the replacements one after the other.\<close>

definition replaceChar :: "codeUnit \<Rightarrow> jsstr \<Rightarrow> jsstr \<Rightarrow> jsstr" where
  "replaceChar c t s = concat (map (\<lambda>x. if x = c then t else [x]) s)"

definition escapeHtml :: "jsval \<Rightarrow> jsstr" where
  "escapeHtml v =
     replaceChar 34 (js ''&quot;'') (replaceChar 62 (js ''&gt;'') (replaceChar 60 (js ''&lt;'')
       (replaceChar 38 (js ''&amp;'') (jsString v))))"

definition encodeURIComponentStrict :: "jsval \<Rightarrow> jsstr option" where
  "encodeURIComponentStrict v =
     map_option (\<lambda>s. concat (map (\<lambda>c. if c \<in> {33, 39, 40, 41, 42} then percent c else [c]) s))
       (encodeURIComponent (jsString v))"

definition formatQueryParameter :: "jsval \<Rightarrow> jsval \<Rightarrow> jsstr option" where
  "formatQueryParameter name v =
     map_option (\<lambda>t. js ''var-'' @ jsString name @ [61] @ t) (encodeURIComponentStrict v)"

text \<open>lodash's \<open>toString\<close>.\<close>

fun baseToString :: "jsval \<Rightarrow> jsstr" where
  "baseToString (JArr vs) = joinWith [44] (map baseToString vs)"
| "baseToString v = jsString v"

definition lodashToString :: "jsval \<Rightarrow> jsstr" where
  "lodashToString v = (case v of JUndef \<Rightarrow> [] | JNull \<Rightarrow> [] | _ \<Rightarrow> baseToString v)"

subsection \<open>Formatters\<close>

text \<open>lodash's \<open>map\<close> of something that is neither a string nor an object gives no elements.\<close>

definition elements :: "jsval \<Rightarrow> jsval list" where
  "elements v = (case v of JArr vs \<Rightarrow> vs | JObj m \<Rightarrow> objectValues m | _ \<Rightarrow> [])"

definition arrayJoin :: "jsstr \<Rightarrow> jsval list \<Rightarrow> jsstr" where
  "arrayJoin sep vs = joinWith sep (jsElements vs)"

text \<open>All or none.\<close>

fun allSome :: "'a option list \<Rightarrow> 'a list option" where
  "allSome [] = Some []"
| "allSome (x # xs) = (case x of None \<Rightarrow> None | Some y \<Rightarrow> map_option ((#) y) (allSome xs))"

definition luceneFormat :: "jsval \<Rightarrow> jsval option" where
  "luceneFormat v =
     (case v of
        JStr s \<Rightarrow> luceneEscape v
      | JArr [] \<Rightarrow> Some (JStr (js ''__empty__''))
      | _ \<Rightarrow>
          map_option (\<lambda>ts. JStr ([40] @ joinWith (js '' OR '') (map (\<lambda>t. [34] @ jsString t @ [34]) ts) @ [41]))
            (allSome (map luceneEscape (elements v))))"

definition regexFormat :: "jsval \<Rightarrow> jsval option" where
  "regexFormat v =
     (case v of
        JStr s \<Rightarrow> map_option JStr (regexEscape v)
      | _ \<Rightarrow>
          map_option (\<lambda>ts. JStr (case ts of [t] \<Rightarrow> t | _ \<Rightarrow> [40] @ joinWith [124] ts @ [41]))
            (allSome (map regexEscape (elements v))))"

definition pipeFormat :: "jsval \<Rightarrow> jsval option" where
  "pipeFormat v =
     (case v of JStr s \<Rightarrow> Some v | JArr vs \<Rightarrow> Some (JStr (arrayJoin [124] vs)) | _ \<Rightarrow> None)"

definition distributedFormat :: "jsval \<Rightarrow> jsval \<Rightarrow> jsval option" where
  "distributedFormat name v =
     (case v of
        JStr s \<Rightarrow> Some v
      | _ \<Rightarrow>
          Some (JStr (arrayJoin [44]
            (case elements v of
               [] \<Rightarrow> []
             | w # ws \<Rightarrow> w # map (\<lambda>w. JStr (jsString name @ [61] @ jsString w)) ws))))"

definition csvFormat :: "jsval \<Rightarrow> jsval" where
  "csvFormat v = (case v of JArr vs \<Rightarrow> JStr (arrayJoin [44] vs) | _ \<Rightarrow> v)"

definition htmlFormat :: "jsval \<Rightarrow> jsval" where
  "htmlFormat v = JStr (escapeHtml (case v of JArr vs \<Rightarrow> JStr (arrayJoin [44, 32] vs) | _ \<Rightarrow> v))"

definition jsonFormat :: "jsval \<Rightarrow> jsval" where
  "jsonFormat v = (case jsonStringify v of Some t \<Rightarrow> JStr t | None \<Rightarrow> JUndef)"

definition percentEncodeFormat :: "jsval \<Rightarrow> jsval option" where
  "percentEncodeFormat v =
     map_option JStr
       (encodeURIComponentStrict (case v of JArr vs \<Rightarrow> JStr ([123] @ arrayJoin [44] vs @ [125]) | _ \<Rightarrow> v))"

text \<open>The three formats with quotes: a quote, and what replaces it inside the text.\<close>

definition quoted :: "codeUnit \<Rightarrow> jsstr \<Rightarrow> jsval \<Rightarrow> jsstr" where
  "quoted q rep v = [q] @ replaceChar q rep (lodashToString v) @ [q]"

definition quoteFormat :: "codeUnit \<Rightarrow> jsstr \<Rightarrow> jsval \<Rightarrow> jsval" where
  "quoteFormat q rep v =
     JStr (case v of JArr vs \<Rightarrow> joinWith [44] (map (quoted q rep) vs) | _ \<Rightarrow> quoted q rep v)"

definition singleQuoteFormat :: "jsval \<Rightarrow> jsval" where
  "singleQuoteFormat = quoteFormat 39 [92, 39]"

definition doubleQuoteFormat :: "jsval \<Rightarrow> jsval" where
  "doubleQuoteFormat = quoteFormat 34 [92, 34]"

definition sqlStringFormat :: "jsval \<Rightarrow> jsval" where
  "sqlStringFormat = quoteFormat 39 [39, 39]"

text \<open>\<open>parseInt(s, 10)\<close>\<close>

definition parseInt10 :: "jsstr \<Rightarrow> int option" where
  "parseInt10 s =
     (case signPrefix (trimStart s) of
        (neg, t) \<Rightarrow>
          if takeWhile isDigit t = [] then None
          else Some ((if neg then -1 else 1) * int (digitsVal (takeWhile isDigit t))))"

definition dateFormat :: "(jsstr \<Rightarrow> jsval \<Rightarrow> jsstr) \<Rightarrow> jsstr list \<Rightarrow> jsval \<Rightarrow> jsval" where
  "dateFormat formatDate args v =
     (let arg = (case args of [] \<Rightarrow> js ''iso'' | a # _ \<Rightarrow> a)
      in if arg = js ''ms'' then v
         else if arg = js ''seconds''
         then JStr (case parseInt10 (jsString v) of
                      None \<Rightarrow> js ''NaN'' | Some n \<Rightarrow> numToStr (Dec ((n + 500) div 1000) 0))
         else JStr (formatDate arg v))"

definition globFormat :: "jsval \<Rightarrow> jsval" where
  "globFormat v =
     (case v of
        JArr vs \<Rightarrow> if length vs > 1 then JStr ([123] @ arrayJoin [44] vs @ [125]) else v
      | _ \<Rightarrow> v)"

text \<open>\<open>formatVariableLabel\<close> of a variable whose \<open>current\<close> is not empty.\<close>

definition isVariableWithOptions :: "jsobj \<Rightarrow> bool" where
  "isVariableWithOptions m \<longleftrightarrow>
     (case field m (js ''options'') of JArr _ \<Rightarrow> True | _ \<Rightarrow> False) \<or>
     (case field m (js ''current'') of JObj _ \<Rightarrow> True | JArr _ \<Rightarrow> True | JNull \<Rightarrow> True | _ \<Rightarrow> False)"

definition formatVariableLabel :: "jsobj \<Rightarrow> jsval" where
  "formatVariableLabel m =
     (if \<not> isVariableWithOptions m then field m (js ''name'')
      else (case valField (field m (js ''current'')) (js ''text'') of
              JArr vs \<Rightarrow> JStr (arrayJoin (js '' + '') vs) | t \<Rightarrow> t))"

definition textFormat :: "jsval \<Rightarrow> jsobj \<Rightarrow> jsval \<Rightarrow> jsval" where
  "textFormat text m v =
     (case text of
        JStr t \<Rightarrow> if v = JStr ALL_VARIABLE_VALUE then JStr ALL_VARIABLE_TEXT else text
      | _ \<Rightarrow> if \<not> isTruthy (field m (js ''current'')) then v else formatVariableLabel m)"

definition queryParamFormat :: "jsval \<Rightarrow> jsval \<Rightarrow> jsval option" where
  "queryParamFormat name v =
     (case v of
        JArr vs \<Rightarrow> map_option (\<lambda>ts. JStr (joinWith [38] ts)) (allSome (map (formatQueryParameter name) vs))
      | _ \<Rightarrow> map_option JStr (formatQueryParameter name v))"

subsection \<open>The registry\<close>

datatype formatId =
    Lucene | Raw | Regex | Pipe | Distributed | Csv | Html | JsonF | PercentEncode | SingleQuote
  | DoubleQuote | SqlString | Date | Glob | Text | QueryParam

definition formatIds :: "(jsstr \<times> formatId) list" where
  "formatIds =
     [(js ''lucene'', Lucene), (js ''raw'', Raw), (js ''regex'', Regex), (js ''pipe'', Pipe),
      (js ''distributed'', Distributed), (js ''csv'', Csv), (js ''html'', Html), (js ''json'', JsonF),
      (js ''percentencode'', PercentEncode), (js ''singlequote'', SingleQuote),
      (js ''doublequote'', DoubleQuote), (js ''sqlstring'', SqlString), (js ''date'', Date),
      (js ''glob'', Glob), (js ''text'', Text), (js ''queryparam'', QueryParam)]"

record formatOptions =
  fo_value :: jsval
  fo_args :: "jsstr list"
  fo_text :: jsval

definition formatter :: "(jsstr \<Rightarrow> jsval \<Rightarrow> jsstr) \<Rightarrow> formatId \<Rightarrow> formatOptions \<Rightarrow> jsobj \<Rightarrow> jsval option" where
  "formatter formatDate f opts m =
     (let v = fo_value opts; name = field m (js ''name'')
      in case f of
           Lucene \<Rightarrow> luceneFormat v
         | Raw \<Rightarrow> Some v
         | Regex \<Rightarrow> regexFormat v
         | Pipe \<Rightarrow> pipeFormat v
         | Distributed \<Rightarrow> distributedFormat name v
         | Csv \<Rightarrow> Some (csvFormat v)
         | Html \<Rightarrow> Some (htmlFormat v)
         | JsonF \<Rightarrow> Some (jsonFormat v)
         | PercentEncode \<Rightarrow> percentEncodeFormat v
         | SingleQuote \<Rightarrow> Some (singleQuoteFormat v)
         | DoubleQuote \<Rightarrow> Some (doubleQuoteFormat v)
         | SqlString \<Rightarrow> Some (sqlStringFormat v)
         | Date \<Rightarrow> Some (dateFormat formatDate (fo_args opts) v)
         | Glob \<Rightarrow> Some (globFormat v)
         | Text \<Rightarrow> Some (textFormat (fo_text opts) m v)
         | QueryParam \<Rightarrow> queryParamFormat name v)"

end
