(* ===== verification/TemplateSrv.thy ===== *)
theory TemplateSrv
  imports TemplateFormats
begin

text \<open>
  The interpolation of variables in texts: the class \<open>TemplateSrv\<close> of
  \<open>features/templating/template_srv.ts\<close>.

  The store's variables (\<open>getVariableWithName\<close>), lodash's \<open>property\<close>, the library of dates and the
  settings of the data sources are an argument.  \<open>replace\<close> calls itself on the custom value of an
  \<open>All\<close> option, so it takes fuel, one unit for each call within another; an exception is the other error.
\<close>

subsection \<open>State\<close>

record templateSrv =
  ts_variables :: "jsobj list"
  ts_index :: "(jsstr, jsobj) obj"
  ts_grafanaVariables :: jsobj
  ts_timeRange :: "(int \<times> int) option"

record templateEnv =
  te_getVariableWithName :: "jsstr \<Rightarrow> jsobj option"
  te_property :: "jsstr \<Rightarrow> jsval \<Rightarrow> jsval"
  te_formatDate :: "jsstr \<Rightarrow> jsval \<Rightarrow> jsstr"
  te_getInstanceSettings :: "jsstr \<Rightarrow> jsobj option"
  te_adHocVariables :: "jsobj list"

definition existsOrEmpty :: "jsval \<Rightarrow> bool" where
  "existsOrEmpty v \<longleftrightarrow> isTruthy v \<or> v = JStr []"

definition isIndexed :: "jsobj \<Rightarrow> bool" where
  "isIndexed m \<longleftrightarrow>
     (let current = field m (js ''current'')
      in isTruthy current \<and>
         (isTruthy (valField current (js ''isNone'')) \<or> existsOrEmpty (valField current (js ''value''))))"

definition currentObject :: "jsval \<Rightarrow> jsobj" where
  "currentObject v = [(js ''current'', v)]"

definition timeVariable :: "int \<Rightarrow> jsobj" where
  "timeVariable n =
     currentObject (JObj [(js ''value'', JStr (numToStr (Dec n 0))), (js ''text'', JStr (numToStr (Dec n 0)))])"

definition updateIndex :: "templateSrv \<Rightarrow> templateSrv" where
  "updateIndex srv =
     (let index = fold (\<lambda>m acc. if isIndexed m then objSet (jsString (field m (js ''name''))) m acc else acc)
                    (ts_variables srv) []
      in srv\<lparr>ts_index :=
           (case ts_timeRange srv of
              None \<Rightarrow> index
            | Some (from, to) \<Rightarrow>
                objSpread index [(js ''__from'', timeVariable from), (js ''__to'', timeVariable to)])\<rparr>)"

definition newTemplateSrv :: templateSrv where
  "newTemplateSrv = \<lparr>ts_variables = [], ts_index = [], ts_grafanaVariables = [], ts_timeRange = None\<rparr>"

definition initTemplateSrv :: "jsobj list \<Rightarrow> (int \<times> int) option \<Rightarrow> templateSrv \<Rightarrow> templateSrv" where
  "initTemplateSrv variables timeRange srv =
     updateIndex (srv\<lparr>ts_variables := variables, ts_timeRange := timeRange\<rparr>)"

definition updateTimeRange :: "(int \<times> int) \<Rightarrow> templateSrv \<Rightarrow> templateSrv" where
  "updateTimeRange timeRange srv = updateIndex (srv\<lparr>ts_timeRange := Some timeRange\<rparr>)"

definition variableInitialized :: "jsobj \<Rightarrow> templateSrv \<Rightarrow> templateSrv" where
  "variableInitialized m srv = srv\<lparr>ts_index := objSet (jsString (field m (js ''name''))) m (ts_index srv)\<rparr>"

definition setGrafanaVariable :: "jsstr \<Rightarrow> jsval \<Rightarrow> templateSrv \<Rightarrow> templateSrv" where
  "setGrafanaVariable name v srv = srv\<lparr>ts_grafanaVariables := objSet name v (ts_grafanaVariables srv)\<rparr>"

definition setGlobalVariable :: "jsstr \<Rightarrow> jsval \<Rightarrow> templateSrv \<Rightarrow> templateSrv" where
  "setGlobalVariable name v srv = srv\<lparr>ts_index := objSpread (ts_index srv) [(name, currentObject v)]\<rparr>"

definition getVariableAtIndex :: "templateEnv \<Rightarrow> templateSrv \<Rightarrow> jsstr \<Rightarrow> jsobj option" where
  "getVariableAtIndex env srv name =
     (if name = [] then None
      else (case objGet (ts_index srv) name of
              Some m \<Rightarrow> Some m
            | None \<Rightarrow> te_getVariableWithName env name))"

definition containsTemplate :: "templateEnv \<Rightarrow> templateSrv \<Rightarrow> jsstr \<Rightarrow> bool" where
  "containsTemplate env srv target \<longleftrightarrow>
     target \<noteq> [] \<and>
     (case getVariableName target of None \<Rightarrow> False | Some name \<Rightarrow> getVariableAtIndex env srv name \<noteq> None)"

subsection \<open>Formatting a value\<close>

datatype valueFormat = FormatName jsstr | FormatFun "jsval \<Rightarrow> jsobj \<Rightarrow> jsval"

definition isAdHoc :: "jsobj \<Rightarrow> bool" where
  "isAdHoc m \<longleftrightarrow> typeOf m = JStr (js ''adhoc'')"

definition isQueryParam :: "valueFormat option \<Rightarrow> bool" where
  "isQueryParam format = (case format of Some (FormatName f) \<Rightarrow> f = js ''queryparam'' | _ \<Rightarrow> False)"

definition nullish :: "jsval \<Rightarrow> bool" where
  "nullish v \<longleftrightarrow> v = JNull \<or> v = JUndef"

definition formatValue ::
  "templateEnv \<Rightarrow> jsval \<Rightarrow> valueFormat option \<Rightarrow> jsobj option \<Rightarrow> jsval \<Rightarrow> jsval option" where
  "formatValue env v format variable text =
     (let m = (case variable of None \<Rightarrow> [] | Some m \<Rightarrow> m)
      in if nullish v then Some (JStr [])
         else if isAdHoc m \<and> \<not> isQueryParam format then Some (JStr [])
         else
           let value = (case v of JObj _ \<Rightarrow> JStr (jsString v) | _ \<Rightarrow> v)
           in case format of
                Some (FormatFun g) \<Rightarrow> Some (g value m)
              | _ \<Rightarrow>
                  let name = (case format of Some (FormatName f) \<Rightarrow> if f = [] then js ''glob'' else f | _ \<Rightarrow> js ''glob'');
                      parts = splitOn 58 name;
                      item = (case objGet formatIds (hd parts) of Some f \<Rightarrow> f | None \<Rightarrow> Glob)
                  in formatter (te_formatDate env) item
                       \<lparr>fo_value = value, fo_args = tl parts, fo_text = (if nullish text then value else text)\<rparr> m)"

subsection \<open>Replacing the references in a text\<close>

definition isAllValue :: "jsval \<Rightarrow> bool" where
  "isAllValue v \<longleftrightarrow> v = JStr ALL_VARIABLE_VALUE \<or> (case v of JArr (w # _) \<Rightarrow> w = JStr ALL_VARIABLE_VALUE | _ \<Rightarrow> False)"

definition getAllValue :: "jsobj \<Rightarrow> jsval option" where
  "getAllValue m =
     (if isTruthy (field m (js ''allValue'')) then Some (field m (js ''allValue''))
      else (case field m (js ''options'') of
              JArr os \<Rightarrow> Some (JArr (map (\<lambda>o'. valField o' (js ''value'')) (tl os)))
            | _ \<Rightarrow> None))"

definition getVariableValue :: "templateEnv \<Rightarrow> jsstr option \<Rightarrow> jsval \<Rightarrow> jsval" where
  "getVariableValue env fieldPath scopedVar =
     (if \<not> isTruthy scopedVar then JNull
      else (case fieldPath of
              Some p \<Rightarrow> te_property env p (valField scopedVar (js ''value''))
            | None \<Rightarrow> valField scopedVar (js ''value'')))"

definition getVariableText :: "jsval \<Rightarrow> jsval \<Rightarrow> jsval" where
  "getVariableText v scopedVar =
     (if \<not> isTruthy scopedVar then JNull
      else (case v of
              JStr _ \<Rightarrow> if valField scopedVar (js ''value'') = v then valField scopedVar (js ''text'') else v
            | _ \<Rightarrow> valField scopedVar (js ''text'')))"

datatype replaceError = ReplaceThrew | ReplaceFuel

definition toResult :: "jsval option \<Rightarrow> replaceError + jsstr" where
  "toResult r = (case r of None \<Rightarrow> Inl ReplaceThrew | Some v \<Rightarrow> Inr (jsString v))"

definition refName :: "varMatch \<Rightarrow> jsstr" where
  "refName m =
     (case vm_var1 m of Some v \<Rightarrow> v
      | None \<Rightarrow> (case vm_var2 m of Some v \<Rightarrow> v | None \<Rightarrow> (case vm_var3 m of Some v \<Rightarrow> v | None \<Rightarrow> [])))"

definition refFormat :: "valueFormat option \<Rightarrow> varMatch \<Rightarrow> valueFormat option" where
  "refFormat format m =
     (case vm_fmt2 m of
        Some f \<Rightarrow> Some (FormatName f)
      | None \<Rightarrow> (case vm_fmt3 m of Some f \<Rightarrow> Some (FormatName f) | None \<Rightarrow> format))"

text \<open>A variable, without its scoped value; \<open>again\<close> is the recursive call.\<close>

definition replaceVariable ::
  "(jsstr \<Rightarrow> replaceError + jsstr) \<Rightarrow> templateEnv \<Rightarrow> templateSrv \<Rightarrow> valueFormat option \<Rightarrow> jsstr option \<Rightarrow> jsobj \<Rightarrow>
   replaceError + jsstr" where
  "replaceVariable again env srv fmt fieldPath m =
     (if isQueryParam fmt \<or> isAdHoc m
      then (case (getValueForUrl m, if isAdHoc m then Some (field m (js ''id'')) else currentProp (js ''text'') m) of
              (Some v, Some text) \<Rightarrow> toResult (formatValue env v fmt (Some m) text)
            | _ \<Rightarrow> Inl ReplaceThrew)
      else (case (currentProp (js ''value'') m, currentProp (js ''text'') m) of
              (Some v, Some text) \<Rightarrow>
                let systemValue = field (ts_grafanaVariables srv) (jsString v);
                    allText = (fmt = Some (FormatName (js ''text'')))
                in if isTruthy systemValue then toResult (formatValue env systemValue fmt (Some m) JUndef)
                   else if isAllValue v \<and> isTruthy (field m (js ''allValue'')) \<and> \<not> allText
                   then (case field m (js ''allValue'') of JStr s \<Rightarrow> again s | _ \<Rightarrow> Inl ReplaceThrew)
                   else (case (if isAllValue v then getAllValue m else Some v) of
                           None \<Rightarrow> Inl ReplaceThrew
                         | Some value \<Rightarrow>
                             let label = (if isAllValue v then JStr ALL_VARIABLE_TEXT else text);
                                 fieldValue = (case fieldPath of Some p \<Rightarrow> te_property env p value | None \<Rightarrow> JUndef)
                             in toResult (formatValue env (if nullish fieldValue then value else fieldValue) fmt
                                            (Some m) label))
            | _ \<Rightarrow> Inl ReplaceThrew))"

definition replaceRef ::
  "(jsstr \<Rightarrow> replaceError + jsstr) \<Rightarrow> templateEnv \<Rightarrow> templateSrv \<Rightarrow> jsobj option \<Rightarrow> valueFormat option \<Rightarrow> varMatch \<Rightarrow>
   replaceError + jsstr" where
  "replaceRef again env srv scopedVars format r =
     (let variable = getVariableAtIndex env srv (refName r);
          fmt = refFormat format r;
          scopedVar = (case scopedVars of None \<Rightarrow> JUndef | Some sv \<Rightarrow> field sv (refName r));
          scopedValue = getVariableValue env (vm_fieldPath r) scopedVar
      in if \<not> nullish scopedValue
         then toResult (formatValue env scopedValue fmt variable (getVariableText scopedValue scopedVar))
         else (case variable of
                 None \<Rightarrow> Inr (vm_text r)
               | Some m \<Rightarrow> replaceVariable again env srv fmt (vm_fieldPath r) m))"

fun joinResults :: "('e + 'a list) list \<Rightarrow> 'e + 'a list" where
  "joinResults [] = Inr []"
| "joinResults (r # rs) =
     (case r of Inl e \<Rightarrow> Inl e | Inr s \<Rightarrow> (case joinResults rs of Inl e \<Rightarrow> Inl e | Inr t \<Rightarrow> Inr (s @ t)))"

definition replacePart ::
  "(jsstr \<Rightarrow> replaceError + jsstr) \<Rightarrow> templateEnv \<Rightarrow> templateSrv \<Rightarrow> jsobj option \<Rightarrow> valueFormat option \<Rightarrow> textPart \<Rightarrow>
   replaceError + jsstr" where
  "replacePart again env srv scopedVars format p =
     (case p of Plain c \<Rightarrow> Inr [c] | Ref r \<Rightarrow> replaceRef again env srv scopedVars format r)"

fun replaceTemplate ::
  "nat \<Rightarrow> templateEnv \<Rightarrow> templateSrv \<Rightarrow> jsobj option \<Rightarrow> valueFormat option \<Rightarrow> jsstr \<Rightarrow> replaceError + jsstr" where
  "replaceTemplate 0 env srv scopedVars format target = Inl ReplaceFuel"
| "replaceTemplate (Suc n) env srv scopedVars format target =
     joinResults
       (map (replacePart (replaceTemplate n env srv None None) env srv scopedVars format) (textParts target))"

definition replaceWithText :: "nat \<Rightarrow> templateEnv \<Rightarrow> templateSrv \<Rightarrow> jsobj option \<Rightarrow> jsstr \<Rightarrow> replaceError + jsstr" where
  "replaceWithText n env srv scopedVars target =
     replaceTemplate n env srv scopedVars (Some (FormatName (js ''text''))) target"

text \<open>lodash's \<open>escape\<close>\<close>

definition lodashEscape :: "jsstr \<Rightarrow> jsstr" where
  "lodashEscape s =
     concat (map (\<lambda>c. if c = 38 then js ''&amp;'' else if c = 60 then js ''&lt;'' else if c = 62 then js ''&gt;''
                      else if c = 34 then js ''&quot;'' else if c = 39 then js ''&#39;'' else [c]) s)"

definition highlightVariablesAsHtml :: "templateEnv \<Rightarrow> templateSrv \<Rightarrow> jsstr \<Rightarrow> jsstr" where
  "highlightVariablesAsHtml env srv s =
     replaceMatches
       (\<lambda>r. if getVariableAtIndex env srv (refName r) \<noteq> None
            then js ''<span class='' @ [34] @ js ''template-variable'' @ [34] @ js ''>'' @ vm_text r @ js ''</span>''
            else vm_text r)
       (lodashEscape s)"

text \<open>\<open>getAdhocFilters\<close>\<close>

definition getAdhocFilters :: "nat \<Rightarrow> templateEnv \<Rightarrow> templateSrv \<Rightarrow> jsstr \<Rightarrow> replaceError + jsval list" where
  "getAdhocFilters n env srv datasourceName =
     (case te_getInstanceSettings env datasourceName of
        None \<Rightarrow> Inr []
      | Some ds \<Rightarrow>
          joinResults (map (\<lambda>m.
            let uid = valField (field m (js ''datasource'')) (js ''uid'');
                filters = (case field m (js ''filters'') of JArr fs \<Rightarrow> fs | v \<Rightarrow> [v])
            in if uid = field ds (js ''uid'') then Inr filters
               else (case uid of
                       JStr u \<Rightarrow>
                         if startsWith [36] u
                         then (case replaceTemplate n env srv None None u of
                                 Inl e \<Rightarrow> Inl e
                               | Inr s \<Rightarrow> Inr (if s = datasourceName then filters else []))
                         else Inr []
                     | _ \<Rightarrow> Inr []))
            (te_adHocVariables env)))"

end
