(* ===== verification/Intervals.thy ===== *)
theory Intervals
  imports TemplateSrv
begin

text \<open>
  The widths of the intervals of a time range (\<open>datetime/rangeutil.ts\<close> of the data package), which are
  written as text and read back, and the value \<open>auto\<close> of an interval variable that is computed with them
  (\<open>features/variables/interval/actions.ts\<close>).

  Widths are whole numbers of milliseconds; a duration in seconds is modelled by its milliseconds, for which
  the divisions and remainders of the code are exact; products beyond 2 ^ 53 are not rounded.
\<close>

subsection \<open>Rounding\<close>

text \<open>Whether \<open>d / r\<close> is less than \<open>c\<close>.\<close>

definition quotientBelow :: "int \<Rightarrow> jsnum \<Rightarrow> int \<Rightarrow> bool" where
  "quotientBelow d r c =
     (case r of
        NaN \<Rightarrow> False
      | Infinity _ \<Rightarrow> 0 < c
      | Dec m k \<Rightarrow>
          (let n = d * 10 ^ k in if 0 < m then n < c * m else if m < 0 then c * m < n else n < 0))"

definition roundedIntervals :: "(int \<times> int) list" where
  "roundedIntervals =
     [(10, 1), (15, 10), (35, 20), (75, 50), (150, 100), (350, 200), (750, 500), (1500, 1000), (3500, 2000),
      (7500, 5000), (12500, 10000), (17500, 15000), (25000, 20000), (45000, 30000), (90000, 60000),
      (210000, 120000), (450000, 300000), (750000, 600000), (1050000, 900000), (1500000, 1200000),
      (2700000, 1800000), (5400000, 3600000), (9000000, 7200000), (16200000, 10800000), (32400000, 21600000),
      (86400000, 43200000), (604800000, 86400000), (1814400000, 604800000), (3628800000, 2592000000)]"

definition roundInterval :: "int \<Rightarrow> jsnum \<Rightarrow> int" where
  "roundInterval d r =
     (case find (\<lambda>(bound, v). quotientBelow d r bound) roundedIntervals of
        Some (_, v) \<Rightarrow> v
      | None \<Rightarrow> 31536000000)"

subsection \<open>Writing and reading\<close>

definition secondsToHms :: "int \<Rightarrow> jsstr" where
  "secondsToHms ms =
     (let years = ms div 31536000000; days = ms mod 31536000000 div 86400000;
          hours = ms mod 31536000000 mod 86400000 div 3600000;
          minutes = ms mod 31536000000 mod 86400000 mod 3600000 div 60000;
          seconds = ms mod 31536000000 mod 86400000 mod 3600000 mod 60000 div 1000
      in if years \<noteq> 0 then numToStr (Dec years 0) @ js ''y''
         else if days \<noteq> 0 then numToStr (Dec days 0) @ js ''d''
         else if hours \<noteq> 0 then numToStr (Dec hours 0) @ js ''h''
         else if minutes \<noteq> 0 then numToStr (Dec minutes 0) @ js ''m''
         else if seconds \<noteq> 0 then numToStr (Dec seconds 0) @ js ''s''
         else if ms \<noteq> 0 then numToStr (Dec ms 0) @ js ''ms''
         else js ''less than a millisecond'')"

text \<open>\<open>parseInt(s, 10)\<close>; \<open>None\<close> is \<open>NaN\<close>.\<close>

definition parseInt :: "jsstr \<Rightarrow> int option" where
  "parseInt s =
     (let (neg, t) = signPrefix (trimStart s); ds = takeWhile isDigit t
      in if ds = [] then None else Some (if neg then - int (digitsVal ds) else int (digitsVal ds)))"

text \<open>The units, with the milliseconds of each; \<open>ms\<close> is looked for before \<open>m\<close>.\<close>

definition intervalUnits :: "(jsstr \<times> int) list" where
  "intervalUnits =
     [(js ''ms'', 1), (js ''M'', 2592000000), (js ''w'', 604800000), (js ''d'', 86400000), (js ''h'', 3600000),
      (js ''m'', 60000), (js ''s'', 1000), (js ''y'', 31536000000)]"

text \<open>\<open>interval_regex\<close> at a position: the text of the number and the unit.\<close>

definition intervalAt :: "jsstr \<Rightarrow> (jsstr \<times> jsstr \<times> int) option" where
  "intervalAt s =
     (let (sign, t) = (case s of c # t \<Rightarrow> if c = 45 then ([45], t) else ([], s) | [] \<Rightarrow> ([], s));
          ds = takeWhile isDigit t; u = dropWhile isDigit t;
          (fraction, w) =
            (case u of
               c # v \<Rightarrow> if c = 46 \<and> takeWhile isDigit v \<noteq> [] then (46 # takeWhile isDigit v, dropWhile isDigit v) else ([], u)
             | [] \<Rightarrow> ([], u))
      in if ds = [] then None
         else map_option (\<lambda>(unit, width). (sign @ ds @ fraction, unit, width))
                (find (\<lambda>(unit, width). startsWith unit w) intervalUnits))"

fun intervalMatch :: "jsstr \<Rightarrow> (jsstr \<times> jsstr \<times> int) option" where
  "intervalMatch [] = None"
| "intervalMatch (c # s) = (case intervalAt (c # s) of Some m \<Rightarrow> Some m | None \<Rightarrow> intervalMatch s)"

text \<open>\<open>Number(v)\<close>; an array or an object is converted by its text.\<close>

definition numberOf :: "jsval \<Rightarrow> jsnum" where
  "numberOf v =
     (case v of
        JUndef \<Rightarrow> NaN
      | JNull \<Rightarrow> Dec 0 0
      | JBool b \<Rightarrow> Dec (of_bool b) 0
      | JNum n \<Rightarrow> n
      | _ \<Rightarrow> toNumber (jsString v))"

record intervalInfo =
  in_unit :: jsstr
  in_width :: int
  in_count :: "int option"

text \<open>\<open>None\<close> if it throws: a text that is no interval, or a value without the method \<open>match\<close>.\<close>

definition describeInterval :: "jsval \<Rightarrow> intervalInfo option" where
  "describeInterval v =
     (if isTruthy (JNum (numberOf v))
      then Some \<lparr>in_unit = js ''s'', in_width = 1000, in_count = parseInt (jsString v)\<rparr>
      else (case v of
              JStr s \<Rightarrow>
                map_option (\<lambda>(number, unit, width). \<lparr>in_unit = unit, in_width = width, in_count = parseInt number\<rparr>)
                  (intervalMatch s)
            | _ \<Rightarrow> None))"

definition intervalToMs :: "jsval \<Rightarrow> int option option" where
  "intervalToMs v = map_option (\<lambda>info. map_option (\<lambda>n. in_width info * n) (in_count info)) (describeInterval v)"

subsection \<open>The interval of a time range\<close>

record intervalValues =
  iv_intervalMs :: int
  iv_interval :: jsstr

definition calculateInterval :: "int \<Rightarrow> int \<Rightarrow> jsnum \<Rightarrow> jsval \<Rightarrow> intervalValues option" where
  "calculateInterval rangeFrom rangeTo resolution lowLimitInterval =
     map_option (\<lambda>lowLimitMs.
       let intervalMs = roundInterval (rangeTo - rangeFrom) resolution;
           result = (case lowLimitMs of Some l \<Rightarrow> if l > intervalMs then l else intervalMs | None \<Rightarrow> intervalMs)
       in \<lparr>iv_intervalMs = result, iv_interval = secondsToHms result\<rparr>)
     (if isTruthy lowLimitInterval then intervalToMs lowLimitInterval else Some (Some 1))"

text \<open>\<open>updateAutoValue\<close>: the value \<open>auto\<close> is stored in the template service under two names.\<close>

definition updateAutoValue :: "int \<Rightarrow> int \<Rightarrow> jsobj \<Rightarrow> templateSrv \<Rightarrow> templateSrv option" where
  "updateAutoValue rangeFrom rangeTo m srv =
     (if field m (js ''type'') \<noteq> JStr (js ''interval'') \<or> \<not> isTruthy (field m (js ''auto'')) then Some srv
      else map_option (\<lambda>res.
             setGrafanaVariable (js ''$__auto_interval'') (JStr (iv_interval res))
               (setGrafanaVariable (js ''$__auto_interval_'' @ jsString (field m (js ''name''))) (JStr (iv_interval res)) srv))
           (calculateInterval rangeFrom rangeTo (numberOf (field m (js ''auto_count''))) (field m (js ''auto_min''))))"

end
