(* ===== verification/IntervalsProps.thy ===== *)
theory IntervalsProps
  imports Intervals
begin

text \<open>
  What is written for a width is read back as the width, as far as its text says it; rounding keeps the
  order of time ranges; and what becomes of a minimum that is no interval.
\<close>

subsection \<open>Reading what was written\<close>

lemma numToStr_positive: "1 \<le> n \<Longrightarrow> n < 10 ^ 21 \<Longrightarrow> numToStr (Dec n 0) = natToStr (nat n)"
  by (simp add: numToStr_int smallInt_def)

text \<open>The units that are written; none of them continues a number.\<close>

definition writtenUnits :: "(jsstr \<times> int) list" where
  "writtenUnits =
     [(js ''y'', 31536000000), (js ''d'', 86400000), (js ''h'', 3600000), (js ''m'', 60000), (js ''s'', 1000), (js ''ms'', 1)]"

lemma writtenUnits_unit:
  assumes "(unit, width) \<in> set writtenUnits"
  shows "numberEnds unit" "find (\<lambda>(u, w). startsWith u unit) intervalUnits = Some (unit, width)" "unit \<noteq> []"
    "\<not> isSpace (last unit)" "\<not> isDigit (hd unit)" "hd unit \<noteq> 46"
  using assms
  by (auto simp: writtenUnits_def intervalUnits_def js_def numberEnds_def startsWith_def isSpace_def isDigit_def)

lemma number_with_unit:
  assumes "(unit, width) \<in> set writtenUnits" and "0 < n"
  shows "toNumber (natToStr n @ unit) = NaN"
proof -
  obtain c t where ct: "natToStr n = c # t" "isDigit c" using natToStr_Cons by blast
  have c: "c \<noteq> 48" using hd_natToStr [OF assms(2)] ct by simp
  note u = writtenUnits_unit [OF assms(1)]
  have "dropWhile isSpace (rev (natToStr n @ unit)) = rev (natToStr n @ unit)"
    using u(3,4) by (cases unit rule: rev_cases) simp_all
  then have "trim (natToStr n @ unit) = natToStr n @ unit"
    using isDigit_nospace [OF ct(2)] by (simp add: trim_def ct)
  moreover have "radixPrefix (natToStr n @ unit) = None"
    using c by (simp add: ct radixPrefix_def split: list.split)
  moreover have "signPrefix (natToStr n @ unit) = (False, natToStr n @ unit)" using ct by (simp add: signPrefix_digit)
  moreover have "natToStr n @ unit \<noteq> js ''Infinity''" using ct by (auto simp: js_def isDigit_def)
  moreover have "natToStr n @ unit \<noteq> []" using u(3) by simp
  ultimately show ?thesis
    using decimalPrefix_natToStr [OF u(1), of n] u(3) by (simp add: toNumber_def Let_def split: list.split)
qed

lemma read_interval:
  assumes "(unit, width) \<in> set writtenUnits" and "1 \<le> n" and "n < 10 ^ 21"
  shows "intervalToMs (JStr (numToStr (Dec n 0) @ unit)) = Some (Some (width * n))"
proof -
  let ?ds = "natToStr (nat n)"
  note u = writtenUnits_unit [OF assms(1)]
  obtain c t where ct: "?ds = c # t" "isDigit c" using natToStr_Cons by blast
  have nan: "numberOf (JStr (?ds @ unit)) = NaN"
    using number_with_unit [OF assms(1), of "nat n"] assms(2) by (simp add: numberOf_def)
  have w: "takeWhile isDigit (?ds @ unit) = ?ds" "dropWhile isDigit (?ds @ unit) = unit"
    using natToStr_digits [of "nat n"] u(3,5)
    by (cases unit; simp add: takeWhile_all_append dropWhile_all_append)+
  have "intervalAt (?ds @ unit) = Some (?ds, unit, width)"
    using w u(2,3,6) ct by (cases unit) (auto simp: intervalAt_def Let_def isDigit_def)
  then have "intervalMatch (?ds @ unit) = Some (?ds, unit, width)" by (simp add: ct)
  moreover have "parseInt ?ds = Some n"
  proof -
    have ds: "takeWhile isDigit ?ds = ?ds" using natToStr_digits [of "nat n"] by (simp add: takeWhile_eq_all_conv)
    have sign: "signPrefix (trimStart ?ds) = (False, ?ds)"
      using ct by (simp add: trimStart_nospace isDigit_nospace signPrefix_digit)
    show ?thesis unfolding parseInt_def Let_def sign case_prod_conv ds using assms(2) by simp
  qed
  ultimately show ?thesis
    using nan numToStr_positive [OF assms(2,3)] by (simp add: intervalToMs_def describeInterval_def isTruthy_def)
qed

text \<open>The width that is written: whole units of the largest unit that fits.\<close>

definition writtenWidth :: "int \<Rightarrow> int" where
  "writtenWidth ms =
     (let width = (if 31536000000 \<le> ms then 31536000000 else if 86400000 \<le> ms then 86400000
                   else if 3600000 \<le> ms then 3600000 else if 60000 \<le> ms then 60000
                   else if 1000 \<le> ms then 1000 else 1)
      in width * (ms div width))"

lemma secondsToHms_written:
  assumes "1 \<le> ms" and "ms < 10 ^ 21"
  shows "\<exists>n unit width. (unit, width) \<in> set writtenUnits \<and> 1 \<le> n \<and> n < 10 ^ 21 \<and>
    secondsToHms ms = numToStr (Dec n 0) @ unit \<and> width * n = writtenWidth ms"
proof -
  have small: "ms < u \<Longrightarrow> ms div u = 0 \<and> ms mod u = ms" for u using assms(1) by simp
  have some_units: "1 \<le> ms div u \<and> ms div u \<noteq> 0 \<and> ms div u < 10 ^ 21" if "u \<le> ms" "0 < u" for u
  proof -
    have "1 \<le> ms div u" using that by (simp add: pos_imp_zdiv_pos_iff int_one_le_iff_zero_less)
    moreover have "ms div u \<le> ms" using that assms(1) zdiv_mono2 [of ms 1 u] by simp
    ultimately show ?thesis using assms(2) by simp
  qed
  consider "31536000000 \<le> ms" | "86400000 \<le> ms" "ms < 31536000000" | "3600000 \<le> ms" "ms < 86400000"
    | "60000 \<le> ms" "ms < 3600000" | "1000 \<le> ms" "ms < 60000" | "ms < 1000" by linarith
  then show ?thesis
  proof cases
    case 1
    have n: "1 \<le> ms div 31536000000" "ms div 31536000000 \<noteq> 0" "ms div 31536000000 < 10 ^ 21" using 1 some_units [of 31536000000] by simp_all
    have "secondsToHms ms = numToStr (Dec (ms div 31536000000) 0) @ js ''y''"
      unfolding secondsToHms_def Let_def by (simp only:  n(2) simp_thms if_True if_False)
    moreover have "writtenWidth ms = 31536000000 * (ms div 31536000000)" unfolding writtenWidth_def using 1 by simp
    ultimately show ?thesis
      using n by (intro exI [of _ "ms div 31536000000"] exI [of _ "js ''y''"] exI [of _ 31536000000]) (simp add: writtenUnits_def)
  next
    case 2
    have z0: "ms div 31536000000 = 0" "ms mod 31536000000 = ms" using 2 small [of 31536000000] by simp_all
    have n: "1 \<le> ms div 86400000" "ms div 86400000 \<noteq> 0" "ms div 86400000 < 10 ^ 21" using 2 some_units [of 86400000] by simp_all
    have "secondsToHms ms = numToStr (Dec (ms div 86400000) 0) @ js ''d''"
      unfolding secondsToHms_def Let_def by (simp only: z0 n(2) simp_thms if_True if_False)
    moreover have "writtenWidth ms = 86400000 * (ms div 86400000)" unfolding writtenWidth_def using 2 by simp
    ultimately show ?thesis
      using n by (intro exI [of _ "ms div 86400000"] exI [of _ "js ''d''"] exI [of _ 86400000]) (simp add: writtenUnits_def)
  next
    case 3
    have z0: "ms div 31536000000 = 0" "ms mod 31536000000 = ms" using 3 small [of 31536000000] by simp_all
    have z1: "ms div 86400000 = 0" "ms mod 86400000 = ms" using 3 small [of 86400000] by simp_all
    have n: "1 \<le> ms div 3600000" "ms div 3600000 \<noteq> 0" "ms div 3600000 < 10 ^ 21" using 3 some_units [of 3600000] by simp_all
    have "secondsToHms ms = numToStr (Dec (ms div 3600000) 0) @ js ''h''"
      unfolding secondsToHms_def Let_def by (simp only: z0 z1 n(2) simp_thms if_True if_False)
    moreover have "writtenWidth ms = 3600000 * (ms div 3600000)" unfolding writtenWidth_def using 3 by simp
    ultimately show ?thesis
      using n by (intro exI [of _ "ms div 3600000"] exI [of _ "js ''h''"] exI [of _ 3600000]) (simp add: writtenUnits_def)
  next
    case 4
    have z0: "ms div 31536000000 = 0" "ms mod 31536000000 = ms" using 4 small [of 31536000000] by simp_all
    have z1: "ms div 86400000 = 0" "ms mod 86400000 = ms" using 4 small [of 86400000] by simp_all
    have z2: "ms div 3600000 = 0" "ms mod 3600000 = ms" using 4 small [of 3600000] by simp_all
    have n: "1 \<le> ms div 60000" "ms div 60000 \<noteq> 0" "ms div 60000 < 10 ^ 21" using 4 some_units [of 60000] by simp_all
    have "secondsToHms ms = numToStr (Dec (ms div 60000) 0) @ js ''m''"
      unfolding secondsToHms_def Let_def by (simp only: z0 z1 z2 n(2) simp_thms if_True if_False)
    moreover have "writtenWidth ms = 60000 * (ms div 60000)" unfolding writtenWidth_def using 4 by simp
    ultimately show ?thesis
      using n by (intro exI [of _ "ms div 60000"] exI [of _ "js ''m''"] exI [of _ 60000]) (simp add: writtenUnits_def)
  next
    case 5
    have z0: "ms div 31536000000 = 0" "ms mod 31536000000 = ms" using 5 small [of 31536000000] by simp_all
    have z1: "ms div 86400000 = 0" "ms mod 86400000 = ms" using 5 small [of 86400000] by simp_all
    have z2: "ms div 3600000 = 0" "ms mod 3600000 = ms" using 5 small [of 3600000] by simp_all
    have z3: "ms div 60000 = 0" "ms mod 60000 = ms" using 5 small [of 60000] by simp_all
    have n: "1 \<le> ms div 1000" "ms div 1000 \<noteq> 0" "ms div 1000 < 10 ^ 21" using 5 some_units [of 1000] by simp_all
    have "secondsToHms ms = numToStr (Dec (ms div 1000) 0) @ js ''s''"
      unfolding secondsToHms_def Let_def by (simp only: z0 z1 z2 z3 n(2) simp_thms if_True if_False)
    moreover have "writtenWidth ms = 1000 * (ms div 1000)" unfolding writtenWidth_def using 5 by simp
    ultimately show ?thesis
      using n by (intro exI [of _ "ms div 1000"] exI [of _ "js ''s''"] exI [of _ 1000]) (simp add: writtenUnits_def)
  next
    case 6
    have z0: "ms div 31536000000 = 0" "ms mod 31536000000 = ms" using 6 small [of 31536000000] by simp_all
    have z1: "ms div 86400000 = 0" "ms mod 86400000 = ms" using 6 small [of 86400000] by simp_all
    have z2: "ms div 3600000 = 0" "ms mod 3600000 = ms" using 6 small [of 3600000] by simp_all
    have z3: "ms div 60000 = 0" "ms mod 60000 = ms" using 6 small [of 60000] by simp_all
    have z4: "ms div 1000 = 0" "ms mod 1000 = ms" using 6 small [of 1000] by simp_all
    have n: "1 \<le> ms" "ms \<noteq> 0" "ms < 10 ^ 21" using 6 assms by simp_all
    have "secondsToHms ms = numToStr (Dec (ms) 0) @ js ''ms''"
      unfolding secondsToHms_def Let_def by (simp only: z0 z1 z2 z3 z4 n(2) simp_thms if_True if_False)
    moreover have "writtenWidth ms = 1 * (ms)" unfolding writtenWidth_def using 6 by simp
    ultimately show ?thesis
      using n by (intro exI [of _ "ms"] exI [of _ "js ''ms''"] exI [of _ 1]) (simp add: writtenUnits_def)
  qed
qed

lemma written_read_back:
  assumes "1 \<le> ms" and "ms < 10 ^ 21"
  shows "intervalToMs (JStr (secondsToHms ms)) = Some (Some (writtenWidth ms))"
  using secondsToHms_written [OF assms] read_interval by metis

text \<open>
  Claim C29. The text written for any width is that of an interval, and reading it gives the width rounded
  down to whole units: more than half of it, and never more than it.
\<close>

theorem written_interval_bounds:
  assumes "1 \<le> ms" and "ms < 10 ^ 21"
  shows "\<exists>w. intervalToMs (JStr (secondsToHms ms)) = Some (Some w) \<and> w \<le> ms \<and> ms < 2 * w"
proof -
  have "ms div u * u \<le> ms" "ms < 2 * (u * (ms div u))" if "0 < u" "u \<le> ms" for u :: int
  proof -
    have "ms = u * (ms div u) + ms mod u" "ms mod u < u" "0 \<le> ms mod u" using that by simp_all
    moreover have "1 \<le> ms div u" using that by (simp add: pos_imp_zdiv_pos_iff int_one_le_iff_zero_less)
    then have "u \<le> u * (ms div u)" using that(1) by simp
    ultimately show "ms div u * u \<le> ms" "ms < 2 * (u * (ms div u))" unfolding mult.commute [of "ms div u"] by linarith+
  qed
  then have "writtenWidth ms \<le> ms \<and> ms < 2 * writtenWidth ms"
    using assms(1) by (simp add: writtenWidth_def Let_def mult.commute)
  then show ?thesis using written_read_back [OF assms] by blast
qed

lemma written_interval_bounds_witness:
  "\<exists>w. intervalToMs (JStr (secondsToHms 90000)) = Some (Some w) \<and> w \<le> 90000 \<and> 90000 < 2 * w"
  using written_interval_bounds [of 90000] by simp

subsection \<open>Rounded widths\<close>

lemma roundInterval_cases: "roundInterval d r \<in> set (31536000000 # map snd roundedIntervals)"
proof (cases "find (\<lambda>(bound, v). quotientBelow d r bound) roundedIntervals")
  case None
  then show ?thesis by (simp add: roundInterval_def)
next
  case (Some p)
  then have "p \<in> set roundedIntervals" by (metis find_Some_iff nth_mem)
  then have "snd p \<in> set (map snd roundedIntervals)" by simp
  then show ?thesis using Some by (simp add: roundInterval_def case_prod_beta del: set_map)
qed

lemma rounded_written: "list_all (\<lambda>ms. 1 \<le> ms \<and> ms \<le> 31536000000 \<and> writtenWidth ms = ms) (31536000000 # map snd roundedIntervals)"
  by (simp add: roundedIntervals_def writtenWidth_def)

text \<open>
  Claim C28. Every interval that a time range is rounded to survives being written as text and read back,
  whatever the time range and the number of intervals asked for.
\<close>

theorem rounded_intervals_survive:
  "intervalToMs (JStr (secondsToHms (roundInterval d r))) = Some (Some (roundInterval d r)) \<and>
   1 \<le> roundInterval d r \<and> roundInterval d r \<le> 31536000000"
proof -
  let ?ms = "roundInterval d r"
  have ms: "1 \<le> ?ms" "?ms \<le> 31536000000" "writtenWidth ?ms = ?ms"
    using roundInterval_cases [of d r] rounded_written unfolding list_all_iff by blast+
  then show ?thesis using written_read_back [of ?ms] by simp
qed

subsection \<open>Order\<close>

text \<open>The first entry that is true of the larger range comes after that of the smaller one.\<close>

lemma find_value_mono:
  assumes "sorted (map snd table)" and "\<forall>v \<in> set (map snd table). v \<le> most"
    and "\<And>bound. below' bound \<Longrightarrow> below bound"
  shows "(case find (\<lambda>(bound, v). below bound) table of Some (_, v) \<Rightarrow> v | None \<Rightarrow> most) \<le>
    (case find (\<lambda>(bound, v). below' bound) table of Some (_, v) \<Rightarrow> v | None \<Rightarrow> (most :: int))"
  using assms(1,2)
proof (induction table)
  case Nil
  then show ?case by simp
next
  case (Cons p table)
  obtain bound v where p: "p = (bound, v)" by (cases p)
  have "v \<le> (case find (\<lambda>(bound, v). below' bound) table of Some (_, v) \<Rightarrow> v | None \<Rightarrow> most)"
    using Cons.prems p by (force simp: find_Some_iff dest: nth_mem split: option.split)
  then show ?case using Cons p assms(3) by auto
qed

lemma roundedIntervals_sorted:
  "sorted (map snd roundedIntervals)" "\<forall>v \<in> set (map snd roundedIntervals). v \<le> 31536000000"
  by (simp_all add: roundedIntervals_def)

text \<open>
  A longer time range never gets shorter intervals.
\<close>

theorem roundInterval_mono:
  assumes "d \<le> d'" and "0 < m"
  shows "roundInterval d (Dec m k) \<le> roundInterval d' (Dec m k)"
proof -
  have "d * 10 ^ k \<le> d' * 10 ^ k" using assms(1) by (intro mult_right_mono) simp_all
  then have "quotientBelow d' (Dec m k) bound \<Longrightarrow> quotientBelow d (Dec m k) bound" for bound
    unfolding quotientBelow_def Let_def jsnum.case using assms(2) by (simp only: if_True)
  then show ?thesis
    unfolding roundInterval_def
    by (rule find_value_mono [OF roundedIntervals_sorted])
qed

lemma roundInterval_mono_witness: "roundInterval 3600000 (Dec 30 0) \<le> roundInterval 86400000 (Dec 30 0)"
  using roundInterval_mono [of 3600000 86400000 30 0] by simp

subsection \<open>Values that are no whole intervals\<close>

text \<open>
  Decimals are allowed but cut off, a zero without a unit is refused, and the text of a minimum that is not
  a whole number of its largest unit is that of a shorter interval than the minimum.
\<close>

lemma decimals_cut_off: "intervalToMs (JStr (js ''1.5h'')) = Some (Some 3600000)"
  by (simp add: js_defs intervalToMs_def describeInterval_def numberOf_def isTruthy_def intervalAt_def intervalUnits_def
      parseInt_def)

lemma zero_refused: "describeInterval (JStr (js ''0'')) = None"
  by (simp add: js_defs describeInterval_def numberOf_def isTruthy_def intervalAt_def intervalUnits_def)

lemma minimum_not_kept:
  "calculateInterval 0 1000 (Dec 10 0) (JStr (js ''90s'')) = Some \<lparr>iv_intervalMs = 90000, iv_interval = js ''1m''\<rparr> \<and>
   intervalToMs (JStr (js ''1m'')) = Some (Some 60000)"
  by (simp add: js_defs intervalToMs_def describeInterval_def numberOf_def isTruthy_def intervalAt_def intervalUnits_def
      parseInt_def calculateInterval_def roundInterval_def quotientBelow_def roundedIntervals_def secondsToHms_def numToStr_def)

end
