(* ===== verification/VariableAdapters.thy ===== *)
theory VariableAdapters
  imports VariableOptions
begin

text \<open>
  The types of variables: the state a new variable of each type starts with
  (\<open>features/variables/types.ts\<close> and the reducers of the types), what is done to a model before it is added,
  and the reducer of each type, as \<open>variableAdapters\<close> registers them.

  The function \<open>toString\<close> in the value of a system variable is not modelled.
\<close>

subsection \<open>Initial states\<close>

definition NEW_VARIABLE_ID :: jsstr where
  "NEW_VARIABLE_ID = js ''00000000-0000-0000-0000-000000000000''"

definition dontHide :: jsval where "dontHide = JInt 0"

definition hideVariable :: jsval where "hideVariable = JInt 2"

definition refreshNever :: jsval where "refreshNever = JInt 0"

definition onDashboardLoad :: jsval where "onDashboardLoad = JInt 1"

definition onTimeRangeChanged :: jsval where "onTimeRangeChanged = JInt 2"

definition initialVariableModelState :: jsobj where
  "initialVariableModelState =
     [(js ''id'', JStr NEW_VARIABLE_ID), (js ''rootStateKey'', JNull), (js ''name'', JStr []),
      (js ''type'', JStr (js ''query'')), (js ''global'', JBool False), (js ''index'', JInt (- 1)),
      (js ''hide'', dontHide), (js ''skipUrlSync'', JBool False), (js ''state'', JStr (js ''NotStarted'')),
      (js ''error'', JNull), (js ''description'', JNull)]"

definition initialModel :: "string \<Rightarrow> jsobj \<Rightarrow> jsobj" where
  "initialModel t own = objSpread initialVariableModelState ((js ''type'', JStr (js t)) # own)"

definition initialAdHocVariableModelState :: jsobj where
  "initialAdHocVariableModelState = initialModel ''adhoc'' [(js ''datasource'', JNull), (js ''filters'', JArr [])]"

definition initialConstantVariableModelState :: jsobj where
  "initialConstantVariableModelState =
     initialModel ''constant''
       [(js ''hide'', hideVariable), (js ''query'', JStr []), (js ''current'', JObj []), (js ''options'', JArr [])]"

definition initialTextBoxVariableModelState :: jsobj where
  "initialTextBoxVariableModelState =
     initialModel ''textbox''
       [(js ''query'', JStr []), (js ''current'', JObj []), (js ''options'', JArr []), (js ''originalQuery'', JNull)]"

definition initialCustomVariableModelState :: jsobj where
  "initialCustomVariableModelState =
     initialModel ''custom''
       [(js ''multi'', JBool False), (js ''includeAll'', JBool False), (js ''allValue'', JNull),
        (js ''query'', JStr []), (js ''options'', JArr []), (js ''current'', JObj [])]"

definition initialIntervalVariableModelState :: jsobj where
  "initialIntervalVariableModelState =
     initialModel ''interval''
       [(js ''auto_count'', JInt 30), (js ''auto_min'', JStr (js ''10s'')), (js ''options'', JArr []),
        (js ''auto'', JBool False), (js ''query'', JStr (js ''1m,10m,30m,1h,6h,12h,1d,7d,14d,30d'')),
        (js ''refresh'', onTimeRangeChanged), (js ''current'', JObj [])]"

definition initialDataSourceVariableModelState :: jsobj where
  "initialDataSourceVariableModelState =
     initialModel ''datasource''
       [(js ''current'', JObj []), (js ''regex'', JStr []), (js ''options'', JArr []), (js ''query'', JStr []),
        (js ''multi'', JBool False), (js ''includeAll'', JBool False), (js ''refresh'', onDashboardLoad)]"

definition initialQueryVariableModelState :: jsobj where
  "initialQueryVariableModelState =
     initialModel ''query''
       [(js ''datasource'', JNull), (js ''query'', JStr []), (js ''regex'', JStr []), (js ''sort'', JInt 0),
        (js ''refresh'', onDashboardLoad), (js ''multi'', JBool False), (js ''includeAll'', JBool False),
        (js ''allValue'', JNull), (js ''options'', JArr []), (js ''current'', JObj []), (js ''definition'', JStr [])]"

definition initialSystemVariableModelState :: jsobj where
  "initialSystemVariableModelState =
     initialModel ''system''
       [(js ''hide'', hideVariable), (js ''skipUrlSync'', JBool True), (js ''current'', JObj [(js ''value'', JObj [])]),
        (js ''state'', JStr (js ''Done''))]"

subsection \<open>Before a model is added\<close>

definition beforeAddingConstant :: "jsobj \<Rightarrow> jsobj" where
  "beforeAddingConstant model =
     (let query = field model (js ''query'');
          rest = fold objDelete [js ''current'', js ''options'', js ''query''] model;
          option = JObj [(js ''selected'', JBool True), (js ''text'', query), (js ''value'', query)]
      in objSpread rest [(js ''current'', option), (js ''options'', JArr [option]), (js ''query'', query)])"

definition beforeAddingTextBox :: "jsobj \<Rightarrow> jsobj" where
  "beforeAddingTextBox model = objSpread model [(js ''originalQuery'', field model (js ''query''))]"

definition variableAdapters :: adapters where
  "variableAdapters t =
     (if t = js ''query'' then Some \<lparr>ad_initialState = initialQueryVariableModelState, ad_beforeAdding = None\<rparr>
      else if t = js ''custom'' then Some \<lparr>ad_initialState = initialCustomVariableModelState, ad_beforeAdding = None\<rparr>
      else if t = js ''textbox''
      then Some \<lparr>ad_initialState = initialTextBoxVariableModelState, ad_beforeAdding = Some beforeAddingTextBox\<rparr>
      else if t = js ''constant''
      then Some \<lparr>ad_initialState = initialConstantVariableModelState, ad_beforeAdding = Some beforeAddingConstant\<rparr>
      else if t = js ''datasource''
      then Some \<lparr>ad_initialState = initialDataSourceVariableModelState, ad_beforeAdding = None\<rparr>
      else if t = js ''interval''
      then Some \<lparr>ad_initialState = initialIntervalVariableModelState, ad_beforeAdding = None\<rparr>
      else if t = js ''adhoc'' then Some \<lparr>ad_initialState = initialAdHocVariableModelState, ad_beforeAdding = None\<rparr>
      else if t = js ''system''
      then Some \<lparr>ad_initialState = initialSystemVariableModelState, ad_beforeAdding = None\<rparr>
      else None)"

subsection \<open>The reducers of the types\<close>

datatype typeAction =
    UpdateVariableOptions jsstr jsstr "jsobj list"
  | CreateCustomOptionsFromQuery jsstr
  | CreateTextBoxOptions jsstr
  | CreateConstantOptionsFromQuery jsstr
  | CreateDataSourceOptions jsstr "dataSource list" "jsRegex option" nat
  | CreateIntervalOptions jsstr
  | FilterAdded jsstr jsobj
  | FilterRemoved jsstr int
  | FilterUpdated jsstr nat jsobj
  | FiltersRestored jsstr "jsobj list"

text \<open>The texts of the source that are arguments: lower case and the compiler of regular expressions.\<close>

record textEnv =
  tx_toLower :: "jsstr \<Rightarrow> jsstr"
  tx_newRegExp :: "jsstr \<Rightarrow> jsstr \<Rightarrow> jsRegex option"

text \<open>The reducer an adapter has handles the actions of its own slice; the reducer of system handles none.\<close>

definition typeReducer :: "textEnv \<Rightarrow> jsstr \<Rightarrow> typeAction \<Rightarrow> variablesState \<Rightarrow> variablesState option" where
  "typeReducer env t a st =
     (case a of
        UpdateVariableOptions i regex results \<Rightarrow>
          if t = js ''query'' then updateVariableOptions (tx_toLower env) (tx_newRegExp env) i regex results st
          else Some st
      | CreateCustomOptionsFromQuery i \<Rightarrow> if t = js ''custom'' then createCustomOptionsFromQuery i st else Some st
      | CreateTextBoxOptions i \<Rightarrow> if t = js ''textbox'' then createTextBoxOptions i st else Some st
      | CreateConstantOptionsFromQuery i \<Rightarrow>
          if t = js ''constant'' then createConstantOptionsFromQuery i st else Some st
      | CreateDataSourceOptions i sources regex lastIndex \<Rightarrow>
          if t = js ''datasource'' then createDataSourceOptions i sources regex lastIndex st else Some st
      | CreateIntervalOptions i \<Rightarrow> if t = js ''interval'' then createIntervalOptions i st else Some st
      | FilterAdded i f \<Rightarrow> if t = js ''adhoc'' then filterAdded i f st else Some st
      | FilterRemoved i n \<Rightarrow> if t = js ''adhoc'' then filterRemoved i n st else Some st
      | FilterUpdated i n f \<Rightarrow> if t = js ''adhoc'' then filterUpdated i n f st else Some st
      | FiltersRestored i fs \<Rightarrow> if t = js ''adhoc'' then filtersRestored i fs st else Some st)"

end
