(* ===== verification/TemplatingStore.thy ===== *)
theory TemplatingStore
  imports VariableActions VariableAdapters OptionsPicker
begin

text \<open>
  The part of the store that holds the variables: one templating state for every dashboard key, of the
  variables, the transaction they are loaded in, the variable editor, the drop-down and the usages
  (\<open>features/variables/state/{keyedVariablesReducer,reducers,variablesReducer,transactionReducer,selectors}.ts\<close>,
  \<open>editor/reducer.ts\<close>, \<open>inspect/reducer.ts\<close>).

  An action that throws in a reducer is \<open>None\<close>.  A key is the text that \<open>toStateKey\<close> makes of it.
\<close>

subsection \<open>Actions\<close>

datatype editorAction =
    VariableEditorMounted jsstr jsstr
  | VariableEditorUnMounted
  | ChangeVariableNameFailed jsstr jsstr
  | AddVariableEditorError jsstr jsval
  | RemoveVariableEditorError jsstr
  | ChangeVariableEditorExtended jsobj
  | CleanEditorState

type_synonym usageNetwork = "jsobj \<times> graphNode list \<times> graphEdge list"

text \<open>An action on a variable carries the type of its payload.\<close>

datatype templatingAction =
    SharedAction jsstr variableAction
  | TypeAction jsstr typeAction
  | CleanVariables
  | InitTransaction jsval
  | CompleteTransaction jsval
  | ClearTransaction
  | EditorAction editorAction
  | PickerAction pickerAction
  | InitInspect "variableUsage list" "usageNetwork list"

subsection \<open>Transactions\<close>

datatype transactionStatus = TransactionNotStarted | TransactionFetching | TransactionCompleted

record transactionState =
  tr_uid :: jsval
  tr_status :: transactionStatus
  tr_isDirty :: bool

definition initialTransactionState :: transactionState where
  "initialTransactionState = \<lparr>tr_uid = JNull, tr_status = TransactionNotStarted, tr_isDirty = False\<rparr>"

definition actionAffectsDirtyState :: "templatingAction \<Rightarrow> bool" where
  "actionAffectsDirtyState a =
     (case a of
        SharedAction _ b \<Rightarrow>
          (case b of
             RemoveVariable _ _ \<Rightarrow> True | AddVariable _ \<Rightarrow> True | ChangeVariableProp _ _ _ \<Rightarrow> True
           | ChangeVariableOrder _ _ \<Rightarrow> True | DuplicateVariable _ _ _ \<Rightarrow> True | ChangeVariableType _ _ \<Rightarrow> True
           | _ \<Rightarrow> False)
      | _ \<Rightarrow> False)"

definition transactionReducer :: "templatingAction \<Rightarrow> transactionState \<Rightarrow> transactionState" where
  "transactionReducer a st =
     (let st1 =
        (case a of
           InitTransaction uid \<Rightarrow> st\<lparr>tr_uid := uid, tr_status := TransactionFetching\<rparr>
         | CompleteTransaction uid \<Rightarrow> if tr_uid st \<noteq> uid then st else st\<lparr>tr_status := TransactionCompleted\<rparr>
         | ClearTransaction \<Rightarrow> st\<lparr>tr_uid := JNull, tr_status := TransactionNotStarted, tr_isDirty := False\<rparr>
         | _ \<Rightarrow> st)
      in if actionAffectsDirtyState a \<and> tr_status st1 = TransactionCompleted then st1\<lparr>tr_isDirty := True\<rparr> else st1)"

subsection \<open>The variables\<close>

definition isGlobal :: "jsobj \<Rightarrow> bool" where
  "isGlobal m \<longleftrightarrow> isTruthy (field m (js ''global''))"

definition payloadType :: "jsstr \<Rightarrow> variableAction \<Rightarrow> jsstr" where
  "payloadType t a = (case a of AddVariable p \<Rightarrow> av_type p | DuplicateVariable _ t' _ \<Rightarrow> t' | _ \<Rightarrow> t)"

text \<open>
  Only a payload with the type of an adapter reaches the variables; the shared reducer comes first, then
  that of the type.
\<close>

definition variablesReducer :: "textEnv \<Rightarrow> templatingAction \<Rightarrow> variablesState \<Rightarrow> variablesState option" where
  "variablesReducer env a st =
     (case a of
        CleanVariables \<Rightarrow>
          Some (fold (\<lambda>m. objSet (jsString (field m (js ''id''))) m) (filter isGlobal (objectValues st)) [])
      | SharedAction t b \<Rightarrow>
          if variableAdapters (payloadType t b) = None then Some st else sharedReducer variableAdapters b st
      | TypeAction t b \<Rightarrow> if variableAdapters t = None then Some st else typeReducer env t b st
      | _ \<Rightarrow> Some st)"

subsection \<open>The variable editor\<close>

record variableEditorState =
  ed_id :: jsstr
  ed_isValid :: bool
  ed_errors :: "(jsstr, jsval) obj"
  ed_name :: jsstr
  ed_extended :: "jsobj option"

definition initialVariableEditorState :: variableEditorState where
  "initialVariableEditorState = \<lparr>ed_id = [], ed_isValid = True, ed_errors = [], ed_name = [], ed_extended = None\<rparr>"

definition setErrors :: "(jsstr, jsval) obj \<Rightarrow> variableEditorState \<Rightarrow> variableEditorState" where
  "setErrors errors st = st\<lparr>ed_errors := errors, ed_isValid := (errors = [])\<rparr>"

definition variableEditorReducer :: "templatingAction \<Rightarrow> variableEditorState \<Rightarrow> variableEditorState" where
  "variableEditorReducer a st =
     (case a of
        EditorAction b \<Rightarrow>
          (case b of
             VariableEditorMounted name i \<Rightarrow> st\<lparr>ed_name := name, ed_id := i\<rparr>
           | VariableEditorUnMounted \<Rightarrow> initialVariableEditorState
           | ChangeVariableNameFailed newName errorText \<Rightarrow>
               setErrors (objSet (js ''name'') (JStr errorText) (ed_errors st)) (st\<lparr>ed_name := newName\<rparr>)
           | AddVariableEditorError errorProp errorText \<Rightarrow> setErrors (objSet errorProp errorText (ed_errors st)) st
           | RemoveVariableEditorError errorProp \<Rightarrow> setErrors (objDelete errorProp (ed_errors st)) st
           | ChangeVariableEditorExtended e \<Rightarrow>
               st\<lparr>ed_extended := Some (objSpread (case ed_extended st of None \<Rightarrow> [] | Some x \<Rightarrow> x) e)\<rparr>
           | CleanEditorState \<Rightarrow> initialVariableEditorState)
      | SharedAction _ (ChangeVariableNameSucceeded i newName) \<Rightarrow>
          setErrors (objDelete (js ''name'') (ed_errors st)) (st\<lparr>ed_name := newName\<rparr>)
      | _ \<Rightarrow> st)"

subsection \<open>The usages\<close>

record variableInspectState =
  in_usages :: "variableUsage list"
  in_usagesNetwork :: "usageNetwork list"

definition initialVariableInspectState :: variableInspectState where
  "initialVariableInspectState = \<lparr>in_usages = [], in_usagesNetwork = []\<rparr>"

definition variableInspectReducer :: "templatingAction \<Rightarrow> variableInspectState \<Rightarrow> variableInspectState" where
  "variableInspectReducer a st =
     (case a of InitInspect us ns \<Rightarrow> st\<lparr>in_usages := us, in_usagesNetwork := ns\<rparr> | _ \<Rightarrow> st)"

subsection \<open>One dashboard\<close>

record templatingState =
  tp_editor :: variableEditorState
  tp_variables :: variablesState
  tp_optionsPicker :: optionsPickerState
  tp_transaction :: transactionState
  tp_inspect :: variableInspectState

definition initialTemplatingState :: templatingState where
  "initialTemplatingState =
     \<lparr>tp_editor = initialVariableEditorState, tp_variables = [], tp_optionsPicker = initialOptionPickerState,
      tp_transaction = initialTransactionState, tp_inspect = initialVariableInspectState\<rparr>"

definition templatingReducers :: "textEnv \<Rightarrow> templatingAction \<Rightarrow> templatingState \<Rightarrow> templatingState option" where
  "templatingReducers env a st =
     map_option
       (\<lambda>variables.
          \<lparr>tp_editor = variableEditorReducer a (tp_editor st),
           tp_variables = variables,
           tp_optionsPicker =
             (case a of PickerAction b \<Rightarrow> pickerReducer (tx_toLower env) b (tp_optionsPicker st) | _ \<Rightarrow> tp_optionsPicker st),
           tp_transaction = transactionReducer a (tp_transaction st),
           tp_inspect = variableInspectReducer a (tp_inspect st)\<rparr>)
       (variablesReducer env a (tp_variables st))"

subsection \<open>All dashboards\<close>

record keyedVariablesState =
  ks_lastKey :: "jsstr option"
  ks_keys :: "(jsstr, templatingState) obj"

definition initialKeyedVariablesState :: keyedVariablesState where
  "initialKeyedVariablesState = \<lparr>ks_lastKey = None, ks_keys = []\<rparr>"

definition getVariablesState :: "keyedVariablesState \<Rightarrow> jsstr \<Rightarrow> templatingState" where
  "getVariablesState st key =
     (case objGet (ks_keys st) key of None \<Rightarrow> initialTemplatingState | Some s \<Rightarrow> s)"

definition keyedVariablesReducer ::
  "textEnv \<Rightarrow> jsstr \<Rightarrow> templatingAction \<Rightarrow> keyedVariablesState \<Rightarrow> keyedVariablesState option" where
  "keyedVariablesReducer env key a st =
     map_option
       (\<lambda>next. \<lparr>ks_lastKey = (case a of InitTransaction _ \<Rightarrow> Some key | _ \<Rightarrow> ks_lastKey st),
                 ks_keys = objSet key next (ks_keys st)\<rparr>)
       (templatingReducers env a (getVariablesState st key))"

text \<open>Actions with their keys, dispatched one after the other.\<close>

fun dispatchAll ::
  "textEnv \<Rightarrow> (jsstr \<times> templatingAction) list \<Rightarrow> keyedVariablesState \<Rightarrow> keyedVariablesState option" where
  "dispatchAll env [] st = Some st"
| "dispatchAll env ((key, a) # as) st =
     (case keyedVariablesReducer env key a st of None \<Rightarrow> None | Some st1 \<Rightarrow> dispatchAll env as st1)"

subsection \<open>Selectors\<close>

record keyedVariableIdentifier =
  ki_type :: jsstr
  ki_id :: jsstr
  ki_rootStateKey :: jsstr

definition getVariable :: "keyedVariablesState \<Rightarrow> keyedVariableIdentifier \<Rightarrow> jsobj option" where
  "getVariable st ident = objGet (tp_variables (getVariablesState st (ki_rootStateKey ident))) (ki_id ident)"

definition getFilteredVariablesByKey :: "(jsobj \<Rightarrow> bool) \<Rightarrow> keyedVariablesState \<Rightarrow> jsstr \<Rightarrow> jsobj list" where
  "getFilteredVariablesByKey P st key =
     sort_key indexOf (filter P (objectValues (tp_variables (getVariablesState st key))))"

definition getVariablesByKey :: "keyedVariablesState \<Rightarrow> jsstr \<Rightarrow> jsobj list" where
  "getVariablesByKey = getFilteredVariablesByKey defaultVariablesFilter"

definition getNewVariableIndex :: "keyedVariablesState \<Rightarrow> jsstr \<Rightarrow> int" where
  "getNewVariableIndex st key = getNextVariableIndex (objectValues (tp_variables (getVariablesState st key)))"

definition getVariablesIsDirty :: "keyedVariablesState \<Rightarrow> jsstr \<Rightarrow> bool" where
  "getVariablesIsDirty st key = tr_isDirty (tp_transaction (getVariablesState st key))"

definition getLastKey :: "keyedVariablesState \<Rightarrow> jsstr option" where
  "getLastKey st = (case ks_lastKey st of Some k \<Rightarrow> if k = [] then None else Some k | None \<Rightarrow> None)"

definition getFilteredVariables :: "(jsobj \<Rightarrow> bool) \<Rightarrow> keyedVariablesState \<Rightarrow> jsobj list" where
  "getFilteredVariables P st =
     (case getLastKey st of None \<Rightarrow> [] | Some key \<Rightarrow> getFilteredVariablesByKey P st key)"

definition getVariables :: "keyedVariablesState \<Rightarrow> jsobj list" where
  "getVariables st = (case getLastKey st of None \<Rightarrow> [] | Some key \<Rightarrow> getVariablesByKey st key)"

definition getVariableWithName :: "jsstr \<Rightarrow> keyedVariablesState \<Rightarrow> jsobj option" where
  "getVariableWithName name st =
     Option.bind (getLastKey st)
       (\<lambda>key. getVariable st \<lparr>ki_type = js ''query'', ki_id = name, ki_rootStateKey = key\<rparr>)"

definition hasOngoingTransaction :: "jsstr \<Rightarrow> keyedVariablesState \<Rightarrow> bool" where
  "hasOngoingTransaction key st \<longleftrightarrow> tr_status (tp_transaction (getVariablesState st key)) \<noteq> TransactionNotStarted"

definition toKeyedVariableIdentifier :: "jsobj \<Rightarrow> keyedVariableIdentifier option" where
  "toKeyedVariableIdentifier m =
     (if \<not> isTruthy (field m (js ''rootStateKey'')) then None
      else Some \<lparr>ki_type = jsString (typeOf m), ki_id = jsString (field m (js ''id'')),
                 ki_rootStateKey = jsString (field m (js ''rootStateKey''))\<rparr>)"

definition getVariableRefresh :: "jsobj \<Rightarrow> jsval" where
  "getVariableRefresh m =
     (if field m (js ''refresh'') \<in> {onTimeRangeChanged, onDashboardLoad, refreshNever}
      then field m (js ''refresh'') else refreshNever)"

end
