(* ===== verification/TemplatingActions.thy ===== *)
theory TemplatingActions
  imports TemplatingStore
begin

text \<open>
  The actions that dispatch others to the store: renaming and creating variables
  (\<open>features/variables/editor/actions.ts\<close>), changing the query of one (\<open>query/actions.ts\<close>), filters from a
  table (\<open>adhoc/actions.ts\<close>), and loading and clearing the variables of a dashboard (\<open>state/actions.ts\<close>).

  An action that throws is \<open>None\<close>.  What an action starts after its last write and then awaits, the
  updates of options and of the dependent variables, is not part of these definitions.
\<close>

definition dispatchTo ::
  "textEnv \<Rightarrow> jsstr \<Rightarrow> templatingAction list \<Rightarrow> keyedVariablesState \<Rightarrow> keyedVariablesState option" where
  "dispatchTo env key as st = dispatchAll env (map (Pair key) as) st"

subsection \<open>Names\<close>

definition reservedError :: jsstr where
  "reservedError = js ''Template names cannot begin with '__', that's reserved for Grafana's global variables''"

definition wordError :: jsstr where
  "wordError = js ''Only word and digit characters are allowed in variable names''"

definition duplicateError :: jsstr where
  "duplicateError = js ''Variable with the same name already exists''"

definition isVariableName :: "jsstr \<Rightarrow> bool" where
  "isVariableName s \<longleftrightarrow> s \<noteq> [] \<and> list_all isWordChar s"

text \<open>The last of the checks that fails gives the message.\<close>

definition nameError :: "jsobj list \<Rightarrow> jsstr \<Rightarrow> jsstr \<Rightarrow> jsstr option" where
  "nameError variables i newName =
     (if filter (\<lambda>v. field v (js ''name'') = JStr newName \<and> field v (js ''id'') \<noteq> JStr i) variables \<noteq> []
      then Some duplicateError
      else if \<not> isVariableName newName then Some wordError
      else if startsWith (js ''__'') newName then Some reservedError
      else None)"

definition renamedModel :: "jsstr \<Rightarrow> jsobj \<Rightarrow> jsobj" where
  "renamedModel newName m = objSpread m [(js ''name'', JStr newName), (js ''id'', JStr newName)]"

definition addVariableOf :: "keyedVariableIdentifier \<Rightarrow> bool \<Rightarrow> int \<Rightarrow> jsobj \<Rightarrow> templatingAction" where
  "addVariableOf ident global index model =
     SharedAction (ki_type ident)
       (AddVariable \<lparr>av_id = Some (ki_id ident), av_type = ki_type ident, av_model = model, av_index = index,
                     av_global = global\<rparr>)"

definition completeChangeVariableName ::
  "textEnv \<Rightarrow> keyedVariableIdentifier \<Rightarrow> jsstr \<Rightarrow> keyedVariablesState \<Rightarrow> keyedVariablesState option" where
  "completeChangeVariableName env ident newName st =
     (case getVariable st ident of
        None \<Rightarrow> None
      | Some original \<Rightarrow>
          if field original (js ''name'') = JStr newName
          then dispatchTo env (ki_rootStateKey ident)
                 [SharedAction (ki_type ident) (ChangeVariableNameSucceeded (ki_id ident) newName)] st
          else
            let model = renamedModel newName original
            in (case toKeyedVariableIdentifier model of
                  None \<Rightarrow> None
                | Some renamed \<Rightarrow>
                    dispatchTo env (ki_rootStateKey ident)
                      [addVariableOf renamed (isGlobal original) (indexOf original) model,
                       SharedAction (ki_type renamed) (ChangeVariableNameSucceeded (ki_id renamed) newName),
                       SharedAction (ki_type ident) (RemoveVariable (ki_id ident) False)] st))"

definition changeVariableNameAction ::
  "textEnv \<Rightarrow> keyedVariableIdentifier \<Rightarrow> jsstr \<Rightarrow> keyedVariablesState \<Rightarrow> keyedVariablesState option" where
  "changeVariableNameAction env ident newName st =
     (case nameError (getVariablesByKey st (ki_rootStateKey ident)) (ki_id ident) newName of
        Some errorText \<Rightarrow>
          dispatchTo env (ki_rootStateKey ident) [EditorAction (ChangeVariableNameFailed newName errorText)] st
      | None \<Rightarrow> completeChangeVariableName env ident newName st)"

subsection \<open>New variables\<close>

text \<open>\<open>getNextAvailableId\<close>: the loop counts up until no variable has the identifier.\<close>

lemma availableId_measure:
  assumes "t @ natToStr n \<in> set ids"
  shows "card {k. n < k \<and> t @ natToStr k \<in> set ids} < card {k. n \<le> k \<and> t @ natToStr k \<in> set ids}"
proof (rule psubset_card_mono)
  have "inj (\<lambda>k. t @ natToStr k)" by (rule injI) (metis append_same_eq same_append_eq digitsVal_natToStr)
  then have "finite ((\<lambda>k. t @ natToStr k) -` set ids)" by (simp add: finite_vimageI)
  then show "finite {k. n \<le> k \<and> t @ natToStr k \<in> set ids}" by (rule rev_finite_subset) auto
  show "{k. n < k \<and> t @ natToStr k \<in> set ids} \<subset> {k. n \<le> k \<and> t @ natToStr k \<in> set ids}"
    using assms by auto
qed

function nextId :: "jsstr \<Rightarrow> jsstr list \<Rightarrow> nat \<Rightarrow> jsstr" where
  "nextId t ids counter =
     (if t @ natToStr counter \<in> set ids then nextId t ids (Suc counter) else t @ natToStr counter)"
  by pat_completeness auto
termination
proof (relation "measure (\<lambda>(t, ids, n). card {k. n \<le> k \<and> t @ natToStr k \<in> set ids})", goal_cases)
  case (2 t ids n)
  then show ?case using availableId_measure [of t n ids] by (simp add: Suc_le_eq)
qed simp

declare nextId.simps [simp del]

definition getNextAvailableId :: "jsstr \<Rightarrow> jsobj list \<Rightarrow> jsstr" where
  "getNextAvailableId t variables = nextId t (map idOf variables) 0"

definition createNewVariable ::
  "textEnv \<Rightarrow> jsstr \<Rightarrow> jsstr \<Rightarrow> keyedVariablesState \<Rightarrow> keyedVariablesState option" where
  "createNewVariable env key t st =
     (case variableAdapters t of
        None \<Rightarrow> None
      | Some ad \<Rightarrow>
          let i = getNextAvailableId t (getVariablesByKey st key);
              model = fold (\<lambda>(k, v). objSet k v)
                        [(js ''id'', JStr i), (js ''name'', JStr i), (js ''rootStateKey'', JStr key)]
                        (ad_initialState ad)
          in dispatchTo env key
               [addVariableOf \<lparr>ki_type = t, ki_id = i, ki_rootStateKey = key\<rparr> False (getNewVariableIndex st key) model]
               st)"

subsection \<open>The query of a variable\<close>

text \<open>
  \<open>new RegExp('\\$' + name + '(/| |$)')\<close>; the name of a variable has only word characters, so it stands for
  itself.
\<close>

fun endsReference :: "jsstr \<Rightarrow> bool" where
  "endsReference [] = True"
| "endsReference (c # s) = (c = 47 \<or> c = 32)"

fun refersTo :: "jsstr \<Rightarrow> jsstr \<Rightarrow> bool" where
  "refersTo name [] = False"
| "refersTo name (c # s) =
     (c = 36 \<and> startsWith name s \<and> endsReference (drop (length name) s) \<or> refersTo name s)"

text \<open>
  \<open>flattenQuery\<close>: the properties of an object and of the objects in it, in one object.  The type of
  \<open>null\<close> is \<open>object\<close>, and \<open>Object.keys(null)\<close> throws.
\<close>

definition typeIsObject :: "jsval \<Rightarrow> bool" where
  "typeIsObject v = (case v of JObj _ \<Rightarrow> True | JArr _ \<Rightarrow> True | JNull \<Rightarrow> True | _ \<Rightarrow> False)"

function flattenQuery :: "jsval \<Rightarrow> jsobj option" where
  "flattenQuery v =
     (if \<not> typeIsObject v then Some [(js ''query'', v)]
      else if v = JNull then None
      else fold (\<lambda>(k, w) all.
                   case all of
                     None \<Rightarrow> None
                   | Some a \<Rightarrow>
                       if \<not> typeIsObject w then Some (objSet k w a)
                       else map_option
                              (\<lambda>r. fold (\<lambda>(c, x). objSet (k @ [95] @ c) x) (objectEntries r) a)
                              (flattenQuery w))
             (entriesOf v) (Some []))"
  by pat_completeness auto
termination
  by (relation "measure size") (auto dest: entriesOf_smaller)

declare flattenQuery.simps [simp del]

definition textRefersTo :: "jsstr \<Rightarrow> jsval \<Rightarrow> bool" where
  "textRefersTo name v = (case v of JStr s \<Rightarrow> refersTo name s | _ \<Rightarrow> False)"

definition hasSelfReferencingQuery :: "jsstr \<Rightarrow> jsval \<Rightarrow> bool option" where
  "hasSelfReferencingQuery name query =
     (if textRefersTo name query then Some True
      else map_option (\<lambda>flattened. list_ex (\<lambda>(k, v). textRefersTo name v) (objectEntries flattened))
             (flattenQuery query))"

definition selfReferenceError :: "jsstr \<Rightarrow> jsval" where
  "selfReferenceError name = JStr (js ''Query cannot contain a reference to itself. Variable: $'' @ name)"

text \<open>\<open>changeQueryVariableQuery\<close>, up to the update of the options.\<close>

definition changeQueryVariableQuery ::
  "textEnv \<Rightarrow> keyedVariableIdentifier \<Rightarrow> jsval \<Rightarrow> jsval \<Rightarrow> keyedVariablesState \<Rightarrow> keyedVariablesState option" where
  "changeQueryVariableQuery env ident query def st =
     (case getVariable st ident of
        None \<Rightarrow> None
      | Some m \<Rightarrow>
          if typeOf m \<noteq> JStr (js ''query'') then Some st
          else
            let change = (\<lambda>p v. SharedAction (ki_type ident) (ChangeVariableProp (ki_id ident) p v))
            in (case hasSelfReferencingQuery (nameOf m) query of
                  None \<Rightarrow> None
                | Some True \<Rightarrow>
                    dispatchTo env (ki_rootStateKey ident)
                      [EditorAction (AddVariableEditorError (js ''query'') (selfReferenceError (nameOf m)))] st
                | Some False \<Rightarrow>
                    dispatchTo env (ki_rootStateKey ident)
                      ([EditorAction (RemoveVariableEditorError (js ''query'')), change (js ''query'') query]
                       @ (if isTruthy def then [change (js ''definition'') def]
                          else case query of JStr _ \<Rightarrow> [change (js ''definition'') query] | _ \<Rightarrow> [])) st))"

subsection \<open>Filters from a table\<close>

record adHocTableOptions =
  at_datasource :: jsval
  at_key :: jsstr
  at_value :: jsstr
  at_operator :: jsstr

definition filterTableName :: jsstr where
  "filterTableName = js ''Filters''"

text \<open>\<open>variable.datasource?.uid\<close>\<close>

definition datasourceUid :: "jsval \<Rightarrow> jsval" where
  "datasourceUid v = valField v (js ''uid'')"

definition getVariableByOptions :: "adHocTableOptions \<Rightarrow> jsstr \<Rightarrow> keyedVariablesState \<Rightarrow> jsobj option" where
  "getVariableByOptions options key st =
     find (\<lambda>m. typeOf m = JStr (js ''adhoc'') \<and>
               strictEq (datasourceUid (field m (js ''datasource''))) (datasourceUid (at_datasource options)))
       (objectValues (tp_variables (getVariablesState st key)))"

definition createAdHocVariable ::
  "textEnv \<Rightarrow> adHocTableOptions \<Rightarrow> jsstr \<Rightarrow> keyedVariablesState \<Rightarrow> keyedVariablesState option" where
  "createAdHocVariable env options key st =
     (let model = objSpread initialAdHocVariableModelState
                    [(js ''datasource'', at_datasource options), (js ''name'', JStr filterTableName),
                     (js ''id'', JStr filterTableName), (js ''rootStateKey'', JStr key)]
      in dispatchTo env key
           [addVariableOf \<lparr>ki_type = js ''adhoc'', ki_id = filterTableName, ki_rootStateKey = key\<rparr> False
              (getNewVariableIndex st key) model] st)"

text \<open>An action on the filters of the variable that the identifier of another names.\<close>

definition dispatchFilter ::
  "textEnv \<Rightarrow> keyedVariableIdentifier \<Rightarrow> (jsstr \<Rightarrow> typeAction) \<Rightarrow> keyedVariablesState \<Rightarrow> keyedVariablesState option" where
  "dispatchFilter env ident act st =
     (case getVariable st ident of
        None \<Rightarrow> None
      | Some m \<Rightarrow>
          dispatchTo env (ki_rootStateKey ident)
            [TypeAction (jsString (typeOf m)) (act (jsString (field m (js ''id''))))] st)"

definition addFilter ::
  "textEnv \<Rightarrow> keyedVariableIdentifier \<Rightarrow> jsobj \<Rightarrow> keyedVariablesState \<Rightarrow> keyedVariablesState option" where
  "addFilter env ident f = dispatchFilter env ident (\<lambda>i. FilterAdded i f)"

definition changeFilter ::
  "textEnv \<Rightarrow> keyedVariableIdentifier \<Rightarrow> nat \<Rightarrow> jsobj \<Rightarrow> keyedVariablesState \<Rightarrow> keyedVariablesState option" where
  "changeFilter env ident n f = dispatchFilter env ident (\<lambda>i. FilterUpdated i n f)"

definition removeFilter ::
  "textEnv \<Rightarrow> keyedVariableIdentifier \<Rightarrow> int \<Rightarrow> keyedVariablesState \<Rightarrow> keyedVariablesState option" where
  "removeFilter env ident n = dispatchFilter env ident (\<lambda>i. FilterRemoved i n)"

definition setFiltersFromUrl ::
  "textEnv \<Rightarrow> keyedVariableIdentifier \<Rightarrow> jsobj list \<Rightarrow> keyedVariablesState \<Rightarrow> keyedVariablesState option" where
  "setFiltersFromUrl env ident fs = dispatchFilter env ident (\<lambda>i. FiltersRestored i fs)"

fun findIndexFrom :: "('a \<Rightarrow> bool) \<Rightarrow> 'a list \<Rightarrow> nat \<Rightarrow> nat option" where
  "findIndexFrom P [] n = None"
| "findIndexFrom P (x # xs) n = (if P x then Some n else findIndexFrom P xs (Suc n))"

definition isTableFilter :: "adHocTableOptions \<Rightarrow> jsobj \<Rightarrow> bool" where
  "isTableFilter options f \<longleftrightarrow>
     field f (js ''key'') = JStr (at_key options) \<and> field f (js ''value'') = JStr (at_value options)"

definition tableFilter :: "adHocTableOptions \<Rightarrow> jsobj" where
  "tableFilter options =
     [(js ''value'', JStr (at_value options)), (js ''key'', JStr (at_key options)),
      (js ''operator'', JStr (at_operator options)), (js ''condition'', JStr [])]"

definition setTableFilter ::
  "textEnv \<Rightarrow> adHocTableOptions \<Rightarrow> jsobj \<Rightarrow> keyedVariablesState \<Rightarrow> keyedVariablesState option" where
  "setTableFilter env options m st =
     (case toKeyedVariableIdentifier m of
        None \<Rightarrow> None
      | Some ident \<Rightarrow>
          let filters = objectsOf (field m (js ''filters''))
          in (case findIndexFrom (isTableFilter options) filters 0 of
                None \<Rightarrow> addFilter env ident (tableFilter options) st
              | Some n \<Rightarrow>
                  changeFilter env ident n
                    (objSpread (filters ! n) [(js ''operator'', JStr (at_operator options))]) st))"

definition applyFilterFromTable ::
  "textEnv \<Rightarrow> adHocTableOptions \<Rightarrow> keyedVariablesState \<Rightarrow> keyedVariablesState option" where
  "applyFilterFromTable env options st =
     (case getLastKey st of
        None \<Rightarrow> None
      | Some key \<Rightarrow>
          (case getVariableByOptions options key st of
             Some m \<Rightarrow> setTableFilter env options m st
           | None \<Rightarrow>
               (case createAdHocVariable env options key st of
                  None \<Rightarrow> None
                | Some st1 \<Rightarrow>
                    (case getVariableByOptions options key st1 of
                       None \<Rightarrow> Some st1
                     | Some m \<Rightarrow> setTableFilter env options m st1))))"

subsection \<open>Loading and clearing a dashboard\<close>

text \<open>What the session and the dashboard put into the system variables.\<close>

record systemValues =
  sv_title :: jsval
  sv_uid :: jsval
  sv_orgName :: jsval
  sv_orgId :: jsval
  sv_login :: jsval
  sv_userId :: jsval
  sv_email :: jsval

definition systemModel :: "string \<Rightarrow> int \<Rightarrow> jsobj \<Rightarrow> jsobj" where
  "systemModel name index content =
     objSpread initialVariableModelState
       [(js ''id'', JStr (js name)), (js ''name'', JStr (js name)), (js ''type'', JStr (js ''system'')),
        (js ''index'', JInt index), (js ''skipUrlSync'', JBool True), (js ''hide'', hideVariable),
        (js ''current'', JObj [(js ''value'', JObj content)])]"

definition addSystemModel :: "string \<Rightarrow> int \<Rightarrow> jsobj \<Rightarrow> templatingAction" where
  "addSystemModel name index content =
     addVariableOf \<lparr>ki_type = js ''system'', ki_id = js name, ki_rootStateKey = []\<rparr> False index
       (systemModel name index content)"

definition addSystemTemplateVariables ::
  "textEnv \<Rightarrow> systemValues \<Rightarrow> jsstr \<Rightarrow> keyedVariablesState \<Rightarrow> keyedVariablesState option" where
  "addSystemTemplateVariables env sv key =
     dispatchTo env key
       [addSystemModel ''__dashboard'' (- 3) [(js ''name'', sv_title sv), (js ''uid'', sv_uid sv)],
        addSystemModel ''__org'' (- 2) [(js ''name'', sv_orgName sv), (js ''id'', sv_orgId sv)],
        addSystemModel ''__user'' (- 1)
          [(js ''login'', sv_login sv), (js ''id'', sv_userId sv), (js ''email'', sv_email sv)]]"

text \<open>\<open>toVariablePayload(model, ...)\<close>: the identifier is the one of the model, if it has one.\<close>

definition optionalText :: "jsval \<Rightarrow> jsstr option" where
  "optionalText v = (case v of JUndef \<Rightarrow> None | JNull \<Rightarrow> None | _ \<Rightarrow> Some (jsString v))"

definition addLoaded :: "int \<Rightarrow> jsobj \<Rightarrow> templatingAction" where
  "addLoaded index m =
     SharedAction (jsString (typeOf m))
       (AddVariable \<lparr>av_id = optionalText (field m (js ''id'')), av_type = jsString (typeOf m), av_model = m,
                     av_index = index, av_global = False\<rparr>)"

definition loadedModel :: "jsstr \<Rightarrow> jsobj \<Rightarrow> jsobj" where
  "loadedModel key m = objSet (js ''rootStateKey'') (JStr key) (fixSelectedInconsistency m)"

definition hasAdapter :: "jsobj \<Rightarrow> bool" where
  "hasAdapter m \<longleftrightarrow> variableAdapters (jsString (typeOf m)) \<noteq> None"

definition loadActions :: "jsstr \<Rightarrow> jsobj list \<Rightarrow> templatingAction list" where
  "loadActions key models =
     map (\<lambda>(i, m). addLoaded (int i) m) (enumerate 0 (filter hasAdapter (map (loadedModel key) models)))"

definition initDashboardTemplating ::
  "textEnv \<Rightarrow> jsstr \<Rightarrow> jsobj list \<Rightarrow> keyedVariablesState \<Rightarrow> keyedVariablesState option" where
  "initDashboardTemplating env key models st =
     (case dispatchTo env key (loadActions key models) st of
        None \<Rightarrow> None
      | Some st1 \<Rightarrow>
          dispatchTo env key
            (map (\<lambda>m. SharedAction (jsString (typeOf m)) (VariableStateNotStarted (jsString (field m (js ''id'')))))
              (getVariablesByKey st1 key)) st1)"

text \<open>A data source given by its name becomes a reference; \<open>getInstanceSettings\<close> is an argument.\<close>

definition isDataSourceRef :: "jsval \<Rightarrow> bool" where
  "isDataSourceRef v \<longleftrightarrow> typeIsObject v \<and> (case valField v (js ''uid'') of JStr _ \<Rightarrow> True | _ \<Rightarrow> False)"

definition dataSourceRefOf :: "(jsval \<Rightarrow> jsobj option) \<Rightarrow> jsval \<Rightarrow> jsval" where
  "dataSourceRefOf getInstanceSettings nameOrRef =
     JObj (case getInstanceSettings nameOrRef of
             Some ds \<Rightarrow> [(js ''uid'', field ds (js ''uid'')), (js ''type'', field ds (js ''type''))]
           | None \<Rightarrow> [(js ''uid'', nameOrRef)])"

definition migrateVariablesDatasourceNameToRef ::
  "textEnv \<Rightarrow> (jsval \<Rightarrow> jsobj option) \<Rightarrow> jsstr \<Rightarrow> keyedVariablesState \<Rightarrow> keyedVariablesState option" where
  "migrateVariablesDatasourceNameToRef env getInstanceSettings key st =
     dispatchTo env key
       (map (\<lambda>m. SharedAction (jsString (typeOf m))
                    (ChangeVariableProp (jsString (field m (js ''id''))) (js ''datasource'')
                      (dataSourceRefOf getInstanceSettings (field m (js ''datasource'')))))
         (filter (\<lambda>m. typeOf m \<in> {JStr (js ''adhoc''), JStr (js ''query'')} \<and>
                        \<not> isDataSourceRef (field m (js ''datasource'')))
           (getVariablesByKey st key))) st"

definition cleanUpVariables :: "textEnv \<Rightarrow> jsstr \<Rightarrow> keyedVariablesState \<Rightarrow> keyedVariablesState option" where
  "cleanUpVariables env key =
     dispatchTo env key
       [CleanVariables, EditorAction CleanEditorState, PickerAction CleanPickerState, ClearTransaction]"

text \<open>\<open>initVariablesTransaction\<close>, up to the processing of the variables.\<close>

definition startTransaction ::
  "textEnv \<Rightarrow> systemValues \<Rightarrow> (jsval \<Rightarrow> jsobj option) \<Rightarrow> jsstr \<Rightarrow> jsobj list \<Rightarrow> keyedVariablesState \<Rightarrow>
   keyedVariablesState option" where
  "startTransaction env sv getInstanceSettings uid models st =
     (let cancelled =
        (case getLastKey st of
           Some lastKey \<Rightarrow>
             if tr_status (tp_transaction (getVariablesState st lastKey)) = TransactionFetching
             then cleanUpVariables env lastKey st else Some st
         | None \<Rightarrow> Some st)
      in Option.bind cancelled (\<lambda>st1.
         Option.bind (dispatchTo env uid [InitTransaction (JStr uid)] st1) (\<lambda>st2.
         Option.bind (addSystemTemplateVariables env sv uid st2) (\<lambda>st3.
         Option.bind (initDashboardTemplating env uid models st3)
           (migrateVariablesDatasourceNameToRef env getInstanceSettings uid)))))"

definition completeVariableLoading ::
  "textEnv \<Rightarrow> keyedVariableIdentifier \<Rightarrow> keyedVariablesState \<Rightarrow> keyedVariablesState option" where
  "completeVariableLoading env ident st =
     (if \<not> hasOngoingTransaction (ki_rootStateKey ident) st then Some st
      else case getVariable st ident of
        None \<Rightarrow> None
      | Some m \<Rightarrow>
          if field m (js ''state'') \<noteq> JStr (js ''Done'')
          then dispatchTo env (ki_rootStateKey ident)
                 [SharedAction (jsString (typeOf m)) (VariableStateCompleted (jsString (field m (js ''id''))))] st
          else Some st)"


end
