(* ===== verification/Processing.thy ===== *)
theory Processing
  imports TemplatingActions Intervals
begin

text \<open>
  The variables of a dashboard are loaded all at the same time, each after those it depends on:
  \<open>processVariables\<close> of \<open>features/variables/state/actions.ts\<close>, with what it calls there and in the actions of
  the types of variables.

  What a promise does between waiting for other variables, and for the options of its own, is one step.
  The plugin of a data source, which is awaited as well, is taken to be at hand.  A promise waits for
  others, can run, waits for the options of its variable, has ended, or was rejected.  Leaving the
  dashboard meanwhile, which clears the store, is not one of the steps.
\<close>

subsection \<open>What the code gets from elsewhere\<close>

text \<open>
  The query of the URL; the name of a data source with the standard support of variables, by its
  reference; the time range and the template service, for the value \<open>auto\<close> of intervals; and the value that
  is caught when a reducer throws.
\<close>

record loadEnv =
  le_text :: textEnv
  le_params :: jsobj
  le_standardSupport :: "jsval \<Rightarrow> jsstr option"
  le_rangeFrom :: int
  le_rangeTo :: int
  le_templateSrv :: templateSrv
  le_thrown :: jsval

text \<open>What the data sources answer; only the part for the type of the variable is used.\<close>

record answerData =
  an_regex :: jsstr
  an_results :: "jsobj list"
  an_sources :: "dataSource list"
  an_sourceRegex :: "jsRegex option"
  an_lastIndex :: nat

text \<open>
  A failure is an object of the class \<open>Error\<close> or another value.  The types of variables whose options need
  no query go on at once; for them every answer is allowed as well, which only adds runs.
\<close>

datatype answer = Answered answerData | Failed bool jsval

subsection \<open>Updates while the dashboard is loaded\<close>

definition isDataQueryType :: "jsval \<Rightarrow> bool" where
  "isDataQueryType query \<longleftrightarrow> isTruthy query \<and> (case valField query (js ''refId'') of JStr _ \<Rightarrow> True | _ \<Rightarrow> False)"

definition upgradedQuery :: "jsstr \<Rightarrow> jsstr \<Rightarrow> jsobj \<Rightarrow> jsval" where
  "upgradedQuery name i m =
     JObj [(js ''refId'', JStr (name @ js ''-'' @ i @ js ''-Variable-Query'')),
           (js ''query'', field m (js ''query''))]"

definition upgradeLegacyQueries ::
  "loadEnv \<Rightarrow> keyedVariableIdentifier \<Rightarrow> keyedVariablesState \<Rightarrow> keyedVariablesState option" where
  "upgradeLegacyQueries le ident st =
     (if \<not> hasOngoingTransaction (ki_rootStateKey ident) st then Some st
      else case getVariable st ident of
        None \<Rightarrow> None
      | Some m \<Rightarrow>
          (case le_standardSupport le (field m (js ''datasource'')) of
             None \<Rightarrow> Some st
           | Some name \<Rightarrow>
               if typeOf m \<noteq> JStr (js ''query'') \<or> isDataQueryType (field m (js ''query'')) then Some st
               else dispatchTo (le_text le) (ki_rootStateKey ident)
                      [SharedAction (ki_type ident)
                         (ChangeVariableProp (ki_id ident) (js ''query'') (upgradedQuery name (ki_id ident) m))] st))"

text \<open>\<open>variableUpdated\<close> while the transaction is open: no other variable is updated.\<close>

definition variableUpdatedAtBoot ::
  "loadEnv \<Rightarrow> keyedVariableIdentifier \<Rightarrow> keyedVariablesState \<Rightarrow> keyedVariablesState option" where
  "variableUpdatedAtBoot le ident st =
     (case getVariable st ident of
        None \<Rightarrow> None
      | Some m \<Rightarrow>
          if getVariableRefresh m = refreshNever
          then Option.bind (upgradeLegacyQueries le ident st) (completeVariableLoading (le_text le) ident)
          else Some st)"

definition setOptionAsCurrent ::
  "loadEnv \<Rightarrow> keyedVariableIdentifier \<Rightarrow> jsobj option \<Rightarrow> keyedVariablesState \<Rightarrow> keyedVariablesState option" where
  "setOptionAsCurrent le ident current st =
     Option.bind
       (dispatchTo (le_text le) (ki_rootStateKey ident)
          [SharedAction (ki_type ident) (SetCurrentVariableValue (ki_id ident) current)] st)
       (variableUpdatedAtBoot le ident)"

text \<open>
  Whether \<open>updateAutoValue\<close> throws, which is called for an interval first.  What it writes to the template
  service is not followed here.
\<close>

definition autoThrows :: "loadEnv \<Rightarrow> keyedVariableIdentifier \<Rightarrow> keyedVariablesState \<Rightarrow> bool" where
  "autoThrows le ident st \<longleftrightarrow>
     ki_type ident = js ''interval'' \<and>
     (case getVariable st ident of
        None \<Rightarrow> True
      | Some m \<Rightarrow> updateAutoValue (le_rangeFrom le) (le_rangeTo le) m (le_templateSrv le) = None)"

text \<open>\<open>setValue\<close> of the adapters: that of ad hoc filters and of system variables does nothing.\<close>

definition setValue ::
  "loadEnv \<Rightarrow> keyedVariableIdentifier \<Rightarrow> jsobj option \<Rightarrow> keyedVariablesState \<Rightarrow> keyedVariablesState option" where
  "setValue le ident current st =
     (if ki_type ident \<in> {js ''adhoc'', js ''system''} then Some st
      else if autoThrows le ident st then None
      else setOptionAsCurrent le ident current st)"

definition optionOrUndefined :: "jsval \<Rightarrow> jsobj option" where
  "optionOrUndefined v = (case v of JObj current \<Rightarrow> Some current | _ \<Rightarrow> None)"

definition validateSelection ::
  "loadEnv \<Rightarrow> keyedVariableIdentifier \<Rightarrow> keyedVariablesState \<Rightarrow> keyedVariablesState option" where
  "validateSelection le ident st =
     (case getVariable st ident of
        None \<Rightarrow> None
      | Some m \<Rightarrow>
          (case validateVariableSelectionState m None of
             None \<Rightarrow> Some st
           | Some v \<Rightarrow> setValue le ident (optionOrUndefined v) st))"

text \<open>\<open>updateOptions\<close> of the adapters: the action that makes the options, none for ad hoc filters.\<close>

definition optionsAction :: "keyedVariableIdentifier \<Rightarrow> answerData \<Rightarrow> templatingAction option" where
  "optionsAction ident an =
     (let t = ki_type ident; i = ki_id ident
      in if t = js ''query'' then Some (TypeAction t (UpdateVariableOptions i (an_regex an) (an_results an)))
         else if t = js ''custom'' then Some (TypeAction t (CreateCustomOptionsFromQuery i))
         else if t = js ''constant'' then Some (TypeAction t (CreateConstantOptionsFromQuery i))
         else if t = js ''datasource''
         then Some (TypeAction t (CreateDataSourceOptions i (an_sources an) (an_sourceRegex an) (an_lastIndex an)))
         else if t = js ''interval'' then Some (TypeAction t (CreateIntervalOptions i))
         else if t = js ''textbox'' then Some (TypeAction t (CreateTextBoxOptions i))
         else None)"

text \<open>The store it leaves, and whether it throws.\<close>

definition adapterUpdateOptions ::
  "loadEnv \<Rightarrow> keyedVariableIdentifier \<Rightarrow> answerData \<Rightarrow> keyedVariablesState \<Rightarrow> keyedVariablesState \<times> bool" where
  "adapterUpdateOptions le ident an st =
     (case optionsAction ident an of
        None \<Rightarrow> (st, False)
      | Some a \<Rightarrow>
          (case dispatchTo (le_text le) (ki_rootStateKey ident) [a] st of
             None \<Rightarrow> (st, True)
           | Some st1 \<Rightarrow>
               (case (if ki_type ident = js ''textbox''
                      then Option.bind (getVariable st1 ident) (\<lambda>m. setValue le ident (optionOrUndefined (firstOption m)) st1)
                      else if autoThrows le ident st1 then None
                      else validateSelection le ident st1) of
                  None \<Rightarrow> (st1, True)
                | Some st2 \<Rightarrow> (st2, False))))"

text \<open>
  \<open>updateOptions\<close>, before it awaits the adapter and after it; an error is caught.  That of a query has
  caught it before, and throws it again only if it is an object of the class \<open>Error\<close>.
\<close>

definition startUpdate ::
  "loadEnv \<Rightarrow> keyedVariableIdentifier \<Rightarrow> keyedVariablesState \<Rightarrow> keyedVariablesState option" where
  "startUpdate le ident st =
     Option.bind
       (dispatchTo (le_text le) (ki_rootStateKey ident)
          [SharedAction (ki_type ident) (VariableStateFetching (ki_id ident))] st)
       (upgradeLegacyQueries le ident)"

definition finishUpdate ::
  "loadEnv \<Rightarrow> keyedVariableIdentifier \<Rightarrow> answer \<Rightarrow> keyedVariablesState \<Rightarrow> keyedVariablesState option" where
  "finishUpdate le ident an st =
     (let fail = (\<lambda>error. dispatchTo (le_text le) (ki_rootStateKey ident)
                             [SharedAction (ki_type ident) (VariableStateFailed (ki_id ident) error)])
      in case an of
           Failed isError error \<Rightarrow>
             if ki_type ident = js ''query'' \<and> \<not> isError then completeVariableLoading (le_text le) ident st
             else fail error st
         | Answered data \<Rightarrow>
             (case adapterUpdateOptions le ident data st of
                (st1, throws) \<Rightarrow>
                  if throws then fail (le_thrown le) st1 else completeVariableLoading (le_text le) ident st1))"

subsection \<open>The promise of a variable\<close>

datatype phase = Blocked "jsobj list" | Runnable | Updating "jsval option" | Ended | Rejected

text \<open>\<open>setOptionFromUrl\<close>, once the options are up to date.\<close>

definition setUrlOption ::
  "loadEnv \<Rightarrow> keyedVariableIdentifier \<Rightarrow> jsval \<Rightarrow> keyedVariablesState \<Rightarrow> keyedVariablesState option" where
  "setUrlOption le ident urlValue st =
     (case getVariable st ident of
        None \<Rightarrow> None
      | Some m \<Rightarrow>
          (case setOptionFromUrl m urlValue of
             None \<Rightarrow> Some st
           | Some current \<Rightarrow> setValue le ident (Some current) st))"

text \<open>The last call of a promise, and one that others follow; the promise is rejected if it throws.\<close>

definition endsAt :: "keyedVariablesState \<Rightarrow> keyedVariablesState option \<Rightarrow> keyedVariablesState \<times> phase" where
  "endsAt st r = (case r of None \<Rightarrow> (st, Rejected) | Some st1 \<Rightarrow> (st1, Ended))"

definition andThen ::
  "keyedVariablesState \<Rightarrow> keyedVariablesState option \<Rightarrow> (keyedVariablesState \<Rightarrow> keyedVariablesState \<times> phase) \<Rightarrow>
   keyedVariablesState \<times> phase" where
  "andThen st r f = (case r of None \<Rightarrow> (st, Rejected) | Some st1 \<Rightarrow> f st1)"

definition startOptionFromUrl ::
  "loadEnv \<Rightarrow> keyedVariableIdentifier \<Rightarrow> jsval \<Rightarrow> keyedVariablesState \<Rightarrow> keyedVariablesState \<times> phase" where
  "startOptionFromUrl le ident urlValue st =
     (case getVariable st ident of
        None \<Rightarrow> (st, Rejected)
      | Some m \<Rightarrow>
          if getVariableRefresh m \<noteq> refreshNever \<and> hasOngoingTransaction (ki_rootStateKey ident) st
          then andThen st (startUpdate le ident st) (\<lambda>st1. (st1, Updating (Some urlValue)))
          else endsAt st (setUrlOption le ident urlValue st))"

definition setValueFromUrl ::
  "loadEnv \<Rightarrow> keyedVariableIdentifier \<Rightarrow> jsval \<Rightarrow> keyedVariablesState \<Rightarrow> keyedVariablesState \<times> phase" where
  "setValueFromUrl le ident urlValue st =
     (if ki_type ident = js ''system'' then (st, Ended)
      else if ki_type ident = js ''adhoc''
      then andThen st (setFiltersFromUrl (le_text le) ident (toFilters urlValue) st)
             (\<lambda>st1. endsAt st1 (variableUpdatedAtBoot le ident st1))
      else if ki_type ident = js ''textbox''
      then andThen st
             (dispatchTo (le_text le) (ki_rootStateKey ident)
                [SharedAction (ki_type ident) (ChangeVariableProp (ki_id ident) (js ''query'') urlValue)] st)
             (startOptionFromUrl le ident urlValue)
      else if autoThrows le ident st then (st, Rejected)
      else startOptionFromUrl le ident urlValue st)"

text \<open>\<open>processVariable\<close>, once the variables it depends on are loaded.\<close>

definition processVariable :: "loadEnv \<Rightarrow> jsobj \<Rightarrow> keyedVariablesState \<Rightarrow> keyedVariablesState \<times> phase" where
  "processVariable le m st =
     (case toKeyedVariableIdentifier m of
        None \<Rightarrow> (st, Rejected)
      | Some ident \<Rightarrow>
          let urlValue = field (le_params le) (varPrefix @ nameOf m)
          in if urlValue \<noteq> JUndef then setValueFromUrl le ident (ensureStringValues urlValue) st
             else if field m (js ''refresh'') \<in> {onDashboardLoad, onTimeRangeChanged}
             then if hasOngoingTransaction (ki_rootStateKey ident) st
                  then andThen st (startUpdate le ident st) (\<lambda>st1. (st1, Updating None))
                  else (st, Ended)
             else endsAt st (completeVariableLoading (le_text le) ident st))"

definition resumeVariable ::
  "loadEnv \<Rightarrow> jsobj \<Rightarrow> answer \<Rightarrow> jsval option \<Rightarrow> keyedVariablesState \<Rightarrow> keyedVariablesState \<times> phase" where
  "resumeVariable le m an urlValue st =
     (case toKeyedVariableIdentifier m of
        None \<Rightarrow> (st, Rejected)
      | Some ident \<Rightarrow>
          andThen st (finishUpdate le ident an st)
            (\<lambda>st1. case urlValue of None \<Rightarrow> (st1, Ended) | Some v \<Rightarrow> endsAt st1 (setUrlOption le ident v st1)))"

subsection \<open>All promises\<close>

record loading =
  ld_store :: keyedVariablesState
  ld_promises :: "(jsobj \<times> phase) list"

definition initialPhase :: "jsobj list \<Rightarrow> jsobj \<Rightarrow> phase" where
  "initialPhase variables m =
     (case processVariableDependencies variables m of
        Ready \<Rightarrow> Runnable
      | Waiting \<Rightarrow> Blocked (getDirectDependencies variables m)
      | _ \<Rightarrow> Rejected)"

definition processVariables :: "jsstr \<Rightarrow> keyedVariablesState \<Rightarrow> loading" where
  "processVariables key st =
     (let variables = getVariablesByKey st key
      in \<lparr>ld_store = st, ld_promises = map (\<lambda>m. (m, initialPhase variables m)) variables\<rparr>)"

text \<open>The subscription to the store wakes a promise as soon as none of its dependencies is pending.\<close>

definition wake :: "jsstr \<Rightarrow> keyedVariablesState \<Rightarrow> phase \<Rightarrow> phase" where
  "wake key st p =
     (case p of
        Blocked dependencies \<Rightarrow>
          if isWaitingForDependencies (getVariablesByKey st key) dependencies then p else Runnable
      | _ \<Rightarrow> p)"

definition settle :: "jsstr \<Rightarrow> nat \<Rightarrow> keyedVariablesState \<times> phase \<Rightarrow> loading \<Rightarrow> loading" where
  "settle key n r ld =
     (case r of
        (st, p) \<Rightarrow>
          \<lparr>ld_store = st,
           ld_promises = map (\<lambda>(m, q). (m, wake key st q)) ((ld_promises ld) [n := (fst (ld_promises ld ! n), p)])\<rparr>)"

inductive loadingStep :: "loadEnv \<Rightarrow> jsstr \<Rightarrow> loading \<Rightarrow> loading \<Rightarrow> bool" for le key where
  run: "\<lbrakk>n < length (ld_promises ld); ld_promises ld ! n = (m, Runnable)\<rbrakk> \<Longrightarrow>
    loadingStep le key ld (settle key n (processVariable le m (ld_store ld)) ld)"
| answer: "\<lbrakk>n < length (ld_promises ld); ld_promises ld ! n = (m, Updating urlValue)\<rbrakk> \<Longrightarrow>
    loadingStep le key ld (settle key n (resumeVariable le m an urlValue (ld_store ld)) ld)"

inductive_cases loadingStepE: "loadingStep le key ld ld'"

text \<open>\<open>Promise.all\<close>: the transaction is completed when all promises have ended.\<close>

definition allEnded :: "loading \<Rightarrow> bool" where
  "allEnded ld \<longleftrightarrow> list_all (\<lambda>(m, p). p = Ended) (ld_promises ld)"

definition completeTransaction :: "loadEnv \<Rightarrow> jsstr \<Rightarrow> loading \<Rightarrow> keyedVariablesState option" where
  "completeTransaction le key ld =
     (if allEnded ld then dispatchTo (le_text le) key [CompleteTransaction (JStr key)] (ld_store ld) else None)"

end
