(* ===== verification/TemplatingStoreProps.thy ===== *)
theory TemplatingStoreProps
  imports TemplatingStore VariablesProps
begin

text \<open>
  What holds of the store whatever is dispatched: the dashboards do not touch each other, the variables
  are dirty exactly if one changed after they were loaded, the editor is valid exactly if it has no
  errors, and every variable is stored under its identifier.
\<close>

subsection \<open>Sequences of actions\<close>

lemma dispatchAll_append:
  "dispatchAll env (as @ bs) st =
     (case dispatchAll env as st of None \<Rightarrow> None | Some st1 \<Rightarrow> dispatchAll env bs st1)"
  by (induction env as st rule: dispatchAll.induct) (auto split: option.split)

lemma getVariablesState_reducer:
  assumes "keyedVariablesReducer env key a st = Some st'"
  shows "templatingReducers env a (getVariablesState st key) = Some (getVariablesState st' key)"
    "key' \<noteq> key \<Longrightarrow> getVariablesState st' key' = getVariablesState st key'"
  using assms by (auto simp: keyedVariablesReducer_def getVariablesState_def objGet_objSet)

lemma templatingReducers_parts:
  assumes "templatingReducers env a s = Some s'"
  shows "variablesReducer env a (tp_variables s) = Some (tp_variables s')"
    "tp_editor s' = variableEditorReducer a (tp_editor s)"
    "tp_transaction s' = transactionReducer a (tp_transaction s)"
  using assms by (auto simp: templatingReducers_def)

text \<open>
  A slice of the state with its reducer, which may throw, and an invariant that holds at first and that
  every allowed action keeps.
\<close>

locale slice =
  fixes reduce :: "'a \<Rightarrow> 's \<Rightarrow> 's option" and initial :: 's and inv :: "'s \<Rightarrow> bool" and allowed :: "'a \<Rightarrow> bool"
  assumes inv_initial: "inv initial"
    and inv_reduce: "reduce a s = Some s' \<Longrightarrow> inv s \<Longrightarrow> allowed a \<Longrightarrow> inv s'"
begin

fun run :: "'a list \<Rightarrow> 's \<Rightarrow> 's option" where
  "run [] s = Some s"
| "run (a # as) s = (case reduce a s of None \<Rightarrow> None | Some s1 \<Rightarrow> run as s1)"

lemma inv_run: "run as s = Some s' \<Longrightarrow> inv s \<Longrightarrow> \<forall>a \<in> set as. allowed a \<Longrightarrow> inv s'"
  by (induction as arbitrary: s) (auto split: option.splits dest: inv_reduce)

lemma inv_reachable: "run as initial = Some s \<Longrightarrow> \<forall>a \<in> set as. allowed a \<Longrightarrow> inv s"
  using inv_run inv_initial by blast

end

lemma isValid_reducer:
  "ed_isValid s = (ed_errors s = []) \<Longrightarrow>
   ed_isValid (variableEditorReducer a s) = (ed_errors (variableEditorReducer a s) = [])"
  by (simp add: variableEditorReducer_def setErrors_def initialVariableEditorState_def
      split: templatingAction.split editorAction.split variableAction.split)

interpretation editor: slice "\<lambda>a s. Some (variableEditorReducer a s)" initialVariableEditorState
  "\<lambda>s. ed_isValid s = (ed_errors s = [])" "\<lambda>_. True"
  by unfold_locales (auto simp: isValid_reducer initialVariableEditorState_def)

subsection \<open>Transactions\<close>

definition runTransaction :: "templatingAction list \<Rightarrow> transactionState" where
  "runTransaction acts = fold transactionReducer acts initialTransactionState"

text \<open>
  Claim C23. The variables of a dashboard count as changed exactly when, after they were last cleared, a
  variable was added, removed, duplicated, moved or changed while the transaction was completed: what
  happens while they are loaded does not count, and no later transaction forgets a change.
\<close>

theorem transaction_dirty:
  "tr_isDirty (runTransaction acts) \<longleftrightarrow>
     (\<exists>before a after. acts = before @ a # after \<and> actionAffectsDirtyState a \<and>
        tr_status (runTransaction before) = TransactionCompleted \<and> ClearTransaction \<notin> set after)"
proof (induction acts rule: rev_induct)
  case Nil
  show ?case by (simp add: runTransaction_def initialTransactionState_def)
next
  case (snoc b acts)
  let ?D = "\<lambda>acts. \<exists>before a after. acts = before @ a # after \<and> actionAffectsDirtyState a \<and>
        tr_status (runTransaction before) = TransactionCompleted \<and> ClearTransaction \<notin> set after"
  have "?D (acts @ [b]) \<longleftrightarrow>
      actionAffectsDirtyState b \<and> tr_status (runTransaction acts) = TransactionCompleted \<or>
      b \<noteq> ClearTransaction \<and> ?D acts" (is "_ \<longleftrightarrow> ?new \<or> ?old")
  proof
    assume "?D (acts @ [b])"
    then obtain before a after where d: "acts @ [b] = before @ a # after" "actionAffectsDirtyState a"
      "tr_status (runTransaction before) = TransactionCompleted" "ClearTransaction \<notin> set after" by blast
    show "?new \<or> ?old"
    proof (cases after rule: rev_cases)
      case Nil
      then show ?thesis using d by simp
    next
      case (snoc after1 c)
      then have "acts = before @ a # after1" and "c = b" using d(1) by simp_all
      then show ?thesis using d snoc by auto
    qed
  next
    assume "?new \<or> ?old"
    then show "?D (acts @ [b])"
    proof
      assume ?new
      then show ?thesis by (intro exI [of _ acts] exI [of _ b] exI [of _ "[]"]) simp
    next
      assume ?old
      then obtain before a after where d: "acts = before @ a # after" "actionAffectsDirtyState a"
        "tr_status (runTransaction before) = TransactionCompleted" "ClearTransaction \<notin> set after"
        "b \<noteq> ClearTransaction" by blast
      then show ?thesis by (intro exI [of _ before] exI [of _ a] exI [of _ "after @ [b]"]) simp
    qed
  qed
  moreover have "tr_isDirty (runTransaction (acts @ [b])) \<longleftrightarrow>
      actionAffectsDirtyState b \<and> tr_status (runTransaction acts) = TransactionCompleted \<or>
      b \<noteq> ClearTransaction \<and> tr_isDirty (runTransaction acts)"
    by (cases b) (auto simp: runTransaction_def transactionReducer_def actionAffectsDirtyState_def Let_def)
  ultimately show ?case using snoc.IH by simp
qed

subsection \<open>Identifiers\<close>

text \<open>No reducer of a type changes an identifier.\<close>

lemma onType_stored:
  assumes "onType t i g st = Some st'" and "storedUnderId st"
    and "\<And>m m'. g m = Some m' \<Longrightarrow> field m' (js ''id'') = field m (js ''id'')"
  shows "storedUnderId st'"
  using assms
  by (auto simp: onType_def getInstanceState_def storedUnderId_def obj.ok_set obj.get_set split: option.splits if_splits)

lemma onFilters_stored: "onFilters i g st = Some st' \<Longrightarrow> storedUnderId st \<Longrightarrow> storedUnderId st'"
  by (auto simp: onFilters_def getInstanceState_def storedUnderId_def obj.ok_set obj.get_set field_objSet
      split: option.splits if_splits)

lemma setOptions_id: "field (setOptions os m) (js ''id'') = field m (js ''id'')"
  by (simp add: setOptions_def field_objSet)

lemma typeReducer_stored: "typeReducer env t a st = Some st' \<Longrightarrow> storedUnderId st \<Longrightarrow> storedUnderId st'"
  by (cases a)
    (auto simp: typeReducer_def updateVariableOptions_def createCustomOptionsFromQuery_def createTextBoxOptions_def
      createConstantOptionsFromQuery_def createDataSourceOptions_def createIntervalOptions_def filterAdded_def
      filterRemoved_def filterUpdated_def filtersRestored_def onQuery_def Let_def setOptions_id field_objSet
      split: if_splits jsval.splits elim!: onType_stored onFilters_stored)

lemma storedUnderId_Nil: "storedUnderId []"
  by (simp add: storedUnderId_def objKeysOk_def)

lemma cleanVariables_stored:
  "storedUnderId st \<Longrightarrow> \<forall>m \<in> set ms. \<exists>k. field m (js ''id'') = JStr k \<Longrightarrow>
   storedUnderId (fold (\<lambda>m. objSet (jsString (field m (js ''id''))) m) ms st)"
  by (induction ms arbitrary: st) (auto simp: storedUnderId_objSet)

text \<open>The actions that do not write to the field \<open>id\<close> itself.\<close>

fun keepsId :: "templatingAction \<Rightarrow> bool" where
  "keepsId (SharedAction t (ChangeVariableProp i p v)) = (p \<noteq> js ''id'')"
| "keepsId _ = True"

lemma variablesReducer_stored:
  assumes "variablesReducer env a st = Some st'" and "storedUnderId st" and "keepsId a"
  shows "storedUnderId st'"
proof (cases a)
  case (SharedAction t b)
  then have "\<And>i v. b \<noteq> ChangeVariableProp i (js ''id'') v" using assms(3) by auto
  with SharedAction assms(1,2) shared_stored show ?thesis
    by (auto simp: variablesReducer_def split: if_splits)
next
  case (TypeAction t b)
  with assms typeReducer_stored show ?thesis by (auto simp: variablesReducer_def split: if_splits)
next
  case CleanVariables
  have "\<forall>m \<in> set (filter isGlobal (objectValues st)). \<exists>k. field m (js ''id'') = JStr k"
    using assms(2) by (auto simp: storedUnderId_def set_objectValues objGet_in_set)
  with CleanVariables assms(1) cleanVariables_stored storedUnderId_Nil show ?thesis
    by (auto simp: variablesReducer_def)
qed (use assms in \<open>simp_all add: variablesReducer_def\<close>)

interpretation variables: slice "variablesReducer env" "[]" storedUnderId keepsId for env
  by unfold_locales (auto intro: storedUnderId_Nil variablesReducer_stored)

subsection \<open>The whole store\<close>

definition templatingOk :: "templatingState \<Rightarrow> bool" where
  "templatingOk s \<longleftrightarrow>
     storedUnderId (tp_variables s) \<and> ed_isValid (tp_editor s) = (ed_errors (tp_editor s) = [])"

lemma templatingOk_initial: "templatingOk initialTemplatingState"
  using variables.inv_initial editor.inv_initial by (simp add: templatingOk_def initialTemplatingState_def)

lemma templatingOk_reducer:
  "templatingReducers env a s = Some s' \<Longrightarrow> templatingOk s \<Longrightarrow> keepsId a \<Longrightarrow> templatingOk s'"
  using templatingReducers_parts [of env a s s'] isValid_reducer [of "tp_editor s" a]
  by (auto simp: templatingOk_def dest: variablesReducer_stored)

interpretation store: slice "\<lambda>(key, a). keyedVariablesReducer env key a" initialKeyedVariablesState
  "\<lambda>st. \<forall>key. templatingOk (getVariablesState st key)" "\<lambda>(key, a). keepsId a" for env
proof unfold_locales
  show "\<forall>key. templatingOk (getVariablesState initialKeyedVariablesState key)"
    by (simp add: getVariablesState_def initialKeyedVariablesState_def templatingOk_initial)
next
  fix x s s'
  assume r: "(case x of (key, a) \<Rightarrow> keyedVariablesReducer env key a) s = Some s'"
    and "\<forall>key. templatingOk (getVariablesState s key)" and "case x of (key, a) \<Rightarrow> keepsId a"
  then show "\<forall>key. templatingOk (getVariablesState s' key)"
    by (cases x) (metis case_prod_conv getVariablesState_reducer templatingOk_reducer)
qed

lemma dispatchAll_run: "dispatchAll env log st = store.run env log st"
  by (induction env log st rule: dispatchAll.induct) (auto split: option.split)

text \<open>
  Claim C14. Whatever actions are dispatched to whatever dashboards, as long as none writes to the field
  \<open>id\<close> of a variable itself, every variable of every dashboard is stored under its own identifier, and
  the editor counts as valid exactly if it shows no error.
\<close>

theorem store_invariant:
  assumes "dispatchAll env log initialKeyedVariablesState = Some st" and "\<forall>(key, a) \<in> set log. keepsId a"
  shows "storedUnderId (tp_variables (getVariablesState st key)) \<and>
    (ed_isValid (tp_editor (getVariablesState st key)) \<longleftrightarrow> ed_errors (tp_editor (getVariablesState st key)) = [])"
  using store.inv_reachable [OF assms(1) [unfolded dispatchAll_run]] assms(2) by (simp add: templatingOk_def)

text \<open>
  Claim C40. Dashboards do not touch each other: after actions on several of them, interleaved in any way,
  the state of each is the one that its own actions alone lead to.
\<close>

theorem dashboards_independent:
  assumes "dispatchAll env log st = Some st'"
  shows "\<exists>s. dispatchAll env (filter (\<lambda>(k, a). k = key) log) st = Some s \<and>
    getVariablesState s key = getVariablesState st' key"
proof -
  have "\<exists>s. dispatchAll env (filter (\<lambda>(k, a). k = key) log) s0 = Some s \<and> getVariablesState s key = getVariablesState st' key"
    if "getVariablesState s0 key = getVariablesState st key" for s0
    using assms that
  proof (induction env log st arbitrary: s0 rule: dispatchAll.induct)
    case (1 env st)
    then show ?case by simp
  next
    case (2 env k a log st)
    then obtain st1 where st1: "keyedVariablesReducer env k a st = Some st1" "dispatchAll env log st1 = Some st'"
      by (auto split: option.splits)
    show ?case
    proof (cases "k = key")
      case True
      then have "templatingReducers env a (getVariablesState s0 key) = Some (getVariablesState st1 key)"
        using getVariablesState_reducer(1) [OF st1(1)] 2(3) by simp
      then obtain s1 where s1: "keyedVariablesReducer env key a s0 = Some s1"
        by (simp add: keyedVariablesReducer_def)
      with \<open>templatingReducers env a (getVariablesState s0 key) = _\<close>
      have "getVariablesState s1 key = getVariablesState st1 key"
        using getVariablesState_reducer(1) [OF s1] by simp
      from 2(1) [OF st1 this] show ?thesis using True s1 by simp
    next
      case False
      then have "getVariablesState st1 key = getVariablesState st key"
        using getVariablesState_reducer(2) [OF st1(1)] by metis
      with 2(3) have "getVariablesState s0 key = getVariablesState st1 key" by simp
      from 2(1) [OF st1 this] show ?thesis using False by simp
    qed
  qed
  then show ?thesis by simp
qed

text \<open>Actions that never throw.\<close>

lemma reducer_defined:
  "variablesReducer env a (tp_variables (getVariablesState st key)) \<noteq> None \<Longrightarrow>
   \<exists>st'. keyedVariablesReducer env key a st = Some st'"
  by (auto simp: keyedVariablesReducer_def templatingReducers_def)

lemma addVariable_defined: "variablesReducer env (SharedAction t (AddVariable p)) vs \<noteq> None"
  by (auto simp: variablesReducer_def payloadType_def sharedReducer_def addVariable_def Let_def)

text \<open>A log of two dashboards, with an error in the editor of the second.\<close>

definition plainEnv :: textEnv where
  "plainEnv = \<lparr>tx_toLower = (\<lambda>s. s), tx_newRegExp = (\<lambda>_ _. None)\<rparr>"

definition customModel :: jsobj where
  "customModel =
     [(js ''id'', JStr (js ''a'')), (js ''name'', JStr (js ''a'')), (js ''type'', JStr (js ''custom'')),
      (js ''query'', JStr (js ''1,2'')), (js ''rootStateKey'', JStr (js ''d''))]"

definition twoDashboards :: "(jsstr \<times> templatingAction) list" where
  "twoDashboards =
     [(js ''d'', InitTransaction (JStr (js ''d''))),
      (js ''d'', SharedAction (js ''custom'') (AddVariable
         \<lparr>av_id = None, av_type = js ''custom'', av_model = customModel, av_index = 0, av_global = False\<rparr>)),
      (js ''e'', EditorAction (ChangeVariableNameFailed (js ''x y'') (js ''bad'')))]"

lemma twoDashboards_runs:
  "\<exists>st. dispatchAll plainEnv twoDashboards initialKeyedVariablesState = Some st \<and>
     ed_errors (tp_editor (getVariablesState st (js ''e''))) \<noteq> []"
proof -
  let ?add = "SharedAction (js ''custom'') (AddVariable
    \<lparr>av_id = None, av_type = js ''custom'', av_model = customModel, av_index = 0, av_global = False\<rparr>)"
  let ?failed = "EditorAction (ChangeVariableNameFailed (js ''x y'') (js ''bad''))"
  obtain st1 where 1: "keyedVariablesReducer plainEnv (js ''d'') (InitTransaction (JStr (js ''d''))) initialKeyedVariablesState = Some st1"
    using reducer_defined [of plainEnv "InitTransaction (JStr (js ''d''))" initialKeyedVariablesState "js ''d''"]
    by (auto simp: variablesReducer_def)
  obtain st2 where 2: "keyedVariablesReducer plainEnv (js ''d'') ?add st1 = Some st2"
    using reducer_defined [OF addVariable_defined] by blast
  obtain st3 where 3: "keyedVariablesReducer plainEnv (js ''e'') ?failed st2 = Some st3"
    using reducer_defined [of plainEnv ?failed st2 "js ''e''"] by (auto simp: variablesReducer_def)
  have "ed_errors (tp_editor (getVariablesState st3 (js ''e''))) \<noteq> []"
    using templatingReducers_parts(2) [OF getVariablesState_reducer(1) [OF 3]]
    by (auto simp: variableEditorReducer_def setErrors_def dest!: arg_cong [of _ "[]" "\<lambda>m. objGet m (js ''name'')"]
        simp: objGet_objSet)
  then show ?thesis using 1 2 3 by (simp add: twoDashboards_def)
qed

lemma store_invariant_witness:
  "\<exists>st. dispatchAll plainEnv twoDashboards initialKeyedVariablesState = Some st \<and>
     storedUnderId (tp_variables (getVariablesState st (js ''d''))) \<and>
     \<not> ed_isValid (tp_editor (getVariablesState st (js ''e'')))"
proof -
  obtain st where st: "dispatchAll plainEnv twoDashboards initialKeyedVariablesState = Some st"
    "ed_errors (tp_editor (getVariablesState st (js ''e''))) \<noteq> []"
    using twoDashboards_runs by blast
  have "\<forall>(key, a) \<in> set twoDashboards. keepsId a" by (simp add: twoDashboards_def)
  from store_invariant [OF st(1) this] st show ?thesis by auto
qed

lemma dashboards_independent_witness:
  "\<exists>s st. dispatchAll plainEnv (filter (\<lambda>(k, a). k = js ''e'') twoDashboards) initialKeyedVariablesState = Some s \<and>
     dispatchAll plainEnv twoDashboards initialKeyedVariablesState = Some st \<and>
     getVariablesState s (js ''e'') = getVariablesState st (js ''e'')"
  using twoDashboards_runs dashboards_independent [of plainEnv twoDashboards initialKeyedVariablesState _ "js ''e''"] by blast

end
