(* ===== verification/TemplatingActionsProps.thy ===== *)
theory TemplatingActionsProps
  imports TemplatingActions TemplatingStoreProps
begin

text \<open>
  What the actions make of the store: renaming a variable loses none and keeps it in its place, a new
  variable has a name of its own and comes last, a dashboard is loaded with its variables in order.
\<close>

subsection \<open>Dispatching\<close>

abbreviation variablesAt :: "keyedVariablesState \<Rightarrow> jsstr \<Rightarrow> variablesState" where
  "variablesAt st key \<equiv> tp_variables (getVariablesState st key)"

abbreviation editorAt :: "keyedVariablesState \<Rightarrow> jsstr \<Rightarrow> variableEditorState" where
  "editorAt st key \<equiv> tp_editor (getVariablesState st key)"

abbreviation transactionAt :: "keyedVariablesState \<Rightarrow> jsstr \<Rightarrow> transactionState" where
  "transactionAt st key \<equiv> tp_transaction (getVariablesState st key)"

text \<open>A sequence of actions at one key, as the fold of the reducers over the parts of its state.\<close>

fun runVariables :: "textEnv \<Rightarrow> templatingAction list \<Rightarrow> variablesState \<Rightarrow> variablesState option" where
  "runVariables env [] vs = Some vs"
| "runVariables env (a # as) vs =
     (case variablesReducer env a vs of None \<Rightarrow> None | Some vs1 \<Rightarrow> runVariables env as vs1)"

lemma runVariables_append:
  "runVariables env (as @ bs) vs =
     (case runVariables env as vs of None \<Rightarrow> None | Some vs1 \<Rightarrow> runVariables env bs vs1)"
  by (induction env as vs rule: runVariables.induct) (auto split: option.split)

lemma keyedVariablesReducer_None:
  "keyedVariablesReducer env key a st = None \<longleftrightarrow> variablesReducer env a (variablesAt st key) = None"
  by (simp add: keyedVariablesReducer_def templatingReducers_def)

lemma dispatchTo_parts:
  assumes "dispatchTo env key as st = Some st'"
  shows "runVariables env as (variablesAt st key) = Some (variablesAt st' key)"
    "editorAt st' key = fold variableEditorReducer as (editorAt st key)"
    "transactionAt st' key = fold transactionReducer as (transactionAt st key)"
proof -
  have "runVariables env as (variablesAt st key) = Some (variablesAt st' key) \<and>
      editorAt st' key = fold variableEditorReducer as (editorAt st key) \<and>
      transactionAt st' key = fold transactionReducer as (transactionAt st key)"
    using assms unfolding dispatchTo_def
  proof (induction as arbitrary: st)
    case (Cons a as)
    then obtain s where s: "keyedVariablesReducer env key a st = Some s" "dispatchAll env (map (Pair key) as) s = Some st'"
      by (auto split: option.splits)
    note p = templatingReducers_parts [OF getVariablesState_reducer(1) [OF s(1)]]
    from Cons.IH [OF s(2)] p show ?case by simp
  qed simp
  then show "runVariables env as (variablesAt st key) = Some (variablesAt st' key)"
    "editorAt st' key = fold variableEditorReducer as (editorAt st key)"
    "transactionAt st' key = fold transactionReducer as (transactionAt st key)" by simp_all
qed

lemma dispatchTo_None: "dispatchTo env key as st = None \<longleftrightarrow> runVariables env as (variablesAt st key) = None"
  unfolding dispatchTo_def
proof (induction as arbitrary: st)
  case (Cons a as)
  show ?case
  proof (cases "keyedVariablesReducer env key a st")
    case None
    then show ?thesis using keyedVariablesReducer_None [of env key a st] by simp
  next
    case (Some s)
    with templatingReducers_parts(1) [OF getVariablesState_reducer(1) [OF Some]] Cons.IH [of s] show ?thesis by simp
  qed
qed simp

lemma dispatchTo_Some:
  assumes "runVariables env as (variablesAt st key) = Some vs"
  obtains st' where "dispatchTo env key as st = Some st'" "variablesAt st' key = vs"
  using assms dispatchTo_None [of env key as st] dispatchTo_parts(1) [of env key as st]
  by (cases "dispatchTo env key as st") auto

lemma dispatchTo_other:
  assumes "dispatchTo env key as st = Some st'" and "key' \<noteq> key"
  shows "getVariablesState st' key' = getVariablesState st key'"
  using assms unfolding dispatchTo_def
proof (induction as arbitrary: st)
  case (Cons a as)
  then obtain s where "keyedVariablesReducer env key a st = Some s" "dispatchAll env (map (Pair key) as) s = Some st'"
    by (auto split: option.splits)
  with Cons getVariablesState_reducer(2) show ?case by metis
qed simp

subsection \<open>Adding\<close>

lemma addDefaults_simps:
  "addDefaults d [] = d"
  "addDefaults d (p # src) = addDefaults (if field d (fst p) = JUndef then objSet (fst p) (snd p) d else d) src"
  by (simp_all add: addDefaults_def case_prod_beta)

lemma addDefaults_keeps: "field d k \<noteq> JUndef \<Longrightarrow> field (addDefaults d src) k = field d k"
proof (induction src arbitrary: d)
  case (Cons p src)
  let ?d = "if field d (fst p) = JUndef then objSet (fst p) (snd p) d else d"
  have "field ?d k = field d k" using Cons.prems by (auto simp: field_objSet)
  with Cons.IH [of ?d] Cons.prems show ?case unfolding addDefaults_simps by simp
qed (simp add: addDefaults_simps)

lemma addDefaults_takes:
  "field d k = JUndef \<Longrightarrow> field src k \<noteq> JUndef \<Longrightarrow> field (addDefaults d src) k = field src k"
proof (induction src arbitrary: d)
  case (Cons p src)
  let ?d = "if field d (fst p) = JUndef then objSet (fst p) (snd p) d else d"
  have unfold: "addDefaults d (p # src) = addDefaults ?d src" by (simp only: addDefaults_simps)
  show ?case
  proof (cases "fst p = k")
    case True
    then have f: "field (p # src) k = snd p" by (cases p) (simp add: field_def objGet_def)
    then have "field ?d k = snd p" using True Cons.prems by (simp add: field_objSet)
    with addDefaults_keeps [of ?d k src] Cons.prems(2) f show ?thesis unfolding unfold by simp
  next
    case False
    then have "field (p # src) k = field src k" by (cases p) (simp add: field_def objGet_def)
    moreover have "field ?d k = JUndef" using False Cons.prems by (simp add: field_objSet)
    ultimately show ?thesis using Cons.IH [of ?d] Cons.prems(2) unfolding unfold by simp
  qed
qed (simp add: field_def objGet_def)

text \<open>The variable that \<open>addVariable\<close> stores.\<close>

definition storedVariable :: "adapter \<Rightarrow> jsstr \<Rightarrow> addVariablePayload \<Rightarrow> jsobj" where
  "storedVariable ad i p =
     objSpread
       (addDefaults (addDefaults [] (case ad_beforeAdding ad of Some g \<Rightarrow> g (av_model p) | None \<Rightarrow> av_model p))
          (ad_initialState ad))
       [(js ''id'', JStr i), (js ''index'', JInt (av_index p)), (js ''global'', JBool (av_global p))]"

lemma field_storedVariable:
  "field (storedVariable ad i p) (js ''id'') = JStr i"
  "indexOf (storedVariable ad i p) = av_index p"
  "f \<notin> {js ''id'', js ''index'', js ''global''} \<Longrightarrow> ad_beforeAdding ad = None \<Longrightarrow> field (av_model p) f \<noteq> JUndef \<Longrightarrow>
   field (storedVariable ad i p) f = field (av_model p) f"
  by (simp_all add: storedVariable_def field_objSpread indexOf_def addDefaults_keeps addDefaults_takes
      field_def [of "[]"])

lemma addVariable_stored:
  assumes "variableAdapters (av_type p) = Some ad"
  shows "variablesReducer env (SharedAction t (AddVariable p)) vs =
    Some (objSet (case av_id p of Some i \<Rightarrow> i | None \<Rightarrow> jsString (field (av_model p) (js ''name'')))
      (storedVariable ad (case av_id p of Some i \<Rightarrow> i | None \<Rightarrow> jsString (field (av_model p) (js ''name''))) p) vs)"
  using assms by (simp add: variablesReducer_def payloadType_def sharedReducer_def addVariable_def
      storedVariable_def Let_def)
subsection \<open>Renaming\<close>

text \<open>Every variable is stored under its name, and the names of the system variables are reserved.\<close>

definition namesAreIds :: "variablesState \<Rightarrow> bool" where
  "namesAreIds vs \<longleftrightarrow>
     storedUnderId vs \<and>
     (\<forall>k m. objGet vs k = Some m \<longrightarrow>
        field m (js ''name'') = JStr k \<and> (typeOf m = JStr (js ''system'') \<longrightarrow> startsWith (js ''__'') k))"

lemma set_getVariablesByKey:
  "m \<in> set (getVariablesByKey st key) \<longleftrightarrow> m \<in> snd ` set (variablesAt st key) \<and> typeOf m \<noteq> JStr (js ''system'')"
  by (auto simp: getVariablesByKey_def getFilteredVariablesByKey_def set_objectValues defaultVariablesFilter_def typeOf_def)

lemma stored_in_set: "storedUnderId vs \<Longrightarrow> m \<in> snd ` set vs \<longleftrightarrow> (\<exists>k. objGet vs k = Some m)"
  by (force simp: storedUnderId_def objGet_in_set)

lemma accepted_name_free:
  assumes "namesAreIds (variablesAt st key)" and "nameError (getVariablesByKey st key) i newName = None"
    and "newName \<noteq> i"
  shows "objGet (variablesAt st key) newName = None"
proof (rule ccontr)
  assume "objGet (variablesAt st key) newName \<noteq> None"
  then obtain v where v: "objGet (variablesAt st key) newName = Some v" by auto
  with assms(1) have f: "field v (js ''name'') = JStr newName" "field v (js ''id'') = JStr newName"
    "typeOf v = JStr (js ''system'') \<longrightarrow> startsWith (js ''__'') newName"
    and s: "storedUnderId (variablesAt st key)"
    by (auto simp: namesAreIds_def storedUnderId_def)
  have "\<not> startsWith (js ''__'') newName" using assms(2) by (auto simp: nameError_def split: if_splits)
  with f(3) v stored_in_set [OF s] have "v \<in> set (getVariablesByKey st key)"
    by (auto simp: set_getVariablesByKey)
  with f(1,2) assms(3) have
    "filter (\<lambda>v. field v (js ''name'') = JStr newName \<and> field v (js ''id'') \<noteq> JStr i) (getVariablesByKey st key) \<noteq> []"
    by (auto simp: filter_empty_conv)
  with assms(2) show False by (simp add: nameError_def)
qed

lemma renamedModel_fields:
  "field (renamedModel n m) (js ''name'') = JStr n" "field (renamedModel n m) (js ''id'') = JStr n"
  "f \<notin> {js ''name'', js ''id''} \<Longrightarrow> field (renamedModel n m) f = field m f"
  by (simp_all add: renamedModel_def field_objSpread)

lemma objGet_objSet_twice [simp]: "objSet k v (objSet k w m) = objSet k v m"
  by (induction k w m rule: objSet.induct) auto

text \<open>What the three actions of a renaming make of the variables.\<close>

lemma rename_variables:
  assumes "variableAdapters t = Some ad" and "newName \<noteq> i"
  shows "runVariables env
      [addVariableOf \<lparr>ki_type = t, ki_id = newName, ki_rootStateKey = key\<rparr> g n model,
       SharedAction t (ChangeVariableNameSucceeded newName newName),
       SharedAction t' (RemoveVariable i False)] vs =
    Some ((if variableAdapters t' = None then id else objDelete i)
      (objSet newName
        (objSet (js ''name'') (JStr newName)
          (storedVariable ad newName
            \<lparr>av_id = Some newName, av_type = t, av_model = model, av_index = n, av_global = g\<rparr>)) vs))"
  using assms by (simp add: addVariableOf_def addVariable_stored) (simp add: variablesReducer_def payloadType_def
      sharedReducer_def changeVariableName_def onVariable_def getInstanceState_def removeVariable_def obj.get_set)

text \<open>
  Claim C15. Giving a variable a name that is accepted loses no variable: the variable is stored under its
  new name, with the place it had and, unless its type rebuilds it, with all its other fields; it is gone
  under the old name, and the others are as they were. The editor shows the new name without an error.
\<close>

theorem rename_variable:
  fixes st st' ident newName env
  defines "key \<equiv> ki_rootStateKey ident"
  assumes "changeVariableNameAction env ident newName st = Some st'"
    and "nameError (getVariablesByKey st key) (ki_id ident) newName = None"
    and "namesAreIds (variablesAt st key)" and "getVariable st ident = Some m"
    and "typeOf m = JStr (ki_type ident)" and "variableAdapters (ki_type ident) = Some ad" and "newName \<noteq> ki_id ident"
  shows "objGet (variablesAt st key) newName = None \<and>
    objGet (variablesAt st' key) (ki_id ident) = None \<and>
    (\<exists>m'. objGet (variablesAt st' key) newName = Some m' \<and>
       field m' (js ''id'') = JStr newName \<and> field m' (js ''name'') = JStr newName \<and> indexOf m' = indexOf m \<and>
       (ad_beforeAdding ad = None \<longrightarrow>
          (\<forall>f. f \<notin> {js ''id'', js ''name'', js ''index'', js ''global''} \<and> field m f \<noteq> JUndef \<longrightarrow> field m' f = field m f))) \<and>
    (\<forall>k. k \<notin> {ki_id ident, newName} \<longrightarrow> objGet (variablesAt st' key) k = objGet (variablesAt st key) k) \<and>
    ed_name (editorAt st' key) = newName \<and> objGet (ed_errors (editorAt st' key)) (js ''name'') = None"
proof -
  have m: "objGet (variablesAt st key) (ki_id ident) = Some m" using assms(5) by (simp add: getVariable_def key_def)
  have name: "field m (js ''name'') \<noteq> JStr newName" using assms(4,8) m by (auto simp: namesAreIds_def)
  have free: "objGet (variablesAt st key) newName = None" by (rule accepted_name_free [OF assms(4,3,8)])
  let ?model = "renamedModel newName m"
  obtain renamed where renamed: "toKeyedVariableIdentifier ?model = Some renamed"
    using assms(2,3,5) name
    by (auto simp: changeVariableNameAction_def completeChangeVariableName_def key_def Let_def split: option.splits)
  then have r: "ki_id renamed = newName" "ki_type renamed = ki_type ident"
    using assms(6) renamedModel_fields(2) [of newName m] renamedModel_fields(3) [of "js ''type''" newName m]
    by (auto simp: toKeyedVariableIdentifier_def typeOf_def split: if_splits)
  let ?acts = "[addVariableOf renamed (isGlobal m) (indexOf m) ?model,
    SharedAction (ki_type ident) (ChangeVariableNameSucceeded newName newName),
    SharedAction (ki_type ident) (RemoveVariable (ki_id ident) False)]"
  have d: "dispatchTo env key ?acts st = Some st'"
    using assms(2,3,5) name renamed r
    by (auto simp: changeVariableNameAction_def completeChangeVariableName_def key_def Let_def split: option.splits)
  note parts = dispatchTo_parts [OF d]
  let ?p = "\<lparr>av_id = Some newName, av_type = ki_type ident, av_model = ?model, av_index = indexOf m, av_global = isGlobal m\<rparr>"
  let ?m' = "objSet (js ''name'') (JStr newName) (storedVariable ad newName ?p)"
  have "runVariables env ?acts (variablesAt st key) =
      Some (objDelete (ki_id ident) (objSet newName ?m' (variablesAt st key)))"
    using rename_variables [OF assms(7,8), of env "ki_rootStateKey renamed" "isGlobal m" "indexOf m" ?model
        "ki_type ident" "variablesAt st key"] assms(7) r
    by (cases renamed) simp
  with parts(1) have vs: "variablesAt st' key = objDelete (ki_id ident) (objSet newName ?m' (variablesAt st key))" by simp
  have "ed_name (editorAt st' key) = newName \<and> objGet (ed_errors (editorAt st' key)) (js ''name'') = None"
    unfolding parts(2)
    by (simp add: addVariableOf_def variableEditorReducer_def setErrors_def obj.get_delete)
  moreover have "indexOf ?m' = indexOf m"
    using field_storedVariable(2) [of ad newName ?p] by (simp add: indexOf_def field_objSet)
  ultimately show ?thesis
    using free assms(8) field_storedVariable(1) [of ad newName ?p] field_storedVariable(3) [of _ ad ?p newName] renamedModel_fields(3) [of _ newName m]
    by (auto simp: vs obj.get_set obj.get_delete field_objSet)
qed

subsection \<open>New variables\<close>

lemma nextId_first:
  "\<exists>k. counter \<le> k \<and> nextId t ids counter = t @ natToStr k \<and> t @ natToStr k \<notin> set ids \<and>
     (\<forall>j. counter \<le> j \<and> j < k \<longrightarrow> t @ natToStr j \<in> set ids)"
proof (induction t ids counter rule: nextId.induct)
  case (1 t ids counter)
  show ?case
  proof (cases "t @ natToStr counter \<in> set ids")
    case True
    from 1 [OF True] obtain k where "Suc counter \<le> k" "nextId t ids (Suc counter) = t @ natToStr k"
      "t @ natToStr k \<notin> set ids" "\<forall>j. Suc counter \<le> j \<and> j < k \<longrightarrow> t @ natToStr j \<in> set ids" by blast
    moreover from this have "\<forall>j. counter \<le> j \<and> j < k \<longrightarrow> t @ natToStr j \<in> set ids"
      using True by (metis Suc_leI le_eq_less_or_eq)
    ultimately show ?thesis
      using True by (subst nextId.simps) (auto intro!: exI [of _ k])
  next
    case False
    then show ?thesis by (subst nextId.simps) (auto intro!: exI [of _ counter])
  qed
qed

lemma insort_key_last:
  "insort_key f y (ys @ [x]) = insort_key f y ys @ [x]" if "f y \<le> f x"
  using that by (induction ys) auto

lemma sort_key_append_last:
  assumes "\<forall>y \<in> set xs. f y \<le> f x"
  shows "sort_key f (xs @ [x]) = sort_key f xs @ [x]"
  using assms by (induction xs) (simp_all add: insort_key_last)

lemma indexOf_below_new:
  assumes "v \<in> set vs" and "defaultVariablesFilter v"
  shows "indexOf v < getNextVariableIndex vs"
proof -
  let ?s = "sort_key indexOf (filter defaultVariablesFilter vs)"
  have v: "v \<in> set ?s" using assms by simp
  then have "?s \<noteq> []" by (metis empty_iff list.set(1))
  moreover have "indexOf v \<le> indexOf (last ?s)"
  proof -
    obtain i where i: "i < length ?s" "?s ! i = v" using v by (metis in_set_conv_nth)
    have "sorted (map indexOf ?s)" by (rule sorted_sort_key)
    then have "map indexOf ?s ! i \<le> map indexOf ?s ! (length ?s - 1)"
      using i(1) by (intro sorted_nth_mono) auto
    then show ?thesis using i \<open>?s \<noteq> []\<close> by (simp add: last_conv_nth)
  qed
  ultimately show ?thesis by (simp add: getNextVariableIndex_def Let_def)
qed

lemma objSet_new: "objGet m k = None \<Longrightarrow> objSet k v m = m @ [(k, v)]"
  by (induction k v m rule: objSet.induct) (auto simp: objGet_def split: if_splits)

lemma objectValues_new:
  assumes "objGet m k = None" and "arrayIndex k = None"
  shows "objectValues (objSet k v m) = objectValues m @ [v]"
  using assms by (simp add: objSet_new objectValues_def objectEntries_def)

text \<open>The types of variables that can be created.\<close>

definition creatable :: "jsstr \<Rightarrow> bool" where
  "creatable t \<longleftrightarrow> variableAdapters t \<noteq> None \<and> t \<noteq> js ''system''"

lemma creatable_cases:
  "creatable t \<Longrightarrow> t \<in> js ` {''query'', ''custom'', ''textbox'', ''constant'', ''datasource'', ''interval'', ''adhoc''}"
  by (auto simp: creatable_def variableAdapters_def split: if_splits)

lemma creatable_id:
  assumes "creatable t"
  shows "arrayIndex (t @ natToStr k) = None" "\<not> startsWith (js ''__'') (t @ natToStr k)"
  using creatable_cases [OF assms]
  by (auto simp: arrayIndex_def startsWith_def js_def isDigit_def)

lemmas initialStates =
  initialQueryVariableModelState_def initialCustomVariableModelState_def initialTextBoxVariableModelState_def
  initialConstantVariableModelState_def initialDataSourceVariableModelState_def initialIntervalVariableModelState_def
  initialAdHocVariableModelState_def initialSystemVariableModelState_def initialModel_def initialVariableModelState_def

lemma initialState_type:
  assumes "variableAdapters t = Some ad"
  shows "field (ad_initialState ad) (js ''type'') = JStr t"
  using assms by (auto simp: variableAdapters_def initialStates field_objSpread split: if_splits)

lemma beforeAdding_keeps:
  assumes "variableAdapters t = Some ad" and "ad_beforeAdding ad = Some g"
    and "f \<notin> {js ''current'', js ''options'', js ''query'', js ''originalQuery''}"
  shows "field (g m) f = field m f"
  using assms
  by (auto simp: variableAdapters_def beforeAddingConstant_def beforeAddingTextBox_def Let_def field_objSpread
      field_def objGet_objSpread obj.get_delete split: if_splits)

lemma field_storedVariable_kept:
  assumes "variableAdapters t = Some ad" and "field (av_model p) f \<noteq> JUndef"
    and "f \<notin> {js ''id'', js ''index'', js ''global'', js ''current'', js ''options'', js ''query'', js ''originalQuery''}"
  shows "field (storedVariable ad i p) f = field (av_model p) f"
proof (cases "ad_beforeAdding ad")
  case None
  then show ?thesis using field_storedVariable(3) [of f ad p i] assms by simp
next
  case (Some g)
  have "field (g (av_model p)) f = field (av_model p) f" by (rule beforeAdding_keeps [OF assms(1) Some]) (use assms in auto)
  then show ?thesis
    using Some assms by (simp add: storedVariable_def field_objSpread addDefaults_keeps addDefaults_takes field_def [of "[]"])
qed

text \<open>
  A new variable gets a name of its own, its type with the first number that no variable has,
  comes after all the variables there are, and leaves them as they are.
\<close>

theorem new_variable_comes_last:
  assumes "createNewVariable env key t st = Some st'" and "creatable t" and "namesAreIds (variablesAt st key)"
  shows "\<exists>m n. getVariablesByKey st' key = getVariablesByKey st key @ [m] \<and>
    field m (js ''name'') = JStr (t @ natToStr n) \<and> field m (js ''id'') = JStr (t @ natToStr n) \<and> typeOf m = JStr t \<and>
    objGet (variablesAt st key) (t @ natToStr n) = None \<and>
    (\<forall>j < n. objGet (variablesAt st key) (t @ natToStr j) \<noteq> None)"
proof -
  let ?vs = "variablesAt st key" and ?old = "getVariablesByKey st key"
  obtain ad where ad: "variableAdapters t = Some ad" using assms(2) by (auto simp: creatable_def)
  let ?i = "getNextAvailableId t ?old"
  let ?model = "fold (\<lambda>(k, v). objSet k v)
    [(js ''id'', JStr ?i), (js ''name'', JStr ?i), (js ''rootStateKey'', JStr key)] (ad_initialState ad)"
  let ?p = "\<lparr>av_id = Some ?i, av_type = t, av_model = ?model, av_index = getNewVariableIndex st key, av_global = False\<rparr>"
  let ?m = "storedVariable ad ?i ?p"
  obtain n where n: "?i = t @ natToStr n" "t @ natToStr n \<notin> set (map idOf ?old)"
    "\<forall>j < n. t @ natToStr j \<in> set (map idOf ?old)"
    using nextId_first [of 0 t "map idOf ?old"] unfolding getNextAvailableId_def by auto
  have vs: "variablesAt st' key = objSet ?i ?m ?vs"
    using assms(1) ad addVariable_stored [of ?p ad env t ?vs]
    by (auto simp: createNewVariable_def Let_def addVariableOf_def dest!: dispatchTo_parts(1))
  have s: "storedUnderId ?vs" using assms(3) by (simp add: namesAreIds_def)
  have ids: "objGet ?vs k \<noteq> None" if "k \<in> set (map idOf ?old)" for k
    using that s by (auto simp: set_getVariablesByKey stored_in_set [OF s] idOf_def storedUnderId_def)
  have none: "objGet ?vs ?i = None"
  proof (rule ccontr)
    assume "objGet ?vs ?i \<noteq> None"
    then obtain v where v: "objGet ?vs ?i = Some v" by auto
    then have "typeOf v \<noteq> JStr (js ''system'')" "idOf v = ?i"
      using assms(3) creatable_id(2) [OF assms(2), of n] n(1) by (auto simp: namesAreIds_def storedUnderId_def idOf_def)
    with v s have "?i \<in> set (map idOf ?old)"
      by (auto simp: set_getVariablesByKey stored_in_set [OF s] intro!: image_eqI [of _ idOf v])
    with n show False by simp
  qed
  have type: "typeOf ?m = JStr t"
    using field_storedVariable_kept [OF ad, of ?p "js ''type''" ?i] initialState_type [OF ad]
    by (simp add: typeOf_def field_objSet)
  have "\<forall>v \<in> set (filter defaultVariablesFilter (objectValues ?vs)). indexOf v \<le> indexOf ?m"
    using indexOf_below_new [of _ "objectValues ?vs"] field_storedVariable(2) [of ad ?i ?p]
    by (auto simp: getNewVariableIndex_def less_imp_le)
  then have "getVariablesByKey st' key = ?old @ [?m]"
    using objectValues_new [OF none, of ?m] creatable_id(1) [OF assms(2), of n] n(1) assms(2) type
    by (simp add: getVariablesByKey_def getFilteredVariablesByKey_def vs sort_key_append_last defaultVariablesFilter_def
        typeOf_def creatable_def)
  moreover have "field ?m (js ''name'') = JStr ?i"
    using field_storedVariable_kept [OF ad, of ?p "js ''name''" ?i] by (simp add: field_objSet)
  ultimately show ?thesis
    using n(1,3) type none ids field_storedVariable(1) [of ad ?i ?p] by (intro exI [of _ ?m] exI [of _ n]) auto
qed

subsection \<open>A dashboard with one variable\<close>

definition oneVariable :: variablesState where
  "oneVariable = [(js ''a'', objSpread customModel [(js ''index'', JInt 0), (js ''global'', JBool False)])]"

definition oneDashboard :: keyedVariablesState where
  "oneDashboard = \<lparr>ks_lastKey = None, ks_keys = [(js ''d'', initialTemplatingState\<lparr>tp_variables := oneVariable\<rparr>)]\<rparr>"

definition customIdent :: keyedVariableIdentifier where
  "customIdent = \<lparr>ki_type = js ''custom'', ki_id = js ''a'', ki_rootStateKey = js ''d''\<rparr>"

lemma oneDashboard_variables: "variablesAt oneDashboard (js ''d'') = oneVariable"
  by (simp add: oneDashboard_def getVariablesState_def objGet_def)

lemma namesAreIds_one:
  assumes "field m (js ''id'') = JStr k" "field m (js ''name'') = JStr k" "typeOf m \<noteq> JStr (js ''system'')"
  shows "namesAreIds [(k, m)]"
  using assms by (simp add: namesAreIds_def storedUnderId_def objKeysOk_def objGet_def)

lemma oneVariable_ok: "namesAreIds oneVariable"
  unfolding oneVariable_def by (rule namesAreIds_one; code_simp)

lemma rename_variable_witness:
  "\<exists>st' m'. changeVariableNameAction plainEnv customIdent (js ''b'') oneDashboard = Some st' \<and>
     objGet (variablesAt st' (js ''d'')) (js ''a'') = None \<and>
     objGet (variablesAt st' (js ''d'')) (js ''b'') = Some m' \<and> field m' (js ''query'') = JStr (js ''1,2'')"
proof -
  let ?m = "objSpread customModel [(js ''index'', JInt 0), (js ''global'', JBool False)]"
  have key: "ki_rootStateKey customIdent = js ''d''" and i: "ki_id customIdent = js ''a''" "ki_type customIdent = js ''custom''"
    by (simp_all add: customIdent_def)
  have n: "nameError (getVariablesByKey oneDashboard (js ''d'')) (ki_id customIdent) (js ''b'') = None" by code_simp
  have m: "getVariable oneDashboard customIdent = Some ?m" by code_simp
  have t: "typeOf ?m = JStr (ki_type customIdent)" by code_simp
  have ad: "\<exists>ad. variableAdapters (ki_type customIdent) = Some ad \<and> ad_beforeAdding ad = None"
    by (simp add: customIdent_def variableAdapters_def js_def)
  have f: "field ?m (js ''query'') = JStr (js ''1,2'')" "field ?m (js ''name'') = JStr (js ''a'')"
    "isTruthy (field ?m (js ''rootStateKey''))" by code_simp+
  have ab: "js ''b'' \<noteq> js ''a''" by (simp add: js_def)
  from ad obtain ad where ad: "variableAdapters (ki_type customIdent) = Some ad" "ad_beforeAdding ad = None" by blast
  let ?r = "renamedModel (js ''b'') ?m"
  have ident: "toKeyedVariableIdentifier ?r =
      Some \<lparr>ki_type = ki_type customIdent, ki_id = js ''b'', ki_rootStateKey = jsString (field ?r (js ''rootStateKey''))\<rparr>"
    using f(3) t by (simp add: toKeyedVariableIdentifier_def renamedModel_fields typeOf_def)
  have "changeVariableNameAction plainEnv customIdent (js ''b'') oneDashboard =
      dispatchTo plainEnv (js ''d'')
        [addVariableOf
           \<lparr>ki_type = ki_type customIdent, ki_id = js ''b'', ki_rootStateKey = jsString (field ?r (js ''rootStateKey''))\<rparr>
           (isGlobal ?m) (indexOf ?m) ?r,
         SharedAction (ki_type customIdent) (ChangeVariableNameSucceeded (js ''b'') (js ''b'')),
         SharedAction (ki_type customIdent) (RemoveVariable (js ''a'') False)] oneDashboard"
    using f(2) ab
    by (simp add: changeVariableNameAction_def completeChangeVariableName_def key n m ident Let_def i(1) n [unfolded i(1)])
  moreover have "\<dots> \<noteq> None" unfolding dispatchTo_None rename_variables [OF ad(1) ab] by simp
  ultimately obtain st' where st': "changeVariableNameAction plainEnv customIdent (js ''b'') oneDashboard = Some st'" by auto
  show ?thesis
    using rename_variable [OF st', unfolded key oneDashboard_variables, OF n oneVariable_ok m t ad(1)] st' ad(2) f(1) ab
    by (force simp: i(1) js_def)
qed

lemma new_variable_comes_last_witness:
  "\<exists>st' m. createNewVariable plainEnv (js ''d'') (js ''query'') oneDashboard = Some st' \<and>
     getVariablesByKey st' (js ''d'') = getVariablesByKey oneDashboard (js ''d'') @ [m] \<and>
     (\<exists>n. field m (js ''name'') = JStr (js ''query'' @ natToStr n))"
proof -
  have c: "creatable (js ''query'')" by (simp add: creatable_def variableAdapters_def js_def)
  then obtain ad where ad: "variableAdapters (js ''query'') = Some ad" by (auto simp: creatable_def)
  have "createNewVariable plainEnv (js ''d'') (js ''query'') oneDashboard \<noteq> None"
    unfolding createNewVariable_def Let_def ad
    by (simp add: dispatchTo_None addVariableOf_def addVariable_defined split: option.split)
  then obtain st' where st': "createNewVariable plainEnv (js ''d'') (js ''query'') oneDashboard = Some st'" by blast
  then show ?thesis
    using new_variable_comes_last [OF st' c] oneVariable_ok by (simp add: oneDashboard_variables) blast
qed

subsection \<open>What the checks miss\<close>

text \<open>A query with a property that is \<open>null\<close> cannot be saved: flattening it throws.\<close>

lemma null_property_throws: "hasSelfReferencingQuery n (JObj [(js ''refId'', JNull)]) = None"
  by (simp add: hasSelfReferencingQuery_def textRefersTo_def flattenQuery.simps typeIsObject_def entriesOf_def
      objectEntries_def arrayIndex_def js_def)

text \<open>
  A reference to the variable itself is only seen before a slash, a space or the end, and only as
  \<open>$name\<close>, while the graph of the variables reads \<open>$name.\<close> and \<open>${name}\<close> too.
\<close>

lemma self_reference_missed:
  assumes "query \<in> js ` {''$a.count'', ''apps.${a}.count'', ''{$a,b}''}"
  shows "hasSelfReferencingQuery (js ''a'') (JStr query) = Some False" "containsVariable [JStr query] (js ''a'')"
proof -
  have "\<forall>q \<in> set [''$a.count'', ''apps.${a}.count'', ''{$a,b}'']. \<not> textRefersTo (js ''a'') (JStr (js q))"
    by code_simp
  moreover have "\<forall>q \<in> set [''$a.count'', ''apps.${a}.count'', ''{$a,b}'']. containsVariable [JStr (js q)] (js ''a'')"
    by code_simp
  ultimately show "hasSelfReferencingQuery (js ''a'') (JStr query) = Some False" "containsVariable [JStr query] (js ''a'')"
    using assms
    by (auto simp: hasSelfReferencingQuery_def flattenQuery.simps typeIsObject_def objectEntries_def arrayIndex_def js_def)
qed

text \<open>Duplicating a variable again replaces the first copy, with all that was changed in it.\<close>

lemma second_copy_replaces:
  assumes "sharedReducer adapters (DuplicateVariable i t None) vs = Some vs'"
    and "getInstanceState vs i = Some m" and "field m (js ''name'') = JStr n" and "objKeysOk vs"
    and "objGet vs (js ''copy_of_'' @ n) = Some copy"
  shows "map fst vs' = map fst vs" "\<exists>c. objGet vs' (js ''copy_of_'' @ n) = Some c \<and> indexOf c = getNextVariableIndex (objectValues vs)"
proof -
  obtain c where c: "vs' = objSet (js ''copy_of_'' @ n) c vs" "indexOf c = getNextVariableIndex (objectValues vs)"
    using assms(1-3)
    by (auto simp: sharedReducer_def duplicateVariable_def Let_def indexOf_def field_objSpread split: option.splits)
  then show "\<exists>c. objGet vs' (js ''copy_of_'' @ n) = Some c \<and> indexOf c = getNextVariableIndex (objectValues vs)"
    by (auto simp: objGet_objSet)
  have "map fst (objSet k c vs) = map fst vs" if "objGet vs k = Some x" for k x
    using that by (induction k c vs rule: objSet.induct) (auto simp: objGet_def split: if_splits)
  then show "map fst vs' = map fst vs" using c(1) assms(5) by simp
qed

text \<open>
  The variable made for a filter from a table takes the place of the one made for another data source,
  with all its filters.
\<close>

lemma table_filters_lost:
  assumes "createAdHocVariable env options key st = Some st'"
  shows "\<exists>m. objGet (variablesAt st' key) (js ''Filters'') = Some m \<and> field m (js ''filters'') = JArr []"
proof -
  obtain ad where ad: "variableAdapters (js ''adhoc'') = Some ad" "ad_beforeAdding ad = None"
    by (simp add: variableAdapters_def js_def)
  let ?m = "objSpread initialAdHocVariableModelState
    [(js ''datasource'', at_datasource options), (js ''name'', JStr filterTableName),
     (js ''id'', JStr filterTableName), (js ''rootStateKey'', JStr key)]"
  let ?p = "\<lparr>av_id = Some filterTableName, av_type = js ''adhoc'', av_model = ?m,
    av_index = getNewVariableIndex st key, av_global = False\<rparr>"
  have "variablesAt st' key = objSet filterTableName (storedVariable ad filterTableName ?p) (variablesAt st key)"
    using assms addVariable_stored [of ?p ad env "js ''adhoc''" "variablesAt st key"] ad(1)
    by (auto simp: createAdHocVariable_def Let_def addVariableOf_def dest!: dispatchTo_parts(1))
  moreover have "field ?m (js ''filters'') = JArr []"
    by (simp add: field_objSpread initialStates field_objSet)
  ultimately show ?thesis
    using field_storedVariable(3) [of "js ''filters''" ad ?p filterTableName] ad(2)
    by (simp add: obj.get_set filterTableName_def)
qed

end
