(* ===== verification/LoadingProps.thy ===== *)
theory LoadingProps
  imports TemplatingActionsProps Intervals
begin

text \<open>
  Loading a dashboard: after the transaction has started, the store lists the variables of the dashboard
  in the order they were saved in, all of them waiting to be processed, under their own names, and the
  dashboard does not count as changed.
\<close>

subsection \<open>Listing the variables\<close>

definition listed :: "variablesState \<Rightarrow> jsobj list" where
  "listed vs = sort_key indexOf (filter defaultVariablesFilter (objectValues vs))"

lemma getVariablesByKey_listed: "getVariablesByKey st key = listed (variablesAt st key)"
  by (simp add: getVariablesByKey_def getFilteredVariablesByKey_def listed_def)

lemma sort_key_map: "sort_key f (map g xs) = map g (sort_key (\<lambda>x. f (g x)) xs)"
proof (induction xs)
  case (Cons x xs)
  have "insort_key f (g x) (map g ys) = map g (insort_key (\<lambda>x. f (g x)) x ys)" for ys
    by (induction ys) auto
  with Cons show ?case by simp
qed simp

lemma sort_key_cong_on: "(\<And>x. x \<in> set xs \<Longrightarrow> f x = g x) \<Longrightarrow> sort_key f xs = sort_key g xs"
proof (induction xs)
  case (Cons x xs)
  have "insort_key f x ys = insort_key g x ys" if "set ys \<subseteq> set xs" for ys
    using that Cons.prems by (induction ys) auto
  then show ?case using Cons by simp
qed simp

abbreviation mapValues :: "('k \<Rightarrow> 'a \<Rightarrow> 'b) \<Rightarrow> ('k, 'a) obj \<Rightarrow> ('k, 'b) obj" where
  "mapValues h vs \<equiv> map (\<lambda>p. (fst p, h (fst p) (snd p))) vs"

lemma objectEntries_mapValues: "objectEntries (mapValues h vs) = mapValues h (objectEntries vs)"
  by (simp add: objectEntries_def filter_map sort_key_map comp_def)

text \<open>An update that keeps the place and the type of every variable keeps the list.\<close>

lemma listed_mapValues:
  assumes "\<And>k m. (k, m) \<in> set vs \<Longrightarrow> indexOf (h k m) = indexOf m \<and> typeOf (h k m) = typeOf m \<and> pr (h k m) = pr m"
  shows "map pr (listed (mapValues h vs)) = map pr (listed vs)"
proof -
  let ?F = "\<lambda>p. defaultVariablesFilter (snd p)" and ?es = "objectEntries vs"
  have F: "defaultVariablesFilter (h (fst p) (snd p)) = ?F p" if "p \<in> set vs" for p
    using assms [of "fst p" "snd p"] that by (simp add: defaultVariablesFilter_def typeOf_def)
  have "filter defaultVariablesFilter (objectValues (mapValues h vs)) = map (\<lambda>p. h (fst p) (snd p)) (filter ?F ?es)"
    using filter_cong [OF refl, of ?es "\<lambda>p. defaultVariablesFilter (h (fst p) (snd p))" ?F] F
    by (simp add: objectValues_def objectEntries_mapValues filter_map comp_def)
  moreover have "filter defaultVariablesFilter (objectValues vs) = map snd (filter ?F ?es)"
    by (simp add: objectValues_def filter_map comp_def)
  moreover have "sort_key (\<lambda>p. indexOf (h (fst p) (snd p))) (filter ?F ?es) = sort_key (\<lambda>p. indexOf (snd p)) (filter ?F ?es)"
    using assms by (intro sort_key_cong_on) auto
  ultimately show ?thesis
    using assms by (auto simp: listed_def sort_key_map)
qed

lemma listed_unique:
  assumes "mset (filter defaultVariablesFilter (map snd vs)) = mset ms" and "sorted (map indexOf ms)"
    and "distinct (map indexOf ms)"
  shows "listed vs = ms"
proof (rule map_sorted_distinct_set_unique [of indexOf])
  have m: "mset (listed vs) = mset ms"
    using assms(1) mset_objectValues [of vs] by (simp add: listed_def mset_filter [symmetric])
  then show s: "set (listed vs) = set ms" by (metis set_mset_mset)
  show "inj_on indexOf (set (listed vs) \<union> set ms)" using assms(3) s by (simp add: distinct_map)
  show "sorted (map indexOf (listed vs))" unfolding listed_def by (rule sorted_sort_key)
  show "sorted (map indexOf ms)" "distinct (map indexOf ms)" by fact+
  from m have "mset (map indexOf (listed vs)) = mset (map indexOf ms)" by simp
  then show "distinct (map indexOf (listed vs))" using assms(3) by (metis mset_eq_imp_distinct_iff)
qed

subsection \<open>Actions that update variables one by one\<close>

lemma objSet_existing:
  assumes "objKeysOk vs" and "objGet vs k = Some m"
  shows "objSet k (g m) vs = mapValues (\<lambda>k' m'. if k' = k then g m' else m') vs"
  using assms
proof (induction vs)
  case (Cons p vs)
  then show ?case
    by (cases p) (force simp: objKeysOk_def objGet_def intro!: map_idI [symmetric])
qed (simp add: objGet_def)

lemma mapValues_ok: "objKeysOk vs \<Longrightarrow> objKeysOk (mapValues h vs)"
  by (simp add: objKeysOk_def comp_def)

lemma objGet_mapValues: "objGet (mapValues h vs) k = map_option (h k) (objGet vs k)"
  using objGet_map_snd [of h vs k] by (simp add: case_prod_beta')

definition updateFrom :: "('a \<Rightarrow> jsstr) \<Rightarrow> ('a \<Rightarrow> jsobj \<Rightarrow> jsobj) \<Rightarrow> 'a list \<Rightarrow> jsstr \<Rightarrow> jsobj \<Rightarrow> jsobj" where
  "updateFrom k g xs i m = (case find (\<lambda>x. k x = i) xs of None \<Rightarrow> m | Some x \<Rightarrow> g x m)"

lemma updateFrom_cases:
  "updateFrom k g xs i m = m \<or> (\<exists>x \<in> set xs. k x = i \<and> updateFrom k g xs i m = g x m)"
  by (auto simp: updateFrom_def find_Some_iff split: option.split)

lemma run_updates:
  assumes "\<And>x vs. x \<in> set xs \<Longrightarrow> variablesReducer env (act x) vs = onVariable (k x) (g x) vs"
    and "distinct (map k xs)" and "objKeysOk vs" and "\<forall>x \<in> set xs. objGet vs (k x) \<noteq> None"
  shows "runVariables env (map act xs) vs = Some (mapValues (updateFrom k g xs) vs)"
  using assms
proof (induction xs arbitrary: vs)
  case Nil
  show ?case by (simp add: updateFrom_def)
next
  case (Cons x xs)
  obtain m where m: "objGet vs (k x) = Some m" using Cons.prems(4) by auto
  let ?vs = "mapValues (\<lambda>k' m'. if k' = k x then g x m' else m') vs"
  have step: "variablesReducer env (act x) vs = Some ?vs"
    using Cons.prems(1) [of x vs] objSet_existing [OF Cons.prems(3) m, of "g x"] m
    by (simp add: onVariable_def getInstanceState_def)
  have "\<forall>x \<in> set xs. objGet ?vs (k x) \<noteq> None" using Cons.prems(4)
    by (simp add: objGet_mapValues [of "\<lambda>k' m'. if k' = k x then g x m' else m'"])
  moreover have "objKeysOk ?vs" by (rule mapValues_ok [OF Cons.prems(3)])
  ultimately have "runVariables env (map act xs) ?vs = Some (mapValues (updateFrom k g xs) ?vs)"
    using Cons.prems by (intro Cons.IH) simp_all
  moreover have "find (\<lambda>y. k y = k x) xs = None" using Cons.prems(2) by (simp add: find_None_iff) (metis image_eqI)
  then have "updateFrom k g (x # xs) i m = updateFrom k g xs i (if i = k x then g x m else m)" for i m
    by (auto simp: updateFrom_def)
  ultimately show ?case using step by (simp add: comp_def)
qed
subsection \<open>The variables of a dashboard\<close>

text \<open>The smallest width of an interval with the value \<open>auto\<close>, if there is one, is the text of an interval.\<close>

definition hasMinimum :: "jsobj \<Rightarrow> bool" where
  "hasMinimum m \<longleftrightarrow>
     \<not> isTruthy (field m (js ''auto'')) \<or> \<not> isTruthy (field m (js ''auto_min'')) \<or>
     describeInterval (field m (js ''auto_min'')) \<noteq> None"

definition intervalOk :: "jsobj \<Rightarrow> bool" where
  "intervalOk m \<longleftrightarrow> (typeOf m = JStr (js ''interval'') \<longrightarrow> hasMinimum m)"

text \<open>
  A variable with options, or ad hoc filters, which are not refreshed; an interval has a proper smallest width.
\<close>

definition bootable :: "jsobj \<Rightarrow> bool" where
  "bootable m \<longleftrightarrow>
     typeOf m \<noteq> JStr (js ''system'') \<and> intervalOk m \<and>
     (if typeOf m = JStr (js ''adhoc'') then getVariableRefresh m = refreshNever else hasOptions m)"

text \<open>
  A model that can be loaded: of a type with an editor, under a name that is not reserved; ad hoc filters
  are not refreshed.  The keys of an object are different.
\<close>

definition loadable :: "jsobj \<Rightarrow> bool" where
  "loadable m \<longleftrightarrow>
     (\<exists>t n. typeOf m = JStr t \<and> creatable t \<and> field m (js ''name'') = JStr n \<and> \<not> startsWith (js ''__'') n \<and>
        field m (js ''id'') \<in> {JUndef, JNull, JStr n} \<and>
        (t = js ''adhoc'' \<longrightarrow> objKeysOk m \<and> getVariableRefresh m = refreshNever) \<and>
        (t = js ''interval'' \<longrightarrow> objKeysOk m))"

definition loadPayload :: "int \<Rightarrow> jsobj \<Rightarrow> addVariablePayload" where
  "loadPayload i m =
     \<lparr>av_id = optionalText (field m (js ''id'')), av_type = jsString (typeOf m), av_model = m, av_index = i,
      av_global = False\<rparr>"

definition loadedVariable :: "nat \<times> jsobj \<Rightarrow> jsobj" where
  "loadedVariable p =
     storedVariable (the (variableAdapters (jsString (typeOf (snd p))))) (nameOf (snd p)) (loadPayload (int (fst p)) (snd p))"

lemma loadedVariable_fields:
  assumes "loadable m"
  shows "field (loadedVariable (i, m)) (js ''id'') = JStr (nameOf m)"
    "field (loadedVariable (i, m)) (js ''name'') = JStr (nameOf m)"
    "typeOf (loadedVariable (i, m)) = typeOf m" "indexOf (loadedVariable (i, m)) = int i"
    "field m (js ''rootStateKey'') \<noteq> JUndef \<Longrightarrow>
     field (loadedVariable (i, m)) (js ''rootStateKey'') = field m (js ''rootStateKey'')"
proof -
  obtain t n where t: "typeOf m = JStr t" "creatable t" "field m (js ''name'') = JStr n"
    using assms by (auto simp: loadable_def)
  then obtain ad where ad: "variableAdapters t = Some ad" by (auto simp: creatable_def)
  note kept = field_storedVariable_kept [OF ad, of "loadPayload (int i) m" _ "nameOf m"]
  have v: "loadedVariable (i, m) = storedVariable ad (nameOf m) (loadPayload (int i) m)"
    by (simp add: loadedVariable_def t(1) ad)
  show "field (loadedVariable (i, m)) (js ''id'') = JStr (nameOf m)" "indexOf (loadedVariable (i, m)) = int i"
    by (simp_all add: v field_storedVariable(1,2) loadPayload_def)
  show "field (loadedVariable (i, m)) (js ''name'') = JStr (nameOf m)"
    using kept [of "js ''name''"] t(3) by (simp add: v loadPayload_def nameOf_def)
  show "typeOf (loadedVariable (i, m)) = typeOf m"
    using kept [of "js ''type''"] t(1) by (simp add: v loadPayload_def typeOf_def)
  show "field m (js ''rootStateKey'') \<noteq> JUndef \<Longrightarrow>
     field (loadedVariable (i, m)) (js ''rootStateKey'') = field m (js ''rootStateKey'')"
    using kept [of "js ''rootStateKey''"] by (simp add: v loadPayload_def)
qed

text \<open>Every type starts with options, except ad hoc filters.\<close>

lemma objGet_Cons: "objGet (p # src) k = (if fst p = k then Some (snd p) else objGet src k)"
  by (cases p) (simp add: objGet_def)

lemma field_Cons: "field (p # src) k = (if fst p = k then snd p else field src k)"
  by (simp add: field_def objGet_Cons)

lemma addDefaults_key:
  "objGet d k \<noteq> None \<or> objGet src k \<noteq> None \<Longrightarrow> objGet (addDefaults d src) k \<noteq> None"
proof (induction src arbitrary: d)
  case (Cons p src)
  let ?d = "if field d (fst p) = JUndef then objSet (fst p) (snd p) d else d"
  have "objGet ?d k \<noteq> None \<or> objGet src k \<noteq> None"
    using Cons.prems by (auto simp: obj.get_set objGet_Cons field_def split: if_splits option.splits)
  then show ?case unfolding addDefaults_simps by (rule Cons.IH)
qed (simp add: addDefaults_simps)

lemma addDefaults_field:
  "objKeysOk src \<Longrightarrow> field (addDefaults d src) k = (if field d k = JUndef then field src k else field d k)"
proof (induction src arbitrary: d)
  case (Cons p src)
  let ?d = "if field d (fst p) = JUndef then objSet (fst p) (snd p) d else d"
  have "objGet src (fst p) = None" and "objKeysOk src"
    using Cons.prems by (simp_all add: objKeysOk_def objGet_None)
  then show ?case unfolding addDefaults_simps Cons.IH [OF \<open>objKeysOk src\<close>]
    by (auto simp: field_objSet field_Cons) (simp add: field_def)
qed (simp add: addDefaults_simps field_def)

lemma initialState_options:
  assumes "creatable t" and "variableAdapters t = Some ad" and "t \<noteq> js ''adhoc''"
  shows "hasOptions (ad_initialState ad)"
  using assms
  by (auto simp: creatable_def variableAdapters_def hasOptions_def initialStates objGet_objSpread split: if_splits)

lemma adhoc_adapter: "variableAdapters (js ''adhoc'') = Some ad \<Longrightarrow> ad_beforeAdding ad = None \<and> objKeysOk (ad_initialState ad) \<and>
  field (ad_initialState ad) (js ''refresh'') = JUndef"
  by (simp add: variableAdapters_def js_def)
    (auto simp: initialStates objSpread_def objKeysOk_def field_Cons field_def [of "[]"] js_def)

lemma interval_adapter: "variableAdapters (js ''interval'') = Some ad \<Longrightarrow> ad_beforeAdding ad = None \<and> objKeysOk (ad_initialState ad) \<and>
  field (ad_initialState ad) (js ''auto'') = JBool False \<and> field (ad_initialState ad) (js ''auto_min'') = JStr (js ''10s'')"
  by (simp add: variableAdapters_def js_def)
    (auto simp: initialStates objSpread_def objKeysOk_def field_Cons field_def [of "[]"] js_def)

lemma default_minimum: "describeInterval (JStr (js ''10s'')) \<noteq> None"
  by (simp add: js_defs describeInterval_def numberOf_def isTruthy_def intervalAt_def intervalUnits_def)

lemma loadedVariable_minimum:
  assumes "objKeysOk m" and "variableAdapters (js ''interval'') = Some ad"
  shows "hasMinimum (storedVariable ad i (loadPayload k m)) = hasMinimum m"
proof -
  note a = interval_adapter [OF assms(2)]
  have "field (storedVariable ad i (loadPayload k m)) f =
      (if field m f = JUndef then field (ad_initialState ad) f else field m f)"
    if "f \<in> {js ''auto'', js ''auto_min''}" for f
    using that a assms(1) by (auto simp: storedVariable_def field_objSpread addDefaults_field loadPayload_def field_def [of "[]"])
  then show ?thesis
    using a default_minimum by (auto simp: hasMinimum_def isTruthy_def)
qed

lemma loadedVariable_bootable:
  assumes "loadable m"
  shows "bootable (loadedVariable (i, m)) = intervalOk m"
proof -
  obtain t where t: "typeOf m = JStr t" "creatable t" "t = js ''adhoc'' \<longrightarrow> objKeysOk m \<and> getVariableRefresh m = refreshNever"
    "t = js ''interval'' \<longrightarrow> objKeysOk m"
    using assms by (auto simp: loadable_def)
  then obtain ad where ad: "variableAdapters t = Some ad" by (auto simp: creatable_def)
  have v: "loadedVariable (i, m) = storedVariable ad (nameOf m) (loadPayload (int i) m)"
    by (simp add: loadedVariable_def t(1) ad)
  have type: "typeOf (loadedVariable (i, m)) = JStr t" using loadedVariable_fields(3) [OF assms] t(1) by simp
  show ?thesis
  proof (cases "t = js ''adhoc''")
    case True
    note a = adhoc_adapter [OF ad [unfolded True]]
    have "field (loadedVariable (i, m)) (js ''refresh'') = field m (js ''refresh'')"
      using t(3) True a
      by (simp add: v storedVariable_def field_objSpread addDefaults_field loadPayload_def field_def [of "[]"])
    then have "getVariableRefresh (loadedVariable (i, m)) = getVariableRefresh m" by (simp only: getVariableRefresh_def)
    then have "getVariableRefresh (loadedVariable (i, m)) = refreshNever" using t(3) True by simp
    moreover have "js ''adhoc'' \<noteq> js ''system''" "js ''adhoc'' \<noteq> js ''interval''" by (simp_all add: js_def)
    ultimately show ?thesis using True type t(1) by (simp add: bootable_def intervalOk_def)
  next
    case False
    have "hasOptions (loadedVariable (i, m))"
      using addDefaults_key initialState_options [OF t(2) ad False]
      by (auto simp: v storedVariable_def hasOptions_def objGet_objSpread split: option.split)
    moreover have "t = js ''interval'' \<longrightarrow> hasMinimum (loadedVariable (i, m)) = hasMinimum m"
      using loadedVariable_minimum [of m ad] t(4) ad unfolding v by blast
    ultimately show ?thesis using False type t(1,2) by (auto simp: bootable_def creatable_def intervalOk_def)
  qed
qed

lemma addLoaded_reducer:
  assumes "loadable m"
  shows "variablesReducer env (addLoaded (int i) m) vs = Some (objSet (nameOf m) (loadedVariable (i, m)) vs)"
proof -
  obtain t n where t: "typeOf m = JStr t" "creatable t" "field m (js ''name'') = JStr n"
    "field m (js ''id'') \<in> {JUndef, JNull, JStr n}" using assms by (auto simp: loadable_def)
  then obtain ad where ad: "variableAdapters t = Some ad" by (auto simp: creatable_def)
  let ?p = "loadPayload (int i) m"
  have i: "(case av_id ?p of Some i \<Rightarrow> i | None \<Rightarrow> jsString (field (av_model ?p) (js ''name''))) = nameOf m"
    using t(3,4) by (auto simp: optionalText_def nameOf_def loadPayload_def)
  have "av_type ?p = t" using t(1) by (simp add: loadPayload_def)
  then have "variablesReducer env (SharedAction t (AddVariable ?p)) vs = Some (objSet (nameOf m) (storedVariable ad (nameOf m) ?p) vs)"
    using addVariable_stored [of ?p ad env t vs] ad by (simp only: i)
  then show ?thesis
    using ad t(1) by (simp add: addLoaded_def loadPayload_def loadedVariable_def)
qed

lemma run_load:
  assumes "\<forall>m \<in> set ms. loadable m" and "distinct (map nameOf ms)"
    and "\<forall>m \<in> set ms. objGet vs (nameOf m) = None"
  shows "runVariables env (map (\<lambda>(i, m). addLoaded (int i) m) (enumerate k ms)) vs =
    Some (vs @ map (\<lambda>p. (nameOf (snd p), loadedVariable p)) (enumerate k ms))"
  using assms
proof (induction ms arbitrary: vs k)
  case (Cons m ms)
  let ?vs = "vs @ [(nameOf m, loadedVariable (k, m))]"
  have step: "variablesReducer env (addLoaded (int k) m) vs = Some ?vs"
    using Cons.prems addLoaded_reducer [of m env k vs] objSet_new [of vs "nameOf m"] by simp
  have "\<forall>m' \<in> set ms. objGet ?vs (nameOf m') = None"
    using Cons.prems by (simp add: objGet_None) (metis image_eqI)
  with Cons have "runVariables env (map (\<lambda>(i, m). addLoaded (int i) m) (enumerate (Suc k) ms)) ?vs =
    Some (?vs @ map (\<lambda>p. (nameOf (snd p), loadedVariable p)) (enumerate (Suc k) ms))" by simp
  then show ?case using step by simp
qed simp

text \<open>The identifiers of the variables that are listed are different ones of the store.\<close>

lemma distinct_submset:
  assumes "mset xs \<subseteq># mset ys" and "distinct ys"
  shows "distinct xs"
proof -
  obtain zs where "mset ys = mset (xs @ zs)"
    using assms(1) by (metis mset_subset_eq_exists_conv ex_mset mset_append)
  then have "distinct (xs @ zs)" using assms(2) by (metis mset_eq_imp_distinct_iff)
  then show ?thesis by simp
qed

lemma listed_keys:
  assumes "storedUnderId vs"
  shows "distinct (map idOf (listed vs))" "\<forall>m \<in> set (listed vs). objGet vs (idOf m) = Some m"
proof -
  have keys: "map (idOf \<circ> snd) vs = map fst vs"
    using assms by (intro map_cong) (auto simp: storedUnderId_def objGet_in_set idOf_def)
  have "mset (map idOf (listed vs)) \<subseteq># mset (map (idOf \<circ> snd) vs)"
    using mset_objectValues [of vs] image_mset_subseteq_mono [OF multiset_filter_subset, of idOf defaultVariablesFilter "mset (map snd vs)"]
    by (simp add: listed_def image_mset.compositionality)
  moreover have "distinct (map fst vs)" using assms by (simp add: storedUnderId_def objKeysOk_def)
  ultimately show "distinct (map idOf (listed vs))" unfolding keys by (rule distinct_submset)
  show "\<forall>m \<in> set (listed vs). objGet vs (idOf m) = Some m"
  proof
    fix m assume "m \<in> set (listed vs)"
    then have "m \<in> snd ` set vs" by (auto simp: listed_def set_objectValues)
    then obtain k where "objGet vs k = Some m" using stored_in_set [OF assms] by blast
    then show "objGet vs (idOf m) = Some m" using assms by (auto simp: storedUnderId_def idOf_def)
  qed
qed

lemma fixSelectedInconsistency_field:
  "f \<noteq> js ''options'' \<Longrightarrow> field (fixSelectedInconsistency m) f = field m f"
  by (simp add: fixSelectedInconsistency_def Let_def field_objSet)

lemma loadedModel_field:
  "f \<notin> {js ''options'', js ''rootStateKey''} \<Longrightarrow> field (loadedModel key m) f = field m f"
  "field (loadedModel key m) (js ''rootStateKey'') = JStr key"
  by (simp_all add: loadedModel_def field_objSet fixSelectedInconsistency_field)

lemma loadedModel_simps [simp]:
  "typeOf (loadedModel key m) = typeOf m" "nameOf (loadedModel key m) = nameOf m"
  "hasAdapter (loadedModel key m) = hasAdapter m" "getVariableRefresh (loadedModel key m) = getVariableRefresh m"
  by (simp_all add: typeOf_def nameOf_def hasAdapter_def getVariableRefresh_def loadedModel_field)

lemma loadable_loadedModel: "loadable m \<Longrightarrow> loadable (loadedModel key m)"
proof -
  have "objKeysOk m \<Longrightarrow> objKeysOk (loadedModel key m)"
    by (simp add: loadedModel_def fixSelectedInconsistency_def Let_def obj.ok_set)
  then show "loadable m \<Longrightarrow> loadable (loadedModel key m)" by (auto simp: loadable_def loadedModel_field)
qed

lemma intervalOk_loadedModel [simp]: "intervalOk (loadedModel key m) = intervalOk m"
  by (simp add: intervalOk_def hasMinimum_def loadedModel_field)

lemma loadable_name: "loadable m \<Longrightarrow> field m (js ''name'') = JStr (nameOf m)"
  by (auto simp: loadable_def nameOf_def)

lemma namesAreIds_mapValues:
  assumes "namesAreIds vs"
    and "\<And>k m f. f \<in> {js ''id'', js ''name'', js ''type''} \<Longrightarrow> field (h k m) f = field m f"
  shows "namesAreIds (mapValues h vs)"
  using assms mapValues_ok [of vs h]
  by (auto simp: namesAreIds_def storedUnderId_def objGet_mapValues typeOf_def)

text \<open>Only system variables are stored.\<close>

definition onlySystem :: "variablesState \<Rightarrow> bool" where
  "onlySystem vs \<longleftrightarrow> namesAreIds vs \<and> (\<forall>m \<in> snd ` set vs. typeOf m = JStr (js ''system''))"

lemma onlySystem_reserved:
  assumes "onlySystem vs" and "\<not> startsWith (js ''__'') k"
  shows "objGet vs k = None"
proof (rule ccontr)
  assume "objGet vs k \<noteq> None"
  then obtain m where m: "objGet vs k = Some m" by auto
  then have "m \<in> snd ` set vs" using assms(1) stored_in_set [of vs m] by (auto simp: onlySystem_def namesAreIds_def)
  with assms m show False by (auto simp: onlySystem_def namesAreIds_def)
qed

lemma onlySystem_add:
  assumes "onlySystem vs" and "startsWith (js ''__'') (js n)"
  shows "\<exists>vs'. variablesReducer env (addSystemModel n i c) vs = Some vs' \<and> onlySystem vs'"
proof -
  let ?p = "\<lparr>av_id = Some (js n), av_type = js ''system'', av_model = systemModel n i c, av_index = i, av_global = False\<rparr>"
  obtain ad where ad: "variableAdapters (js ''system'') = Some ad" by (simp add: variableAdapters_def)
  let ?m = "storedVariable ad (js n) ?p"
  have f: "field ?m (js ''id'') = JStr (js n)" "field ?m (js ''name'') = JStr (js n)" "typeOf ?m = JStr (js ''system'')"
    using field_storedVariable(1) [of ad "js n" ?p] field_storedVariable_kept [OF ad, of ?p "js ''name''" "js n"]
      field_storedVariable_kept [OF ad, of ?p "js ''type''" "js n"]
    by (simp_all add: systemModel_def field_objSpread typeOf_def)
  have "onlySystem (objSet (js n) ?m vs)"
    using assms f set_objSet_subset [of "js n" ?m vs]
    by (auto simp: onlySystem_def namesAreIds_def storedUnderId_objSet obj.get_set)
  then show ?thesis
    using addVariable_stored [of ?p ad env "js ''system''" vs] ad by (simp add: addSystemModel_def addVariableOf_def)
qed

lemma onlySystem_Nil: "onlySystem []"
  by (simp add: onlySystem_def namesAreIds_def storedUnderId_Nil)

lemma run_system:
  "\<exists>vs. runVariables env
      [addSystemModel ''__dashboard'' i a, addSystemModel ''__org'' j b, addSystemModel ''__user'' k c] [] = Some vs \<and>
     onlySystem vs"
proof -
  have r: "startsWith (js ''__'') (js ''__dashboard'')" "startsWith (js ''__'') (js ''__org'')"
    "startsWith (js ''__'') (js ''__user'')" by (simp_all add: startsWith_def js_def)
  obtain vs1 where 1: "variablesReducer env (addSystemModel ''__dashboard'' i a) [] = Some vs1" "onlySystem vs1"
    using onlySystem_add [OF onlySystem_Nil r(1)] by blast
  obtain vs2 where 2: "variablesReducer env (addSystemModel ''__org'' j b) vs1 = Some vs2" "onlySystem vs2"
    using onlySystem_add [OF 1(2) r(2)] by blast
  obtain vs3 where 3: "variablesReducer env (addSystemModel ''__user'' k c) vs2 = Some vs3" "onlySystem vs3"
    using onlySystem_add [OF 2(2) r(3)] by blast
  show ?thesis using 1 2 3 by simp
qed

text \<open>The list of the models right after they have been added.\<close>

lemma listed_loaded:
  fixes vs ms
  defines "L \<equiv> map (\<lambda>p. (nameOf (snd p), loadedVariable p)) (enumerate 0 ms)"
  assumes "onlySystem vs" and "\<forall>m \<in> set ms. loadable m" and "distinct (map nameOf ms)"
  shows "namesAreIds (vs @ L)" and "listed (vs @ L) = map loadedVariable (enumerate 0 ms)"
proof -
  have L: "\<exists>i m. m \<in> set ms \<and> k = nameOf m \<and> v = loadedVariable (i, m)" if "(k, v) \<in> set L" for k v
    using that unfolding L_def by (auto simp: in_set_enumerate_eq) (metis nth_mem)
  have names: "map fst L = map nameOf ms" by (intro nth_equalityI) (simp_all add: L_def nth_enumerate_eq)
  have free: "objGet vs (nameOf m) = None" if "m \<in> set ms" for m
    using assms(3) that by (intro onlySystem_reserved [OF assms(2)]) (auto simp: loadable_def nameOf_def)
  have "distinct (map fst vs)" using assms(2) by (simp add: onlySystem_def namesAreIds_def storedUnderId_def objKeysOk_def)
  moreover have "fst ` set vs \<inter> set (map fst L) = {}" using free unfolding names by (simp add: objGet_None disjoint_iff) blast
  ultimately have ok: "objKeysOk (vs @ L)" using assms(4) names by (simp add: objKeysOk_def)
  have new: "field v (js ''id'') = JStr k \<and> field v (js ''name'') = JStr k \<and> typeOf v \<noteq> JStr (js ''system'')"
    if kv: "(k, v) \<in> set L" for k v
  proof -
    obtain i m where m: "m \<in> set ms" "k = nameOf m" "v = loadedVariable (i, m)" using L [OF kv] by blast
    then have "loadable m" using assms(3) by blast
    then show ?thesis using m loadedVariable_fields(1-3) [of m i] by (auto simp: loadable_def creatable_def)
  qed
  have vs: "objKeysOk vs" using assms(2) by (simp add: onlySystem_def namesAreIds_def storedUnderId_def)
  have "field v (js ''id'') = JStr k \<and> field v (js ''name'') = JStr k \<and>
      (typeOf v = JStr (js ''system'') \<longrightarrow> startsWith (js ''__'') k)" if "(k, v) \<in> set vs" for k v
    using that assms(2) unfolding onlySystem_def namesAreIds_def storedUnderId_def objGet_in_set [OF vs] by blast
  with new show "namesAreIds (vs @ L)"
    unfolding namesAreIds_def storedUnderId_def objGet_in_set [OF ok] using ok by auto
  have system: "filter defaultVariablesFilter (map snd vs) = []"
    using assms(2) by (auto simp: filter_empty_conv onlySystem_def defaultVariablesFilter_def typeOf_def)
  have own: "filter defaultVariablesFilter (map snd L) = map snd L"
    using new by (auto simp: filter_id_conv defaultVariablesFilter_def typeOf_def)
  have snds: "map snd L = map loadedVariable (enumerate 0 ms)" unfolding L_def by simp
  have index: "map indexOf (map loadedVariable (enumerate 0 ms)) = map int [0..<length ms]"
    using assms(3) loadedVariable_fields(4)
    by (intro nth_equalityI) (simp_all add: nth_enumerate_eq)
  show "listed (vs @ L) = map loadedVariable (enumerate 0 ms)"
  proof (rule listed_unique)
    show "mset (filter defaultVariablesFilter (map snd (vs @ L))) = mset (map loadedVariable (enumerate 0 ms))"
      unfolding map_append filter_append system append_Nil own [unfolded snds] snds ..
    show "sorted (map indexOf (map loadedVariable (enumerate 0 ms)))"
      "distinct (map indexOf (map loadedVariable (enumerate 0 ms)))"
      unfolding index by (simp_all add: sorted_map distinct_map inj_on_def)
  qed
qed

subsection \<open>Loading\<close>

lemma fetching_transaction:
  "tr_status t = TransactionFetching \<Longrightarrow> \<forall>a \<in> set as. \<exists>ty b. a = SharedAction ty b \<Longrightarrow> fold transactionReducer as t = t"
  by (induction as) (auto simp: transactionReducer_def)

lemma run_onListed:
  assumes "namesAreIds vs" and "\<forall>m \<in> set (listed vs). hasAdapter m"
    and "\<And>m. payloadType (jsString (typeOf m)) (act m) = jsString (typeOf m)"
    and "\<And>m vs. m \<in> set (filter P (listed vs0)) \<Longrightarrow> sharedReducer variableAdapters (act m) vs = onVariable (idOf m) (g m) vs"
    and "vs0 = vs"
  shows "runVariables env (map (\<lambda>m. SharedAction (jsString (typeOf m)) (act m)) (filter P (listed vs))) vs =
    Some (mapValues (updateFrom idOf g (filter P (listed vs))) vs)"
proof (rule run_updates)
  have s: "storedUnderId vs" using assms(1) by (simp add: namesAreIds_def)
  show "objKeysOk vs" using s by (simp add: storedUnderId_def)
  show "distinct (map idOf (filter P (listed vs)))" using listed_keys(1) [OF s] by (simp add: distinct_map_filter)
  show "\<forall>m \<in> set (filter P (listed vs)). objGet vs (idOf m) \<noteq> None" using listed_keys(2) [OF s] by simp
  fix m vs' assume "m \<in> set (filter P (listed vs))"
  then show "variablesReducer env (SharedAction (jsString (typeOf m)) (act m)) vs' = onVariable (idOf m) (g m) vs'"
    using assms(2-5) by (auto simp: variablesReducer_def hasAdapter_def)
qed

text \<open>An update of a variable that keeps its name, its identifier, its type and its place.\<close>

definition keepsPlace :: "(jsobj \<Rightarrow> jsobj) \<Rightarrow> bool" where
  "keepsPlace h \<longleftrightarrow>
     (\<forall>m. (\<forall>f \<in> {js ''id'', js ''name'', js ''type'', js ''index'', js ''rootStateKey''}. field (h m) f = field m f) \<and>
        bootable (h m) = bootable m)"

lemma keepsPlace_updateFrom: "(\<And>x. keepsPlace (g x)) \<Longrightarrow> keepsPlace (updateFrom k g xs i)"
  using updateFrom_cases [of k g xs i] unfolding keepsPlace_def by (metis (no_types, lifting))

lemma keepsPlace_simps:
  assumes "keepsPlace h"
  shows "indexOf (h m) = indexOf m" "typeOf (h m) = typeOf m" "bootable (h m) = bootable m"
    "f \<in> {js ''id'', js ''name'', js ''type'', js ''index'', js ''rootStateKey''} \<Longrightarrow> field (h m) f = field m f"
  using assms by (auto simp: keepsPlace_def indexOf_def typeOf_def)

text \<open>The name, the place, the dashboard and the type of a variable, and whether it can be processed.\<close>

definition entryOf :: "jsobj \<Rightarrow> (jsval \<times> int \<times> jsval \<times> jsval) \<times> bool" where
  "entryOf m = ((field m (js ''name''), indexOf m, field m (js ''rootStateKey''), typeOf m), bootable m)"

lemma update_listed:
  assumes "\<And>k. keepsPlace (h k)"
  shows "namesAreIds vs \<Longrightarrow> namesAreIds (mapValues h vs)" "map entryOf (listed (mapValues h vs)) = map entryOf (listed vs)"
proof -
  show "namesAreIds vs \<Longrightarrow> namesAreIds (mapValues h vs)"
    by (rule namesAreIds_mapValues) (use keepsPlace_simps(4) [OF assms] in auto)
  show "map entryOf (listed (mapValues h vs)) = map entryOf (listed vs)"
    by (rule listed_mapValues) (simp add: keepsPlace_simps [OF assms] entryOf_def)
qed

lemma entryOf_adapter: "map entryOf ms = map entryOf ms' \<Longrightarrow> \<forall>m \<in> set ms'. hasAdapter m \<Longrightarrow> \<forall>m \<in> set ms. hasAdapter m"
proof
  fix m assume eq: "map entryOf ms = map entryOf ms'" and all: "\<forall>m \<in> set ms'. hasAdapter m" and "m \<in> set ms"
  then have "entryOf m \<in> entryOf ` set ms'" by (metis image_eqI image_set list.set_map)
  then show "hasAdapter m" using all by (auto simp: entryOf_def hasAdapter_def)
qed

lemma notStarted_all:
  assumes "namesAreIds vs" and "\<And>x m. field (g x m) (js ''state'') = v" and "\<And>x. keepsPlace (g x)"
    and "m \<in> set (listed (mapValues (updateFrom idOf g (listed vs)) vs))"
  shows "field m (js ''state'') = v"
proof -
  have s: "storedUnderId vs" using assms(1) by (simp add: namesAreIds_def)
  obtain k m0 where m0: "(k, m0) \<in> set vs" "m = updateFrom idOf g (listed vs) k m0" "typeOf m \<noteq> JStr (js ''system'')"
    using assms(4) by (auto simp: listed_def set_objectValues defaultVariablesFilter_def typeOf_def)
  have "typeOf m = typeOf m0"
    unfolding m0(2) by (rule keepsPlace_simps(2)) (rule keepsPlace_updateFrom, rule assms(3))
  with m0(3) have "typeOf m0 \<noteq> JStr (js ''system'')" by metis
  moreover have "m0 \<in> snd ` set vs" using m0(1) by (metis image_eqI snd_conv)
  ultimately have l: "m0 \<in> set (listed vs)"
    by (simp add: listed_def set_objectValues defaultVariablesFilter_def typeOf_def)
  have "idOf m0 = k" using s m0(1) by (auto simp: storedUnderId_def objGet_in_set idOf_def)
  with l have "find (\<lambda>x. idOf x = k) (listed vs) \<noteq> None" by (auto simp: find_None_iff)
  then obtain x where x: "find (\<lambda>x. idOf x = k) (listed vs) = Some x" by auto
  show ?thesis unfolding m0(2) updateFrom_def x using assms(2) by simp
qed

lemma bootable_objSet:
  assumes "f \<notin> {js ''type'', js ''refresh'', js ''options'', js ''auto'', js ''auto_min''}"
  shows "bootable (objSet f v m) = bootable m"
proof -
  have "typeOf (objSet f v m) = typeOf m" "getVariableRefresh (objSet f v m) = getVariableRefresh m"
    "hasOptions (objSet f v m) = hasOptions m" "intervalOk (objSet f v m) = intervalOk m"
    using assms by (auto simp: intervalOk_def hasMinimum_def typeOf_def getVariableRefresh_def hasOptions_def field_objSet obj.get_set)
  then show ?thesis by (simp only: bootable_def)
qed

lemma keepsPlace_loading: "keepsPlace (setLoading s e)"
  by (simp add: keepsPlace_def setLoading_def field_objSet bootable_objSet)

lemma keepsPlace_datasource: "keepsPlace (objSet (js ''datasource'') v)"
  by (simp add: keepsPlace_def field_objSet bootable_objSet)

lemma entryOf_loaded:
  assumes "loadable m" and "field m (js ''rootStateKey'') = JStr key" and "field m (js ''name'') = v"
  shows "entryOf (loadedVariable (i, m)) = ((v, int i, JStr key, typeOf m), intervalOk m)"
  using loadedVariable_fields [OF assms(1), of i] loadable_name [OF assms(1)] loadedVariable_bootable [OF assms(1)]
    assms(2,3) by (simp add: entryOf_def)

text \<open>The first actions: all the models are added.\<close>

lemma dashboard_added:
  fixes models key
  defines "kept \<equiv> filter hasAdapter models"
  assumes "onlySystem (variablesAt st key)" and "tr_status (transactionAt st key) = TransactionFetching"
    and "\<forall>m \<in> set kept. loadable m" and "distinct (map nameOf kept)"
  shows "\<exists>st1. dispatchTo env key (loadActions key models) st = Some st1 \<and> namesAreIds (variablesAt st1 key) \<and>
    map entryOf (getVariablesByKey st1 key) =
      map (\<lambda>(i, m). ((field m (js ''name''), int i, JStr key, typeOf m), intervalOk m)) (enumerate 0 kept) \<and>
    (\<forall>m \<in> set (getVariablesByKey st1 key). hasAdapter m) \<and> transactionAt st1 key = transactionAt st key"
proof -
  let ?ms = "map (loadedModel key) kept" and ?vs = "variablesAt st key"
  have ms: "filter hasAdapter (map (loadedModel key) models) = ?ms" unfolding kept_def by (simp add: filter_map comp_def)
  have lms: "\<forall>m \<in> set ?ms. loadable m" and dms: "distinct (map nameOf ?ms)"
    using assms(4,5) by (simp_all add: comp_def loadable_loadedModel)
  let ?L = "map (\<lambda>p. (nameOf (snd p), loadedVariable p)) (enumerate 0 ?ms)"
  have "\<forall>m \<in> set ?ms. objGet ?vs (nameOf m) = None"
    using lms by (auto simp: loadable_def nameOf_def intro!: onlySystem_reserved [OF assms(2)])
  from run_load [OF lms dms this, of env 0] have "runVariables env (loadActions key models) ?vs = Some (?vs @ ?L)"
    by (simp add: loadActions_def ms)
  then obtain st1 where st1: "dispatchTo env key (loadActions key models) st = Some st1" "variablesAt st1 key = ?vs @ ?L"
    by (rule dispatchTo_Some)
  have "transactionAt st1 key = transactionAt st key"
    unfolding dispatchTo_parts(3) [OF st1(1)] loadActions_def
    by (rule fetching_transaction [OF assms(3)]) (auto simp: addLoaded_def)
  note loaded = listed_loaded [OF assms(2) lms dms]
  note l = getVariablesByKey_listed [of st1 key, unfolded st1(2)]
  have entries: "map entryOf (listed (?vs @ ?L)) =
      map (\<lambda>(i, m). ((field m (js ''name''), int i, JStr key, typeOf m), intervalOk m)) (enumerate 0 kept)"
  proof (rule nth_equalityI)
    fix i assume "i < length (map entryOf (listed (?vs @ ?L)))"
    then have i: "i < length kept" by (simp add: loaded(2))
    then have l: "loadable (loadedModel key (kept ! i))" using assms(4) by (simp add: loadable_loadedModel)
    have "entryOf (loadedVariable (i, loadedModel key (kept ! i))) =
        ((field (kept ! i) (js ''name''), int i, JStr key, typeOf (kept ! i)), intervalOk (kept ! i))"
      using entryOf_loaded [OF l loadedModel_field(2), of "field (kept ! i) (js ''name'')" i]
      by (simp add: loadedModel_field)
    then show "map entryOf (listed (?vs @ ?L)) ! i =
        map (\<lambda>(i, m). ((field m (js ''name''), int i, JStr key, typeOf m), intervalOk m)) (enumerate 0 kept) ! i"
      using i by (simp add: loaded(2) nth_enumerate_eq)
  qed (simp add: loaded(2))
  have adapters: "\<forall>m \<in> set (listed (?vs @ ?L)). hasAdapter m"
  proof
    fix v assume "v \<in> set (listed (?vs @ ?L))"
    then obtain i where i: "i < length ?ms" "v = loadedVariable (i, ?ms ! i)"
      unfolding loaded(2) by (auto simp: in_set_conv_nth nth_enumerate_eq)
    then have l: "loadable (?ms ! i)" using lms nth_mem [OF i(1)] by blast
    then have "hasAdapter (?ms ! i)" by (auto simp: loadable_def hasAdapter_def creatable_def)
    then show "hasAdapter v" using loadedVariable_fields(3) [OF l, of i] i(2) by (simp add: hasAdapter_def)
  qed
  show ?thesis
    by (intro exI [of _ st1] conjI)
      (simp_all only: st1 l entries loaded(1) \<open>transactionAt st1 key = _\<close>, rule adapters)
qed

text \<open>The actions after it: each variable waits to be processed.\<close>

lemma notStarted_listed:
  assumes "namesAreIds (variablesAt st key)" and "\<forall>m \<in> set (getVariablesByKey st key). hasAdapter m"
    and "tr_status (transactionAt st key) = TransactionFetching"
  shows "\<exists>st2. dispatchTo env key
      (map (\<lambda>m. SharedAction (jsString (typeOf m)) (VariableStateNotStarted (jsString (field m (js ''id'')))))
        (getVariablesByKey st key)) st = Some st2 \<and> namesAreIds (variablesAt st2 key) \<and>
    map entryOf (getVariablesByKey st2 key) = map entryOf (getVariablesByKey st key) \<and>
    (\<forall>m \<in> set (getVariablesByKey st2 key). field m (js ''state'') = JStr (js ''NotStarted'')) \<and>
    transactionAt st2 key = transactionAt st key"
proof -
  let ?vs = "variablesAt st key"
  have adapters: "\<forall>m \<in> set (listed ?vs). hasAdapter m" using assms(2) by (simp only: getVariablesByKey_listed)
  let ?g = "\<lambda>_ :: jsobj. setLoading (js ''NotStarted'') JNull"
  let ?vs2 = "mapValues (updateFrom idOf ?g (listed ?vs)) ?vs"
  let ?acts = "map (\<lambda>m. SharedAction (jsString (typeOf m)) (VariableStateNotStarted (jsString (field m (js ''id'')))))
    (getVariablesByKey st key)"
  have "runVariables env ?acts ?vs = Some ?vs2"
    using run_onListed [OF assms(1) adapters, of "\<lambda>m. VariableStateNotStarted (idOf m)" "\<lambda>_. True" _ ?g env]
    by (simp add: getVariablesByKey_listed idOf_def payloadType_def sharedReducer_def variableStateNotStarted_def)
  then obtain st2 where st2: "dispatchTo env key ?acts st = Some st2" "variablesAt st2 key = ?vs2"
    by (rule dispatchTo_Some)
  have place: "keepsPlace (updateFrom idOf ?g xs k)" for xs k by (rule keepsPlace_updateFrom) (rule keepsPlace_loading)
  show ?thesis
  proof (intro exI [of _ st2] conjI)
    show "map entryOf (getVariablesByKey st2 key) = map entryOf (getVariablesByKey st key)"
      unfolding getVariablesByKey_listed st2(2) by (rule update_listed(2) [OF place])
    show "namesAreIds (variablesAt st2 key)" unfolding st2(2) by (rule update_listed(1) [OF place assms(1)])
    show "\<forall>m \<in> set (getVariablesByKey st2 key). field m (js ''state'') = JStr (js ''NotStarted'')"
      unfolding getVariablesByKey_listed st2(2)
      using notStarted_all [OF assms(1), of ?g "JStr (js ''NotStarted'')"] keepsPlace_loading
      by (auto simp: setLoading_def field_objSet)
    show "transactionAt st2 key = transactionAt st key"
      unfolding dispatchTo_parts(3) [OF st2(1)] by (rule fetching_transaction [OF assms(3)]) auto
  qed (rule st2(1))
qed

lemma dashboard_listed:
  fixes models key
  defines "kept \<equiv> filter hasAdapter models"
  assumes "onlySystem (variablesAt st key)" and "tr_status (transactionAt st key) = TransactionFetching"
    and "\<forall>m \<in> set kept. loadable m" and "distinct (map nameOf kept)"
  shows "\<exists>st'. initDashboardTemplating env key models st = Some st' \<and> namesAreIds (variablesAt st' key) \<and>
    map entryOf (getVariablesByKey st' key) =
      map (\<lambda>(i, m). ((field m (js ''name''), int i, JStr key, typeOf m), intervalOk m)) (enumerate 0 kept) \<and>
    (\<forall>m \<in> set (getVariablesByKey st' key). field m (js ''state'') = JStr (js ''NotStarted'')) \<and>
    transactionAt st' key = transactionAt st key"
proof -
  from dashboard_added [OF assms(2,3) assms(4,5) [unfolded kept_def]]
  obtain st1 where st1: "dispatchTo env key (loadActions key models) st = Some st1" "namesAreIds (variablesAt st1 key)"
    "map entryOf (getVariablesByKey st1 key) =
      map (\<lambda>(i, m). ((field m (js ''name''), int i, JStr key, typeOf m), intervalOk m)) (enumerate 0 kept)"
    "\<forall>m \<in> set (getVariablesByKey st1 key). hasAdapter m" "transactionAt st1 key = transactionAt st key"
    unfolding kept_def by blast
  from notStarted_listed [OF st1(2,4), of env] assms(3) st1(5)
  show ?thesis by (auto simp: initDashboardTemplating_def st1(1,3))
qed

lemma migrate_listed:
  assumes "namesAreIds (variablesAt st key)" and "\<forall>m \<in> set (getVariablesByKey st key). hasAdapter m"
    and "tr_status (transactionAt st key) = TransactionFetching"
  shows "\<exists>st'. migrateVariablesDatasourceNameToRef env gis key st = Some st' \<and>
    map (\<lambda>m. (entryOf m, field m (js ''state''))) (getVariablesByKey st' key) =
      map (\<lambda>m. (entryOf m, field m (js ''state''))) (getVariablesByKey st key) \<and>
    namesAreIds (variablesAt st' key) \<and> transactionAt st' key = transactionAt st key"
proof -
  let ?vs = "variablesAt st key"
  let ?P = "\<lambda>m. typeOf m \<in> {JStr (js ''adhoc''), JStr (js ''query'')} \<and> \<not> isDataSourceRef (field m (js ''datasource''))"
  let ?g = "\<lambda>m. objSet (js ''datasource'') (dataSourceRefOf gis (field m (js ''datasource'')))"
  let ?acts = "map (\<lambda>m. SharedAction (jsString (typeOf m)) (ChangeVariableProp (idOf m) (js ''datasource'')
    (dataSourceRefOf gis (field m (js ''datasource''))))) (filter ?P (listed ?vs))"
  define h where "h = updateFrom idOf ?g (filter ?P (listed ?vs))"
  have adapters: "\<forall>m \<in> set (listed ?vs). hasAdapter m" using assms(2) by (simp only: getVariablesByKey_listed)
  have "runVariables env ?acts ?vs = Some (mapValues h ?vs)"
    unfolding h_def by (rule run_onListed [OF assms(1) adapters]) (simp_all add: payloadType_def sharedReducer_def changeVariableProp_def)
  then obtain st' where st': "dispatchTo env key ?acts st = Some st'" "variablesAt st' key = mapValues h ?vs"
    by (rule dispatchTo_Some)
  have place: "keepsPlace (h k)" for k unfolding h_def by (rule keepsPlace_updateFrom) (rule keepsPlace_datasource)
  have state: "field (h k m) (js ''state'') = field m (js ''state'')" for k m
    using updateFrom_cases [of idOf ?g "filter ?P (listed ?vs)" k m] by (auto simp: h_def field_objSet)
  have "map (\<lambda>m. (entryOf m, field m (js ''state''))) (listed (mapValues h ?vs)) =
      map (\<lambda>m. (entryOf m, field m (js ''state''))) (listed ?vs)"
    by (rule listed_mapValues) (simp add: keepsPlace_simps [OF place] state entryOf_def)
  moreover have "namesAreIds (mapValues h ?vs)" by (rule update_listed(1) [OF place assms(1)])
  moreover have "transactionAt st' key = transactionAt st key"
    unfolding dispatchTo_parts(3) [OF st'(1)] by (rule fetching_transaction [OF assms(3)]) auto
  moreover have "migrateVariablesDatasourceNameToRef env gis key st = Some st'"
    using st'(1) by (simp only: migrateVariablesDatasourceNameToRef_def getVariablesByKey_listed idOf_def)
  ultimately show ?thesis using st'(2) by (intro exI [of _ st']) (simp only: getVariablesByKey_listed)
qed

lemma cleanUp_parts:
  obtains st' where "cleanUpVariables env lastKey st = Some st'"
    "variablesAt st key = [] \<Longrightarrow> variablesAt st' key = []"
    "\<not> tr_isDirty (transactionAt st key) \<Longrightarrow> \<not> tr_isDirty (transactionAt st' key)"
proof -
  let ?acts = "[CleanVariables, EditorAction CleanEditorState, PickerAction CleanPickerState, ClearTransaction]"
  let ?vs = "the (variablesReducer env CleanVariables (variablesAt st lastKey))"
  have "runVariables env ?acts (variablesAt st lastKey) = Some ?vs" by (simp add: variablesReducer_def)
  then obtain st' where st': "dispatchTo env lastKey ?acts st = Some st'" "variablesAt st' lastKey = ?vs"
    by (rule dispatchTo_Some)
  show thesis
  proof (rule that)
    show "cleanUpVariables env lastKey st = Some st'" using st'(1) by (simp add: cleanUpVariables_def)
    show "variablesAt st' key = []" if "variablesAt st key = []"
      using that st' dispatchTo_other [OF st'(1), of key]
      by (cases "key = lastKey") (simp_all add: variablesReducer_def objectValues_def objectEntries_def)
    show "\<not> tr_isDirty (transactionAt st' key)" if "\<not> tr_isDirty (transactionAt st key)"
      using that dispatchTo_parts(3) [OF st'(1)] dispatchTo_other [OF st'(1), of key]
      by (cases "key = lastKey") (simp_all add: transactionReducer_def actionAffectsDirtyState_def)
  qed
qed

abbreviation (input) cancelled :: "textEnv \<Rightarrow> keyedVariablesState \<Rightarrow> keyedVariablesState option" where
  "cancelled env st \<equiv>
     (case getLastKey st of
        Some lastKey \<Rightarrow>
          if tr_status (tp_transaction (getVariablesState st lastKey)) = TransactionFetching
          then cleanUpVariables env lastKey st else Some st
      | None \<Rightarrow> Some st)"

lemma cancelled_parts:
  assumes "variablesAt st uid = []" and "\<not> tr_isDirty (transactionAt st uid)"
  shows "\<exists>st1. cancelled env st = Some st1 \<and> variablesAt st1 uid = [] \<and> \<not> tr_isDirty (transactionAt st1 uid)"
proof -
  have "cancelled env st = Some st \<or> (\<exists>k. cancelled env st = cleanUpVariables env k st)" by (auto split: option.split)
  then show ?thesis
  proof (elim disjE exE)
    assume "cancelled env st = Some st"
    then show ?thesis using assms by (intro exI [of _ st] conjI)
  next
    fix k assume k: "cancelled env st = cleanUpVariables env k st"
    obtain st1 where "cleanUpVariables env k st = Some st1" "variablesAt st1 uid = []" "\<not> tr_isDirty (transactionAt st1 uid)"
      using cleanUp_parts [of env k st uid] assms by blast
    then show ?thesis using k by (intro exI [of _ st1] conjI) simp_all
  qed
qed

lemma dashboard_started:
  assumes "variablesAt st uid = []" and "\<not> getVariablesIsDirty st uid"
    and "\<forall>m \<in> set (filter hasAdapter models). loadable m" and "distinct (map nameOf (filter hasAdapter models))"
  shows "\<exists>st'. startTransaction env sv getInstanceSettings uid models st = Some st' \<and>
    map (\<lambda>m. (entryOf m, field m (js ''state''))) (getVariablesByKey st' uid) =
      map (\<lambda>(i, m). (((field m (js ''name''), int i, JStr uid, typeOf m), intervalOk m), JStr (js ''NotStarted'')))
        (enumerate 0 (filter hasAdapter models)) \<and>
    namesAreIds (variablesAt st' uid) \<and>
    transactionAt st' uid = \<lparr>tr_uid = JStr uid, tr_status = TransactionFetching, tr_isDirty = False\<rparr>"
proof -
  let ?kept = "filter hasAdapter models"
  obtain st1 where st1: "cancelled env st = Some st1" "variablesAt st1 uid = []" "\<not> tr_isDirty (transactionAt st1 uid)"
    using assms(1,2) cancelled_parts [of st uid env] by (auto simp: getVariablesIsDirty_def)
  have "runVariables env [InitTransaction (JStr uid)] (variablesAt st1 uid) = Some []"
    by (simp add: variablesReducer_def st1(2))
  then obtain st2 where st2: "dispatchTo env uid [InitTransaction (JStr uid)] st1 = Some st2" "variablesAt st2 uid = []"
    by (rule dispatchTo_Some)
  let ?tr = "\<lparr>tr_uid = JStr uid, tr_status = TransactionFetching, tr_isDirty = False\<rparr>"
  have tr2: "transactionAt st2 uid = ?tr"
    using dispatchTo_parts(3) [OF st2(1)] st1(3) by (simp add: transactionReducer_def actionAffectsDirtyState_def)
  obtain st3 where st3: "addSystemTemplateVariables env sv uid st2 = Some st3" "onlySystem (variablesAt st3 uid)"
    using run_system [of env] unfolding addSystemTemplateVariables_def st2(2) [symmetric] by (metis dispatchTo_Some)
  have "transactionAt st3 uid = transactionAt st2 uid"
    unfolding dispatchTo_parts(3) [OF st3(1) [unfolded addSystemTemplateVariables_def]]
    by (rule fetching_transaction) (simp_all add: tr2 addSystemModel_def addVariableOf_def)
  with tr2 have tr3: "transactionAt st3 uid = ?tr" by simp
  then have "tr_status (transactionAt st3 uid) = TransactionFetching" by simp
  from dashboard_listed [OF st3(2) this assms(3,4)]
  obtain st4 where st4: "initDashboardTemplating env uid models st3 = Some st4" "namesAreIds (variablesAt st4 uid)"
    "map entryOf (getVariablesByKey st4 uid) =
      map (\<lambda>(i, m). ((field m (js ''name''), int i, JStr uid, typeOf m), intervalOk m)) (enumerate 0 ?kept)"
    "\<forall>m \<in> set (getVariablesByKey st4 uid). field m (js ''state'') = JStr (js ''NotStarted'')"
    "transactionAt st4 uid = transactionAt st3 uid" by blast
  have "\<forall>m \<in> set (getVariablesByKey st4 uid). hasAdapter m"
  proof
    fix m assume "m \<in> set (getVariablesByKey st4 uid)"
    then have "entryOf m \<in> set (map entryOf (getVariablesByKey st4 uid))" by simp
    then obtain i where "i < length ?kept" "typeOf m = typeOf (?kept ! i)"
      unfolding st4(3) by (auto simp: in_set_enumerate_eq entryOf_def)
    moreover from this have "hasAdapter (?kept ! i)" using nth_mem by fastforce
    ultimately show "hasAdapter m" by (simp add: hasAdapter_def)
  qed
  from migrate_listed [OF st4(2) this, of env getInstanceSettings] st4(5) tr3
  obtain st5 where st5: "migrateVariablesDatasourceNameToRef env getInstanceSettings uid st4 = Some st5"
    "map (\<lambda>m. (entryOf m, field m (js ''state''))) (getVariablesByKey st5 uid) =
      map (\<lambda>m. (entryOf m, field m (js ''state''))) (getVariablesByKey st4 uid)"
    "namesAreIds (variablesAt st5 uid)" "transactionAt st5 uid = ?tr" by auto
  have "map (\<lambda>m. (entryOf m, field m (js ''state''))) (getVariablesByKey st4 uid) =
      map (\<lambda>e. (e, JStr (js ''NotStarted''))) (map entryOf (getVariablesByKey st4 uid))"
    using st4(4) by simp
  also have "\<dots> = map (\<lambda>(i, m). (((field m (js ''name''), int i, JStr uid, typeOf m), intervalOk m), JStr (js ''NotStarted'')))
        (enumerate 0 ?kept)"
    unfolding st4(3) by (simp add: case_prod_beta)
  finally have "map (\<lambda>m. (entryOf m, field m (js ''state''))) (getVariablesByKey st5 uid) = \<dots>" using st5(2) by simp
  moreover have "startTransaction env sv getInstanceSettings uid models st = Some st5"
    using st1(1) st2(1) st3(1) st4(1) st5(1) by (simp add: startTransaction_def)
  ultimately show ?thesis using st5(3,4) by (auto simp: entryOf_def)
qed



end
