(* ===== verification/ProcessingProps.thy ===== *)
theory ProcessingProps
  imports Processing LoadingProps VariableGraphProps
begin

text \<open>
  Loading the variables of a dashboard at the same time: a variable is updated only after all those it
  depends on, no two wait for each other, and whatever the order of the answers every variable ends as
  loaded or as failed, unless it depends on a circle.
\<close>

subsection \<open>Sections that write to one variable\<close>

text \<open>Neither the identifier, the name, the type nor what a variable depends on is written.\<close>

definition sameVariable :: "jsobj \<Rightarrow> jsobj \<Rightarrow> bool" where
  "sameVariable m m' \<longleftrightarrow>
     (\<forall>f. f \<notin> {js ''options'', js ''current'', js ''query'', js ''filters'', js ''state'', js ''error''} \<longrightarrow>
        field m' f = field m f) \<and>
     (hasOptions m \<longrightarrow> hasOptions m')"

lemma sameVariable_refl [simp]: "sameVariable m m"
  by (simp add: sameVariable_def)

lemma sameVariable_trans: "sameVariable m m1 \<Longrightarrow> sameVariable m1 m2 \<Longrightarrow> sameVariable m m2"
  by (simp add: sameVariable_def)

lemma sameVariable_fields:
  assumes "sameVariable m m'"
  shows "typeOf m' = typeOf m" "idOf m' = idOf m" "nameOf m' = nameOf m" "getVariableRefresh m' = getVariableRefresh m"
    "field m' (js ''refresh'') = field m (js ''refresh'')" "field m' (js ''id'') = field m (js ''id'')"
    "field m' (js ''rootStateKey'') = field m (js ''rootStateKey'')" "hasOptions m \<Longrightarrow> hasOptions m'"
    "intervalOk m' = intervalOk m"
  using assms
  by (simp_all add: sameVariable_def typeOf_def idOf_def nameOf_def getVariableRefresh_def intervalOk_def hasMinimum_def)

abbreviation stateOf :: "jsobj \<Rightarrow> jsval" where
  "stateOf m \<equiv> field m (js ''state'')"

lemma sameVariable_objSet:
  "f \<in> {js ''options'', js ''current'', js ''query'', js ''filters'', js ''state'', js ''error''} \<Longrightarrow>
   sameVariable m m' \<Longrightarrow> sameVariable m (objSet f v m')"
  by (auto simp: sameVariable_def field_objSet hasOptions_def obj.get_set)

lemma sameVariable_setLoading: "sameVariable m (setLoading s e m)"
  by (simp add: setLoading_def sameVariable_objSet)

text \<open>The variable of an identifier, while its dashboard is loaded.\<close>

definition loads :: "keyedVariableIdentifier \<Rightarrow> jsobj \<Rightarrow> keyedVariablesState \<Rightarrow> bool" where
  "loads ident m st \<longleftrightarrow>
     tr_status (transactionAt st (ki_rootStateKey ident)) = TransactionFetching \<and>
     objKeysOk (variablesAt st (ki_rootStateKey ident)) \<and>
     objGet (variablesAt st (ki_rootStateKey ident)) (ki_id ident) = Some m \<and>
     field m (js ''id'') = JStr (ki_id ident) \<and> typeOf m = JStr (ki_type ident) \<and>
     variableAdapters (ki_type ident) \<noteq> None \<and> intervalOk m"

definition updated ::
  "keyedVariableIdentifier \<Rightarrow> jsobj \<Rightarrow> keyedVariablesState \<Rightarrow> jsobj \<Rightarrow> keyedVariablesState \<Rightarrow> bool" where
  "updated ident m st m' st' \<longleftrightarrow>
     loads ident m' st' \<and> sameVariable m m' \<and>
     (\<forall>k. k \<noteq> ki_id ident \<longrightarrow>
        objGet (variablesAt st' (ki_rootStateKey ident)) k = objGet (variablesAt st (ki_rootStateKey ident)) k) \<and>
     transactionAt st' (ki_rootStateKey ident) = transactionAt st (ki_rootStateKey ident)"

lemma updated_refl: "loads ident m st \<Longrightarrow> updated ident m st m st"
  by (simp add: updated_def)

lemma updated_loads: "updated ident m st m' st' \<Longrightarrow> loads ident m' st'"
  by (simp add: updated_def)

lemma updated_same: "updated ident m st m' st' \<Longrightarrow> sameVariable m m'"
  by (simp add: updated_def)

lemma updated_trans: "updated ident m st m1 st1 \<Longrightarrow> updated ident m1 st1 m2 st2 \<Longrightarrow> updated ident m st m2 st2"
  using sameVariable_trans by (auto simp: updated_def)

lemma loads_getVariable: "loads ident m st \<Longrightarrow> getVariable st ident = Some m"
  by (simp add: loads_def getVariable_def)

lemma loads_ongoing: "loads ident m st \<Longrightarrow> hasOngoingTransaction (ki_rootStateKey ident) st"
  by (simp add: loads_def hasOngoingTransaction_def)

text \<open>One action that leaves the variables or writes to this one.\<close>

lemma dispatch_updated:
  assumes "loads ident m st" and "sameVariable m m'"
    and "variablesReducer env a (variablesAt st (ki_rootStateKey ident)) =
      Some (objSet (ki_id ident) m' (variablesAt st (ki_rootStateKey ident)))"
    and "a = SharedAction t b \<or> a = TypeAction t c"
  shows "\<exists>st'. dispatchTo env (ki_rootStateKey ident) [a] st = Some st' \<and> updated ident m st m' st'"
proof -
  let ?key = "ki_rootStateKey ident"
  have "runVariables env [a] (variablesAt st ?key) = Some (objSet (ki_id ident) m' (variablesAt st ?key))"
    using assms(3) by simp
  then obtain st' where st': "dispatchTo env ?key [a] st = Some st'"
    "variablesAt st' ?key = objSet (ki_id ident) m' (variablesAt st ?key)" by (rule dispatchTo_Some)
  have "transactionAt st' ?key = transactionAt st ?key"
    using dispatchTo_parts(3) [OF st'(1)] assms(1,4)
    by (auto simp: transactionReducer_def actionAffectsDirtyState_def loads_def)
  moreover have "field m' (js ''id'') = field m (js ''id'')" "typeOf m' = typeOf m" "intervalOk m' = intervalOk m"
    using assms(2) by (simp_all add: sameVariable_fields)
  ultimately show ?thesis
    using assms(1,2) st' by (auto simp: updated_def loads_def obj.get_set obj.ok_set)
qed

lemma objSet_same: "objGet vs k = Some m \<Longrightarrow> objSet k m vs = vs"
  by (induction k m vs rule: objSet.induct) (auto simp: objGet_def split: if_splits)

lemma loads_instance:
  assumes "loads ident m st"
  shows "getInstanceState (variablesAt st (ki_rootStateKey ident)) (ki_id ident) = Some m"
  using assms by (simp add: loads_def getInstanceState_def)

lemma dispatch_loading:
  assumes "loads ident m st"
    and "(s, e, b) \<in> {(js ''Loading'', JNull, VariableStateFetching (ki_id ident)),
      (js ''Done'', JNull, VariableStateCompleted (ki_id ident)), (js ''Error'', error, VariableStateFailed (ki_id ident) error)}"
  shows "\<exists>st'. dispatchTo env (ki_rootStateKey ident) [SharedAction (ki_type ident) b] st = Some st' \<and>
    updated ident m st (setLoading s e m) st'"
  by (rule dispatch_updated [OF assms(1) sameVariable_setLoading])
    (use assms loads_instance [OF assms(1)] in
      \<open>auto simp: variablesReducer_def payloadType_def sharedReducer_def variableStateFetching_def
         variableStateCompleted_def variableStateFailed_def onVariable_def loads_def\<close>)

lemma stateOf_setLoading: "stateOf (setLoading s e m) = JStr s"
  by (simp add: setLoading_def field_objSet)

lemma complete_updated:
  assumes "loads ident m st"
  shows "\<exists>st' m'. completeVariableLoading env ident st = Some st' \<and> updated ident m st m' st' \<and> stateOf m' = JStr (js ''Done'')"
proof (cases "stateOf m = JStr (js ''Done'')")
  case True
  then show ?thesis
    using assms updated_refl [OF assms]
    by (auto simp: completeVariableLoading_def loads_getVariable [OF assms] loads_ongoing [OF assms])
next
  case False
  obtain st' where st': "dispatchTo env (ki_rootStateKey ident)
      [SharedAction (ki_type ident) (VariableStateCompleted (ki_id ident))] st = Some st'"
    "updated ident m st (setLoading (js ''Done'') JNull m) st'"
    using dispatch_loading [OF assms, of "js ''Done''" JNull "VariableStateCompleted (ki_id ident)"] by blast
  moreover have "jsString (typeOf m) = ki_type ident" "jsString (field m (js ''id'')) = ki_id ident"
    using assms by (simp_all add: loads_def)
  ultimately show ?thesis
    using False stateOf_setLoading
    by (auto simp: completeVariableLoading_def loads_getVariable [OF assms] loads_ongoing [OF assms])
qed

lemma dispatch_query:
  assumes "loads ident m st"
  shows "\<exists>st'. dispatchTo env (ki_rootStateKey ident)
      [SharedAction (ki_type ident) (ChangeVariableProp (ki_id ident) (js ''query'') v)] st = Some st' \<and>
    updated ident m st (objSet (js ''query'') v m) st'"
  by (rule dispatch_updated [OF assms]) (use assms loads_instance [OF assms] in
      \<open>auto simp: sameVariable_objSet variablesReducer_def payloadType_def sharedReducer_def changeVariableProp_def
         onVariable_def loads_def\<close>)

lemma upgrade_updated:
  assumes "loads ident m st"
  shows "\<exists>st' m'. upgradeLegacyQueries le ident st = Some st' \<and> updated ident m st m' st' \<and> stateOf m' = stateOf m"
proof (cases "le_standardSupport le (field m (js ''datasource'')) = None \<or> typeOf m \<noteq> JStr (js ''query'') \<or>
    isDataQueryType (field m (js ''query''))")
  case True
  have "upgradeLegacyQueries le ident st = Some st"
  proof (cases "le_standardSupport le (field m (js ''datasource''))")
    case None
    show ?thesis unfolding upgradeLegacyQueries_def loads_getVariable [OF assms] option.case None by (simp only: if_cancel)
  next
    case (Some name)
    with True have "typeOf m \<noteq> JStr (js ''query'') \<or> isDataQueryType (field m (js ''query''))"
      by (simp only: option.distinct simp_thms)
    then show ?thesis
      unfolding upgradeLegacyQueries_def loads_getVariable [OF assms] option.case Some by (simp only: if_True if_cancel)
  qed
  then show ?thesis using updated_refl [OF assms] by blast
next
  case False
  then obtain name where name: "le_standardSupport le (field m (js ''datasource'')) = Some name" by auto
  let ?v = "upgradedQuery name (ki_id ident) m"
  have c: "(typeOf m \<noteq> JStr (js ''query'') \<or> isDataQueryType (field m (js ''query''))) = False" using False by blast
  have "upgradeLegacyQueries le ident st = dispatchTo (le_text le) (ki_rootStateKey ident)
      [SharedAction (ki_type ident) (ChangeVariableProp (ki_id ident) (js ''query'') ?v)] st"
    unfolding upgradeLegacyQueries_def loads_getVariable [OF assms] option.case name c
    using loads_ongoing [OF assms] by (simp only: if_False not_True_eq_False)
  moreover obtain st' where "dispatchTo (le_text le) (ki_rootStateKey ident)
      [SharedAction (ki_type ident) (ChangeVariableProp (ki_id ident) (js ''query'') ?v)] st = Some st'"
    "updated ident m st (objSet (js ''query'') ?v m) st'"
    using dispatch_query [OF assms] by blast
  ultimately show ?thesis
    by (intro exI [of _ st'] exI [of _ "objSet (js ''query'') ?v m"]) (simp add: field_objSet)
qed

text \<open>Sections that follow each other.\<close>

lemma bind_updated:
  assumes "\<exists>st' m'. f = Some st' \<and> updated ident m st m' st' \<and> P m'"
    and "\<And>st1 m1. updated ident m st m1 st1 \<Longrightarrow> P m1 \<Longrightarrow> \<exists>st' m'. g st1 = Some st' \<and> updated ident m1 st1 m' st' \<and> Q m1 m'"
  shows "\<exists>st' m'. Option.bind f g = Some st' \<and> updated ident m st m' st' \<and> (\<exists>m1. P m1 \<and> Q m1 m' \<and> sameVariable m m1)"
proof -
  obtain st1 m1 where 1: "f = Some st1" "updated ident m st m1 st1" "P m1" using assms(1) by blast
  obtain st2 m2 where "g st1 = Some st2" "updated ident m1 st1 m2 st2" "Q m1 m2" using assms(2) [OF 1(2,3)] by blast
  moreover from this(2) have "updated ident m st m2 st2" by (rule updated_trans [OF 1(2)])
  ultimately show ?thesis
    by (intro exI [of _ st2] exI [of _ m2] conjI exI [of _ m1]) (simp_all only: 1 bind.simps updated_same [OF 1(2)])
qed

lemma atBoot_updated:
  assumes "loads ident m st"
  shows "\<exists>st' m'. variableUpdatedAtBoot le ident st = Some st' \<and> updated ident m st m' st' \<and>
    stateOf m' = (if getVariableRefresh m = refreshNever then JStr (js ''Done'') else stateOf m)"
proof (cases "getVariableRefresh m = refreshNever")
  case True
  have "\<exists>st' m'. Option.bind (upgradeLegacyQueries le ident st) (completeVariableLoading (le_text le) ident) = Some st' \<and>
      updated ident m st m' st' \<and> (\<exists>m1. stateOf m1 = stateOf m \<and> stateOf m' = JStr (js ''Done'') \<and> sameVariable m m1)"
    by (rule bind_updated [OF upgrade_updated [OF assms]]) (rule complete_updated, rule updated_loads)
  then show ?thesis using True by (auto simp: variableUpdatedAtBoot_def loads_getVariable [OF assms])
next
  case False
  then show ?thesis using updated_refl [OF assms] by (auto simp: variableUpdatedAtBoot_def loads_getVariable [OF assms])
qed

lemma dispatch_current:
  assumes "loads ident m st"
  shows "\<exists>st' m'. dispatchTo env (ki_rootStateKey ident)
      [SharedAction (ki_type ident) (SetCurrentVariableValue (ki_id ident) c)] st = Some st' \<and>
    updated ident m st m' st' \<and> stateOf m' = stateOf m"
proof -
  let ?vs = "variablesAt st (ki_rootStateKey ident)"
  have "\<exists>m'. setCurrentVariableValue (ki_id ident) c ?vs = Some (objSet (ki_id ident) m' ?vs) \<and> sameVariable m m' \<and>
      stateOf m' = stateOf m"
  proof (cases "c = None \<or> objGet m (js ''options'') = None")
    case True
    then show ?thesis
      using objSet_same [of ?vs "ki_id ident" m] assms
      by (intro exI [of _ m])
        (auto simp: setCurrentVariableValue_def loads_instance [OF assms] loads_def split: option.split)
  next
    case False
    then show ?thesis
      by (auto simp: setCurrentVariableValue_def loads_instance [OF assms] Let_def sameVariable_objSet field_objSet)
  qed
  then obtain m' where m': "setCurrentVariableValue (ki_id ident) c ?vs = Some (objSet (ki_id ident) m' ?vs)"
    "sameVariable m m'" "stateOf m' = stateOf m" by blast
  have "variablesReducer env (SharedAction (ki_type ident) (SetCurrentVariableValue (ki_id ident) c)) ?vs =
      Some (objSet (ki_id ident) m' ?vs)"
    using assms m'(1) by (auto simp: variablesReducer_def payloadType_def sharedReducer_def loads_def)
  from dispatch_updated [OF assms m'(2) this] m'(3) show ?thesis by blast
qed

text \<open>Setting the current value completes a variable that is not refreshed.\<close>

definition stateAfterSet :: "jsobj \<Rightarrow> jsval" where
  "stateAfterSet m = (if getVariableRefresh m = refreshNever then JStr (js ''Done'') else stateOf m)"

lemma setOptionAsCurrent_updated:
  assumes "loads ident m st"
  shows "\<exists>st' m'. setOptionAsCurrent le ident c st = Some st' \<and> updated ident m st m' st' \<and> stateOf m' = stateAfterSet m"
proof -
  obtain st1 m1 where 1: "dispatchTo (le_text le) (ki_rootStateKey ident)
      [SharedAction (ki_type ident) (SetCurrentVariableValue (ki_id ident) c)] st = Some st1"
    "updated ident m st m1 st1" "stateOf m1 = stateOf m" using dispatch_current [OF assms] by blast
  obtain st2 m2 where 2: "variableUpdatedAtBoot le ident st1 = Some st2" "updated ident m1 st1 m2 st2"
    "stateOf m2 = (if getVariableRefresh m1 = refreshNever then JStr (js ''Done'') else stateOf m1)"
    using atBoot_updated [OF updated_loads [OF 1(2)]] by blast
  have "stateOf m2 = stateAfterSet m"
    using 2(3) 1(3) sameVariable_fields(4) [OF updated_same [OF 1(2)]] by (simp add: stateAfterSet_def)
  then show ?thesis
    using 1(1) 2(1) updated_trans [OF 1(2) 2(2)] by (intro exI [of _ st2] exI [of _ m2]) (simp add: setOptionAsCurrent_def)
qed

text \<open>The value \<open>auto\<close> of an interval is computed unless its smallest width is no interval.\<close>

lemma updateAutoValue_None:
  "updateAutoValue rangeFrom rangeTo m srv = None \<longleftrightarrow> typeOf m = JStr (js ''interval'') \<and> \<not> hasMinimum m"
  by (auto simp: updateAutoValue_def calculateInterval_def hasMinimum_def typeOf_def intervalToMs_def)

lemma loads_auto: "loads ident m st \<Longrightarrow> \<not> autoThrows le ident st"
  by (simp add: autoThrows_def loads_getVariable updateAutoValue_None) (simp add: loads_def intervalOk_def)

lemma setValue_updated:
  assumes "loads ident m st"
  shows "\<exists>st' m'. setValue le ident c st = Some st' \<and> updated ident m st m' st' \<and>
    stateOf m' = (if ki_type ident \<in> {js ''adhoc'', js ''system''} then stateOf m else stateAfterSet m)"
proof (cases "ki_type ident \<in> {js ''adhoc'', js ''system''}")
  case True
  then show ?thesis using updated_refl [OF assms] by (intro exI [of _ st] exI [of _ m]) (simp add: setValue_def)
next
  case False
  then show ?thesis
    using setOptionAsCurrent_updated [OF assms] loads_auto [OF assms] by (simp only: setValue_def if_False)
qed

text \<open>What is kept or completed.\<close>

abbreviation keptOrDone :: "jsobj \<Rightarrow> jsobj \<Rightarrow> bool" where
  "keptOrDone m m' \<equiv> stateOf m' \<in> {stateOf m, JStr (js ''Done'')}"

lemma setValue_kept:
  assumes "loads ident m st"
  shows "\<exists>st' m'. setValue le ident c st = Some st' \<and> updated ident m st m' st' \<and> keptOrDone m m'"
proof -
  obtain st' m' where s: "setValue le ident c st = Some st'" "updated ident m st m' st'"
    "stateOf m' = (if ki_type ident \<in> {js ''adhoc'', js ''system''} then stateOf m else stateAfterSet m)"
    using setValue_updated [OF assms] by blast
  have "keptOrDone m m'" unfolding s(3) stateAfterSet_def by simp
  then show ?thesis using s by blast
qed

lemma validateSelection_updated:
  assumes "loads ident m st"
  shows "\<exists>st' m'. validateSelection le ident st = Some st' \<and> updated ident m st m' st' \<and> keptOrDone m m'"
proof (cases "validateVariableSelectionState m None")
  case None
  then show ?thesis
    using updated_refl [OF assms] by (intro exI [of _ st] exI [of _ m]) (simp add: validateSelection_def loads_getVariable [OF assms])
next
  case (Some v)
  then show ?thesis using setValue_kept [OF assms] by (simp add: validateSelection_def loads_getVariable [OF assms])
qed

lemma onType_written:
  assumes "onType t i g vs = Some vs'" and "getInstanceState vs i = Some m"
    and "\<And>m'. g m = Some m' \<Longrightarrow> sameVariable m m' \<and> stateOf m' = stateOf m"
  shows "\<exists>m'. vs' = objSet i m' vs \<and> sameVariable m m' \<and> stateOf m' = stateOf m"
proof (cases "typeOf m = JStr t")
  case True
  then show ?thesis using assms by (auto simp: onType_def)
next
  case False
  then have "vs' = vs" using assms(1,2) by (simp add: onType_def)
  then show ?thesis
    using assms(2) by (intro exI [of _ m]) (simp add: getInstanceState_def objSet_same)
qed

lemma setOptions_same: "sameVariable m m' \<Longrightarrow> sameVariable m (setOptions os m')" "stateOf (setOptions os m) = stateOf m"
  by (simp_all add: setOptions_def sameVariable_objSet field_objSet)

definition quiet :: "(jsobj \<Rightarrow> jsobj option) \<Rightarrow> bool" where
  "quiet g \<longleftrightarrow> (\<forall>m m'. g m = Some m' \<longrightarrow> sameVariable m m' \<and> stateOf m' = stateOf m)"

lemma quiet_intros:
  "quiet (\<lambda>m. Some (setOptions (F m) m))"
  "quiet (onQuery (\<lambda>q m. setOptions (G q m) m))"
  "quiet (onQuery (\<lambda>q m. objSet (js ''current'') (H q) (setOptions (G q m) m)))"
  "quiet (\<lambda>m. map_option (\<lambda>os. setOptions (L os m) m) (K m))"
  by (auto simp: quiet_def onQuery_def setOptions_same sameVariable_objSet field_objSet split: jsval.splits)

lemma quiet_onType: "onType t i g vs = Some vs' \<Longrightarrow> quiet g \<Longrightarrow> \<exists>g. onType t i g vs = Some vs' \<and> quiet g"
  by blast

lemma typeReducer_quiet:
  assumes "optionsAction ident an = Some (TypeAction (ki_type ident) c)" and "typeReducer env (ki_type ident) c vs = Some vs'"
  shows "\<exists>g. onType (ki_type ident) (ki_id ident) g vs = Some vs' \<and> quiet g"
proof -
  let ?t = "ki_type ident" and ?i = "ki_id ident"
  consider "?t = js ''query''" "c = UpdateVariableOptions ?i (an_regex an) (an_results an)"
    | "?t = js ''custom''" "c = CreateCustomOptionsFromQuery ?i" | "?t = js ''constant''" "c = CreateConstantOptionsFromQuery ?i"
    | "?t = js ''datasource''" "c = CreateDataSourceOptions ?i (an_sources an) (an_sourceRegex an) (an_lastIndex an)"
    | "?t = js ''interval''" "c = CreateIntervalOptions ?i" | "?t = js ''textbox''" "c = CreateTextBoxOptions ?i"
    using assms(1) by (auto simp: optionsAction_def Let_def split: if_splits)
  then show ?thesis
  proof cases
    case 1
    then have "updateVariableOptions (tx_toLower env) (tx_newRegExp env) ?i (an_regex an) (an_results an) vs = Some vs'"
      using assms(2) by (simp add: typeReducer_def)
    then show ?thesis
      unfolding 1(1) updateVariableOptions_def Let_def by (rule quiet_onType) (rule quiet_intros)
  next
    case 2
    then have "createCustomOptionsFromQuery ?i vs = Some vs'" using assms(2) by (simp add: typeReducer_def)
    then show ?thesis
      unfolding 2(1) createCustomOptionsFromQuery_def by (rule quiet_onType) (rule quiet_intros)
  next
    case 3
    then have "createConstantOptionsFromQuery ?i vs = Some vs'" using assms(2) by (simp add: typeReducer_def)
    then show ?thesis
      unfolding 3(1) createConstantOptionsFromQuery_def by (rule quiet_onType) (rule quiet_intros)
  next
    case 4
    then have "createDataSourceOptions ?i (an_sources an) (an_sourceRegex an) (an_lastIndex an) vs = Some vs'"
      using assms(2) by (simp add: typeReducer_def)
    then show ?thesis
      unfolding 4(1) createDataSourceOptions_def Let_def by (rule quiet_onType) (rule quiet_intros)
  next
    case 5
    then have "createIntervalOptions ?i vs = Some vs'" using assms(2) by (simp add: typeReducer_def)
    then show ?thesis
      unfolding 5(1) createIntervalOptions_def by (rule quiet_onType) (rule quiet_intros)
  next
    case 6
    then have "createTextBoxOptions ?i vs = Some vs'" using assms(2) by (simp add: typeReducer_def)
    then show ?thesis
      unfolding 6(1) createTextBoxOptions_def by (rule quiet_onType) (rule quiet_intros)
  qed
qed

lemma optionsAction_written:
  assumes "optionsAction ident an = Some a" and "loads ident m st"
    and "variablesReducer env a (variablesAt st (ki_rootStateKey ident)) = Some vs'"
  shows "\<exists>m'. vs' = objSet (ki_id ident) m' (variablesAt st (ki_rootStateKey ident)) \<and> sameVariable m m' \<and> stateOf m' = stateOf m"
    "\<exists>c. a = TypeAction (ki_type ident) c"
proof -
  show "\<exists>c. a = TypeAction (ki_type ident) c" using assms(1) by (auto simp: optionsAction_def Let_def split: if_splits)
  then obtain c where c: "a = TypeAction (ki_type ident) c" by blast
  have r: "typeReducer env (ki_type ident) c (variablesAt st (ki_rootStateKey ident)) = Some vs'"
    using assms(2,3) c by (auto simp: variablesReducer_def loads_def)
  obtain g where "onType (ki_type ident) (ki_id ident) g (variablesAt st (ki_rootStateKey ident)) = Some vs'" "quiet g"
    using typeReducer_quiet [OF assms(1) [unfolded c] r] by blast
  then show "\<exists>m'. vs' = objSet (ki_id ident) m' (variablesAt st (ki_rootStateKey ident)) \<and> sameVariable m m' \<and>
      stateOf m' = stateOf m"
    using onType_written [OF _ loads_instance [OF assms(2)]] unfolding quiet_def by blast
qed

subsection \<open>The sections of an update\<close>

lemma dispatch_options:
  assumes "optionsAction ident an = Some a" and "loads ident m st"
    and "dispatchTo env (ki_rootStateKey ident) [a] st = Some st'"
  shows "\<exists>m'. updated ident m st m' st' \<and> stateOf m' = stateOf m"
proof -
  let ?key = "ki_rootStateKey ident"
  have r: "variablesReducer env a (variablesAt st ?key) = Some (variablesAt st' ?key)"
    using dispatchTo_parts(1) [OF assms(3)] by (simp split: option.splits)
  obtain m' where m': "variablesAt st' ?key = objSet (ki_id ident) m' (variablesAt st ?key)" "sameVariable m m'"
    "stateOf m' = stateOf m" using optionsAction_written(1) [OF assms(1,2) r] by blast
  obtain c where c: "a = TypeAction (ki_type ident) c" using optionsAction_written(2) [OF assms(1,2) r] by blast
  from dispatch_updated [OF assms(2) m'(2) r [unfolded m'(1)]] c assms(3) m'(3) show ?thesis by auto
qed

lemma adapterUpdate_updated:
  assumes "loads ident m st"
  shows "\<exists>m'. updated ident m st m' (fst (adapterUpdateOptions le ident an st))"
proof (cases "optionsAction ident an")
  case None
  then show ?thesis using assms updated_refl by (auto simp: adapterUpdateOptions_def)
next
  case (Some a)
  show ?thesis
  proof (cases "dispatchTo (le_text le) (ki_rootStateKey ident) [a] st")
    case None
    then show ?thesis using Some updated_refl [OF assms] by (auto simp: adapterUpdateOptions_def)
  next
    case (Some st1)
    obtain m1 where m1: "updated ident m st m1 st1" using dispatch_options [OF \<open>optionsAction ident an = _\<close> assms Some] by blast
    note l1 = updated_loads [OF m1]
    obtain st2 m2 where 2: "updated ident m1 st1 m2 st2" "fst (adapterUpdateOptions le ident an st) = st2"
    proof (cases "ki_type ident = js ''textbox''")
      case True
      obtain st2 m2 where "setValue le ident (optionOrUndefined (firstOption m1)) st1 = Some st2" "updated ident m1 st1 m2 st2"
        using setValue_kept [OF l1] by blast
      then show thesis
        using that True Some \<open>optionsAction ident an = _\<close> by (simp add: adapterUpdateOptions_def loads_getVariable [OF l1])
    next
      case False
      obtain st2 m2 where "validateSelection le ident st1 = Some st2" "updated ident m1 st1 m2 st2"
        using validateSelection_updated [OF l1] by blast
      then show thesis
        using that False Some \<open>optionsAction ident an = _\<close> loads_auto [OF l1] by (simp add: adapterUpdateOptions_def)
    qed
    then show ?thesis using updated_trans [OF m1] by blast
  qed
qed

text \<open>A query that fails with something else than an \<open>Error\<close> counts as done, and nobody is told.\<close>

lemma query_failure_hidden:
  "ki_type ident = js ''query'' \<Longrightarrow> finishUpdate le ident (Failed False error) st = completeVariableLoading (le_text le) ident st"
  by (simp add: finishUpdate_def Let_def)

lemma startUpdate_updated:
  assumes "loads ident m st"
  shows "\<exists>st' m'. startUpdate le ident st = Some st' \<and> updated ident m st m' st' \<and> stateOf m' = JStr (js ''Loading'')"
proof -
  let ?m1 = "setLoading (js ''Loading'') JNull m"
  obtain st1 where 1: "dispatchTo (le_text le) (ki_rootStateKey ident)
      [SharedAction (ki_type ident) (VariableStateFetching (ki_id ident))] st = Some st1" "updated ident m st ?m1 st1"
    using dispatch_loading [OF assms, of "js ''Loading''" JNull "VariableStateFetching (ki_id ident)"] by blast
  obtain st2 m2 where 2: "upgradeLegacyQueries le ident st1 = Some st2" "updated ident ?m1 st1 m2 st2" "stateOf m2 = stateOf ?m1"
    using upgrade_updated [OF updated_loads [OF 1(2)]] by blast
  then show ?thesis
    using 1(1) updated_trans [OF 1(2) 2(2)] stateOf_setLoading
    by (intro exI [of _ st2] exI [of _ m2]) (simp add: startUpdate_def)
qed

abbreviation loaded :: "jsobj \<Rightarrow> bool" where
  "loaded m \<equiv> stateOf m \<in> {JStr (js ''Done''), JStr (js ''Error'')}"

lemma fail_updated:
  assumes "loads ident m st"
  shows "\<exists>st' m'. dispatchTo env (ki_rootStateKey ident)
      [SharedAction (ki_type ident) (VariableStateFailed (ki_id ident) e)] st = Some st' \<and> updated ident m st m' st' \<and> loaded m'"
proof -
  have "loaded (setLoading (js ''Error'') e m)" by (simp add: stateOf_setLoading)
  then show ?thesis
    using dispatch_loading [OF assms, of "js ''Error''" e "VariableStateFailed (ki_id ident) e" e env] by blast
qed

lemma complete_loaded:
  assumes "loads ident m st"
  shows "\<exists>st' m'. completeVariableLoading env ident st = Some st' \<and> updated ident m st m' st' \<and> loaded m'"
  using complete_updated [OF assms, of env] by blast

lemma finishUpdate_updated:
  assumes "loads ident m st"
  shows "\<exists>st' m'. finishUpdate le ident an st = Some st' \<and> updated ident m st m' st' \<and> loaded m'"
proof (cases an)
  case (Failed isError e)
  then show ?thesis
    using fail_updated [OF assms, of "le_text le" e] complete_loaded [OF assms, of "le_text le"]
    by (simp add: finishUpdate_def Let_def)
next
  case (Answered d)
  obtain st1 throws where a: "adapterUpdateOptions le ident d st = (st1, throws)" by (cases "adapterUpdateOptions le ident d st")
  obtain m1 where m1: "updated ident m st m1 st1" using adapterUpdate_updated [OF assms, of le d] by (auto simp: a)
  note l1 = updated_loads [OF m1]
  obtain st2 m2 where "finishUpdate le ident an st = Some st2" "updated ident m1 st1 m2 st2" "loaded m2"
    using fail_updated [OF l1, of "le_text le" "le_thrown le"] complete_loaded [OF l1, of "le_text le"] Answered
    by (cases throws) (simp_all add: finishUpdate_def a Let_def, blast+)
  then show ?thesis using updated_trans [OF m1] by blast
qed

lemma setUrlOption_kept:
  assumes "loads ident m st"
  shows "\<exists>st' m'. setUrlOption le ident v st = Some st' \<and> updated ident m st m' st' \<and> keptOrDone m m'"
proof (cases "setOptionFromUrl m v")
  case None
  then show ?thesis
    using updated_refl [OF assms] by (intro exI [of _ st] exI [of _ m]) (simp add: setUrlOption_def loads_getVariable [OF assms])
next
  case (Some c)
  then show ?thesis using setValue_kept [OF assms] by (simp add: setUrlOption_def loads_getVariable [OF assms])
qed

subsection \<open>The sections of a promise\<close>

lemma bootable_same: "sameVariable m m' \<Longrightarrow> bootable m \<Longrightarrow> bootable m'"
  by (auto simp: bootable_def sameVariable_fields split: if_splits)

definition outcome :: "phase \<Rightarrow> jsobj \<Rightarrow> bool" where
  "outcome p m \<longleftrightarrow> p = Ended \<and> loaded m \<or> (\<exists>u. p = Updating u \<and> stateOf m = JStr (js ''Loading''))"

definition progresses :: "keyedVariableIdentifier \<Rightarrow> jsobj \<Rightarrow> keyedVariablesState \<Rightarrow> keyedVariablesState \<times> phase \<Rightarrow> bool" where
  "progresses ident m st r \<longleftrightarrow> (\<exists>st' p m'. r = (st', p) \<and> updated ident m st m' st' \<and> outcome p m')"

lemma progresses_ends:
  assumes "\<exists>st' m'. r = Some st' \<and> updated ident m st m' st' \<and> loaded m'"
  shows "progresses ident m st (endsAt st0 r)"
  using assms by (auto simp: progresses_def endsAt_def outcome_def)

lemma progresses_update:
  assumes "loads ident m st"
  shows "progresses ident m st (andThen st0 (startUpdate le ident st) (\<lambda>st1. (st1, Updating u)))"
  using startUpdate_updated [OF assms, of le] by (auto simp: progresses_def outcome_def andThen_def)

lemma setOptionFromUrl_None: "setOptionFromUrl m v = None \<longleftrightarrow> \<not> hasOptions m"
  by (simp add: setOptionFromUrl_def Let_def)

lemma startOptionFromUrl_progresses:
  assumes "loads ident m st" and "bootable m" and "ki_type ident \<noteq> js ''adhoc''"
  shows "progresses ident m st (startOptionFromUrl le ident v st)"
proof (cases "getVariableRefresh m = refreshNever")
  case False
  then have "startOptionFromUrl le ident v st = andThen st (startUpdate le ident st) (\<lambda>st1. (st1, Updating (Some v)))"
    using loads_ongoing [OF assms(1)] by (simp add: startOptionFromUrl_def loads_getVariable [OF assms(1)])
  then show ?thesis using progresses_update [OF assms(1)] by simp
next
  case True
  have t: "ki_type ident \<notin> {js ''adhoc'', js ''system''}" "hasOptions m"
    using assms by (auto simp: bootable_def loads_def split: if_splits)
  then obtain c where c: "setOptionFromUrl m v = Some c" using setOptionFromUrl_None [of m v] by auto
  obtain st' m' where s: "setValue le ident (Some c) st = Some st'" "updated ident m st m' st'"
    "stateOf m' = (if ki_type ident \<in> {js ''adhoc'', js ''system''} then stateOf m else stateAfterSet m)"
    using setValue_updated [OF assms(1)] by blast
  have "loaded m'" unfolding s(3) if_not_P [OF t(1)] stateAfterSet_def if_P [OF True] by simp
  moreover have "startOptionFromUrl le ident v st = endsAt st (Some st')"
    using True c s(1) by (simp add: startOptionFromUrl_def setUrlOption_def loads_getVariable [OF assms(1)])
  ultimately show ?thesis using progresses_ends s(2) by fastforce
qed

lemma progresses_after:
  assumes "updated ident m st m1 st1" and "progresses ident m1 st1 r"
  shows "progresses ident m st r"
proof -
  obtain st' p m' where "r = (st', p)" "updated ident m1 st1 m' st'" "outcome p m'"
    using assms(2) unfolding progresses_def by blast
  then show ?thesis
    unfolding progresses_def using updated_trans [OF assms(1)] by blast
qed

lemma restoreFilters_updated:
  assumes "loads ident m st" and "ki_type ident = js ''adhoc''"
  shows "\<exists>st' m'. setFiltersFromUrl env ident fs st = Some st' \<and> updated ident m st m' st'"
proof -
  let ?vs = "variablesAt st (ki_rootStateKey ident)" and ?m = "objSet (js ''filters'') (JArr (map JObj fs)) m"
  have t: "typeOf m = JStr (js ''adhoc'')" "jsString (field m (js ''id'')) = ki_id ident" "variableAdapters (js ''adhoc'') \<noteq> None"
    using assms by (simp_all add: loads_def)
  then have "variablesReducer env (TypeAction (js ''adhoc'') (FiltersRestored (ki_id ident) fs)) ?vs = Some (objSet (ki_id ident) ?m ?vs)"
    by (auto simp: variablesReducer_def typeReducer_def filtersRestored_def onFilters_def loads_instance [OF assms(1)])
  from dispatch_updated [OF assms(1) _ this] t show ?thesis
    by (auto simp: setFiltersFromUrl_def dispatchFilter_def loads_getVariable [OF assms(1)] sameVariable_objSet)
qed

lemma setValueFromUrl_progresses:
  assumes "loads ident m st" and "bootable m"
  shows "progresses ident m st (setValueFromUrl le ident v st)"
proof -
  have system: "ki_type ident \<noteq> js ''system''" using assms by (auto simp: bootable_def loads_def)
  consider "ki_type ident = js ''adhoc''" | "ki_type ident = js ''textbox''" "ki_type ident \<noteq> js ''adhoc''"
    | "ki_type ident \<notin> {js ''adhoc'', js ''textbox''}" by blast
  then show ?thesis
  proof cases
    case 1
    obtain st1 m1 where 1: "setFiltersFromUrl (le_text le) ident (toFilters v) st = Some st1" "updated ident m st m1 st1"
      using restoreFilters_updated [OF assms(1) 1] by blast
    have never: "getVariableRefresh m1 = refreshNever"
      using assms \<open>ki_type ident = _\<close> sameVariable_fields(4) [OF updated_same [OF 1(2)]]
      by (auto simp: bootable_def loads_def split: if_splits)
    obtain st2 m2 where 2: "variableUpdatedAtBoot le ident st1 = Some st2" "updated ident m1 st1 m2 st2" "loaded m2"
      using atBoot_updated [OF updated_loads [OF 1(2)], of le] never by auto
    have "setValueFromUrl le ident v st = endsAt st1 (Some st2)"
      using system \<open>ki_type ident = _\<close> 1(1) 2(1) by (simp add: setValueFromUrl_def andThen_def)
    then show ?thesis using progresses_ends updated_trans [OF 1(2) 2(2)] 2(3) by metis
  next
    case 2
    obtain st1 where 1: "dispatchTo (le_text le) (ki_rootStateKey ident)
        [SharedAction (ki_type ident) (ChangeVariableProp (ki_id ident) (js ''query'') v)] st = Some st1"
      "updated ident m st (objSet (js ''query'') v m) st1" using dispatch_query [OF assms(1)] by blast
    have "bootable (objSet (js ''query'') v m)" by (rule bootable_same [OF updated_same [OF 1(2)] assms(2)])
    from progresses_after [OF 1(2) startOptionFromUrl_progresses [OF updated_loads [OF 1(2)] this 2(2)], of le v]
    show ?thesis using system 2 1(1) by (simp add: setValueFromUrl_def andThen_def)
  next
    case 3
    then show ?thesis
      using system startOptionFromUrl_progresses [OF assms, of le v] loads_auto [OF assms(1)]
      by (simp add: setValueFromUrl_def)
  qed
qed

lemma processVariable_progresses:
  assumes "loads ident m st" and "bootable m" and "toKeyedVariableIdentifier m0 = Some ident"
  shows "progresses ident m st (processVariable le m0 st)"
proof -
  have "processVariable le m0 st \<in>
      {setValueFromUrl le ident (ensureStringValues (field (le_params le) (varPrefix @ nameOf m0))) st,
       andThen st (startUpdate le ident st) (\<lambda>st1. (st1, Updating None)),
       endsAt st (completeVariableLoading (le_text le) ident st)}"
    using loads_ongoing [OF assms(1)] by (simp add: processVariable_def assms(3) Let_def)
  then show ?thesis
    using setValueFromUrl_progresses [OF assms(1,2)] progresses_update [OF assms(1)]
      progresses_ends [OF complete_loaded [OF assms(1)]] by fastforce
qed

lemma resumeVariable_ends:
  assumes "loads ident m st" and "toKeyedVariableIdentifier m0 = Some ident"
  shows "\<exists>st' m'. resumeVariable le m0 an u st = (st', Ended) \<and> updated ident m st m' st' \<and> loaded m'"
proof -
  obtain st1 m1 where 1: "finishUpdate le ident an st = Some st1" "updated ident m st m1 st1" "loaded m1"
    using finishUpdate_updated [OF assms(1)] by blast
  show ?thesis
  proof (cases u)
    case None
    then show ?thesis using 1 assms(2) by (intro exI [of _ st1] exI [of _ m1]) (simp add: resumeVariable_def andThen_def)
  next
    case (Some v)
    obtain st2 m2 where 2: "setUrlOption le ident v st1 = Some st2" "updated ident m1 st1 m2 st2" "keptOrDone m1 m2"
      using setUrlOption_kept [OF updated_loads [OF 1(2)]] by blast
    then have "loaded m2" using 1(3) by auto
    then show ?thesis
      using Some 1(1) 2(1) updated_trans [OF 1(2) 2(2)] assms(2)
      by (intro exI [of _ st2] exI [of _ m2]) (simp add: resumeVariable_def andThen_def endsAt_def)
  qed
qed

subsection \<open>All promises at once\<close>

text \<open>The variables of a dashboard that is loaded: what does not change on the way.\<close>

definition bootVariables :: "jsstr \<Rightarrow> jsobj list \<Rightarrow> bool" where
  "bootVariables key vs \<longleftrightarrow>
     key \<noteq> [] \<and> distinct (map idOf vs) \<and>
     (\<forall>m \<in> set vs. bootable m \<and> field m (js ''id'') = JStr (idOf m) \<and> field m (js ''rootStateKey'') = JStr key \<and>
        (\<exists>t. typeOf m = JStr t \<and> variableAdapters t \<noteq> None))"

definition phaseAt :: "loading \<Rightarrow> nat \<Rightarrow> phase" where
  "phaseAt ld j = snd (ld_promises ld ! j)"

definition phaseState :: "phase \<Rightarrow> jsobj \<Rightarrow> bool" where
  "phaseState p m \<longleftrightarrow>
     (case p of
        Ended \<Rightarrow> loaded m
      | Updating _ \<Rightarrow> stateOf m = JStr (js ''Loading'')
      | _ \<Rightarrow> stateOf m = JStr (js ''NotStarted''))"

definition storeOk :: "jsstr \<Rightarrow> jsobj list \<Rightarrow> loading \<Rightarrow> bool" where
  "storeOk key vs ld \<longleftrightarrow>
     tr_status (transactionAt (ld_store ld) key) = TransactionFetching \<and>
     storedUnderId (variablesAt (ld_store ld) key) \<and> map fst (ld_promises ld) = vs \<and>
     (\<forall>j < length vs. \<exists>m. objGet (variablesAt (ld_store ld) key) (idOf (vs ! j)) = Some m \<and> sameVariable (vs ! j) m \<and>
        phaseState (phaseAt ld j) m)"

text \<open>A promise waits for the variables it depends on, or they have all ended.\<close>

definition phaseOk :: "jsstr \<Rightarrow> jsobj list \<Rightarrow> loading \<Rightarrow> nat \<Rightarrow> bool" where
  "phaseOk key vs ld j \<longleftrightarrow>
     (phaseAt ld j = Rejected \<longleftrightarrow> initialPhase vs (vs ! j) = Rejected) \<and>
     (case phaseAt ld j of
        Blocked deps \<Rightarrow>
          deps = getDirectDependencies vs (vs ! j) \<and> isWaitingForDependencies (getVariablesByKey (ld_store ld) key) deps
      | Rejected \<Rightarrow> True
      | _ \<Rightarrow> \<forall>k < length vs. vs ! k \<in> set (getDirectDependencies vs (vs ! j)) \<longrightarrow> phaseAt ld k = Ended)"

definition loadingOk :: "jsstr \<Rightarrow> jsobj list \<Rightarrow> loading \<Rightarrow> bool" where
  "loadingOk key vs ld \<longleftrightarrow> storeOk key vs ld \<and> (\<forall>j < length vs. phaseOk key vs ld j)"

lemma isPending_phase: "phaseState p m \<Longrightarrow> isPending m \<longleftrightarrow> p \<noteq> Ended"
  by (auto simp: phaseState_def isPending_def js_def split: phase.splits)

lemma isWaiting_iff:
  "isWaitingForDependencies variables deps \<longleftrightarrow> (\<exists>d \<in> set deps. \<exists>v \<in> set variables. idOf v = idOf d \<and> isPending v)"
  by (cases deps) (auto simp: isWaitingForDependencies_def filter_empty_conv list_ex_iff)

lemma storeOk_waiting:
  assumes "storeOk key vs ld" and "bootVariables key vs" and "set deps \<subseteq> set vs"
  shows "isWaitingForDependencies (getVariablesByKey (ld_store ld) key) deps \<longleftrightarrow>
    (\<exists>k < length vs. vs ! k \<in> set deps \<and> phaseAt ld k \<noteq> Ended)"
proof -
  let ?V = "variablesAt (ld_store ld) key"
  have s: "storedUnderId ?V" using assms(1) by (simp add: storeOk_def)
  have pending: "(\<exists>v \<in> set (getVariablesByKey (ld_store ld) key). idOf v = idOf (vs ! k) \<and> isPending v) \<longleftrightarrow> phaseAt ld k \<noteq> Ended"
    if k: "k < length vs" for k
  proof -
    obtain m where m: "objGet ?V (idOf (vs ! k)) = Some m" "sameVariable (vs ! k) m" "phaseState (phaseAt ld k) m"
      using assms(1) k by (auto simp: storeOk_def)
    have "bootable m" using m(2) assms(2) k by (auto simp: bootVariables_def intro: bootable_same)
    then have "m \<in> set (getVariablesByKey (ld_store ld) key)"
      using m(1) stored_in_set [OF s] by (auto simp: set_getVariablesByKey bootable_def)
    moreover have "v = m" if v: "v \<in> set (getVariablesByKey (ld_store ld) key)" "idOf v = idOf (vs ! k)" for v
    proof -
      obtain k' where k': "objGet ?V k' = Some v" using v(1) stored_in_set [OF s] unfolding set_getVariablesByKey by blast
      then have "field v (js ''id'') = JStr k'" using s unfolding storedUnderId_def by blast
      then have "k' = idOf (vs ! k)" using v(2) by (simp add: idOf_def)
      then show ?thesis using k' m(1) by simp
    qed
    moreover have "idOf m = idOf (vs ! k)" using m(2) by (simp add: sameVariable_fields)
    ultimately show ?thesis using isPending_phase [OF m(3)] by metis
  qed
  let ?W = "\<lambda>d. \<exists>v \<in> set (getVariablesByKey (ld_store ld) key). idOf v = idOf d \<and> isPending v"
  have "(\<exists>d \<in> set deps. ?W d) \<longleftrightarrow> (\<exists>k < length vs. vs ! k \<in> set deps \<and> ?W (vs ! k))"
  proof
    assume "\<exists>d \<in> set deps. ?W d"
    then obtain d where d: "d \<in> set deps" "?W d" by blast
    then obtain k where "k < length vs" "vs ! k = d" using assms(3) by (metis in_set_conv_nth subsetD)
    then show "\<exists>k < length vs. vs ! k \<in> set deps \<and> ?W (vs ! k)" using d by blast
  qed blast
  then show ?thesis unfolding isWaiting_iff using pending by blast
qed

text \<open>How a dashboard starts to be loaded.\<close>

definition readyToLoad :: "jsstr \<Rightarrow> keyedVariablesState \<Rightarrow> bool" where
  "readyToLoad key st \<longleftrightarrow>
     key \<noteq> [] \<and> tr_status (transactionAt st key) = TransactionFetching \<and> storedUnderId (variablesAt st key) \<and>
     (\<forall>m \<in> set (getVariablesByKey st key). bootable m \<and> field m (js ''rootStateKey'') = JStr key \<and>
        stateOf m = JStr (js ''NotStarted'') \<and> (\<exists>t. typeOf m = JStr t \<and> variableAdapters t \<noteq> None))"

lemma ready_stored:
  assumes "readyToLoad key st" and "m \<in> set (getVariablesByKey st key)"
  shows "objGet (variablesAt st key) (idOf m) = Some m" "field m (js ''id'') = JStr (idOf m)"
proof -
  have s: "storedUnderId (variablesAt st key)" using assms(1) by (simp add: readyToLoad_def)
  then show m: "objGet (variablesAt st key) (idOf m) = Some m"
    using listed_keys(2) [OF s] assms(2) by (simp add: getVariablesByKey_listed)
  then show "field m (js ''id'') = JStr (idOf m)" using s unfolding storedUnderId_def by blast
qed

lemma ready_boot:
  assumes "readyToLoad key st"
  shows "bootVariables key (getVariablesByKey st key)"
proof -
  have "distinct (map idOf (getVariablesByKey st key))"
    using assms listed_keys(1) by (simp add: readyToLoad_def getVariablesByKey_listed)
  then show ?thesis using assms ready_stored(2) [OF assms] by (simp add: bootVariables_def readyToLoad_def)
qed

lemma dependencies_subset: "set (getDirectDependencies vs m) \<subseteq> set vs"
  by (auto simp: getDirectDependencies_def)

lemma processVariables_ok:
  assumes "readyToLoad key st"
  shows "loadingOk key (getVariablesByKey st key) (processVariables key st)"
proof -
  let ?vs = "getVariablesByKey st key" and ?ld = "processVariables key st"
  have phase: "phaseAt ?ld j = initialPhase ?vs (?vs ! j)" if "j < length ?vs" for j
    using that by (simp add: phaseAt_def processVariables_def Let_def)
  have store: "ld_store ?ld = st" by (simp add: processVariables_def Let_def)
  have start: "initialPhase ?vs m \<noteq> Ended" "initialPhase ?vs m \<noteq> Updating u" for m u
    by (simp_all add: initialPhase_def split: dependencyCheck.split)
  have "phaseState (phaseAt ?ld j) (?vs ! j)" if j: "j < length ?vs" for j
  proof -
    have "stateOf (?vs ! j) = JStr (js ''NotStarted'')" using assms j by (simp add: readyToLoad_def)
    then show ?thesis using start by (simp add: phase [OF j] phaseState_def split: phase.split)
  qed
  moreover have "map fst (ld_promises ?ld) = ?vs" by (simp add: processVariables_def Let_def comp_def)
  ultimately have ok: "storeOk key ?vs ?ld"
    using assms ready_stored(1) [OF assms] unfolding storeOk_def store by (auto simp: readyToLoad_def)
  have "phaseOk key ?vs ?ld j" if j: "j < length ?vs" for j
  proof (cases "processVariableDependencies ?vs (?vs ! j)")
    case Ready
    then have "\<not> isWaitingForDependencies ?vs (getDirectDependencies ?vs (?vs ! j))"
      by (auto simp: processVariableDependencies_def split: if_splits)
    then have "\<forall>k < length ?vs. ?vs ! k \<in> set (getDirectDependencies ?vs (?vs ! j)) \<longrightarrow> phaseAt ?ld k = Ended"
      using storeOk_waiting [OF ok ready_boot [OF assms] dependencies_subset, of "?vs ! j"] unfolding store by blast
    then show ?thesis using Ready by (simp add: phaseOk_def phase [OF j] initialPhase_def)
  next
    case Waiting
    then have "isWaitingForDependencies ?vs (getDirectDependencies ?vs (?vs ! j))"
      by (auto simp: processVariableDependencies_def split: if_splits)
    then show ?thesis using Waiting by (simp add: phaseOk_def phase [OF j] initialPhase_def store)
  qed (simp_all add: phaseOk_def phase [OF j] initialPhase_def)
  then show ?thesis using ok by (simp add: loadingOk_def)
qed

text \<open>One step.\<close>

lemma promise_loads:
  assumes "loadingOk key vs ld" and "bootVariables key vs" and "n < length vs"
  obtains ident m where "toKeyedVariableIdentifier (vs ! n) = Some ident" "ki_id ident = idOf (vs ! n)"
    "ki_rootStateKey ident = key" "loads ident m (ld_store ld)" "bootable m" "sameVariable (vs ! n) m"
    "phaseState (phaseAt ld n) m"
proof -
  have v: "vs ! n \<in> set vs" using assms(3) by simp
  obtain t where t: "typeOf (vs ! n) = JStr t" "variableAdapters t \<noteq> None" "bootable (vs ! n)" "key \<noteq> []"
    "field (vs ! n) (js ''id'') = JStr (idOf (vs ! n))" "field (vs ! n) (js ''rootStateKey'') = JStr key"
    using assms(2) v by (auto simp: bootVariables_def)
  then have "intervalOk (vs ! n)" by (simp add: bootable_def)
  let ?ident = "\<lparr>ki_type = t, ki_id = idOf (vs ! n), ki_rootStateKey = key\<rparr>"
  have ident: "toKeyedVariableIdentifier (vs ! n) = Some ?ident"
    using t by (simp add: toKeyedVariableIdentifier_def isTruthy_def)
  obtain m where m: "objGet (variablesAt (ld_store ld) key) (idOf (vs ! n)) = Some m" "sameVariable (vs ! n) m"
    "phaseState (phaseAt ld n) m" using assms(1,3) by (auto simp: loadingOk_def storeOk_def)
  have "loads ?ident m (ld_store ld)"
    using assms(1) m t \<open>intervalOk (vs ! n)\<close> by (simp add: loads_def loadingOk_def storeOk_def storedUnderId_def sameVariable_fields)
  then show thesis using that [OF ident] m(2,3) bootable_same [OF m(2) t(3)] by simp
qed

lemma settle_parts:
  assumes "n < length (ld_promises ld)"
  shows "ld_store (settle key n (st', p) ld) = st'"
    "map fst (ld_promises (settle key n (st', p) ld)) = map fst (ld_promises ld)"
    "j < length (ld_promises ld) \<Longrightarrow>
     phaseAt (settle key n (st', p) ld) j = wake key st' (if j = n then p else phaseAt ld j)"
  using assms
  by (auto simp: settle_def Let_def phaseAt_def case_prod_beta nth_list_update intro!: nth_equalityI)

lemma wake_cases:
  "wake key st p = p \<or> (\<exists>deps. p = Blocked deps \<and> wake key st p = Runnable \<and>
     \<not> isWaitingForDependencies (getVariablesByKey st key) deps)"
  by (simp add: wake_def split: phase.split)

lemma wake_Blocked:
  "wake key st p = Blocked deps \<Longrightarrow> p = Blocked deps \<and> isWaitingForDependencies (getVariablesByKey st key) deps"
  by (auto simp: wake_def split: phase.splits if_splits)

lemma wake_state: "phaseState (wake key st p) m = phaseState p m"
  using wake_cases [of key st p] by (auto simp: phaseState_def)

definition dependenciesEnded :: "jsobj list \<Rightarrow> loading \<Rightarrow> jsobj \<Rightarrow> bool" where
  "dependenciesEnded vs ld m \<longleftrightarrow> (\<forall>k < length vs. vs ! k \<in> set (getDirectDependencies vs m) \<longrightarrow> phaseAt ld k = Ended)"

lemma phaseOk_runs:
  assumes "phaseAt ld j \<noteq> Rejected" and "\<forall>deps. phaseAt ld j \<noteq> Blocked deps"
  shows "phaseOk key vs ld j \<longleftrightarrow> initialPhase vs (vs ! j) \<noteq> Rejected \<and> dependenciesEnded vs ld (vs ! j)"
  using assms by (cases "phaseAt ld j") (simp_all add: phaseOk_def dependenciesEnded_def)

lemma phaseOk_blocked:
  assumes "phaseAt ld j = Blocked deps"
  shows "phaseOk key vs ld j \<longleftrightarrow> initialPhase vs (vs ! j) \<noteq> Rejected \<and> deps = getDirectDependencies vs (vs ! j) \<and>
    isWaitingForDependencies (getVariablesByKey (ld_store ld) key) deps"
  using assms by (simp add: phaseOk_def)

lemma phaseOk_rejected: "phaseAt ld j = Rejected \<Longrightarrow> phaseOk key vs ld j \<longleftrightarrow> initialPhase vs (vs ! j) = Rejected"
  by (simp add: phaseOk_def)

text \<open>A promise that is not the one that took the step goes on waiting, or is woken.\<close>

lemma other_phaseOk:
  assumes "storeOk key vs ld'" and "bootVariables key vs" and old: "phaseOk key vs ld j"
    and new: "phaseAt ld' j = wake key (ld_store ld') (phaseAt ld j)"
    and ended: "dependenciesEnded vs ld (vs ! j) \<Longrightarrow> dependenciesEnded vs ld' (vs ! j)"
  shows "phaseOk key vs ld' j"
proof (cases "phaseAt ld j = Rejected \<or> (\<exists>deps. phaseAt ld j = Blocked deps)")
  case False
  then have "phaseAt ld' j = phaseAt ld j" unfolding new using wake_cases [of key "ld_store ld'"] by blast
  then show ?thesis using False old ended by (simp add: phaseOk_runs)
next
  case True
  then show ?thesis
  proof (elim disjE exE)
    assume "phaseAt ld j = Rejected"
    then show ?thesis using old new by (simp add: phaseOk_rejected wake_def)
  next
    fix deps assume deps: "phaseAt ld j = Blocked deps"
    then have d: "initialPhase vs (vs ! j) \<noteq> Rejected" "deps = getDirectDependencies vs (vs ! j)"
      using old by (simp_all add: phaseOk_blocked)
    show ?thesis
    proof (cases "isWaitingForDependencies (getVariablesByKey (ld_store ld') key) deps")
      case True
      then have "phaseAt ld' j = Blocked deps" unfolding new deps by (simp add: wake_def)
      then show ?thesis using d True by (simp add: phaseOk_blocked)
    next
      case False
      then have "phaseAt ld' j = Runnable" unfolding new deps by (simp add: wake_def)
      moreover have "dependenciesEnded vs ld' (vs ! j)"
        using storeOk_waiting [OF assms(1,2) dependencies_subset, of "vs ! j"] False
        unfolding dependenciesEnded_def d(2) by blast
      ultimately show ?thesis using d(1) by (simp add: phaseOk_runs)
    qed
  qed
qed

lemma settle_phase:
  assumes "n < length (ld_promises ld)" and "outcome p m" and "j < length (ld_promises ld)"
  shows "phaseAt (settle key n (st', p) ld) j = (if j = n then p else wake key st' (phaseAt ld j))"
  using settle_parts(3) [OF assms(1,3)] assms(2) by (auto simp: outcome_def wake_def)

lemma settle_storeOk:
  assumes ok: "storeOk key vs ld" and boot: "bootVariables key vs" and n: "n < length vs"
    and ident: "ki_id ident = idOf (vs ! n)" "ki_rootStateKey ident = key" "sameVariable (vs ! n) m"
    and upd: "updated ident m (ld_store ld) m' st'" and out: "outcome p m'"
  shows "storeOk key vs (settle key n (st', p) ld)"
proof -
  let ?ld = "settle key n (st', p) ld"
  have fsts: "map fst (ld_promises ld) = vs" using ok by (simp add: storeOk_def)
  then have len: "length (ld_promises ld) = length vs" by (metis length_map)
  have ids: "distinct (map idOf vs)" using boot by (simp add: bootVariables_def)
  have other: "objGet (variablesAt st' key) k = objGet (variablesAt (ld_store ld) key) k" if "k \<noteq> idOf (vs ! n)" for k
    using upd that unfolding updated_def ident by blast
  have own: "objGet (variablesAt st' key) (idOf (vs ! n)) = Some m'" "field m' (js ''id'') = JStr (idOf (vs ! n))"
    "objKeysOk (variablesAt st' key)" using updated_loads [OF upd] by (simp_all add: loads_def ident)
  have stored: "storedUnderId (variablesAt st' key)"
    using ok own other unfolding storedUnderId_def storeOk_def by (metis option.inject)
  have fetching: "tr_status (transactionAt st' key) = TransactionFetching"
    using updated_loads [OF upd] by (simp add: loads_def ident)
  have "\<exists>v. objGet (variablesAt st' key) (idOf (vs ! j)) = Some v \<and> sameVariable (vs ! j) v \<and> phaseState (phaseAt ?ld j) v"
    if j: "j < length vs" for j
  proof (cases "j = n")
    case True
    have "phaseState p m'" using out by (auto simp: outcome_def phaseState_def)
    then show ?thesis
      using True own(1) sameVariable_trans [OF ident(3) updated_same [OF upd]] settle_phase [OF _ out] j len by simp
  next
    case False
    then have "idOf (vs ! j) \<noteq> idOf (vs ! n)" using ids j n by (simp add: distinct_conv_nth)
    then show ?thesis
      using ok j n False settle_phase [OF _ out, of n ld j] len by (simp add: other wake_state storeOk_def)
  qed
  then show ?thesis
    using stored fetching fsts settle_parts(1,2) [of n ld] len n by (simp add: storeOk_def)
qed

lemma settle_ok:
  assumes ok: "loadingOk key vs ld" and boot: "bootVariables key vs" and n: "n < length vs"
    and running: "phaseAt ld n = Runnable \<or> (\<exists>u. phaseAt ld n = Updating u)"
    and ident: "ki_id ident = idOf (vs ! n)" "ki_rootStateKey ident = key" "sameVariable (vs ! n) m"
    and upd: "updated ident m (ld_store ld) m' st'" and out: "outcome p m'"
  shows "loadingOk key vs (settle key n (st', p) ld)"
proof -
  let ?ld = "settle key n (st', p) ld"
  have storeok: "storeOk key vs ?ld"
    using settle_storeOk [OF _ boot n ident upd out] ok by (simp add: loadingOk_def)
  have len: "length (ld_promises ld) = length vs"
    using ok by (auto simp: loadingOk_def storeOk_def dest: arg_cong [of _ _ length])
  have phase: "phaseAt ?ld j = (if j = n then p else wake key st' (phaseAt ld j))" if "j < length vs" for j
    using settle_phase [OF _ out] that n by (simp add: len)
  have "phaseAt ?ld k = Ended" if "k < length vs" "phaseAt ld k = Ended" for k
    using that running by (auto simp: phase wake_def)
  then have ended: "dependenciesEnded vs ld v \<Longrightarrow> dependenciesEnded vs ?ld v" for v by (simp add: dependenciesEnded_def)
  have "phaseOk key vs ?ld j" if j: "j < length vs" for j
  proof (cases "j = n")
    case True
    have "phaseAt ?ld n = p" using phase [OF n] by simp
    then have "phaseAt ?ld n \<noteq> Rejected" "\<forall>deps. phaseAt ?ld n \<noteq> Blocked deps" using out by (auto simp: outcome_def)
    moreover have "phaseAt ld n \<noteq> Rejected" "\<forall>deps. phaseAt ld n \<noteq> Blocked deps" using running by auto
    moreover have "phaseOk key vs ld n" using ok n by (simp add: loadingOk_def)
    ultimately show ?thesis using ended by (simp add: True phaseOk_runs)
  next
    case False
    have "phaseAt ?ld j = wake key (ld_store ?ld) (phaseAt ld j)"
      using False phase [OF j] settle_parts(1) [of n ld key st' p] n by (simp add: len)
    moreover have "phaseOk key vs ld j" using ok j by (simp add: loadingOk_def)
    ultimately show ?thesis using other_phaseOk [OF storeok boot] ended by blast
  qed
  then show ?thesis using storeok by (simp add: loadingOk_def)
qed

subsection \<open>Runs\<close>

text \<open>The steps a promise can still take.\<close>

definition rank :: "phase \<Rightarrow> nat" where
  "rank p = (case p of Blocked _ \<Rightarrow> 2 | Runnable \<Rightarrow> 2 | Updating _ \<Rightarrow> 1 | _ \<Rightarrow> 0)"

definition effort :: "loading \<Rightarrow> nat" where
  "effort ld = sum_list (map (\<lambda>promise. rank (snd promise)) (ld_promises ld))"

lemma rank_wake: "rank (wake key st p) = rank p"
  using wake_cases [of key st p] by (auto simp: rank_def)

lemma settle_effort:
  assumes "n < length (ld_promises ld)" and "rank p < rank (phaseAt ld n)"
  shows "effort (settle key n (st', p) ld) < effort ld"
proof -
  let ?r = "map (\<lambda>promise. rank (snd promise)) (ld_promises ld)"
  have "effort (settle key n (st', p) ld) = sum_list (?r [n := rank p])"
    by (simp add: effort_def settle_def Let_def comp_def case_prod_beta rank_wake map_update)
  also have "\<dots> = sum_list ?r + rank p - rank (phaseAt ld n)"
    using assms(1) sum_list_update [of n ?r "rank p"] by (simp add: phaseAt_def case_prod_beta)
  also have "\<dots> < sum_list ?r"
    using assms elem_le_sum_list [of n ?r] by (simp add: phaseAt_def case_prod_beta)
  finally show ?thesis by (simp add: effort_def)
qed

lemma loadingStep_ok:
  assumes "loadingStep le key ld ld'" and "loadingOk key vs ld" and "bootVariables key vs"
  shows "loadingOk key vs ld'" "effort ld' < effort ld"
    "transactionAt (ld_store ld') key = transactionAt (ld_store ld) key"
proof -
  have fsts: "map fst (ld_promises ld) = vs" using assms(2) by (simp add: loadingOk_def storeOk_def)
  have "\<exists>n ident m st' p m'. n < length vs \<and> ld' = settle key n (st', p) ld \<and>
      (phaseAt ld n = Runnable \<or> (\<exists>u. phaseAt ld n = Updating u)) \<and> rank p < rank (phaseAt ld n) \<and>
      ki_id ident = idOf (vs ! n) \<and> ki_rootStateKey ident = key \<and> sameVariable (vs ! n) m \<and>
      updated ident m (ld_store ld) m' st' \<and> outcome p m'"
    using assms(1)
  proof cases
    case (run n m0)
    then have n: "n < length vs" "vs ! n = m0" "phaseAt ld n = Runnable" using fsts by (auto simp: phaseAt_def)
    obtain ident m where i: "toKeyedVariableIdentifier m0 = Some ident" "ki_id ident = idOf (vs ! n)"
      "ki_rootStateKey ident = key" "loads ident m (ld_store ld)" "bootable m" "sameVariable (vs ! n) m"
      using promise_loads [OF assms(2,3) n(1)] n(2) by metis
    obtain st' p m' where r: "processVariable le m0 (ld_store ld) = (st', p)" "updated ident m (ld_store ld) m' st'"
      "outcome p m'" using processVariable_progresses [OF i(4,5,1), of le] by (auto simp: progresses_def)
    then have "rank p < rank (phaseAt ld n)" using n(3) by (auto simp: outcome_def rank_def)
    then show ?thesis using n i(2,3,6) r(2,3) run(1) [unfolded r(1)] by blast
  next
    case (answer n m0 u an)
    then have n: "n < length vs" "vs ! n = m0" "phaseAt ld n = Updating u" using fsts by (auto simp: phaseAt_def)
    obtain ident m where i: "toKeyedVariableIdentifier m0 = Some ident" "ki_id ident = idOf (vs ! n)"
      "ki_rootStateKey ident = key" "loads ident m (ld_store ld)" "sameVariable (vs ! n) m"
      using promise_loads [OF assms(2,3) n(1)] n(2) by metis
    obtain st' m' where r: "resumeVariable le m0 an u (ld_store ld) = (st', Ended)"
      "updated ident m (ld_store ld) m' st'" "loaded m'" using resumeVariable_ends [OF i(4,1)] by blast
    moreover have "rank Ended < rank (phaseAt ld n)" using n(3) by (simp add: rank_def)
    moreover have "outcome Ended m'" using r(3) by (simp add: outcome_def)
    ultimately show ?thesis using n i(2,3,5) r(2) answer(1) [unfolded r(1)] by blast
  qed
  then obtain n ident m st' p m' where s: "n < length vs" "ld' = settle key n (st', p) ld"
    "phaseAt ld n = Runnable \<or> (\<exists>u. phaseAt ld n = Updating u)" "rank p < rank (phaseAt ld n)"
    "ki_id ident = idOf (vs ! n)" "ki_rootStateKey ident = key" "sameVariable (vs ! n) m"
    "updated ident m (ld_store ld) m' st'" "outcome p m'" by blast
  have n: "n < length (ld_promises ld)" using fsts s(1) by auto
  show "loadingOk key vs ld'" unfolding s(2) by (rule settle_ok [OF assms(2,3) s(1,3,5,6,7,8,9)])
  show "effort ld' < effort ld" unfolding s(2) by (rule settle_effort [OF n s(4)])
  show "transactionAt (ld_store ld') key = transactionAt (ld_store ld) key"
    using s(8) settle_parts(1) [OF n] unfolding s(2) updated_def s(6) by simp
qed

lemma reachable_ok:
  assumes "(loadingStep le key ^^ k) (processVariables key st) ld" and "readyToLoad key st"
  shows "loadingOk key (getVariablesByKey st key) ld" "k + effort ld \<le> effort (processVariables key st)"
    "transactionAt (ld_store ld) key = transactionAt st key"
proof -
  let ?vs = "getVariablesByKey st key"
  have "loadingOk key ?vs ld \<and> k + effort ld \<le> effort (processVariables key st) \<and>
      transactionAt (ld_store ld) key = transactionAt st key"
    using assms(1)
  proof (induction k arbitrary: ld)
    case 0
    then show ?case using processVariables_ok [OF assms(2)] by (auto simp: processVariables_def Let_def)
  next
    case (Suc k)
    then obtain ld1 where ld1: "(loadingStep le key ^^ k) (processVariables key st) ld1" "loadingStep le key ld1 ld" by auto
    from Suc.IH [OF ld1(1)] loadingStep_ok [OF ld1(2) _ ready_boot [OF assms(2)]] show ?case by auto
  qed
  then show "loadingOk key ?vs ld" "k + effort ld \<le> effort (processVariables key st)"
    "transactionAt (ld_store ld) key = transactionAt st key" by simp_all
qed

lemma effort_start: "effort (processVariables key st) \<le> 2 * length (getVariablesByKey st key)"
proof -
  have "rank p \<le> 2" for p by (simp add: rank_def split: phase.split)
  then show ?thesis
    using sum_list_mono [of "getVariablesByKey st key" "\<lambda>m. rank (initialPhase (getVariablesByKey st key) m)" "\<lambda>_. 2"]
    by (simp add: effort_def processVariables_def Let_def comp_def sum_list_triv mult.commute)
qed

subsection \<open>The end\<close>

text \<open>A variable that depends on itself through others, or on one that does.\<close>

definition onCircle :: "jsobj list \<Rightarrow> jsobj \<Rightarrow> bool" where
  "onCircle vs m \<longleftrightarrow> (\<exists>d. (m, d) \<in> (direct vs)\<^sup>* \<and> (d, d) \<in> (direct vs)\<^sup>+)"

lemma rejected_onCircle:
  assumes "bootVariables key vs" and "m \<in> set vs"
  shows "initialPhase vs m = Rejected \<longleftrightarrow> onCircle vs m"
proof -
  have "isTruthy (field m (js ''rootStateKey''))" using assms by (auto simp: bootVariables_def isTruthy_def)
  moreover have "isDependencyGraphCircular vs m [] \<longleftrightarrow> onCircle vs m"
    using circular_encountered [of vs m "[]"] assms by (simp add: bootVariables_def onCircle_def)
  ultimately show ?thesis by (simp add: initialPhase_def processVariableDependencies_def)
qed

lemma onCircle_step: "(m, d) \<in> direct vs \<Longrightarrow> onCircle vs d \<Longrightarrow> onCircle vs m"
  unfolding onCircle_def by (meson converse_rtrancl_into_rtrancl)

lemma wf_not_onCircle: "wf {(d, m). m \<in> set vs \<and> (m, d) \<in> direct vs \<and> \<not> onCircle vs m}" (is "wf ?R")
proof (rule finite_acyclic_wf)
  have "?R \<subseteq> set vs \<times> set vs" using direct_variables by auto
  then show "finite ?R" by (rule finite_subset) simp
  show "acyclic ?R"
  proof (rule acyclicI, rule allI, rule notI)
    fix x assume x: "(x, x) \<in> ?R\<^sup>+"
    then have "(x, x) \<in> ((direct vs)\<inverse>)\<^sup>+" by (rule trancl_mono) auto
    then have "onCircle vs x" by (auto simp: onCircle_def trancl_converse)
    moreover from x have "\<not> onCircle vs x" by (rule tranclE) auto
    ultimately show False by simp
  qed
qed

lemma stuck_phases:
  assumes "\<forall>ld'. \<not> loadingStep le key ld ld'" and "n < length (ld_promises ld)"
  shows "phaseAt ld n \<in> {Ended, Rejected} \<or> (\<exists>deps. phaseAt ld n = Blocked deps)"
proof -
  obtain m p where p: "ld_promises ld ! n = (m, p)" by fastforce
  then have "p \<noteq> Runnable" "p \<noteq> Updating u" for u
    using assms loadingStep.run loadingStep.answer by blast+
  then show ?thesis using p by (cases p) (auto simp: phaseAt_def)
qed

text \<open>Where no step is left, every variable that is not circular has ended.\<close>

lemma stuck_ended:
  assumes ok: "loadingOk key vs ld" and boot: "bootVariables key vs" and stuck: "\<forall>ld'. \<not> loadingStep le key ld ld'"
    and "n < length vs" and "\<not> onCircle vs (vs ! n)"
  shows "phaseAt ld n = Ended"
proof -
  have len: "length (ld_promises ld) = length vs"
    using ok by (auto simp: loadingOk_def storeOk_def dest: arg_cong [of _ _ length])
  have "\<not> onCircle vs m \<Longrightarrow> \<forall>n < length vs. vs ! n = m \<longrightarrow> phaseAt ld n = Ended" for m
  proof (induction m rule: wf_induct_rule [OF wf_not_onCircle [of vs]])
    case (1 m)
    show ?case
    proof (intro allI impI)
      fix n assume n: "n < length vs" "vs ! n = m"
      have old: "phaseOk key vs ld n" using ok n(1) by (simp add: loadingOk_def)
      have not_rejected: "initialPhase vs m \<noteq> Rejected" using rejected_onCircle [OF boot, of m] 1(2) n by auto
      show "phaseAt ld n = Ended"
      proof (rule ccontr)
        assume no: "phaseAt ld n \<noteq> Ended"
        have "phaseAt ld n \<noteq> Rejected" using old not_rejected n(2) phaseOk_rejected by blast
        then obtain deps where deps: "phaseAt ld n = Blocked deps"
          using stuck_phases [OF stuck, of n] n(1) no len by auto
        then have d: "deps = getDirectDependencies vs m"
          "isWaitingForDependencies (getVariablesByKey (ld_store ld) key) deps"
          using old [unfolded phaseOk_blocked [OF deps]] n(2) by blast+
        then obtain k where k: "k < length vs" "vs ! k \<in> set deps" "phaseAt ld k \<noteq> Ended"
          using storeOk_waiting [of key vs ld deps] ok boot dependencies_subset [of vs m] by (auto simp: loadingOk_def)
        then have e: "(m, vs ! k) \<in> direct vs" using d(1) by (simp add: direct_def)
        then have "\<not> onCircle vs (vs ! k)" using onCircle_step 1(2) by blast
        moreover have "m \<in> set vs" using n by auto
        ultimately show False using 1 e k(1,3) by blast
      qed
    qed
  qed
  then show ?thesis using assms(4,5) by blast
qed

text \<open>
  Claim C8. No variable is updated too early: as soon as a variable is no longer waiting, all the
  variables it depends on have been loaded or have failed, in whatever order the data sources answer.
\<close>

theorem dependencies_loaded_first:
  assumes "readyToLoad key st" and "(loadingStep le key ^^ k) (processVariables key st) ld"
    and "(m, p) \<in> set (ld_promises ld)" and "p = Runnable \<or> p = Updating u \<or> p = Ended"
    and "d \<in> set (getDirectDependencies (getVariablesByKey st key) m)"
  shows "\<exists>v. objGet (variablesAt (ld_store ld) key) (idOf d) = Some v \<and> loaded v"
proof -
  let ?vs = "getVariablesByKey st key"
  have ok: "storeOk key ?vs ld" "\<And>j. j < length ?vs \<Longrightarrow> phaseOk key ?vs ld j"
    using reachable_ok(1) [OF assms(2,1)] by (simp_all add: loadingOk_def)
  have fsts: "map fst (ld_promises ld) = ?vs" using ok(1) by (simp add: storeOk_def)
  obtain n where n: "n < length (ld_promises ld)" "ld_promises ld ! n = (m, p)" using assms(3) by (metis in_set_conv_nth)
  then have n': "n < length ?vs" "?vs ! n = m" "phaseAt ld n = p" unfolding fsts [symmetric] by (simp_all add: phaseAt_def)
  then have "dependenciesEnded ?vs ld m" using ok(2) [OF n'(1)] assms(4) phaseOk_runs [of ld n] by auto
  moreover obtain k where k: "k < length ?vs" "?vs ! k = d"
    using assms(5) dependencies_subset by (metis in_set_conv_nth subsetD)
  ultimately have "phaseAt ld k = Ended" using assms(5) by (simp add: dependenciesEnded_def)
  then show ?thesis using ok(1) k by (auto simp: storeOk_def phaseState_def)
qed


subsection \<open>Opening a dashboard\<close>

text \<open>Some run ends.\<close>

lemma run_ends_from:
  assumes "readyToLoad key st" and "(loadingStep le key ^^ k) (processVariables key st) ld"
  shows "\<exists>k' ld'. (loadingStep le key ^^ k') (processVariables key st) ld' \<and> (\<forall>ld''. \<not> loadingStep le key ld' ld'')"
  using assms(2)
proof (induction "effort (processVariables key st) - k" arbitrary: k ld rule: less_induct)
  case less
  show ?case
  proof (cases "\<exists>ld'. loadingStep le key ld ld'")
    case False
    then show ?thesis using less.prems by (intro exI [of _ k] exI [of _ ld]) simp
  next
    case True
    then obtain ld' where "loadingStep le key ld ld'" by (rule exE)
    then have run: "(loadingStep le key ^^ Suc k) (processVariables key st) ld'" by (rule relpowp_Suc_I [OF less.prems])
    then have "effort (processVariables key st) - Suc k < effort (processVariables key st) - k"
      using reachable_ok(2) [OF run assms(1)] by linarith
    then show ?thesis using run by (rule less.hyps)
  qed
qed

lemma run_ends:
  assumes "readyToLoad key st"
  shows "\<exists>k ld. (loadingStep le key ^^ k) (processVariables key st) ld \<and> (\<forall>ld'. \<not> loadingStep le key ld ld')"
  by (rule run_ends_from [OF assms, where k = 0 and ld = "processVariables key st"]) simp

lemma transaction_completes:
  assumes ready: "readyToLoad key st" and run: "(loadingStep le key ^^ k) (processVariables key st) ld"
    and stuck: "\<forall>ld'. \<not> loadingStep le key ld ld'" and none: "\<forall>m \<in> set (getVariablesByKey st key). \<not> onCircle (getVariablesByKey st key) m"
    and uid: "tr_uid (transactionAt st key) = JStr key"
  shows "\<exists>st'. completeTransaction le key ld = Some st' \<and>
    transactionAt st' key = (transactionAt st key)\<lparr>tr_status := TransactionCompleted\<rparr> \<and>
    (\<forall>m \<in> set (getVariablesByKey st key). \<exists>v. objGet (variablesAt st' key) (idOf m) = Some v \<and> loaded v)"
proof -
  let ?vs = "getVariablesByKey st key"
  have ok: "loadingOk key ?vs ld" by (rule reachable_ok(1) [OF run ready])
  have fsts: "map fst (ld_promises ld) = ?vs" using ok by (simp add: loadingOk_def storeOk_def)
  then have len: "length (ld_promises ld) = length ?vs" by (metis length_map)
  have ended: "phaseAt ld n = Ended" if "n < length ?vs" for n
    using stuck_ended [OF ok ready_boot [OF ready] stuck that] none that by simp
  have "allEnded ld"
    unfolding allEnded_def list_all_length using ended len by (auto simp: phaseAt_def case_prod_beta)
  have "runVariables (le_text le) [CompleteTransaction (JStr key)] (variablesAt (ld_store ld) key) =
      Some (variablesAt (ld_store ld) key)" by (simp add: variablesReducer_def)
  then obtain st' where st': "dispatchTo (le_text le) key [CompleteTransaction (JStr key)] (ld_store ld) = Some st'"
    "variablesAt st' key = variablesAt (ld_store ld) key" by (rule dispatchTo_Some)
  have "transactionAt st' key = (transactionAt st key)\<lparr>tr_status := TransactionCompleted\<rparr>"
    using dispatchTo_parts(3) [OF st'(1)] reachable_ok(3) [OF run ready] uid
    by (simp add: transactionReducer_def actionAffectsDirtyState_def Let_def)
  moreover have "\<exists>v. objGet (variablesAt (ld_store ld) key) (idOf m) = Some v \<and> loaded v" if m: "m \<in> set ?vs" for m
  proof -
    obtain n where n: "n < length ?vs" "?vs ! n = m" using m by (metis in_set_conv_nth)
    then obtain v where v: "objGet (variablesAt (ld_store ld) key) (idOf m) = Some v" "phaseState (phaseAt ld n) v"
      using ok by (auto simp: loadingOk_def storeOk_def)
    then show ?thesis using ended [OF n(1)] by (intro exI [of _ v]) (simp add: phaseState_def)
  qed
  moreover have "completeTransaction le key ld = Some st'" using \<open>allEnded ld\<close> st'(1) by (simp add: completeTransaction_def)
  ultimately show ?thesis unfolding st'(2) [symmetric] by (intro exI [of _ st'] conjI ballI)
qed

lemma started_ready:
  assumes "map (\<lambda>m. (entryOf m, field m (js ''state''))) (getVariablesByKey st uid) =
      map (\<lambda>(i, m). (((field m (js ''name''), int i, JStr uid, typeOf m), intervalOk m), JStr (js ''NotStarted''))) (enumerate 0 kept)"
    and "namesAreIds (variablesAt st uid)" and "tr_status (transactionAt st uid) = TransactionFetching"
    and "\<forall>m \<in> set kept. loadable m \<and> intervalOk m" and "uid \<noteq> []"
  shows "readyToLoad uid st"
proof -
  have "bootable m \<and> field m (js ''rootStateKey'') = JStr uid \<and> stateOf m = JStr (js ''NotStarted'') \<and>
      (\<exists>t. typeOf m = JStr t \<and> variableAdapters t \<noteq> None)" if "m \<in> set (getVariablesByKey st uid)" for m
  proof -
    have "(entryOf m, stateOf m) \<in> set (map (\<lambda>m. (entryOf m, field m (js ''state''))) (getVariablesByKey st uid))"
      using that by simp
    then obtain i where "i < length kept" "bootable m = intervalOk (kept ! i)" "field m (js ''rootStateKey'') = JStr uid"
      "stateOf m = JStr (js ''NotStarted'')" "typeOf m = typeOf (kept ! i)"
      unfolding assms(1) by (auto simp: in_set_enumerate_eq entryOf_def)
    moreover from this(1) have k: "loadable (kept ! i)" "intervalOk (kept ! i)" using assms(4) by simp_all
    ultimately have i: "bootable m" "field m (js ''rootStateKey'') = JStr uid"
      "stateOf m = JStr (js ''NotStarted'')" "typeOf m = typeOf (kept ! i)" by simp_all
    then have "\<exists>t. typeOf m = JStr t \<and> variableAdapters t \<noteq> None" using k(1) unfolding i(4) by (auto simp: loadable_def creatable_def)
    then show ?thesis using i by blast
  qed
  then show ?thesis using assms(2,3,5) by (simp add: readyToLoad_def namesAreIds_def)
qed


subsection \<open>A dashboard with two variables\<close>

definition startedVariable :: "string \<Rightarrow> string \<Rightarrow> int \<Rightarrow> jsobj" where
  "startedVariable name query i =
     queryVariable name query @
       [(js ''options'', JArr []), (js ''index'', JInt i), (js ''state'', JStr (js ''NotStarted''))]"

definition startedPair :: "jsobj list" where
  "startedPair = [startedVariable ''a'' ''x'' 0, startedVariable ''b'' ''f($a)'' 1]"

definition startedWith :: "jsobj list \<Rightarrow> keyedVariablesState" where
  "startedWith vs =
     \<lparr>ks_lastKey = Some (js ''key''),
      ks_keys = [(js ''key'', initialTemplatingState\<lparr>
        tp_variables := map (\<lambda>m. (idOf m, m)) vs,
        tp_transaction := \<lparr>tr_uid = JStr (js ''key''), tr_status = TransactionFetching, tr_isDirty = False\<rparr>\<rparr>)]\<rparr>"

abbreviation startedDashboard :: keyedVariablesState where
  "startedDashboard \<equiv> startedWith startedPair"

lemma startedVariable_fields:
  "idOf (startedVariable name query i) = js name" "field (startedVariable name query i) (js ''id'') = JStr (js name)"
  "typeOf (startedVariable name query i) = JStr (js ''query'')"
  "field (startedVariable name query i) (js ''rootStateKey'') = JStr (js ''key'')"
  "stateOf (startedVariable name query i) = JStr (js ''NotStarted'')" "bootable (startedVariable name query i)"
  by (simp_all add: intervalOk_def startedVariable_def queryVariable_def idOf_def typeOf_def field_def objGet_def bootable_def
      hasOptions_def js_def)

lemma started_variables: "getVariablesByKey startedDashboard (js ''key'') = startedPair"
  by code_simp

lemma startedWith_ready:
  assumes "getVariablesByKey (startedWith vs) (js ''key'') = vs" and "objKeysOk (map (\<lambda>m. (idOf m, m)) vs)"
    and "\<forall>m \<in> set vs. \<exists>name query i. m = startedVariable name query i"
  shows "readyToLoad (js ''key'') (startedWith vs)"
proof -
  have vs: "variablesAt (startedWith vs) (js ''key'') = map (\<lambda>m. (idOf m, m)) vs"
    by (simp add: startedWith_def getVariablesState_def objGet_def)
  have "field m (js ''id'') = JStr k" if "objGet (map (\<lambda>m. (idOf m, m)) vs) k = Some m" for k m
    using that assms(3) objGet_in_set [OF assms(2)] startedVariable_fields by fastforce
  then have "storedUnderId (variablesAt (startedWith vs) (js ''key''))" using assms(2) by (simp add: storedUnderId_def vs)
  moreover have "tr_status (transactionAt (startedWith vs) (js ''key'')) = TransactionFetching"
    by (simp add: startedWith_def getVariablesState_def objGet_def)
  moreover have "variableAdapters (js ''query'') \<noteq> None" by (simp add: variableAdapters_def js_def)
  moreover have "js ''key'' \<noteq> []" by (simp add: js_def)
  ultimately show ?thesis
    using assms(3) startedVariable_fields unfolding readyToLoad_def assms(1) by fastforce
qed

lemma startedDashboard_ready: "readyToLoad (js ''key'') startedDashboard"
proof (rule startedWith_ready)
  show "objKeysOk (map (\<lambda>m. (idOf m, m)) startedPair)" by code_simp
qed (simp add: started_variables, auto simp: startedPair_def)

lemma startedPair_free: "\<forall>m \<in> set startedPair. \<not> onCircle startedPair m"
proof -
  have boot: "bootVariables (js ''key'') startedPair"
    using ready_boot [OF startedDashboard_ready] unfolding started_variables .
  have "map (initialPhase startedPair) startedPair = [Runnable, Blocked [hd startedPair]]" by code_simp
  then have "initialPhase startedPair m \<noteq> Rejected" if "m \<in> set startedPair" for m
    using that by (auto simp: startedPair_def)
  then show ?thesis using rejected_onCircle [OF boot] by blast
qed

definition quietEnv :: loadEnv where
  "quietEnv = \<lparr>le_text = plainEnv, le_params = [], le_standardSupport = (\<lambda>_. None), le_rangeFrom = 0,
     le_rangeTo = 3600000, le_templateSrv = newTemplateSrv, le_thrown = JNull\<rparr>"

lemma started_run:
  obtains k ld where "(loadingStep quietEnv (js ''key'') ^^ k) (processVariables (js ''key'') startedDashboard) ld"
    "\<forall>ld'. \<not> loadingStep quietEnv (js ''key'') ld ld'"
  using run_ends [OF startedDashboard_ready] by blast

lemma startedPair_depends: "getDirectDependencies startedPair (last startedPair) = [hd startedPair]"
  by code_simp

lemma started_run_ended:
  assumes "(loadingStep quietEnv (js ''key'') ^^ k) (processVariables (js ''key'') startedDashboard) ld"
    and "\<forall>ld'. \<not> loadingStep quietEnv (js ''key'') ld ld'"
  shows "(last startedPair, Ended) \<in> set (ld_promises ld)"
proof -
  have ok: "loadingOk (js ''key'') startedPair ld"
    using reachable_ok(1) [OF assms(1) startedDashboard_ready] unfolding started_variables .
  have boot: "bootVariables (js ''key'') startedPair"
    using ready_boot [OF startedDashboard_ready] unfolding started_variables .
  have last: "startedPair ! 1 = last startedPair" "1 < length startedPair" by (simp_all add: startedPair_def)
  then have "phaseAt ld 1 = Ended" using stuck_ended [OF ok boot assms(2)] startedPair_free by simp
  moreover have "map fst (ld_promises ld) = startedPair" using ok by (simp add: loadingOk_def storeOk_def)
  then have "1 < length (ld_promises ld)" "fst (ld_promises ld ! 1) = last startedPair"
    using last by (metis length_map, metis length_map last nth_map)
  ultimately show ?thesis by (metis nth_mem phaseAt_def prod.collapse)
qed

lemma dependencies_loaded_first_witness:
  "\<exists>k ld v. (loadingStep quietEnv (js ''key'') ^^ k) (processVariables (js ''key'') startedDashboard) ld \<and>
     (last startedPair, Ended) \<in> set (ld_promises ld) \<and>
     objGet (variablesAt (ld_store ld) (js ''key'')) (js ''a'') = Some v \<and> loaded v"
proof -
  obtain k ld where run: "(loadingStep quietEnv (js ''key'') ^^ k) (processVariables (js ''key'') startedDashboard) ld"
    "\<forall>ld'. \<not> loadingStep quietEnv (js ''key'') ld ld'" by (rule started_run)
  note ended = started_run_ended [OF run]
  have "hd startedPair \<in> set (getDirectDependencies (getVariablesByKey startedDashboard (js ''key'')) (last startedPair))"
    by (simp add: started_variables startedPair_depends)
  from dependencies_loaded_first [OF startedDashboard_ready run(1) ended _ this]
  obtain v where "objGet (variablesAt (ld_store ld) (js ''key'')) (idOf (hd startedPair)) = Some v" "loaded v" by blast
  moreover have "idOf (hd startedPair) = js ''a''" by (simp add: startedPair_def startedVariable_fields)
  ultimately show ?thesis using run(1) ended by (intro exI [of _ k] exI [of _ ld] exI [of _ v]) simp
qed


lemma single_not_onCircle:
  assumes "length vs = 1" and "m \<in> set vs"
  shows "\<not> onCircle vs m"
proof -
  obtain x where vs: "vs = [x]" using assms(1) by (metis One_nat_def length_0_conv length_Suc_conv)
  have "(d, e) \<notin> direct vs" if "d \<in> set vs" for d e using that by (auto simp: vs direct_def getDirectDependencies_def)
  then have "(d, d) \<notin> (direct vs)\<^sup>+" if "(m, d) \<in> (direct vs)\<^sup>*" for d
    using direct_rtrancl_variables [OF that assms(2)] by (meson tranclD)
  then show ?thesis by (auto simp: onCircle_def)
qed


subsection \<open>Promises that are rejected\<close>

text \<open>
  A minimum that is no interval rejects the promise of a variable with a value in the URL, where the error
  is not caught as it is in an update.
\<close>

lemma interval_without_minimum:
  assumes "getVariable st ident = Some m" and "ki_type ident = js ''interval''" and "typeOf m = JStr (js ''interval'')"
    and "\<not> hasMinimum m"
  shows "setValueFromUrl le ident v st = (st, Rejected)"
proof -
  have "js ''interval'' \<notin> {js ''system'', js ''adhoc'', js ''textbox''}" by (simp add: js_def)
  then show ?thesis using assms by (simp add: setValueFromUrl_def autoThrows_def updateAutoValue_None)
qed

lemma rejected_stays:
  assumes "loadingStep le key ld ld'" and "(m, Rejected) \<in> set (ld_promises ld)"
  shows "(m, Rejected) \<in> set (ld_promises ld')"
proof -
  obtain j where j: "j < length (ld_promises ld)" "ld_promises ld ! j = (m, Rejected)"
    using assms(2) by (metis in_set_conv_nth)
  have "\<exists>n r. ld' = settle key n r ld \<and> n \<noteq> j" using assms(1) j(2) by cases (metis phase.distinct prod.inject)+
  then obtain n r where n: "ld' = settle key n r ld" "n \<noteq> j" by blast
  then have "ld_promises ld' ! j = (m, Rejected)" "j < length (ld_promises ld')"
    using j by (simp_all add: settle_def case_prod_beta wake_def)
  then show ?thesis by (metis nth_mem)
qed

text \<open>
  Claim C27. A variable that depends on a circle is refused for good: whatever is loaded besides it, the
  transaction of its dashboard is never completed.
\<close>

theorem circle_never_completes:
  assumes "readyToLoad key st" and "m \<in> set (getVariablesByKey st key)" and "onCircle (getVariablesByKey st key) m"
    and "(loadingStep le key)\<^sup>*\<^sup>* (processVariables key st) ld"
  shows "(m, Rejected) \<in> set (ld_promises ld) \<and> completeTransaction le key ld = None"
proof -
  have "(m, Rejected) \<in> set (ld_promises ld)"
    using assms(4)
  proof induction
    case base
    then show ?case
      using assms(2,3) rejected_onCircle [OF ready_boot [OF assms(1)] assms(2)]
      by (force simp: processVariables_def Let_def)
  next
    case (step y z)
    then show ?case using rejected_stays by blast
  qed
  then show ?thesis by (auto simp: completeTransaction_def allEnded_def list_all_iff)
qed

definition startedCircle :: "jsobj list" where
  "startedCircle = [startedVariable ''p'' ''f($q)'' 0, startedVariable ''q'' ''g([[p]])'' 1]"

lemma circle_variables: "getVariablesByKey (startedWith startedCircle) (js ''key'') = startedCircle"
  by code_simp

lemma circle_never_completes_witness:
  "readyToLoad (js ''key'') (startedWith startedCircle) \<and>
   completeTransaction quietEnv (js ''key'') (processVariables (js ''key'') (startedWith startedCircle)) = None"
proof -
  have ready: "readyToLoad (js ''key'') (startedWith startedCircle)"
  proof (rule startedWith_ready)
    show "objKeysOk (map (\<lambda>m. (idOf m, m)) startedCircle)" by code_simp
  qed (simp add: circle_variables, auto simp: startedCircle_def)
  have m: "hd startedCircle \<in> set startedCircle" by (simp add: startedCircle_def)
  have "initialPhase startedCircle (hd startedCircle) = Rejected" by code_simp
  then have "onCircle startedCircle (hd startedCircle)"
    using rejected_onCircle [OF ready_boot [OF ready, unfolded circle_variables] m] by blast
  then show ?thesis
    using circle_never_completes [OF ready, of "hd startedCircle" quietEnv, unfolded circle_variables] m ready by blast
qed

end
