(* ===== verification/Labels.thy ===== *)
theory Labels
  imports Json "HOL-Library.List_Lexorder"
begin

text \<open>
  The labels of series (\<open>utils/labels.ts\<close> of the data package): they are read from and written as
  selectors such as \<open>{job="foo", instance="bar"}\<close>, and compared between series.

  Labels that are \<open>undefined\<close> are \<open>None\<close>.
\<close>

type_synonym labels = "(jsstr, jsstr) obj"

subsection \<open>Reading\<close>

text \<open>
  \<open>labelRegexp\<close> at the start of a word: the key and the value of the label, and what is after it.  No part
  of the pattern can match in two ways: a word, an operator and a quote begin with different characters.
\<close>

definition afterChar :: "codeUnit \<Rightarrow> jsstr \<Rightarrow> jsstr option" where
  "afterChar c s = (case s of d # t \<Rightarrow> if d = c then Some t else None | [] \<Rightarrow> None)"

definition skipOne :: "codeUnit \<Rightarrow> jsstr \<Rightarrow> jsstr" where
  "skipOne c s = (case afterChar c s of Some t \<Rightarrow> t | None \<Rightarrow> s)"

definition inValue :: "codeUnit \<Rightarrow> bool" where
  "inValue c \<longleftrightarrow> c \<noteq> 34 \<and> c \<noteq> 10"

definition labelAt :: "jsstr \<Rightarrow> (jsstr \<times> jsstr \<times> jsstr) option" where
  "labelAt s =
     Option.bind (afterChar 61 (skipOne 33 (dropWhile isWordChar s))) (\<lambda>t.
     Option.bind (afterChar 34 (skipOne 126 t)) (\<lambda>u.
     map_option (\<lambda>rest. (takeWhile isWordChar s, takeWhile inValue u, rest)) (afterChar 34 (dropWhile inValue u))))"

lemma afterChar_Some: "afterChar c s = Some t \<longleftrightarrow> s = c # t"
  by (auto simp: afterChar_def split: list.split)

lemma skipOne_length: "length (skipOne c s) \<le> length s"
  by (auto simp: skipOne_def afterChar_Some split: option.split)

lemma labelAt_shorter: "labelAt s = Some (key, v, rest) \<Longrightarrow> length rest < length s"
proof -
  assume "labelAt s = Some (key, v, rest)"
  then obtain t u where t: "skipOne 33 (dropWhile isWordChar s) = 61 # t" "skipOne 126 t = 34 # u"
    "dropWhile inValue u = 34 # rest"
    by (auto simp: labelAt_def afterChar_Some bind_eq_Some_conv)
  have "length (34 # rest) \<le> length u" using length_dropWhile_le [of inValue u] t(3) by simp
  moreover have "length (34 # u) \<le> length t" using skipOne_length [of 126 t] t(2) by simp
  moreover have "length (61 # t) \<le> length s"
    using skipOne_length [of 33 "dropWhile isWordChar s"] length_dropWhile_le [of isWordChar s] t(1) by simp
  ultimately show ?thesis by simp
qed

text \<open>
  All matches, one after the other; \<open>afterWord\<close> tells whether the character before is one of a word, where
  no word begins.
\<close>

function labelMatches :: "bool \<Rightarrow> jsstr \<Rightarrow> (jsstr \<times> jsstr) list" where
  "labelMatches afterWord s =
     (case s of
        [] \<Rightarrow> []
      | c # t \<Rightarrow>
          (case (if isWordChar c \<and> \<not> afterWord then labelAt s else None) of
             Some (key, v, rest) \<Rightarrow> (key, v) # labelMatches False rest
           | None \<Rightarrow> labelMatches (isWordChar c) t))"
  by pat_completeness auto
termination
  by (relation "measure (length \<circ> snd)") (use labelAt_shorter in \<open>fastforce split: if_splits\<close>)+

declare labelMatches.simps [simp del]

definition parseLabels :: "jsstr \<Rightarrow> labels" where
  "parseLabels s = fold (\<lambda>(key, v). objSet key v) (labelMatches False s) []"

subsection \<open>Comparing\<close>

text \<open>A step of the loop over the sets: what differs is removed, then what is missing.\<close>

definition commonWith :: "labels \<Rightarrow> labels \<Rightarrow> labels" where
  "commonWith acc labels =
     (let acc1 = fold (\<lambda>(key, v) acc. if objGet acc key \<noteq> Some v then objDelete key acc else acc) (objectEntries labels) acc
      in fold (\<lambda>(key, _) acc. if objGet labels key = None then objDelete key acc else acc) (objectEntries acc1) acc1)"

text \<open>\<open>None\<close> if it throws; the labels common to no set at all are \<open>undefined\<close>.\<close>

fun commonLabelsFrom :: "labels option \<Rightarrow> labels option list \<Rightarrow> labels option option" where
  "commonLabelsFrom acc [] = Some acc"
| "commonLabelsFrom acc (None # sets) = None"
| "commonLabelsFrom acc (Some labels # sets) =
     commonLabelsFrom (Some (case acc of None \<Rightarrow> labels | Some a \<Rightarrow> commonWith a labels)) sets"

definition findCommonLabels :: "labels option list \<Rightarrow> labels option option" where
  "findCommonLabels labelsSets = commonLabelsFrom None labelsSets"

definition findUniqueLabels :: "labels option \<Rightarrow> labels \<Rightarrow> labels" where
  "findUniqueLabels labels commonLabels =
     fold (\<lambda>(key, _). objDelete key) (objectEntries commonLabels) (case labels of None \<Rightarrow> [] | Some l \<Rightarrow> l)"

definition matchAllLabels :: "labels option \<Rightarrow> labels option \<Rightarrow> bool" where
  "matchAllLabels expect against =
     (case expect of
        None \<Rightarrow> True
      | Some e \<Rightarrow> list_all (\<lambda>(key, v). \<exists>a. against = Some a \<and> objGet a key = Some v) (objectEntries e))"

subsection \<open>Writing\<close>

definition formatLabel :: "jsstr \<Rightarrow> jsstr \<Rightarrow> jsstr" where
  "formatLabel key v = key @ [61, 34] @ v @ [34]"

definition formatLabels :: "labels option \<Rightarrow> jsstr \<Rightarrow> bool \<Rightarrow> jsstr" where
  "formatLabels labels defaultValue withoutBraces =
     (case labels of
        None \<Rightarrow> defaultValue
      | Some l \<Rightarrow>
          if l = [] then defaultValue
          else let cleanSelector = joinWith (js '', '')
                     (map (\<lambda>key. formatLabel key (the (objGet l key))) (sort (map fst l)))
               in if withoutBraces then cleanSelector else [123] @ cleanSelector @ [125])"

end
