(* ===== verification/LabelsProps.thy ===== *)
theory LabelsProps
  imports Labels
begin

text \<open>
  Labels survive being written as a selector and read back; the labels common to several series and those
  that are its own make up the labels of each.
\<close>

subsection \<open>Selectors\<close>

text \<open>A key is a word, and a value has neither quotes nor line breaks.\<close>

definition writable :: "jsstr \<times> jsstr \<Rightarrow> bool" where
  "writable p \<longleftrightarrow> fst p \<noteq> [] \<and> list_all isWordChar (fst p) \<and> list_all inValue (snd p)"

lemma labelAt_formatted:
  assumes "writable (key, v)"
  shows "labelAt (formatLabel key v @ r) = Some (key, v, r)"
proof -
  have w: "\<forall>c \<in> set key. isWordChar c" "\<forall>c \<in> set v. inValue c" using assms by (simp_all add: writable_def list_all_iff)
  have n: "\<not> isWordChar 61" "\<not> inValue 34" by (simp_all add: isWordChar_def isDigit_def inValue_def)
  have "takeWhile isWordChar (formatLabel key v @ r) = key" "dropWhile isWordChar (formatLabel key v @ r) = 61 # 34 # v @ 34 # r"
    using w(1) n(1) by (simp_all add: formatLabel_def takeWhile_all_append dropWhile_all_append)
  moreover have "takeWhile inValue (v @ 34 # r) = v" "dropWhile inValue (v @ 34 # r) = 34 # r"
    using w(2) n(2) by (simp_all add: takeWhile_all_append dropWhile_all_append)
  ultimately show ?thesis by (simp add: labelAt_def skipOne_def afterChar_def)
qed

lemma matches_formatted:
  assumes "writable (key, v)"
  shows "labelMatches False (formatLabel key v @ r) = (key, v) # labelMatches False r"
proof -
  obtain c t where "key = c # t" "isWordChar c" using assms by (cases key) (auto simp: writable_def)
  then obtain u where "formatLabel key v @ r = c # u" "isWordChar c" by (simp add: formatLabel_def)
  then show ?thesis using labelAt_formatted [OF assms, of r] by (simp add: labelMatches.simps [of False])
qed

lemma matches_skip: "\<not> isWordChar c \<Longrightarrow> labelMatches False (c # s) = labelMatches False s"
  by (subst labelMatches.simps) simp

lemma separators: "\<not> isWordChar 44" "\<not> isWordChar 32" "\<not> isWordChar 123" "\<not> isWordChar 125" "js '', '' = [44, 32]"
  by (simp_all add: isWordChar_def isDigit_def js_def)

lemma matches_joined:
  assumes "\<forall>key \<in> set keys. writable (key, f key)"
  shows "labelMatches False (joinWith (js '', '') (map (\<lambda>key. formatLabel key (f key)) keys) @ r) =
    map (\<lambda>key. (key, f key)) keys @ labelMatches False r"
  using assms
proof (induction keys)
  case (Cons key keys)
  show ?case
  proof (cases "keys = []")
    case True
    then show ?thesis using Cons.prems by (simp add: matches_formatted)
  next
    case False
    then have "joinWith (js '', '') (map (\<lambda>key. formatLabel key (f key)) (key # keys)) @ r =
        formatLabel key (f key) @ 44 # 32 # joinWith (js '', '') (map (\<lambda>key. formatLabel key (f key)) keys) @ r"
      by (simp add: joinWith_Cons separators(5))
    then show ?thesis using Cons by (simp add: matches_formatted matches_skip separators)
  qed
qed simp

lemma fold_objSet_new:
  fixes m :: labels
  shows "distinct (map fst ps) \<Longrightarrow> set (map fst ps) \<inter> fst ` set m = {} \<Longrightarrow> fold (\<lambda>(key, v). objSet key v) ps m = m @ ps"
proof (induction ps arbitrary: m)
  case (Cons p ps)
  have "objSet (fst p) (snd p) m = m @ [p]" if "fst p \<notin> fst ` set m" for m :: labels
    using that by (induction m) auto
  then show ?case using Cons by (auto simp: case_prod_beta)
qed simp

lemma entry_value: "objKeysOk l \<Longrightarrow> (key, v) \<in> set l \<Longrightarrow> the (objGet l key) = v"
  using objGet_in_set [of l key v] by simp

lemma sorted_entries:
  assumes "objKeysOk l"
  shows "map (\<lambda>key. (key, the (objGet l key))) (sort (map fst l)) = sort_key fst l"
proof -
  have "map fst (sort_key fst l) = sort (map fst l)"
    by (metis mset_map mset_sort properties_for_sort sorted_sort_key)
  moreover have "map (\<lambda>p. (fst p, the (objGet l (fst p)))) (sort_key fst l) = sort_key fst l"
    using entry_value [OF assms] by (intro map_idI) auto
  ultimately show ?thesis by (metis (no_types, lifting) comp_apply list.map_comp map_cong)
qed



subsection \<open>Common and own labels\<close>

text \<open>A loop over entries with different keys that may delete each key: only its own step decides about a key.\<close>

lemma fold_delete:
  assumes "distinct (map fst es)"
  shows "objGet (fold (\<lambda>(key, v) acc. if P key v (objGet acc key) then objDelete key acc else acc) es acc) k =
    (case map_of es k of Some v \<Rightarrow> if P k v (objGet acc k) then None else objGet acc k | None \<Rightarrow> objGet acc k)"
  using assms
proof (induction es arbitrary: acc)
  case (Cons p es)
  obtain key v where p: "p = (key, v)" by (cases p)
  have "map_of es key = None" using Cons.prems by (simp add: p map_of_eq_None_iff)
  then show ?case using Cons by (auto simp: p obj.get_delete split: option.split)
qed simp

lemma fold_delete_ok:
  "objKeysOk acc \<Longrightarrow> objKeysOk (fold (\<lambda>(key, v) acc. if P key v (objGet acc key) then objDelete key acc else acc) es acc)"
  by (induction es arbitrary: acc) (auto simp: obj.ok_delete)

lemma entries_distinct: "objKeysOk l \<Longrightarrow> distinct (map fst (objectEntries l))"
  unfolding objKeysOk_def using mset_objectEntries by (metis mset_eq_imp_distinct_iff mset_map)

lemma map_of_entries: "objKeysOk l \<Longrightarrow> map_of (objectEntries l) k = objGet l k"
  using map_of_eq_Some_iff [OF entries_distinct] objGet_in_set [of l k] set_objectEntries [of l]
  by (metis not_None_eq)

lemma commonWith_get:
  assumes "objKeysOk acc" and "objKeysOk l"
  shows "objKeysOk (commonWith acc l)"
    "objGet (commonWith acc l) k = (if objGet acc k = objGet l k then objGet l k else None)"
proof -
  let ?P = "\<lambda>(key :: jsstr) (v :: jsstr) u. u \<noteq> Some v" and ?Q = "\<lambda>key (v :: jsstr) (u :: jsstr option). objGet l key = None"
  let ?acc1 = "fold (\<lambda>(key, v) acc. if ?P key v (objGet acc key) then objDelete key acc else acc) (objectEntries l) acc"
  have ok: "objKeysOk ?acc1" using assms(1) by (rule fold_delete_ok)
  have c: "commonWith acc l = fold (\<lambda>(key, v) acc. if ?Q key v (objGet acc key) then objDelete key acc else acc) (objectEntries ?acc1) ?acc1"
    by (simp add: commonWith_def Let_def)
  show "objKeysOk (commonWith acc l)" unfolding c by (rule fold_delete_ok [OF ok])
  have "objGet ?acc1 k = (case objGet l k of Some v \<Rightarrow> if objGet acc k = Some v then Some v else None | None \<Rightarrow> objGet acc k)"
    using fold_delete [OF entries_distinct [OF assms(2)], of ?P acc k] map_of_entries [OF assms(2), of k]
    by (auto split: option.split)
  then show "objGet (commonWith acc l) k = (if objGet acc k = objGet l k then objGet l k else None)"
    unfolding c fold_delete [OF entries_distinct [OF ok], of ?Q] map_of_entries [OF ok]
    by (auto split: option.splits)
qed

lemma commonLabelsFrom_get:
  assumes "objKeysOk a" and "\<forall>l \<in> set sets. objKeysOk l"
  shows "\<exists>c. commonLabelsFrom (Some a) (map Some sets) = Some (Some c) \<and> objKeysOk c \<and>
    (\<forall>k v. objGet c k = Some v \<longleftrightarrow> (\<forall>l \<in> set (a # sets). objGet l k = Some v))"
  using assms
proof (induction sets arbitrary: a)
  case (Cons l sets)
  have ok: "objKeysOk (commonWith a l)" using commonWith_get(1) Cons.prems by simp
  obtain c where c: "commonLabelsFrom (Some (commonWith a l)) (map Some sets) = Some (Some c)" "objKeysOk c"
    "\<And>k v. objGet c k = Some v \<longleftrightarrow> (\<forall>x \<in> set (commonWith a l # sets). objGet x k = Some v)"
    using Cons.IH [OF ok] Cons.prems(2) by auto
  moreover have "objGet (commonWith a l) k = Some v \<longleftrightarrow> objGet a k = Some v \<and> objGet l k = Some v" for k v
    using commonWith_get(2) [of a l k] Cons.prems by auto
  ultimately show ?case by (intro exI [of _ c]) auto
qed auto

lemma uniqueLabels_get:
  assumes "objKeysOk c"
  shows "objGet (findUniqueLabels (Some l) c) k = (if objGet c k = None then objGet l k else None)"
proof -
  have "findUniqueLabels (Some l) c =
      fold (\<lambda>(key, v) acc. if (\<lambda>_ _ _. True) key v (objGet acc key) then objDelete key acc else acc) (objectEntries c) l"
    by (simp add: findUniqueLabels_def)
  then show ?thesis
    using fold_delete [OF entries_distinct [OF assms], of "\<lambda>_ _ _. True" l k] map_of_entries [OF assms, of k]
    by (auto split: option.splits)
qed

text \<open>
  The labels common to several series are exactly those that every one of them has with the same
  value; each series matches them, and they make up its labels together with the labels of its own.
\<close>

theorem common_and_own_labels:
  assumes "sets \<noteq> []" and "list_all objKeysOk sets"
  shows "\<exists>c. findCommonLabels (map Some sets) = Some (Some c) \<and>
    (\<forall>k v. objGet c k = Some v \<longleftrightarrow> (\<forall>l \<in> set sets. objGet l k = Some v)) \<and>
    (\<forall>l \<in> set sets. matchAllLabels (Some c) (Some l) \<and>
       (\<forall>k. objGet (findUniqueLabels (Some l) c) k = (if objGet c k = None then objGet l k else None)))"
proof -
  obtain a rest where sets: "sets = a # rest" using assms(1) by (cases sets) auto
  then obtain c where c: "findCommonLabels (map Some sets) = Some (Some c)" "objKeysOk c"
    "\<forall>k v. objGet c k = Some v \<longleftrightarrow> (\<forall>l \<in> set sets. objGet l k = Some v)"
    using commonLabelsFrom_get [of a rest] assms(2) by (auto simp: findCommonLabels_def list_all_iff)
  have "matchAllLabels (Some c) (Some l)" if "l \<in> set sets" for l
    using c(2,3) that by (auto simp: matchAllLabels_def list_all_iff objGet_in_set [symmetric])
  then show ?thesis using c uniqueLabels_get [OF c(2)] by (intro exI [of _ c] conjI ballI allI) blast+
qed

lemma common_and_own_labels_witness:
  "\<exists>c. findCommonLabels [Some [(js ''job'', js ''a''), (js ''host'', js ''x'')], Some [(js ''job'', js ''a''), (js ''host'', js ''y'')]] =
     Some (Some c) \<and> objGet c (js ''job'') = Some (js ''a'') \<and> objGet c (js ''host'') = None"
proof -
  let ?x = "[(js ''job'', js ''a''), (js ''host'', js ''x'')]" and ?y = "[(js ''job'', js ''a''), (js ''host'', js ''y'')]"
  have ok: "list_all objKeysOk [?x, ?y]" by (simp add: objKeysOk_def)
  obtain c where c: "findCommonLabels (map Some [?x, ?y]) = Some (Some c)"
    "\<forall>k v. objGet c k = Some v \<longleftrightarrow> (\<forall>l \<in> set [?x, ?y]. objGet l k = Some v)"
    using common_and_own_labels [OF _ ok] by blast
  have "objGet c (js ''job'') = Some (js ''a'')" using c(2) by (simp add: objGet_def)
  moreover have "objGet c (js ''host'') \<noteq> Some v" for v using c(2) by (auto simp: objGet_def)
  then have "objGet c (js ''host'') = None" by (cases "objGet c (js ''host'')") auto
  ultimately show ?thesis using c(1) by auto
qed

end
