(* ===== verification/DataFields.thy ===== *)
theory DataFields
  imports Labels
begin

text \<open>
  The fields of data frames: the names they are shown under (\<open>field/fieldState.ts\<close> of the data package) and
  the types that are guessed for them (\<open>dataframe/processDataFrame.ts\<close>).

  A field of a frame is given by its position, where the code compares identities.  A value that is a date
  is not one of the values of the model.
\<close>

datatype fieldType = TimeField | NumberField | StringField | BooleanField | TraceField | GeoField | OtherField

record fieldState =
  fs_displayName :: "jsstr option"
  fs_multipleFrames :: "bool option"

record dataField =
  df_name :: jsstr
  df_type :: "fieldType option"
  df_displayName :: "jsstr option"
  df_displayNameFromDS :: "jsstr option"
  df_labels :: "labels option"
  df_values :: "jsval list"
  df_state :: "fieldState option"

record dataFrame =
  fr_name :: "jsstr option"
  fr_refId :: "jsstr option"
  fr_fields :: "dataField list"
  fr_length :: nat

definition TIME_SERIES_VALUE_FIELD_NAME :: jsstr where
  "TIME_SERIES_VALUE_FIELD_NAME = js ''Value''"

abbreviation present :: "jsstr option \<Rightarrow> bool" where
  "present s \<equiv> s \<noteq> None \<and> s \<noteq> Some []"

subsection \<open>Names\<close>

text \<open>The loop of \<open>getUniqueFieldName\<close> over the names from position \<open>j\<close>, for the field at position \<open>i\<close>.\<close>

fun countDuplicates :: "jsstr \<Rightarrow> nat \<Rightarrow> nat \<Rightarrow> jsstr list \<Rightarrow> nat \<Rightarrow> bool \<Rightarrow> nat" where
  "countDuplicates name i j [] dupeCount foundSelf = dupeCount"
| "countDuplicates name i j (n # names) dupeCount foundSelf =
     (if j = i
      then if dupeCount > 0 then dupeCount + 1 else countDuplicates name i (j + 1) names dupeCount True
      else if name = n
      then if foundSelf then dupeCount + 1 else countDuplicates name i (j + 1) names (dupeCount + 1) foundSelf
      else countDuplicates name i (j + 1) names dupeCount foundSelf)"

definition getUniqueFieldName :: "jsstr \<Rightarrow> (dataFrame \<times> nat) option \<Rightarrow> jsstr" where
  "getUniqueFieldName name frame =
     (let dupeCount = (case frame of
                         None \<Rightarrow> 0
                       | Some (fr, i) \<Rightarrow> countDuplicates name i 0 (map df_name (fr_fields fr)) 0 False)
      in if dupeCount \<noteq> 0 then name @ [32] @ natToStr dupeCount else name)"

fun singleLabelFrom :: "jsstr option \<Rightarrow> jsstr list \<Rightarrow> jsstr option" where
  "singleLabelFrom singleName [] = singleName"
| "singleLabelFrom None (key # keys) = singleLabelFrom (Some key) keys"
| "singleLabelFrom (Some name) (key # keys) = (if key \<noteq> name then None else singleLabelFrom (Some name) keys)"

definition labelKeys :: "dataFrame list \<Rightarrow> jsstr list" where
  "labelKeys frames =
     concat (map (\<lambda>fr. concat (map (\<lambda>f. case df_labels f of None \<Rightarrow> [] | Some l \<Rightarrow> map fst (objectEntries l))
                                 (fr_fields fr))) frames)"

definition getSingleLabelName :: "dataFrame list \<Rightarrow> jsstr option" where
  "getSingleLabelName frames = singleLabelFrom None (labelKeys frames)"

definition frameNamesDiffer :: "dataFrame list option \<Rightarrow> bool" where
  "frameNamesDiffer allFrames =
     (case allFrames of
        None \<Rightarrow> False
      | Some frames \<Rightarrow> list_ex (\<lambda>(a, b). fr_name a \<noteq> fr_name b) (zip (drop 1 frames) frames))"

text \<open>What the labels of a field add to its name, if anything.\<close>

definition labelPart :: "dataFrame option \<Rightarrow> dataFrame list option \<Rightarrow> labels option \<Rightarrow> jsstr" where
  "labelPart frame allFrames labels =
     (case (labels, frame) of
        (Some l, Some fr) \<Rightarrow>
          (let single = getSingleLabelName (case allFrames of Some frames \<Rightarrow> frames | None \<Rightarrow> [fr])
           in if \<not> present single then formatLabels (Some l) [] False
              else (case objGet l (the single) of Some v \<Rightarrow> v | None \<Rightarrow> []))
      | _ \<Rightarrow> [])"

definition nameParts :: "dataFrame option \<Rightarrow> dataFrame list option \<Rightarrow> dataField \<Rightarrow> jsstr list" where
  "nameParts frame allFrames fd =
     (let frameName = Option.bind frame fr_name;
          frameNameAdded = frameNamesDiffer allFrames \<and> present frameName;
          isValue = (df_name fd = TIME_SERIES_VALUE_FIELD_NAME);
          label = labelPart frame allFrames (df_labels fd)
      in (if frameNameAdded then [the frameName] else [])
         @ (if df_name fd \<noteq> [] \<and> \<not> isValue then [df_name fd] else [])
         @ (if label \<noteq> [] then [label] else [])
         @ (if \<not> frameNameAdded \<and> label = [] \<and> isValue \<and> present frameName then [the frameName] else []))"

definition calculateFieldDisplayName ::
  "dataField \<Rightarrow> (dataFrame \<times> nat) option \<Rightarrow> dataFrame list option \<Rightarrow> jsstr" where
  "calculateFieldDisplayName fd frame allFrames =
     (if present (df_displayName fd) then the (df_displayName fd)
      else if frame \<noteq> None \<and> present (df_displayNameFromDS fd) then the (df_displayNameFromDS fd)
      else if df_type fd = Some TimeField \<and> df_labels fd = None then df_name fd
      else let parts = nameParts (map_option fst frame) allFrames fd;
               displayName = (if parts \<noteq> [] then joinWith [32] parts
                              else if df_name fd \<noteq> [] then df_name fd else TIME_SERIES_VALUE_FIELD_NAME)
           in if displayName = df_name fd then getUniqueFieldName (df_name fd) frame else displayName)"

text \<open>The name, and the field with the name in its state.\<close>

definition getFieldDisplayName ::
  "dataField \<Rightarrow> (dataFrame \<times> nat) option \<Rightarrow> dataFrame list option \<Rightarrow> jsstr \<times> dataField" where
  "getFieldDisplayName fd frame allFrames =
     (let existingTitle = Option.bind (df_state fd) fs_displayName;
          multipleFrames = (case allFrames of None \<Rightarrow> False | Some frames \<Rightarrow> length frames > 1)
      in if present existingTitle \<and> Option.bind (df_state fd) fs_multipleFrames = Some multipleFrames
         then (the existingTitle, fd)
         else let displayName = calculateFieldDisplayName fd frame allFrames
              in (displayName,
                  fd\<lparr>df_state := Some \<lparr>fs_displayName = Some displayName, fs_multipleFrames = Some multipleFrames\<rparr>\<rparr>))"

text \<open>The name of a frame; the names of its fields are put into their states if they are joined.\<close>

definition getFrameDisplayName :: "dataFrame \<Rightarrow> nat option \<Rightarrow> jsstr \<times> dataFrame" where
  "getFrameDisplayName frame index =
     (if present (fr_name frame) then (the (fr_name frame), frame)
      else let valuesWithLabels = filter (\<lambda>f. df_labels f \<noteq> None \<and> df_labels f \<noteq> Some []) (fr_fields frame)
      in if length valuesWithLabels = 1 then (formatLabels (df_labels (hd valuesWithLabels)) [] False, frame)
      else case index of
             None \<Rightarrow>
               (let named = map (\<lambda>(i, f). if df_type f \<noteq> Some TimeField
                                         then map_prod Some id (getFieldDisplayName f (Some (frame, i)) None)
                                         else (None, f)) (enumerate 0 (fr_fields frame))
                in (joinWith (js '', '') (List.map_filter fst named), frame\<lparr>fr_fields := map snd named\<rparr>))
           | Some n \<Rightarrow>
               (js ''Series ('' @ (if present (fr_refId frame) then the (fr_refId frame) else natToStr n) @ js '')'', frame))"

subsection \<open>Types\<close>

text \<open>The pattern \<open>NUMBER\<close>: a decimal with an exponent or \<open>NAN\<close>, between white space.\<close>

definition isNumberText :: "jsstr \<Rightarrow> bool" where
  "isNumberText s =
     (let t = trim s; u = (case t of c # r \<Rightarrow> if c = 45 then r else t | [] \<Rightarrow> t)
      in (case decimalPrefix u of Some (_, _, _, rest) \<Rightarrow> rest = [] | None \<Rightarrow> False) \<or>
         (length t = 3 \<and> hd t \<in> {78, 110} \<and> t ! 1 \<in> {65, 97} \<and> t ! 2 \<in> {78, 110}))"

definition guessFieldTypeFromValue :: "jsval \<Rightarrow> fieldType" where
  "guessFieldTypeFromValue v =
     (case v of
        JNum _ \<Rightarrow> NumberField
      | JStr s \<Rightarrow>
          if isNumberText s then NumberField
          else if s \<in> {js ''true'', js ''TRUE'', js ''True'', js ''false'', js ''FALSE'', js ''False''} then BooleanField
          else StringField
      | JBool _ \<Rightarrow> BooleanField
      | _ \<Rightarrow> OtherField)"

definition guessFieldTypeForField :: "(jsstr \<Rightarrow> jsstr) \<Rightarrow> dataField \<Rightarrow> fieldType option" where
  "guessFieldTypeForField toLower fd =
     (if df_name fd \<noteq> [] \<and> toLower (df_name fd) \<in> {js ''date'', js ''time''} then Some TimeField
      else map_option guessFieldTypeFromValue (find (\<lambda>v. v \<noteq> JNull \<and> v \<noteq> JUndef) (df_values fd)))"

definition hasType :: "dataField \<Rightarrow> bool" where
  "hasType fd \<longleftrightarrow> df_type fd \<noteq> None \<and> df_type fd \<noteq> Some OtherField"

definition guessFieldTypes :: "(jsstr \<Rightarrow> jsstr) \<Rightarrow> bool \<Rightarrow> dataFrame \<Rightarrow> dataFrame" where
  "guessFieldTypes toLower guessDefined series =
     (if list_ex (\<lambda>f. \<not> hasType f \<or> guessDefined) (fr_fields series)
      then series\<lparr>fr_fields := map (\<lambda>f.
             if hasType f \<and> \<not> guessDefined then f
             else f\<lparr>df_type := Some (case guessFieldTypeForField toLower f of Some t \<Rightarrow> t | None \<Rightarrow> OtherField)\<rparr>)
             (fr_fields series)\<rparr>
      else series)"

text \<open>\<open>getProcessedDataFrame\<close> of \<open>features/query/state/runRequest.ts\<close>, for a data frame: the states are cleared.\<close>

definition getProcessedDataFrame :: "(jsstr \<Rightarrow> jsstr) \<Rightarrow> dataFrame \<Rightarrow> dataFrame" where
  "getProcessedDataFrame toLower data =
     (let frame = guessFieldTypes toLower False data
      in frame\<lparr>fr_fields := map (\<lambda>f. f\<lparr>df_state := None\<rparr>) (fr_fields frame)\<rparr>)"

end
