(* ===== verification/QueryResults.thy ===== *)
theory QueryResults
  imports DataFields
begin

text \<open>
  What the answer of a data source gives the query of a variable (\<open>features/variables/query/operators.ts\<close>):
  values that are passed on, or data frames whose rows become values.

  The series of an answer are either all data frames or all other objects.  What \<open>toDataFrame\<close> makes of
  objects in one of the older formats is an argument; these have no \<open>length\<close> and so no rows.
\<close>

datatype panelSeries = ValueSeries "jsobj list" | FrameSeries "dataFrame list"

definition areMetricFindValues :: "(jsstr \<Rightarrow> jsstr) \<Rightarrow> panelSeries \<Rightarrow> bool" where
  "areMetricFindValues toLower data =
     (case data of
        FrameSeries frames \<Rightarrow> frames = []
      | ValueSeries [] \<Rightarrow> True
      | ValueSeries (firstValue # _) \<Rightarrow>
          objGet firstValue (js ''fields'') = None \<and>
          list_ex (\<lambda>(key, v).
              (case v of JNull \<Rightarrow> True | JStr _ \<Rightarrow> True | JNum _ \<Rightarrow> True | _ \<Rightarrow> False) \<and>
              toLower key \<in> {js ''text'', js ''value''})
            (objectEntries firstValue))"

text \<open>The positions of the fields that are looked for; the first one found stays.\<close>

record fieldIndices =
  fi_value :: "nat option"
  fi_text :: "nat option"
  fi_string :: "nat option"
  fi_expandable :: "nat option"

definition noteIndex :: "bool \<Rightarrow> nat \<Rightarrow> nat option \<Rightarrow> nat option" where
  "noteIndex found i index = (if found \<and> index = None then Some i else index)"

definition noteField ::
  "(jsstr \<Rightarrow> jsstr) \<Rightarrow> dataFrame list \<Rightarrow> dataFrame \<Rightarrow> nat \<times> dataField \<Rightarrow> fieldIndices \<Rightarrow> fieldIndices" where
  "noteField toLower frames frame p indices =
     (case p of
        (i, f) \<Rightarrow>
          let fieldName = toLower (fst (getFieldDisplayName f (Some (frame, i)) (Some frames)));
              isString = (df_type f = Some StringField)
          in \<lparr>fi_value = noteIndex (fieldName = js ''value'' \<and> isString) i (fi_value indices),
              fi_text = noteIndex (fieldName = js ''text'' \<and> isString) i (fi_text indices),
              fi_string = noteIndex isString i (fi_string indices),
              fi_expandable =
                noteIndex (fieldName = js ''expandable'' \<and> df_type f \<in> {Some BooleanField, Some NumberField}) i
                  (fi_expandable indices)\<rparr>)"

definition findIndices :: "(jsstr \<Rightarrow> jsstr) \<Rightarrow> dataFrame list \<Rightarrow> dataFrame list \<Rightarrow> fieldIndices" where
  "findIndices toLower frames processedDataFrames =
     fold (\<lambda>frame. fold (noteField toLower frames frame) (enumerate 0 (fr_fields frame))) processedDataFrames
       \<lparr>fi_value = None, fi_text = None, fi_string = None, fi_expandable = None\<rparr>"

text \<open>\<open>frame.fields[i].values.get(row)\<close>, which throws if there is no such field.\<close>

definition cellAt :: "dataFrame \<Rightarrow> nat \<Rightarrow> nat \<Rightarrow> jsval option" where
  "cellAt frame row i =
     (if i < length (fr_fields frame)
      then let vs = df_values (fr_fields frame ! i) in Some (if row < length vs then vs ! row else JUndef)
      else None)"

definition cellOr :: "jsval \<Rightarrow> dataFrame \<Rightarrow> nat \<Rightarrow> nat option \<Rightarrow> jsval option" where
  "cellOr missing frame row i = (case i of None \<Rightarrow> Some missing | Some i \<Rightarrow> cellAt frame row i)"

definition metricOfRow :: "fieldIndices \<Rightarrow> dataFrame \<Rightarrow> nat \<Rightarrow> jsobj option" where
  "metricOfRow indices frame row =
     Option.bind (cellOr JUndef frame row (fi_expandable indices)) (\<lambda>expandable.
     Option.bind (cellOr JUndef frame row (fi_string indices)) (\<lambda>string.
     Option.bind (cellOr JNull frame row (fi_text indices)) (\<lambda>text.
     Option.bind (cellOr JNull frame row (fi_value indices)) (\<lambda>value.
       let (t, v) =
         (if fi_value indices = None \<and> fi_text indices = None then (string, string)
          else if fi_value indices = None then (text, text)
          else if fi_text indices = None then (value, value)
          else (text, value))
       in Some [(js ''text'', t), (js ''value'', v), (js ''expandable'', expandable)]))))"

text \<open>\<open>None\<close> if it throws.\<close>

definition toMetricFindValues ::
  "(jsstr \<Rightarrow> jsstr) \<Rightarrow> (jsobj list \<Rightarrow> dataFrame list option) \<Rightarrow> panelSeries option \<Rightarrow> jsobj list option" where
  "toMetricFindValues toLower toDataFrames series =
     (case series of
        None \<Rightarrow> Some []
      | Some (ValueSeries values) \<Rightarrow>
          if areMetricFindValues toLower (ValueSeries values) then Some values
          else Option.bind (toDataFrames values) (\<lambda>frames.
                 if fi_string (findIndices toLower [] (map (getProcessedDataFrame toLower) frames)) = None then None
                 else Some [])
      | Some (FrameSeries frames) \<Rightarrow>
          if frames = [] then Some []
          else let indices = findIndices toLower frames (map (getProcessedDataFrame toLower) frames)
               in if fi_string indices = None then None
                  else those (concat (map (\<lambda>frame. map (metricOfRow indices frame) [0..<fr_length frame]) frames)))"

end
