(* ===== verification/DataFieldsProps.thy ===== *)
theory DataFieldsProps
  imports DataFields
begin

text \<open>
  Fields of the same name are numbered in their order, the name of a field is the same when it is asked for
  again, and the single label that all series share is found exactly if there is one.
\<close>

subsection \<open>Numbers for equal names\<close>

text \<open>After the field itself, before it, and at it.\<close>

lemma count_after:
  "i < j \<Longrightarrow> countDuplicates name i j names dupeCount True = (if name \<in> set names then dupeCount + 1 else dupeCount)"
  by (induction names arbitrary: j) auto

lemma count_before:
  assumes "names ! k = name" and "k < length names" and "i = j + k"
  shows "countDuplicates name i j names dupeCount False =
    (if dupeCount + count_list (take k names) name > 0 then dupeCount + count_list (take k names) name + 1
     else if name \<in> set (drop (Suc k) names) then 1 else 0)"
  using assms
proof (induction names arbitrary: j k dupeCount)
  case (Cons n names)
  show ?case
  proof (cases k)
    case 0
    then show ?thesis using Cons.prems by (simp add: count_after)
  next
    case (Suc k')
    then show ?thesis using Cons.IH [of k' "Suc j"] Cons.prems by auto
  qed
qed simp

lemma unique_name:
  assumes "i < length (fr_fields fr)" and "df_name (fr_fields fr ! i) = name"
  shows "getUniqueFieldName name (Some (fr, i)) =
    (if count_list (map df_name (fr_fields fr)) name = 1 then name
     else name @ [32] @ natToStr (Suc (count_list (map df_name (take i (fr_fields fr))) name)))"
proof -
  let ?names = "map df_name (fr_fields fr)"
  have i: "i < length ?names" "?names ! i = name" using assms by simp_all
  have "count_list (take i ?names @ ?names ! i # drop (Suc i) ?names) name =
      count_list (take i ?names) name + 1 + count_list (drop (Suc i) ?names) name" using i(2) by simp
  then have split: "count_list ?names name = count_list (take i ?names) name + 1 + count_list (drop (Suc i) ?names) name"
    by (simp only: id_take_nth_drop [OF i(1), symmetric])
  have rest: "name \<in> set (drop (Suc i) ?names) \<longleftrightarrow> count_list (drop (Suc i) ?names) name \<noteq> 0"
    by (simp add: count_list_0_iff)
  show ?thesis
    using count_before [OF i(2,1), of i 0 0] split rest
    by (auto simp: getUniqueFieldName_def Let_def take_map)
qed

lemma count_list_grows:
  assumes "j < i" and "i \<le> length names" and "names ! j = name"
  shows "count_list (take j names) name < count_list (take i names) name"
proof -
  have "take i names = take j names @ names ! j # drop (Suc j) (take i names)"
    using assms id_take_nth_drop [of j "take i names"] by simp
  then have "count_list (take i names) name = count_list (take j names) name + (1 + count_list (drop (Suc j) (take i names)) name)"
    using assms(3) by (metis (no_types, lifting) Suc_eq_plus1 add.commute count_list.simps(2) count_list_append)
  then show ?thesis by simp
qed

text \<open>
  Claim C32. A field whose name no other field of its frame has keeps it; fields of the same name are numbered
  from one in their order, so that no two of them are shown under the same name.
\<close>

theorem equal_names_numbered:
  assumes "i < length (fr_fields fr)" and "df_name (fr_fields fr ! i) = name"
  shows "getUniqueFieldName name (Some (fr, i)) =
      (if count_list (map df_name (fr_fields fr)) name = 1 then name
       else name @ [32] @ natToStr (Suc (count_list (map df_name (take i (fr_fields fr))) name))) \<and>
    (\<forall>j < i. df_name (fr_fields fr ! j) = name \<longrightarrow>
      getUniqueFieldName name (Some (fr, j)) \<noteq> getUniqueFieldName name (Some (fr, i)))"
proof (intro conjI allI impI)
  let ?names = "map df_name (fr_fields fr)"
  show "getUniqueFieldName name (Some (fr, i)) =
      (if count_list ?names name = 1 then name
       else name @ [32] @ natToStr (Suc (count_list (map df_name (take i (fr_fields fr))) name)))"
    by (rule unique_name [OF assms])
  fix j assume j: "j < i" "df_name (fr_fields fr ! j) = name"
  have less: "count_list (take j ?names) name < count_list (take i ?names) name"
    using count_list_grows [of j i ?names name] assms(1) j by simp
  have "count_list (take i ?names) name < count_list (take (Suc i) ?names) name"
    using count_list_grows [of i "Suc i" ?names name] assms by simp
  moreover have "count_list ?names name = count_list (take (Suc i) ?names) name + count_list (drop (Suc i) ?names) name"
    by (metis append_take_drop_id count_list_append)
  ultimately have many: "count_list ?names name \<noteq> 1" using less by linarith
  have "natToStr (Suc (count_list (take j ?names) name)) \<noteq> natToStr (Suc (count_list (take i ?names) name))"
    using less digitsVal_natToStr by (metis Suc_inject less_irrefl)
  then show "getUniqueFieldName name (Some (fr, j)) \<noteq> getUniqueFieldName name (Some (fr, i))"
    using unique_name [OF assms] unique_name [of j fr name] assms(1) j many by (simp add: take_map)
qed

definition plainField :: "string \<Rightarrow> fieldType \<Rightarrow> jsval list \<Rightarrow> dataField" where
  "plainField name t vs =
     \<lparr>df_name = js name, df_type = Some t, df_displayName = None, df_displayNameFromDS = None, df_labels = None,
      df_values = vs, df_state = None\<rparr>"

definition plainFrame :: "dataField list \<Rightarrow> nat \<Rightarrow> dataFrame" where
  "plainFrame fs n = \<lparr>fr_name = None, fr_refId = None, fr_fields = fs, fr_length = n\<rparr>"

definition twins :: dataFrame where
  "twins = plainFrame [plainField ''a'' NumberField [], plainField ''a'' NumberField [], plainField ''a 1'' NumberField []] 0"

lemma equal_names_numbered_witness:
  "getUniqueFieldName (js ''a'') (Some (twins, 1)) = js ''a 2''"
proof -
  have "1 < length (fr_fields twins)" "df_name (fr_fields twins ! 1) = js ''a''"
    by (simp_all add: twins_def plainFrame_def plainField_def)
  note n = equal_names_numbered [OF this]
  show ?thesis using conjunct1 [OF n] by (simp add: twins_def plainFrame_def plainField_def js_def natToStr_small)
qed

text \<open>The number may make the name of another field.\<close>

lemma number_makes_another_name:
  "map (\<lambda>i. fst (getFieldDisplayName (fr_fields twins ! i) (Some (twins, i)) None)) [0, 1, 2] = [js ''a 1'', js ''a 2'', js ''a 1'']"
  by (simp add: twins_def plainFrame_def plainField_def getFieldDisplayName_def calculateFieldDisplayName_def nameParts_def
      labelPart_def frameNamesDiffer_def getUniqueFieldName_def TIME_SERIES_VALUE_FIELD_NAME_def js_def natToStr_small Let_def)

subsection \<open>Names in the state\<close>

text \<open>
  The name that a field is shown under is computed once: asked for again in the same surroundings, it
  is the same, and the field stays as it is.
\<close>

theorem display_name_cached:
  "getFieldDisplayName (snd (getFieldDisplayName f frame allFrames)) frame allFrames = getFieldDisplayName f frame allFrames"
proof -
  have kept: "df_name (f\<lparr>df_state := s\<rparr>) = df_name f" "df_labels (f\<lparr>df_state := s\<rparr>) = df_labels f"
    "df_type (f\<lparr>df_state := s\<rparr>) = df_type f" "df_displayName (f\<lparr>df_state := s\<rparr>) = df_displayName f"
    "df_displayNameFromDS (f\<lparr>df_state := s\<rparr>) = df_displayNameFromDS f" for s by simp_all
  have "calculateFieldDisplayName (f\<lparr>df_state := s\<rparr>) frame allFrames = calculateFieldDisplayName f frame allFrames" for s
    unfolding calculateFieldDisplayName_def nameParts_def kept ..
  then show ?thesis by (auto simp: getFieldDisplayName_def Let_def)
qed

subsection \<open>A single label\<close>

lemma singleLabelFrom_iff:
  "singleLabelFrom (Some n) keys = Some name \<longleftrightarrow> n = name \<and> set keys \<subseteq> {name}"
  "singleLabelFrom None keys = Some name \<longleftrightarrow> set keys = {name}"
proof -
  have 1: "singleLabelFrom (Some n) ks = Some name \<longleftrightarrow> n = name \<and> set ks \<subseteq> {name}" for n ks
    by (induction ks) auto
  show "singleLabelFrom (Some n) keys = Some name \<longleftrightarrow> n = name \<and> set keys \<subseteq> {name}" by (rule 1)
  show "singleLabelFrom None keys = Some name \<longleftrightarrow> set keys = {name}"
  proof (cases keys)
    case (Cons key ks)
    then show ?thesis unfolding Cons singleLabelFrom.simps 1 by auto
  qed simp
qed

text \<open>
  The label that stands for all labels of a field is found exactly if it is the only one that occurs in
  any of the frames.
\<close>

theorem single_label_iff:
  "getSingleLabelName frames = Some name \<longleftrightarrow>
   {key. \<exists>fr \<in> set frames. \<exists>f \<in> set (fr_fields fr). \<exists>l. df_labels f = Some l \<and> key \<in> fst ` set l} = {name}"
proof -
  have "set (labelKeys frames) =
      {key. \<exists>fr \<in> set frames. \<exists>f \<in> set (fr_fields fr). \<exists>l. df_labels f = Some l \<and> key \<in> fst ` set l}"
  proof -
    have "set (case ls of None \<Rightarrow> [] | Some l \<Rightarrow> map fst (objectEntries l)) = {key. \<exists>l. ls = Some l \<and> key \<in> fst ` set l}"
      for ls :: "labels option" by (cases ls) auto
    then show ?thesis by (simp add: labelKeys_def) blast
  qed
  then show ?thesis by (simp add: getSingleLabelName_def singleLabelFrom_iff)
qed

end
