(* ===== verification/QueryResultsProps.thy ===== *)
theory QueryResultsProps
  imports QueryResults DataFieldsProps
begin

text \<open>
  The rows of a data frame become the options of a variable: what is taken for text and value, and when the
  answer is refused.
\<close>

subsection \<open>The fields that are used\<close>

text \<open>The first field of a frame with a property.\<close>

definition firstField :: "(nat \<Rightarrow> dataField \<Rightarrow> bool) \<Rightarrow> dataFrame \<Rightarrow> nat option" where
  "firstField P fr = map_option fst (find (\<lambda>p. P (fst p) (snd p)) (enumerate 0 (fr_fields fr)))"

text \<open>A field of some type that is shown under a name, upper and lower case aside, in the answer of one frame.\<close>

definition shownAs :: "(jsstr \<Rightarrow> jsstr) \<Rightarrow> dataFrame \<Rightarrow> jsstr \<Rightarrow> fieldType set \<Rightarrow> nat option" where
  "shownAs toLower fr name types =
     (let processed = getProcessedDataFrame toLower fr
      in firstField (\<lambda>i f. toLower (fst (getFieldDisplayName f (Some (processed, i)) (Some [fr]))) = name \<and>
           df_type f \<in> Some ` types) processed)"

definition firstString :: "(jsstr \<Rightarrow> jsstr) \<Rightarrow> dataFrame \<Rightarrow> nat option" where
  "firstString toLower fr = firstField (\<lambda>_ f. df_type f = Some StringField) (getProcessedDataFrame toLower fr)"

lemma noteIndex_found: "noteIndex found i (Some k) = Some k"
  by (simp add: noteIndex_def)

lemma notedFields:
  fixes toLower frames frame
  defines "note \<equiv> noteField toLower frames frame"
    and "shown \<equiv> (\<lambda>name types p. toLower (fst (getFieldDisplayName (snd p) (Some (frame, fst p)) (Some frames))) = name \<and>
      df_type (snd p) \<in> Some ` types)"
  shows
    "fi_value (fold note ps idx) = (case fi_value idx of Some i \<Rightarrow> Some i | None \<Rightarrow>
       map_option fst (find (shown (js ''value'') {StringField}) ps))"
    "fi_text (fold note ps idx) = (case fi_text idx of Some i \<Rightarrow> Some i | None \<Rightarrow>
       map_option fst (find (shown (js ''text'') {StringField}) ps))"
    "fi_string (fold note ps idx) = (case fi_string idx of Some i \<Rightarrow> Some i | None \<Rightarrow>
       map_option fst (find (\<lambda>p. df_type (snd p) = Some StringField) ps))"
    "fi_expandable (fold note ps idx) = (case fi_expandable idx of Some i \<Rightarrow> Some i | None \<Rightarrow>
       map_option fst (find (shown (js ''expandable'') {BooleanField, NumberField}) ps))"
  unfolding note_def shown_def
  by (induction ps arbitrary: idx)
    (auto simp: noteField_def Let_def noteIndex_def case_prod_beta split: option.splits)

lemma findIndices_single:
  "findIndices toLower [fr] [getProcessedDataFrame toLower fr] =
     \<lparr>fi_value = shownAs toLower fr (js ''value'') {StringField}, fi_text = shownAs toLower fr (js ''text'') {StringField},
      fi_string = firstString toLower fr, fi_expandable = shownAs toLower fr (js ''expandable'') {BooleanField, NumberField}\<rparr>"
  unfolding findIndices_def
  by (intro fieldIndices.equality)
    (simp_all add: notedFields shownAs_def firstString_def firstField_def case_prod_beta Let_def)

subsection \<open>The values of the rows\<close>

text \<open>The value of a field in a row, with a position in the frame.\<close>

definition valueIn :: "dataFrame \<Rightarrow> nat \<Rightarrow> nat \<Rightarrow> jsval" where
  "valueIn fr row i =
     (if row < length (df_values (fr_fields fr ! i)) then df_values (fr_fields fr ! i) ! row else JUndef)"

fun firstOf :: "nat option list \<Rightarrow> nat" where
  "firstOf (Some i # _) = i"
| "firstOf (None # is) = firstOf is"
| "firstOf [] = 0"

lemma firstField_bound: "firstField P fr = Some i \<Longrightarrow> i < length (fr_fields fr)"
  by (auto simp: firstField_def find_Some_iff nth_enumerate_eq)

lemma processed_length: "length (fr_fields (getProcessedDataFrame toLower fr)) = length (fr_fields fr)"
  by (simp add: getProcessedDataFrame_def guessFieldTypes_def Let_def)

lemma cellAt_in: "i < length (fr_fields fr) \<Longrightarrow> cellAt fr row i = Some (valueIn fr row i)"
  by (simp add: cellAt_def valueIn_def Let_def)

lemma those_Some: "\<forall>x \<in> set xs. f x = Some (g x) \<Longrightarrow> those (map f xs) = Some (map g xs)"
  by (induction xs) auto

lemma metricOfRow_in:
  assumes "\<And>i. t = Some i \<Longrightarrow> i < length (fr_fields fr)" and "\<And>i. v = Some i \<Longrightarrow> i < length (fr_fields fr)"
    and "\<And>i. e = Some i \<Longrightarrow> i < length (fr_fields fr)" and "s < length (fr_fields fr)"
  shows "metricOfRow \<lparr>fi_value = v, fi_text = t, fi_string = Some s, fi_expandable = e\<rparr> fr row =
    Some [(js ''text'', valueIn fr row (firstOf [t, v, Some s])), (js ''value'', valueIn fr row (firstOf [v, t, Some s])),
      (js ''expandable'', case e of None \<Rightarrow> JUndef | Some i \<Rightarrow> valueIn fr row i)]"
  using assms by (cases t; cases v; cases e) (simp_all add: metricOfRow_def cellOr_def cellAt_in)

lemma shownAs_bound: "shownAs toLower fr name types = Some i \<Longrightarrow> i < length (fr_fields fr)"
  unfolding shownAs_def Let_def by (drule firstField_bound) (simp only: processed_length)

text \<open>
  Claim C30. A data frame answers the query of a variable with one value for each row, in their order: its text
  is that of the field shown as text, or as value, or of the first field of texts, its value that of the field
  shown as value, or as text, or of the first one; without a field of texts the answer is refused, and
  nothing else is.
\<close>

theorem rows_become_values:
  "toMetricFindValues toLower toDataFrames (Some (FrameSeries [fr])) =
     map_option (\<lambda>s.
       let t = shownAs toLower fr (js ''text'') {StringField};
           v = shownAs toLower fr (js ''value'') {StringField};
           e = shownAs toLower fr (js ''expandable'') {BooleanField, NumberField}
       in map (\<lambda>row.
            [(js ''text'', valueIn fr row (firstOf [t, v, Some s])), (js ''value'', valueIn fr row (firstOf [v, t, Some s])),
             (js ''expandable'', case e of None \<Rightarrow> JUndef | Some i \<Rightarrow> valueIn fr row i)]) [0..<fr_length fr])
     (firstString toLower fr)"
proof (cases "firstString toLower fr")
  case None
  then show ?thesis by (simp add: toMetricFindValues_def findIndices_single)
next
  case (Some s)
  let ?t = "shownAs toLower fr (js ''text'') {StringField}" and ?v = "shownAs toLower fr (js ''value'') {StringField}"
    and ?e = "shownAs toLower fr (js ''expandable'') {BooleanField, NumberField}"
  let ?idx = "\<lparr>fi_value = ?v, fi_text = ?t, fi_string = Some s, fi_expandable = ?e\<rparr>"
  have "s < length (fr_fields fr)" 
    using firstField_bound [OF Some [unfolded firstString_def]] by (simp only: processed_length)
  then have "metricOfRow ?idx fr row =
      Some [(js ''text'', valueIn fr row (firstOf [?t, ?v, Some s])), (js ''value'', valueIn fr row (firstOf [?v, ?t, Some s])),
        (js ''expandable'', case ?e of None \<Rightarrow> JUndef | Some i \<Rightarrow> valueIn fr row i)]" for row
    by (intro metricOfRow_in) (rule shownAs_bound, assumption)+
  note rows = those_Some [OF ballI, OF this]
  have "toMetricFindValues toLower toDataFrames (Some (FrameSeries [fr])) = those (map (metricOfRow ?idx fr) [0..<fr_length fr])"
    by (simp add: toMetricFindValues_def findIndices_single Some)
  then show ?thesis unfolding rows Some by (simp add: Let_def)
qed

text \<open>
  The positions are those of the first frames that have such fields, and are used for all of them: an answer
  whose frames put their texts at different places throws.
\<close>

lemma layouts_mixed:
  "toMetricFindValues id (\<lambda>_. None) (Some (FrameSeries
     [plainFrame [plainField ''n'' NumberField [JInt 1], plainField ''s'' StringField [JStr (js ''x'')]] 1,
      plainFrame [plainField ''s'' StringField [JStr (js ''y'')]] 1])) = None"
  by (simp add: toMetricFindValues_def findIndices_def noteField_def noteIndex_def getProcessedDataFrame_def
      guessFieldTypes_def hasType_def plainFrame_def plainField_def metricOfRow_def cellOr_def cellAt_def Let_def)

end
