(* ===== verification/QueryRunners.thy ===== *)
theory QueryRunners
  imports Json
begin

text \<open>
  How the query of a variable is run (\<open>features/variables/query/queryRunners.ts\<close>): by the first of four runners
  that can run it, which is decided by what the data source supports (\<open>features/variables/guard.ts\<close>).

  Of the functions of a data source only their presence matters, and what \<open>toDataQuery\<close> returns.
\<close>

datatype variableSupportType = Legacy | Standard | Custom | Datasource

record variableSupport =
  su_getType :: variableSupportType
  su_toDataQuery :: "(jsval \<Rightarrow> jsval) option"
  su_query :: bool
  su_editor :: bool

record dataSourceApi =
  da_metricFindQuery :: bool
  da_variables :: "variableSupport option"

subsection \<open>What is supported\<close>

definition hasLegacyVariableSupport :: "dataSourceApi \<Rightarrow> bool" where
  "hasLegacyVariableSupport ds \<longleftrightarrow> da_metricFindQuery ds \<and> da_variables ds = None"

definition hasStandardVariableSupport :: "dataSourceApi \<Rightarrow> bool" where
  "hasStandardVariableSupport ds =
     (case da_variables ds of None \<Rightarrow> False | Some su \<Rightarrow> su_getType su = Standard \<and> \<not> Option.is_none (su_toDataQuery su))"

definition hasCustomVariableSupport :: "dataSourceApi \<Rightarrow> bool" where
  "hasCustomVariableSupport ds =
     (case da_variables ds of None \<Rightarrow> False | Some su \<Rightarrow> su_getType su = Custom \<and> su_query su \<and> su_editor su)"

definition hasDatasourceVariableSupport :: "dataSourceApi \<Rightarrow> bool" where
  "hasDatasourceVariableSupport ds =
     (case da_variables ds of None \<Rightarrow> False | Some su \<Rightarrow> su_getType su = Datasource)"

text \<open>The editor of the query, by the name of its component; \<open>None\<close> if there is no component.\<close>

definition LEGACY_VARIABLE_QUERY_EDITOR_NAME :: jsstr where
  "LEGACY_VARIABLE_QUERY_EDITOR_NAME = js ''Grafana-LegacyVariableQueryEditor''"

definition isLegacyQueryEditor :: "jsval option \<Rightarrow> dataSourceApi \<Rightarrow> bool" where
  "isLegacyQueryEditor displayName ds =
     (case displayName of
        None \<Rightarrow> False
      | Some n \<Rightarrow> n = JStr LEGACY_VARIABLE_QUERY_EDITOR_NAME \<or> hasLegacyVariableSupport ds)"

definition isQueryEditor :: "jsval option \<Rightarrow> dataSourceApi \<Rightarrow> bool" where
  "isQueryEditor displayName ds =
     (case displayName of
        None \<Rightarrow> False
      | Some n \<Rightarrow>
          n \<noteq> JStr LEGACY_VARIABLE_QUERY_EDITOR_NAME \<and>
          (hasDatasourceVariableSupport ds \<or> hasStandardVariableSupport ds \<or> hasCustomVariableSupport ds))"

subsection \<open>Runners\<close>

definition runners :: "variableSupportType list" where
  "runners = [Legacy, Standard, Custom, Datasource]"

definition canRun :: "variableSupportType \<Rightarrow> dataSourceApi \<Rightarrow> bool" where
  "canRun runner ds =
     (case runner of
        Legacy \<Rightarrow> hasLegacyVariableSupport ds
      | Standard \<Rightarrow> hasStandardVariableSupport ds
      | Custom \<Rightarrow> hasCustomVariableSupport ds
      | Datasource \<Rightarrow> hasDatasourceVariableSupport ds)"

definition getRunnerForDatasource :: "dataSourceApi \<Rightarrow> variableSupportType option" where
  "getRunnerForDatasource ds = find (\<lambda>runner. canRun runner ds) runners"

definition variableDummyRefId :: jsstr where
  "variableDummyRefId = js ''variable-query''"

text \<open>\<open>{ ...v }\<close> for any value: a text is spread by its characters.\<close>

definition spreadValue :: "jsval \<Rightarrow> jsobj" where
  "spreadValue v =
     (case v of
        JObj o' \<Rightarrow> o'
      | JArr vs \<Rightarrow> map (\<lambda>(i, x). (natToStr i, x)) (enumerate 0 vs)
      | JStr s \<Rightarrow> map (\<lambda>(i, c). (natToStr i, JStr [c])) (enumerate 0 s)
      | _ \<Rightarrow> [])"

text \<open>The target of a runner; \<open>None\<close> if it throws.\<close>

definition getTarget :: "variableSupportType \<Rightarrow> dataSourceApi \<Rightarrow> jsval \<Rightarrow> jsval option" where
  "getTarget runner ds query =
     (if \<not> canRun runner ds then None
      else case runner of
             Standard \<Rightarrow>
               Option.bind (da_variables ds) (\<lambda>su. map_option (\<lambda>toDataQuery. toDataQuery query) (su_toDataQuery su))
           | Datasource \<Rightarrow>
               if query \<in> {JUndef, JNull} then None
               else let refId = field (case query of JObj o' \<Rightarrow> o' | _ \<Rightarrow> []) (js ''refId'')
                    in Some (JObj (objSpread (spreadValue query)
                          [(js ''refId'', if refId \<in> {JUndef, JNull} then JStr variableDummyRefId else refId)]))
           | _ \<Rightarrow> Some query)"

subsection \<open>One runner for a data source\<close>

lemma canRun_unique: "canRun r ds \<Longrightarrow> canRun r' ds \<Longrightarrow> r = r'"
  by (cases "da_variables ds")
    (auto simp: canRun_def hasLegacyVariableSupport_def hasStandardVariableSupport_def hasCustomVariableSupport_def
      hasDatasourceVariableSupport_def split: variableSupportType.splits)

text \<open>
  At most one runner can run the queries of a data source, so the order they are tried in does not
  matter, and the one that is chosen always makes a target, unless a query of the data source's own is missing.
\<close>

theorem runner_unique:
  "(getRunnerForDatasource ds = Some r \<longleftrightarrow> canRun r ds) \<and>
   (getTarget r ds query = None \<longleftrightarrow> \<not> canRun r ds \<or> (r = Datasource \<and> query \<in> {JUndef, JNull}))"
proof
  show "getRunnerForDatasource ds = Some r \<longleftrightarrow> canRun r ds"
  proof
    assume "getRunnerForDatasource ds = Some r"
    then show "canRun r ds" by (auto simp: getRunnerForDatasource_def find_Some_iff)
  next
    assume r: "canRun r ds"
    have "r \<in> set runners" by (cases r) (simp_all add: runners_def)
    with r have "getRunnerForDatasource ds \<noteq> None" by (auto simp: getRunnerForDatasource_def find_None_iff)
    then obtain r' where r': "getRunnerForDatasource ds = Some r'" by blast
    then have "canRun r' ds" by (auto simp: getRunnerForDatasource_def find_Some_iff)
    then show "getRunnerForDatasource ds = Some r" using canRun_unique [OF r] r' by simp
  qed
  show "getTarget r ds query = None \<longleftrightarrow> \<not> canRun r ds \<or> (r = Datasource \<and> query \<in> {JUndef, JNull})"
    by (cases r)
      (auto simp: getTarget_def canRun_def hasStandardVariableSupport_def Let_def Option.is_none_def split: option.splits)
qed

end
