(* ===== verification/TemplateProps.thy ===== *)
theory TemplateProps
  imports TemplateSrv
begin

text \<open>
  The interpolation of variables: unknown references stay, the three ways to write a reference agree,
  the recursion through custom values of \<open>All\<close> ends if they are not circular, and a variable that
  names itself there never returns.
\<close>

subsection \<open>The parts of a text\<close>

definition partText :: "textPart \<Rightarrow> jsstr" where
  "partText p = (case p of Plain c \<Rightarrow> [c] | Ref m \<Rightarrow> vm_text m)"

lemma partText_simps [simp]: "partText (Plain c) = [c]" "partText (Ref m) = vm_text m"
  by (simp_all add: partText_def)

lemma textParts_text: "concat (map partText (textParts s)) = s"
proof (induction s rule: textParts.induct)
  case (2 c s)
  show ?case
  proof (cases "matchVar (c # s)")
    case None
    with 2 show ?thesis by (simp add: textParts.simps(2))
  next
    case (Some p)
    obtain m r where p: "p = (m, r)" by (cases p)
    have "textParts (c # s) = Ref m # textParts r" using Some p by (simp add: textParts.simps(2))
    moreover have "concat (map partText (textParts r)) = r" using 2 Some p by blast
    ultimately show ?thesis using matchVar_split [of "c # s" m r] Some p by simp
  qed
qed simp

lemma set_allMatches: "m \<in> set (allMatches s) \<longleftrightarrow> Ref m \<in> set (textParts s)"
proof -
  have "(case p of Ref m \<Rightarrow> Some m | Plain _ \<Rightarrow> None) = Some m \<longleftrightarrow> p = Ref m" for p
    by (cases p) auto
  then show ?thesis by (auto simp: allMatches_def set_map_filter)
qed

lemma replacePart_simps [simp]:
  "replacePart again env srv scopedVars format (Plain c) = Inr [c]"
  "replacePart again env srv scopedVars format (Ref r) = replaceRef again env srv scopedVars format r"
  by (simp_all add: replacePart_def)

lemma joinResults_Inr: "joinResults (map (\<lambda>p. Inr (g p)) ps) = Inr (concat (map g ps))"
  by (induction ps) simp_all

lemma joinResults_cong: "(\<And>p. p \<in> set ps \<Longrightarrow> g p = h p) \<Longrightarrow> joinResults (map g ps) = joinResults (map h ps)"
  by (simp cong: map_cong)

lemma joinResults_Inl: "joinResults rs = Inl e \<Longrightarrow> Inl e \<in> set rs"
  by (induction rs) (auto split: sum.splits)

text \<open>A reference that neither the service nor the scoped values know.\<close>

definition unknownRef :: "templateEnv \<Rightarrow> templateSrv \<Rightarrow> jsobj option \<Rightarrow> varMatch \<Rightarrow> bool" where
  "unknownRef env srv scopedVars r \<longleftrightarrow>
     getVariableAtIndex env srv (refName r) = None \<and>
     (case scopedVars of None \<Rightarrow> True | Some sv \<Rightarrow> \<not> isTruthy (field sv (refName r)))"

lemma replaceRef_unknown: "unknownRef env srv scopedVars r \<Longrightarrow> replaceRef again env srv scopedVars format r = Inr (vm_text r)"
  by (cases scopedVars) (simp_all add: unknownRef_def replaceRef_def Let_def getVariableValue_def nullish_def isTruthy_def [of JUndef])

text \<open>
  A text in which every reference is unknown is left as it is, whatever the format.
\<close>

theorem unknown_references_stay:
  assumes "\<forall>r \<in> set (allMatches s). unknownRef env srv scopedVars r"
  shows "replaceTemplate (Suc n) env srv scopedVars format s = Inr s"
proof -
  have "replacePart again env srv scopedVars format p = Inr (partText p)" if "p \<in> set (textParts s)" for again p
    using assms that by (cases p) (auto simp: set_allMatches replaceRef_unknown)
  then have "joinResults (map (replacePart again env srv scopedVars format) (textParts s)) =
      joinResults (map (\<lambda>p. Inr (partText p)) (textParts s))" for again
    by (intro joinResults_cong)
  then show ?thesis by (simp add: joinResults_Inr textParts_text)
qed

subsection \<open>The three ways to write a reference\<close>

definition isWord :: "jsstr \<Rightarrow> bool" where
  "isWord s \<longleftrightarrow> s \<noteq> [] \<and> list_all isWordChar s"

lemma word_chars [simp]: "\<not> isWordChar 93" "\<not> isWordChar 58" "\<not> isWordChar 125" "\<not> isWordChar 46"
  "\<not> isWordChar 36" "\<not> isWordChar 91" "\<not> isWordChar 123"
  by (simp_all add: isWordChar_def isDigit_def)

lemma takeWhile_word: "list_all isWordChar n \<Longrightarrow> \<not> isWordChar c \<Longrightarrow>
    takeWhile isWordChar (n @ c # r) = n \<and> dropWhile isWordChar (n @ c # r) = c # r"
  by (simp add: list_all_iff takeWhile_append2 dropWhile_append2)

lemma takeWhile_word_all: "list_all isWordChar n \<Longrightarrow> takeWhile isWordChar n = n \<and> dropWhile isWordChar n = []"
  by (simp add: list_all_iff takeWhile_eq_all_conv dropWhile_eq_Nil_conv)

lemma takeWhile_format: "list_all isWordChar f \<Longrightarrow>
    takeWhile (\<lambda>c. c \<noteq> 125) (f @ 125 # r) = f \<and> dropWhile (\<lambda>c. c \<noteq> 125) (f @ 125 # r) = 125 # r"
  by (subst takeWhile_append2, auto simp: list_all_iff, subst dropWhile_append2, auto)

definition dollarMatch :: "jsstr \<Rightarrow> varMatch" where
  "dollarMatch n = noGroups (36 # n)\<lparr>vm_var1 := Some n\<rparr>"

definition bracketsMatch :: "jsstr \<Rightarrow> jsstr option \<Rightarrow> varMatch" where
  "bracketsMatch n f =
     noGroups ([91, 91] @ n @ (case f of None \<Rightarrow> [] | Some w \<Rightarrow> 58 # w) @ [93, 93])\<lparr>vm_var2 := Some n, vm_fmt2 := f\<rparr>"

definition bracesMatch :: "jsstr \<Rightarrow> jsstr option \<Rightarrow> varMatch" where
  "bracesMatch n f =
     noGroups ([36, 123] @ n @ (case f of None \<Rightarrow> [] | Some w \<Rightarrow> 58 # w) @ [125])\<lparr>vm_var3 := Some n, vm_fmt3 := f\<rparr>"

lemma isWord_Cons: "isWord n \<Longrightarrow> \<exists>c t. n = c # t \<and> isWordChar c"
  by (cases n) (auto simp: isWord_def)

lemma match_dollar: "isWord n \<Longrightarrow> textParts (36 # n) = [Ref (dollarMatch n)]"
  by (auto simp: textParts.simps(2) matchVar_def orMatch_def matchDollar_def isWord_def takeWhile_word_all dollarMatch_def)

lemma match_brackets:
  assumes "isWord n" and "pred_option isWord f"
  shows "textParts (vm_text (bracketsMatch n f)) = [Ref (bracketsMatch n f)]"
proof -
  have n: "n \<noteq> []" "list_all isWordChar n" using assms(1) by (simp_all add: isWord_def)
  show ?thesis
  proof (cases f)
    case None
    with n show ?thesis
      by (simp add: bracketsMatch_def noGroups_def textParts.simps(2) matchVar_def orMatch_def matchDollar_def
          matchBrackets_def startsWith_def takeWhile_word optionalGroup_def)
  next
    case (Some w)
    then have "w \<noteq> []" "list_all isWordChar w" using assms(2) by (simp_all add: isWord_def)
    with n Some show ?thesis
      by (simp add: bracketsMatch_def noGroups_def textParts.simps(2) matchVar_def orMatch_def matchDollar_def
          matchBrackets_def startsWith_def takeWhile_word optionalGroup_def)
  qed
qed

lemma match_braces:
  assumes "isWord n" and "pred_option isWord f"
  shows "textParts (vm_text (bracesMatch n f)) = [Ref (bracesMatch n f)]"
proof -
  have n: "n \<noteq> []" "list_all isWordChar n" using assms(1) by (simp_all add: isWord_def)
  show ?thesis
  proof (cases f)
    case None
    with n show ?thesis
      by (simp add: bracesMatch_def noGroups_def textParts.simps(2) matchVar_def orMatch_def matchDollar_def
          matchBrackets_def matchBraces_def startsWith_def takeWhile_word optionalGroup_def)
  next
    case (Some w)
    then have "w \<noteq> []" "list_all isWordChar w" using assms(2) by (simp_all add: isWord_def)
    with n Some show ?thesis
      by (simp add: bracesMatch_def noGroups_def textParts.simps(2) matchVar_def orMatch_def matchDollar_def
          matchBrackets_def matchBraces_def startsWith_def takeWhile_word takeWhile_format optionalGroup_def)
  qed
qed

lemma replaceTemplate_single:
  "textParts s = [Ref r] \<Longrightarrow>
   replaceTemplate (Suc n) env srv scopedVars format s =
     replaceRef (replaceTemplate n env srv None None) env srv scopedVars format r"
  by (simp split: sum.split)

lemma replaceRef_same:
  assumes "\<not> unknownRef env srv scopedVars r" and "refName r = refName r'"
    and "refFormat format r = refFormat format r'" and "vm_fieldPath r = vm_fieldPath r'"
    and "getVariableAtIndex env srv (refName r) \<noteq> None"
  shows "replaceRef again env srv scopedVars format r = replaceRef again env srv scopedVars format r'"
  using assms by (cases scopedVars) (auto simp: replaceRef_def Let_def)

text \<open>
  Claim C24. The three ways to write a reference mean the same: a known variable is replaced by the same
  text as \<open>$name\<close>, \<open>[[name]]\<close> and \<open>${name}\<close>, and by the same text as \<open>[[name:format]]\<close> and
  \<open>${name:format}\<close>.
\<close>

theorem reference_syntaxes_agree:
  assumes "isWord n" and "isWord f" and "getVariableAtIndex env srv n \<noteq> None"
  shows "replaceTemplate k env srv scopedVars format ([91, 91] @ n @ [93, 93])
      = replaceTemplate k env srv scopedVars format (36 # n)
    \<and> replaceTemplate k env srv scopedVars format ([36, 123] @ n @ [125])
      = replaceTemplate k env srv scopedVars format (36 # n)
    \<and> replaceTemplate k env srv scopedVars format ([36, 123] @ n @ [58] @ f @ [125])
      = replaceTemplate k env srv scopedVars format ([91, 91] @ n @ [58] @ f @ [93, 93])"
proof (cases k)
  case (Suc k')
  have texts: "vm_text (bracketsMatch n None) = [91, 91] @ n @ [93, 93]"
    "vm_text (bracesMatch n None) = [36, 123] @ n @ [125]"
    "vm_text (bracketsMatch n (Some f)) = [91, 91] @ n @ [58] @ f @ [93, 93]"
    "vm_text (bracesMatch n (Some f)) = [36, 123] @ n @ [58] @ f @ [125]"
    by (simp_all add: bracketsMatch_def bracesMatch_def noGroups_def)
  have known: "getVariableAtIndex env srv (refName r) \<noteq> None" "\<not> unknownRef env srv scopedVars r"
    if "refName r = n" for r
    using assms(3) that by (auto simp: unknownRef_def)
  have names: "refName (dollarMatch n) = n" "refName (bracketsMatch n g) = n" "refName (bracesMatch n g) = n" for g
    by (simp_all add: refName_def dollarMatch_def bracketsMatch_def bracesMatch_def noGroups_def)
  have rest: "refFormat format (bracketsMatch n None) = refFormat format (dollarMatch n)"
    "refFormat format (bracesMatch n g) = refFormat format (bracketsMatch n g)"
    "vm_fieldPath (bracketsMatch n g) = None" "vm_fieldPath (bracesMatch n g) = None"
    "vm_fieldPath (dollarMatch n) = None" for g
    by (cases g; simp add: refFormat_def dollarMatch_def bracketsMatch_def bracesMatch_def noGroups_def)+
  note single = replaceTemplate_single [OF match_dollar [OF assms(1)]]
    replaceTemplate_single [OF match_brackets [OF assms(1), of None, simplified], unfolded texts]
    replaceTemplate_single [OF match_braces [OF assms(1), of None, simplified], unfolded texts]
    replaceTemplate_single [OF match_brackets [OF assms(1), of "Some f", simplified, OF assms(2)], unfolded texts]
    replaceTemplate_single [OF match_braces [OF assms(1), of "Some f", simplified, OF assms(2)], unfolded texts]
  show ?thesis
    unfolding Suc single by (intro conjI replaceRef_same known) (simp_all add: names rest)
qed simp

subsection \<open>Custom values of \<open>All\<close>\<close>

text \<open>The text that takes the place of a reference whose variable has all its values selected.\<close>

definition allText :: "templateEnv \<Rightarrow> templateSrv \<Rightarrow> varMatch \<Rightarrow> jsstr option" where
  "allText env srv r =
     (case getVariableAtIndex env srv (refName r) of
        None \<Rightarrow> None
      | Some m \<Rightarrow> (case field m (js ''allValue'') of JStr s \<Rightarrow> Some s | _ \<Rightarrow> None))"

lemma replaceVariable_cong:
  assumes "\<And>s. field m (js ''allValue'') = JStr s \<Longrightarrow> again s = again' s"
  shows "replaceVariable again env srv fmt path m = replaceVariable again' env srv fmt path m"
proof -
  have "(case field m (js ''allValue'') of JStr s \<Rightarrow> again s | _ \<Rightarrow> Inl ReplaceThrew) =
      (case field m (js ''allValue'') of JStr s \<Rightarrow> again' s | _ \<Rightarrow> Inl ReplaceThrew)"
    using assms by (cases "field m (js ''allValue'')") simp_all
  then show ?thesis unfolding replaceVariable_def Let_def by (simp only:)
qed

lemma replaceRef_cong:
  assumes "\<And>s. allText env srv r = Some s \<Longrightarrow> again s = again' s"
  shows "replaceRef again env srv scopedVars format r = replaceRef again' env srv scopedVars format r"
proof (cases "getVariableAtIndex env srv (refName r)")
  case None
  then show ?thesis by (simp add: replaceRef_def Let_def)
next
  case (Some m)
  have "replaceVariable again env srv fmt path m = replaceVariable again' env srv fmt path m" for fmt path
    using assms Some by (intro replaceVariable_cong) (simp add: allText_def)
  with Some show ?thesis by (simp add: replaceRef_def Let_def)
qed

lemma toResult_not_fuel [simp]: "toResult r \<noteq> Inl ReplaceFuel"
  by (simp add: toResult_def split: option.split)

lemma replaceVariable_fuel:
  "replaceVariable again env srv fmt path m = Inl ReplaceFuel \<Longrightarrow>
   \<exists>s. field m (js ''allValue'') = JStr s \<and> again s = Inl ReplaceFuel"
  by (auto simp: replaceVariable_def Let_def split: if_splits option.splits jsval.splits)

lemma replaceRef_fuel:
  "replaceRef again env srv scopedVars format r = Inl ReplaceFuel \<Longrightarrow>
   \<exists>s. allText env srv r = Some s \<and> again s = Inl ReplaceFuel"
  by (auto simp: replaceRef_def Let_def allText_def dest!: replaceVariable_fuel split: if_splits option.splits)

text \<open>The custom values refer to variables of a lower rank only.\<close>

definition ranked :: "templateEnv \<Rightarrow> templateSrv \<Rightarrow> (jsstr \<Rightarrow> nat) \<Rightarrow> bool" where
  "ranked env srv rank \<longleftrightarrow>
     (\<forall>r s. allText env srv r = Some s \<longrightarrow> (\<forall>r' \<in> set (allMatches s). rank (refName r') < rank (refName r)))"

lemma ranked_fuel:
  assumes "ranked env srv rank" and "\<forall>r \<in> set (allMatches s). rank (refName r) < d" and "d \<le> n"
  shows "replaceTemplate (Suc n) env srv scopedVars format s = replaceTemplate (Suc d) env srv scopedVars format s \<and>
    replaceTemplate (Suc d) env srv scopedVars format s \<noteq> Inl ReplaceFuel"
  using assms(2,3)
proof (induction d arbitrary: s n scopedVars format)
  case 0
  have "\<nexists>r. Ref r \<in> set (textParts s)" using "0.prems"(1) by (auto simp: set_allMatches)
  then have "replacePart again env srv scopedVars format p = Inr (partText p)" if "p \<in> set (textParts s)" for again p
    using that by (cases p) auto
  then have "joinResults (map (replacePart again env srv scopedVars format) (textParts s)) =
      joinResults (map (\<lambda>p. Inr (partText p)) (textParts s))" for again
    by (intro joinResults_cong)
  then show ?case by (simp add: joinResults_Inr)
next
  case (Suc d)
  obtain n' where n: "n = Suc n'" "d \<le> n'" using Suc.prems(2) by (cases n) auto
  have again: "replaceTemplate n env srv None None t = replaceTemplate (Suc d) env srv None None t \<and>
      replaceTemplate (Suc d) env srv None None t \<noteq> Inl ReplaceFuel"
    if "Ref r \<in> set (textParts s)" "allText env srv r = Some t" for r t
  proof -
    have "rank (refName r') < d" if "r' \<in> set (allMatches t)" for r'
    proof -
      have "rank (refName r') < rank (refName r)"
        using assms(1) \<open>allText env srv r = Some t\<close> that unfolding ranked_def by blast
      moreover have "rank (refName r) < Suc d" using Suc.prems(1) \<open>Ref r \<in> _\<close> by (simp add: set_allMatches)
      ultimately show ?thesis by simp
    qed
    then show ?thesis unfolding n using Suc.IH [of t n'] n(2) by blast
  qed
  have "replacePart (replaceTemplate n env srv None None) env srv scopedVars format p =
      replacePart (replaceTemplate (Suc d) env srv None None) env srv scopedVars format p"
    if "p \<in> set (textParts s)" for p
  proof (cases p)
    case (Ref r)
    with again that show ?thesis unfolding Ref replacePart_simps by (intro replaceRef_cong) blast
  qed simp
  note same = joinResults_cong [OF this]
  have "replacePart (replaceTemplate (Suc d) env srv None None) env srv scopedVars format p \<noteq> Inl ReplaceFuel"
    if "p \<in> set (textParts s)" for p
  proof (cases p)
    case (Ref r)
    with again that show ?thesis unfolding Ref replacePart_simps using replaceRef_fuel by blast
  qed simp
  then have "joinResults (map (replacePart (replaceTemplate (Suc d) env srv None None) env srv scopedVars format)
      (textParts s)) \<noteq> Inl ReplaceFuel"
    by (fastforce dest: joinResults_Inl)
  with same show ?case
    by (simp only: replaceTemplate.simps(2) [of n] replaceTemplate.simps(2) [of "Suc d"] simp_thms)
qed

text \<open>
  Claim C11. The interpolation returns whenever the custom values of \<open>All\<close> refer to each other without
  a circle: fuel for the longest chain is enough, and more fuel changes nothing.
\<close>

theorem replace_returns:
  assumes "ranked env srv rank" and "\<forall>name. rank name \<le> N"
  shows "replaceTemplate (N + 2 + k) env srv scopedVars format s = replaceTemplate (N + 2) env srv scopedVars format s \<and>
    replaceTemplate (N + 2) env srv scopedVars format s \<noteq> Inl ReplaceFuel"
proof -
  have "\<forall>r \<in> set (allMatches s). rank (refName r) < Suc N" using assms(2) by (simp add: less_Suc_eq_le)
  from ranked_fuel [OF assms(1) this, of "Suc N + k"] show ?thesis by simp
qed

text \<open>
  A variable whose custom value of \<open>All\<close> is a reference to itself makes the interpolation
  call itself for ever, as long as all its values are selected: no fuel is enough.
\<close>

theorem self_reference_never_returns:
  assumes "isWord n" and "getVariableAtIndex env srv n = Some m" and "\<not> isAdHoc m"
    and "currentProp (js ''value'') m = Some (JStr ALL_VARIABLE_VALUE)"
    and "field m (js ''allValue'') = JStr (36 # n)" and "ts_grafanaVariables srv = []"
  shows "replaceTemplate k env srv None None (36 # n) = Inl ReplaceFuel"
proof (induction k)
  case (Suc k)
  have label: "\<exists>t. currentProp (js ''text'') m = Some t"
    using assms(4) by (auto simp: currentProp_def split: jsval.splits)
  have r: "refName (dollarMatch n) = n" "refFormat None (dollarMatch n) = None" "vm_fieldPath (dollarMatch n) = None"
    by (simp_all add: refName_def refFormat_def dollarMatch_def noGroups_def)
  have "replaceVariable again env srv None None m = again (36 # n)" for again
    using assms label
    by (auto simp: replaceVariable_def isQueryParam_def Let_def field_def isTruthy_def isAllValue_def objGet_def)
  then have "replaceRef again env srv None None (dollarMatch n) = again (36 # n)" for again
    using assms(2) by (simp add: replaceRef_def Let_def r getVariableValue_def isTruthy_def nullish_def)
  then show ?case
    using Suc by (simp only: replaceTemplate_single [OF match_dollar [OF assms(1)]])
qed simp

subsection \<open>Examples\<close>

definition demoTemplateEnv :: templateEnv where
  "demoTemplateEnv =
     \<lparr>te_getVariableWithName = (\<lambda>_. None), te_property = (\<lambda>_ v. v), te_formatDate = (\<lambda>_ _. []),
      te_getInstanceSettings = (\<lambda>_. None), te_adHocVariables = []\<rparr>"

definition customVar :: "string \<Rightarrow> string \<Rightarrow> string \<Rightarrow> jsobj" where
  "customVar name value allValue =
     [(js ''name'', JStr (js name)), (js ''type'', JStr (js ''custom'')), (js ''allValue'', JStr (js allValue)),
      (js ''current'', JObj [(js ''value'', JStr (js value)), (js ''text'', JStr (js value))])]"

definition demoSrv :: templateSrv where
  "demoSrv = newTemplateSrv\<lparr>ts_index :=
     [(js ''host'', customVar ''host'' ''web1'' ''''), (js ''all'', customVar ''all'' ''$__all'' ''$host''),
      (js ''self'', customVar ''self'' ''$__all'' ''$self'')]\<rparr>"

definition withoutSelf :: templateSrv where
  "withoutSelf = demoSrv\<lparr>ts_index := take 2 (ts_index demoSrv)\<rparr>"

lemma unknown_references_stay_witness:
  "replaceTemplate 1 demoTemplateEnv demoSrv None None (js ''a $b and [[c:csv]]'') = Inr (js ''a $b and [[c:csv]]'')"
proof -
  have "list_all (unknownRef demoTemplateEnv demoSrv None) (allMatches (js ''a $b and [[c:csv]]''))" by code_simp
  then have "\<forall>r \<in> set (allMatches (js ''a $b and [[c:csv]]'')). unknownRef demoTemplateEnv demoSrv None r"
    by (simp add: list_all_iff)
  from unknown_references_stay [OF this, of 0] show ?thesis by simp
qed

lemma reference_syntaxes_agree_witness:
  "replaceTemplate 1 demoTemplateEnv demoSrv None None (js ''[[host]]'') =
     replaceTemplate 1 demoTemplateEnv demoSrv None None (js ''$host'') \<and>
   replaceTemplate 1 demoTemplateEnv demoSrv None None (js ''${host:csv}'') =
     replaceTemplate 1 demoTemplateEnv demoSrv None None (js ''[[host:csv]]'')"
proof -
  have "isWord (js ''host'')" "isWord (js ''csv'')" by code_simp+
  moreover have "getVariableAtIndex demoTemplateEnv demoSrv (js ''host'') \<noteq> None"
    by (simp add: getVariableAtIndex_def demoSrv_def objGet_def)
  ultimately show ?thesis
    using reference_syntaxes_agree [of "js ''host''" "js ''csv''" demoTemplateEnv demoSrv 1 None None]
    by (simp add: js_def del: replaceTemplate.simps)
qed

lemma replace_returns_witness:
  "replaceTemplate 7 demoTemplateEnv withoutSelf None None (js ''$all'') =
     replaceTemplate 3 demoTemplateEnv withoutSelf None None (js ''$all'')"
proof -
  let ?rank = "\<lambda>name. if name = js ''all'' then 1 else 0 :: nat"
  have "map refName (allMatches (js ''$host'')) = [js ''host'']" "map refName (allMatches []) = []" by code_simp+
  then have names: "r \<in> set (allMatches (js ''$host'')) \<Longrightarrow> refName r = js ''host''" "allMatches [] = []" for r
    by auto
  have "s = [] \<or> s = js ''$host'' \<and> refName r = js ''all''"
    if "allText demoTemplateEnv withoutSelf r = Some s" for r s
    using that
    by (auto simp: allText_def getVariableAtIndex_def withoutSelf_def demoSrv_def newTemplateSrv_def demoTemplateEnv_def
        customVar_def objGet_def field_def js_def split: if_splits)
  then have "ranked demoTemplateEnv withoutSelf ?rank"
    unfolding ranked_def using names by fastforce
  from replace_returns [OF this, of 1 4 None None "js ''$all''"] show ?thesis
    by (simp add: numeral_3_eq_3 del: replaceTemplate.simps)
qed

lemma self_reference_never_returns_witness:
  "replaceTemplate 100 demoTemplateEnv demoSrv None None (js ''$self'') = Inl ReplaceFuel"
proof -
  let ?m = "customVar ''self'' ''$__all'' ''$self''"
  have "isWord (js ''self'')" by code_simp
  moreover have "getVariableAtIndex demoTemplateEnv demoSrv (js ''self'') = Some ?m"
    by (simp add: getVariableAtIndex_def demoSrv_def newTemplateSrv_def objGet_def)
  moreover have "\<not> isAdHoc ?m" "currentProp (js ''value'') ?m = Some (JStr ALL_VARIABLE_VALUE)"
    "field ?m (js ''allValue'') = JStr (36 # js ''self'')" "ts_grafanaVariables demoSrv = []"
    by (simp_all add: customVar_def isAdHoc_def typeOf_def field_def objGet_def currentProp_def valField_def
        ALL_VARIABLE_VALUE_def js_def demoSrv_def newTemplateSrv_def)
  ultimately have "replaceTemplate 100 demoTemplateEnv demoSrv None None (36 # js ''self'') = Inl ReplaceFuel"
    by (rule self_reference_never_returns)
  then show ?thesis by (simp add: js_def)
qed

end
