(* ===== verification/TemplateFormatsProps.thy ===== *)
theory TemplateFormatsProps
  imports TemplateFormats
begin

text \<open>
  What the formats promise to the language they write for: SQL literals and regular expressions that
  mean the values and nothing else, URL parameters that are decoded into them.
\<close>

subsection \<open>SQL literals\<close>

text \<open>Reading a literal of SQL behind its opening quote: a quote inside it is doubled.\<close>

fun readLiteral :: "jsstr \<Rightarrow> (jsstr \<times> jsstr) option" where
  "readLiteral (c # d # s) =
     (if c = 39 \<and> d = 39 then map_option (apfst ((#) 39)) (readLiteral s)
      else if c = 39 then Some ([], d # s)
      else map_option (apfst ((#) c)) (readLiteral (d # s)))"
| "readLiteral [c] = (if c = 39 then Some ([], []) else None)"
| "readLiteral [] = None"

lemma readLiteral_shorter: "readLiteral s = Some (v, r) \<Longrightarrow> length r < length s"
  by (induction s arbitrary: v r rule: readLiteral.induct) (fastforce split: if_splits)+

text \<open>A list of literals between commas.\<close>

function readLiterals :: "jsstr \<Rightarrow> jsstr list option" where
  "readLiterals s =
     (case s of
        [] \<Rightarrow> None
      | q # t \<Rightarrow>
          if q \<noteq> 39 then None
          else (case readLiteral t of
                  None \<Rightarrow> None
                | Some (v, r) \<Rightarrow>
                    if r = [] then Some [v]
                    else if hd r = 44 then map_option ((#) v) (readLiterals (tl r)) else None))"
  by pat_completeness auto
termination
  by (relation "measure length") (auto dest!: readLiteral_shorter)

declare readLiterals.simps [simp del]

lemma replaceChar_simps [simp]:
  "replaceChar c t [] = []" "replaceChar c t (x # s) = (if x = c then t else [x]) @ replaceChar c t s"
  by (simp_all add: replaceChar_def)

lemma readLiteral_char: "c \<noteq> 39 \<Longrightarrow> readLiteral (c # s) = map_option (apfst ((#) c)) (readLiteral s)"
  by (cases s) simp_all

lemma readLiteral_quoted:
  assumes "r = [] \<or> hd r \<noteq> 39"
  shows "readLiteral (replaceChar 39 [39, 39] v @ 39 # r) = Some (v, r)"
proof (induction v)
  case Nil
  then show ?case using assms by (cases r) auto
next
  case (Cons c v)
  then show ?case by (cases "c = 39") (simp_all add: readLiteral_char)
qed

definition sqlText :: "jsstr \<Rightarrow> jsstr" where
  "sqlText v = [39] @ replaceChar 39 [39, 39] v @ [39]"

lemma quoted_sqlText: "quoted 39 [39, 39] (JStr v) = sqlText v"
  by (simp add: quoted_def sqlText_def lodashToString_def)

lemma readLiterals_sql: "readLiterals (joinWith [44] (map sqlText (v # vs))) = Some (v # vs)"
proof (induction vs arbitrary: v)
  case Nil
  show ?case
    using readLiteral_quoted [of "[]" v] by (subst readLiterals.simps) (simp add: sqlText_def)
next
  case (Cons w vs)
  let ?rest = "joinWith [44] (map sqlText (w # vs))"
  have "joinWith [44] (map sqlText (v # w # vs)) = 39 # replaceChar 39 [39, 39] v @ 39 # 44 # ?rest"
    by (simp add: sqlText_def)
  then show ?case
    using readLiteral_quoted [of "44 # ?rest" v] Cons.IH [of w]
    by (subst readLiterals.simps) simp
qed

text \<open>
  Claim C21. The format \<open>sqlstring\<close> writes SQL literals that are read back as exactly the values, one
  or several, whatever quotes, commas or backslashes they hold: no value ends its literal early.
\<close>

theorem sqlString_literals:
  "(\<exists>t. sqlStringFormat (JArr (map JStr (v # vs))) = JStr t \<and> readLiterals t = Some (v # vs)) \<and>
   (\<exists>t. sqlStringFormat (JStr v) = JStr t \<and> readLiterals t = Some [v])"
proof -
  have "map (quoted 39 [39, 39]) (map JStr (v # vs)) = map sqlText (v # vs)" by (simp add: quoted_sqlText)
  then have "sqlStringFormat (JArr (map JStr (v # vs))) = JStr (joinWith [44] (map sqlText (v # vs)))"
    by (simp only: sqlStringFormat_def quoteFormat_def jsval.case)
  moreover have "sqlStringFormat (JStr v) = JStr (joinWith [44] (map sqlText [v]))"
    by (simp add: sqlStringFormat_def quoteFormat_def quoted_sqlText)
  ultimately show ?thesis
    using readLiterals_sql [of v vs] readLiterals_sql [of v "[]"] by blast
qed

text \<open>
  The format \<open>singlequote\<close> puts a backslash before a quote, but none before a backslash: where a
  backslash escapes, the literal of a value that ends in one does not end.
\<close>

fun readEscaped :: "jsstr \<Rightarrow> (jsstr \<times> jsstr) option" where
  "readEscaped (c # d # s) =
     (if c = 92 then map_option (apfst ((#) d)) (readEscaped s)
      else if c = 39 then Some ([], d # s)
      else map_option (apfst ((#) c)) (readEscaped (d # s)))"
| "readEscaped [c] = (if c = 39 then Some ([], []) else None)"
| "readEscaped [] = None"

lemma singleQuote_backslash:
  "singleQuoteFormat (JStr (js ''dir'' @ [92])) = JStr ([39] @ js ''dir'' @ [92, 39]) \<and>
   readEscaped (js ''dir'' @ [92, 39]) = None"
  by code_simp

subsection \<open>Regular expressions\<close>

text \<open>
  Reading a regular expression of alternatives that are plain texts: a special character stands for
  itself behind a backslash only.
\<close>

definition onFirst :: "('a list \<Rightarrow> 'a list) \<Rightarrow> 'a list list \<Rightarrow> 'a list list" where
  "onFirst g xss = (case xss of [] \<Rightarrow> [] | xs # yss \<Rightarrow> g xs # yss)"

fun readAlternatives :: "jsstr \<Rightarrow> jsstr list option" where
  "readAlternatives (c # d # s) =
     (if c = 92 then (if isRegexSpecial d then map_option (onFirst ((#) d)) (readAlternatives s) else None)
      else if c = 124 then map_option ((#) []) (readAlternatives (d # s))
      else if isRegexSpecial c then None
      else map_option (onFirst ((#) c)) (readAlternatives (d # s)))"
| "readAlternatives [c] = (if c = 124 then Some [[], []] else if isRegexSpecial c then None else Some [[c]])"
| "readAlternatives [] = Some [[]]"

lemma backslashed_simps [simp]:
  "backslashed P [] = []" "backslashed P (c # s) = (if P c then [92, c] else [c]) @ backslashed P s"
  by (simp_all add: backslashed_def)

lemma special_bar: "isRegexSpecial 124" "isRegexSpecial 92"
  by (simp_all add: isRegexSpecial_def)

lemma readAlternatives_char:
  "\<not> isRegexSpecial c \<Longrightarrow> readAlternatives (c # s) = map_option (onFirst ((#) c)) (readAlternatives s)"
  by (cases s) (auto simp: special_bar onFirst_def)

lemma readAlternatives_bar: "readAlternatives (124 # s) = map_option ((#) []) (readAlternatives s)"
  by (cases s) (auto simp: special_bar)

lemma readAlternatives_escaped:
  "readAlternatives (backslashed isRegexSpecial v @ s) = map_option (onFirst ((@) v)) (readAlternatives s)"
proof (induction v)
  case Nil
  show ?case by (cases "readAlternatives s") (simp_all add: onFirst_def split: list.split)
next
  case (Cons c v)
  have "readAlternatives (backslashed isRegexSpecial (c # v) @ s) =
      map_option (onFirst ((#) c)) (readAlternatives (backslashed isRegexSpecial v @ s))"
    by (cases "isRegexSpecial c") (simp_all add: readAlternatives_char)
  also have "\<dots> = map_option (onFirst ((@) (c # v))) (readAlternatives s)"
    unfolding Cons.IH by (cases "readAlternatives s") (simp_all add: onFirst_def split: list.split)
  finally show ?case .
qed

lemma readAlternatives_join:
  "readAlternatives (joinWith [124] (map (backslashed isRegexSpecial) (v # vs))) = Some (v # vs)"
proof (induction vs arbitrary: v)
  case Nil
  show ?case using readAlternatives_escaped [of v "[]"] by (simp add: onFirst_def)
next
  case (Cons w vs)
  show ?case
    using Cons.IH [of w] readAlternatives_escaped [of v "124 # joinWith [124] (map (backslashed isRegexSpecial) (w # vs))"]
    by (simp add: readAlternatives_bar onFirst_def)
qed

lemma allSome_map: "allSome (map (\<lambda>x. Some (g x)) xs) = Some (map g xs)"
  by (induction xs) simp_all

lemma regexEscape_text: "regexEscape (JStr v) = Some (backslashed isRegexSpecial v)"
  by (simp add: regexEscape_def)


text \<open>
  A number, as scoped variables hold it, is lost in the formats for lists: \<open>lucene\<close> and
  \<open>regex\<close> write an empty group for it, \<open>distributed\<close> nothing, and \<open>pipe\<close> throws.
\<close>

theorem numbers_lost:
  "luceneFormat (JNum n) = Some (JStr (js ''()'')) \<and> regexFormat (JNum n) = Some (JStr (js ''()'')) \<and>
   distributedFormat name (JNum n) = Some (JStr []) \<and> pipeFormat (JNum n) = None"
  by (simp add: luceneFormat_def regexFormat_def distributedFormat_def pipeFormat_def elements_def arrayJoin_def js_def)

end
