(* ===== verification/Spec2Isabelle.thy ===== *)
theory Spec2Isabelle
  imports GfuncProps PrintParse GraphiteRoundTrip GraphiteRefs ProvidersProps VectorProps DagProps OptionsPickerProps VariablesProps AdHocFiltersProps VariableOptionsProps VariableGraphProps VariableActionsProps IntervalsProps ProcessingProps LabelsProps QueryResultsProps QueryRunners TemplateProps TemplateFormatsProps
begin

text \<open>
  Queries and dashboard variables of Grafana: a model of two parts of its TypeScript frontend, as it stands
  in \<open>src/grafana\<close>, and of the libraries of the repository they use. Paths below are relative to
  \<open>src/grafana/public/app\<close>; \<open>data/\<close> stands for \<open>src/grafana/packages/grafana-data/src/\<close>.

  \<^bold>\<open>The parts and how they interact.\<close> A panel asks the Graphite data source with a text such as
  \<open>alias(sumSeries(app.$server.cpu, #A), 'x')\<close>. The query editor takes the text apart (lexer, parser, query
  model), shows it as segments and functions, changes them (reducer and suggestions) and renders the
  text again. A dashboard has variables, kept in a store per dashboard. Before a query is sent, the
  template service replaces the references in its text by the values of the variables, in one of
  sixteen formats. When a variable changes, a graph of the variables decides which are updated and
  which panels run again.

  \<^bold>\<open>The language.\<close> \<open>JsPrelude\<close> has strings as lists of UTF-16 code units and the functions of JavaScript and
  lodash on them; \<open>JsNumber\<close> the reading and writing of numbers, as decimal fractions; \<open>JsObject\<close>
  objects as lists of keys and values in the order of insertion, with the order of integer-like keys in
  \<open>objectEntries\<close>, and \<open>jsval\<close> for values whose shape the source leaves open; \<open>Json\<close> the text of values.
  A \<open>null\<close> or \<open>undefined\<close> of the source is \<open>None\<close>, or \<open>JNull\<close> and \<open>JUndef\<close> where the code tells them apart; what
  throws is \<open>None\<close> or the left side of a sum.

  \<^bold>\<open>The Graphite query engine\<close> (\<open>plugins/datasource/graphite\<close>).
  \<^item> \<open>GfuncTypes\<close>, \<open>GfuncTable\<close>, \<open>Gfunc\<close>: \<open>gfunc.ts\<close>, the 104 functions as data, the registry, the instances and
    their rendering; \<open>Version\<close>: \<open>core/utils/version.ts\<close>. \<open>GfuncProps\<close>: a lookup finds the last definition
    registered under a name; a newer server loses no function.
  \<^item> \<open>UnicodeLetters\<close>, \<open>Lexer\<close>: \<open>lexer.ts\<close>. Every loop is structural or has a measure. \<open>LexerProps\<close>: the tokens
    of any expression spell it; \<open>LexPieces\<close> how rendered text is read.
  \<^item> \<open>Parser\<close>: \<open>parser.ts\<close>, the class as the record \<open>parser\<close>. Calls and their parameters are mutually
    recursive and take fuel, \<open>parserFuel\<close>: twice the tokens left plus two, because each call of either
    consumes a token or hands over to the other. \<open>ParserProps\<close> proves that this is enough for every
    expression and that more changes nothing. \<open>PrintParse\<close>: parsing inverts printing.
  \<^item> \<open>GraphiteQuery\<close>: the class of \<open>graphite_query.ts\<close> as the record \<open>graphiteQuery\<close>. \<open>GraphiteQueryProps\<close>:
    loading any text ends in a state. \<open>GraphiteRoundTrip\<close>: the editor reads what it renders; the
    chain from \<open>renderFunctions\<close> through lexer and parser to \<open>parseTargetRecursive\<close>. \<open>GraphiteRefs\<close>:
    references to other queries.
  \<^item> \<open>GraphiteStore\<close>: \<open>state/store.ts\<close> and \<open>state/helpers.ts\<close>, one constructor of \<open>action\<close> per action creator.
    \<open>GraphiteStoreProps\<close>: the reducer returns and keeps the segments in sync with the model.
  \<^item> \<open>Providers\<close>: \<open>state/providers.ts\<close> and \<open>components/helpers.ts\<close>. \<open>ProvidersProps\<close>: whole sessions.

  \<^bold>\<open>Dashboard variables\<close> (\<open>features/variables\<close>). A variable is a JavaScript object, \<open>jsobj\<close>.
  \<^item> \<open>Variables\<close>: \<open>state/sharedReducer.ts\<close>; \<open>VariableAdapters\<close>: the types of variables, their initial states and
    reducers; \<open>VariableOptions\<close>: the options each type makes of its query; \<open>AdHocFilters\<close>: filters and their
    form in the URL; \<open>OptionsPicker\<close>: the drop-down. Their \<open>Props\<close> theories: indices are positions, filters
    and custom options survive a round trip, what is marked as selected is selected.
  \<^item> \<open>TemplatingStore\<close>: the reducers of \<open>state/\<close> and \<open>editor/\<close> put together, and the selectors.
    \<open>TemplatingStoreProps\<close>: the locale \<open>slice\<close>, a part of the state with an invariant, interpreted for
    the editor, the variables and the whole store; dashboards do not touch each other.
  \<^item> \<open>TemplatingActions\<close>: actions as sequences of dispatches: renaming, creating, changing a query,
    filters from a table, loading and clearing a dashboard. \<open>TemplatingActionsProps\<close>, \<open>LoadingProps\<close>: what
    they make of the store.
  \<^item> \<open>Processing\<close>: how the variables of a dashboard are brought up to date all at once
    (\<open>processVariables\<close> of \<open>state/actions.ts\<close> and the adapters it calls). The state is the store with one
    \<open>phase\<close> for the promise of each variable; \<open>loadingStep\<close> lets any promise run that can, or brings any
    answer or failure. \<open>ProcessingProps\<close>: the invariant \<open>loadingOk\<close> of all reachable states; a variable waits
    for those it depends on; every run ends after at most two steps for each variable, with each
    variable loaded, failed or refused for a circle; the whole of opening a dashboard.
  \<^item> \<open>Intervals\<close>: the widths of intervals (\<open>data/datetime/rangeutil.ts\<close>) and the value \<open>auto\<close> of interval
    variables. \<open>IntervalsProps\<close>: what is written is read back, rounded down to its largest unit.
  \<^item> \<open>QueryRunners\<close>, \<open>QueryResults\<close>: which runner runs the query of a variable (\<open>query/queryRunners.ts\<close>) and what
    the rows of the answer become (\<open>query/operators.ts\<close>), with the names and types of the fields of data
    frames, \<open>DataFields\<close> (\<open>data/field/fieldState.ts\<close>, \<open>data/dataframe/processDataFrame.ts\<close>), and their labels,
    \<open>Labels\<close> (\<open>data/utils/labels.ts\<close>). Their \<open>Props\<close> theories: one value for each row, from the fields shown
    as text and value; equal names are numbered; selectors are read back as the labels they were written from.
  \<^item> \<open>VariableActions\<close>: which option a value of the URL selects, and which changes of the URL update
    variables. \<open>VariableActionsProps\<close>: what is written to the URL selects the same again.
  \<^item> \<open>Dag\<close>: \<open>core/utils/dag.ts\<close>, nodes and edges in a store with identities; \<open>VariableGraph\<close>: the graph of
    the variables, circular dependencies, affected panels, usages (\<open>inspect/utils.ts\<close>). \<open>DagProps\<close>,
    \<open>VariableGraphProps\<close>: \<open>descendants\<close> is reachability, on cyclic graphs too; the panels that run again are
    those that use a variable that depends on the changed one.

  \<^bold>\<open>Interpolation\<close> (\<open>features/templating\<close>). \<open>VariableRegex\<close>: the pattern of references as a scanner;
  \<open>TemplateSrv\<close>: \<open>template_srv.ts\<close>. \<open>replaceTemplate\<close> calls itself on the custom value of \<open>All\<close>; the model takes
  fuel and is \<open>ReplaceFuel\<close> without. \<open>TemplateProps\<close>: if the custom values refer to each other in chains of
  at most \<open>N\<close>, the fuel \<open>N + 2\<close> is enough and more changes nothing; a variable that refers to itself
  exhausts any fuel, as the code does not return. \<open>TemplateFormats\<close>:
  \<open>formatRegistry.ts\<close>; \<open>TemplateFormatsProps\<close>: what is written for SQL and for regular expressions means
  the values and nothing else.

  \<^bold>\<open>Vectors\<close> (\<open>data/vector\<close>). \<open>Vectors\<close>, \<open>CircularVector\<close>: the locale \<open>vector\<close> is the interface \<open>Vector\<close>,
  interpreted for arrays, for the vectors that are only a view of others and for the circular one. \<open>VectorProps\<close>: they implement lists.

  \<^bold>\<open>Arguments of the model.\<close> Lower case (\<open>toLower\<close>), the construction of a regular expression from its text
  (\<open>newRegExp\<close>), dates, the paths of lodash, the answers of data sources (\<open>getInstanceSettings\<close>, the
  suggestions, \<open>answer\<close> of a query for a variable) and the text of error messages of the engine.

  \<^bold>\<open>Not modelled.\<close> Promises outside the loading of a dashboard: any other action is modelled up to its
  last write before it waits, and an answer is an argument. Leaving a dashboard while it is loaded is an
  action of the store but no step of the loading. The streams that run the query of a variable. React components and views, HTTP, the Angular
  services, notifications. Properties inherited from \<open>Object.prototype\<close>. Rounding of numbers beyond what a
  double represents. The rest of Grafana: dashboards and panels, alerting, explore, other data
  sources, transformations, the server in Go; and the rest of the repository, which is configuration
  of clusters and charts.
\<close>

end
